(* ===== verification/Prelude.thy ===== *)
theory Prelude
  imports Main "HOL-Library.Word" "HOL-Library.State_Monad" "HOL-Library.Sublist"
begin

unbundle bit_operations_syntax

text \<open>
  Shared ground of the development: the C integer types as machine words, little-endian
  encoding of 32-bit values in byte buffers, C strings, a state monad with the two
  accessors the models use, Hoare triples for it, and the environment record that every
  daemon's state extends.

  A C \<open>int\<close> and a C \<open>unsigned int\<close> are both a \<open>32 word\<close>: the same bit pattern, read with
  \<open>sint\<close> (or compared with \<open><s\<close>) where the C type is signed and with \<open>unat\<close> (or \<open><\<close>) where
  it is unsigned. Strings are \<open>string\<close> without their terminating NUL.
\<close>

type_synonym u8 = "8 word"
type_synonym u16 = "16 word"
type_synonym u32 = "32 word"
type_synonym s32 = "32 word"
type_synonym u64 = "64 word"

named_theorems valid_intros "introduction rules for Hoare triples of the state monad"
named_theorems frame_intros "which operations keep a relation between the states"

section \<open>Bytes and strings\<close>

definition le32 :: "u32 \<Rightarrow> u8 list" where
  "le32 w = [ucast w, ucast (drop_bit 8 w), ucast (drop_bit 16 w), ucast (drop_bit 24 w)]"

definition byte_at :: "u8 list \<Rightarrow> nat \<Rightarrow> u8" where
  "byte_at bs i = (if i < length bs then bs ! i else 0)"

definition rd32 :: "u8 list \<Rightarrow> u32" where
  "rd32 bs = ucast (byte_at bs 0) OR push_bit 8 (ucast (byte_at bs 1))
     OR push_bit 16 (ucast (byte_at bs 2)) OR push_bit 24 (ucast (byte_at bs 3))"

definition byte_of_char :: "char \<Rightarrow> u8" where
  "byte_of_char c = of_nat (of_char c)"

definition char_of_byte :: "u8 \<Rightarrow> char" where
  "char_of_byte b = char_of (unat b)"

definition bytes :: "string \<Rightarrow> u8 list" where
  "bytes s = map byte_of_char s"

abbreviation NUL :: char where "NUL \<equiv> CHR 0x00"

definition cstr :: "string \<Rightarrow> string" where
  "cstr s = takeWhile (\<lambda>c. c \<noteq> NUL) s"

definition align4 :: "u32 \<Rightarrow> u32" where
  "align4 n = push_bit 2 (drop_bit 2 (n + 3))"

text \<open>Decimal digits, as \<open>%d\<close> prints a non-negative number.\<close>

fun dec :: "nat \<Rightarrow> string" where
  "dec n = (if n < 10 then [char_of (48 + n)] else dec (n div 10) @ [char_of (48 + n mod 10)])"

declare dec.simps [simp del]

text \<open>A byte-addressed memory region: reading and overwriting a run of bytes.\<close>

type_synonym memory = "nat \<Rightarrow> u8"

definition mread :: "memory \<Rightarrow> nat \<Rightarrow> nat \<Rightarrow> u8 list" where
  "mread m a n = map m [a..<a + n]"

definition mwrite :: "memory \<Rightarrow> nat \<Rightarrow> u8 list \<Rightarrow> memory" where
  "mwrite m a bs = (\<lambda>i. if a \<le> i \<and> i < a + length bs then bs ! (i - a) else m i)"

lemma length_le32 [simp]: "length (le32 w) = 4"
  by (simp add: le32_def)

lemma byte_at_append [simp]:
  "i < length xs \<Longrightarrow> byte_at (xs @ ys) i = byte_at xs i"
  by (simp add: byte_at_def nth_append)

lemma rd32_le32 [simp]: "rd32 (le32 w @ xs) = w"
proof -
  have "byte_at (le32 w @ xs) 0 = ucast w" "byte_at (le32 w @ xs) 1 = ucast (drop_bit 8 w)"
    "byte_at (le32 w @ xs) 2 = ucast (drop_bit 16 w)"
    "byte_at (le32 w @ xs) 3 = ucast (drop_bit 24 w)"
    by (simp_all add: byte_at_def le32_def)
  note b = this
  show ?thesis
    unfolding rd32_def b
  proof (rule bit_word_eqI)
    fix n assume n: "n < LENGTH(32)"
    then consider "n < 8" | "8 \<le> n" "n < 16" | "16 \<le> n" "n < 24" | "24 \<le> n" by linarith
    then show "bit (ucast (ucast w :: u8) OR push_bit 8 (ucast (ucast (drop_bit 8 w) :: u8))
      OR push_bit 16 (ucast (ucast (drop_bit 16 w) :: u8))
      OR push_bit 24 (ucast (ucast (drop_bit 24 w) :: u8)) :: u32) n = bit w n"
      using n by cases (auto simp: bit_simps)
  qed
qed

lemma rd32_le32' [simp]: "rd32 (le32 w) = w"
  using rd32_le32 [of w "[]"] by simp

lemma rd32_append: "4 \<le> length xs \<Longrightarrow> rd32 (xs @ ys) = rd32 xs"
  unfolding rd32_def by (subst byte_at_append; force)+

lemma rd32_take: "4 \<le> n \<Longrightarrow> rd32 (take n xs) = rd32 xs"
  by (simp add: rd32_def byte_at_def)

lemma length_mread [simp]: "length (mread m a n) = n"
  by (simp add: mread_def)

lemma mread_mwrite_same [simp]: "mread (mwrite m a bs) a (length bs) = bs"
  by (rule nth_equalityI) (simp_all add: mread_def mwrite_def)

lemma mread_mwrite_prefix: "n \<le> length bs \<Longrightarrow> mread (mwrite m a bs) a n = take n bs"
  by (rule nth_equalityI) (simp_all add: mread_def mwrite_def)

lemma mread_mwrite_disjoint:
  "a + n \<le> b \<or> b + length bs \<le> a \<Longrightarrow> mread (mwrite m b bs) a n = mread m a n"
  by (rule nth_equalityI) (auto simp: mread_def mwrite_def)

lemma mread_mwrite_inside: "k + n \<le> length bs \<Longrightarrow> mread (mwrite m a bs) (a + k) n = take n (drop k bs)"
  by (rule nth_equalityI) (simp_all add: mread_def mwrite_def)

lemma mread_append: "mread m a (n + k) = mread m a n @ mread m (a + n) k"
  using upt_add_eq_append [of a "a + n" k] by (simp add: mread_def add.assoc)

lemma drop_mread: "k \<le> n \<Longrightarrow> drop k (mread m a n) = mread m (a + k) (n - k)"
  using mread_append [of m a k "n - k"] by simp

lemma mwrite_same: "mwrite m a (mread m a n) = m"
  by (rule ext) (auto simp: mread_def mwrite_def)

lemma mwrite_mwrite_same:
  "length bs = length cs \<Longrightarrow> mwrite (mwrite m a bs) a cs = mwrite m a cs"
  by (rule ext) (auto simp: mwrite_def)

lemma mwrite_append: "mwrite m a (xs @ ys) = mwrite (mwrite m a xs) (a + length xs) ys"
  by (rule ext) (auto simp: mwrite_def nth_append)

lemma byte_of_char_of_byte [simp]: "byte_of_char (char_of_byte b) = b"
proof -
  have "unat b < 256" using unsigned_less [of b] by simp
  then show ?thesis by (simp add: byte_of_char_def char_of_byte_def)
qed

lemma char_of_byte_of_char [simp]: "char_of_byte (byte_of_char c) = c"
proof -
  have "of_char c < (256::nat)" using of_char_mod_256 [of c] by (metis mod_less_divisor zero_less_numeral)
  then show ?thesis
    by (simp add: byte_of_char_def char_of_byte_def unat_of_nat)
qed

lemma byte_of_char_inject [simp]: "byte_of_char c = byte_of_char d \<longleftrightarrow> c = d"
  by (metis char_of_byte_of_char)

lemma byte_of_char_NUL [simp]: "byte_of_char NUL = 0"
  by (simp add: byte_of_char_def)

lemma byte_of_char_eq_0_iff [simp]: "byte_of_char c = 0 \<longleftrightarrow> c = NUL"
  using byte_of_char_inject [of c NUL] by simp

lemma sublist_appendI: "sublist xs ys \<Longrightarrow> sublist xs (ys @ zs)"
  unfolding sublist_def by (metis append_assoc)

lemma find_upt_Some:
  assumes "find P [a..<b] = Some i"
  shows "a \<le> i \<and> i < b \<and> P i \<and> (\<forall>j. a \<le> j \<and> j < i \<longrightarrow> \<not> P j)"
proof -
  obtain k where k: "k < b - a" "P (a + k)" "i = a + k" "\<forall>j<k. \<not> P (a + j)"
    using assms by (auto simp: find_Some_iff)
  moreover have "\<not> P j" if "a \<le> j" "j < i" for j
    using k(3,4) that by (metis add.commute le_add_diff_inverse less_diff_conv2)
  ultimately show ?thesis by auto
qed

lemma unat_u32_less: "unat (x :: u32) < 4294967296"
  using unsigned_less [of x] by simp

lemma unat_of_nat_small: "n < 2 ^ 32 \<Longrightarrow> unat (of_nat n :: u32) = n"
  by (simp add: unat_of_nat)

lemma sint_of_nat_small: "n < 2 ^ 31 \<Longrightarrow> sint (of_nat n :: s32) = int n"
  by (simp add: sint_uint signed_take_bit_int_eq_self unsigned_of_nat take_bit_nat_eq_self)

lemma of_nat_nonneg: "n < 2 ^ 31 \<Longrightarrow> \<not> of_nat n <s (0 :: s32)"
  using sint_of_nat_small [of n] by (simp add: word_sless_alt)

lemma unat_push_drop2: "unat (push_bit 2 (drop_bit 2 n) :: u32) = 4 * (unat n div 4)"
proof -
  have "unat n < 2 ^ 32" using unsigned_less [of n] by simp
  then have "4 * (unat n div 4) < 2 ^ 32" by linarith
  then show ?thesis
    by (simp add: push_bit_eq_mult drop_bit_eq_div mult.commute unat_word_ariths unat_div)
qed

lemma unat_align4: "unat n + 3 < 2 ^ 32 \<Longrightarrow> unat (align4 n) = 4 * ((unat n + 3) div 4)"
  by (simp add: align4_def unat_push_drop2 unat_word_ariths)

lemma align4_ge: "unat n + 3 < 2 ^ 32 \<Longrightarrow> unat n \<le> unat (align4 n)"
  by (simp add: unat_align4)

section \<open>The state monad: accessors and Hoare triples\<close>

abbreviation ret :: "'a \<Rightarrow> ('s, 'a) state" where
  "ret \<equiv> State_Monad.return"

definition gets :: "('s \<Rightarrow> 'a) \<Rightarrow> ('s, 'a) state" where
  "gets f = State (\<lambda>s. (f s, s))"

definition modify :: "('s \<Rightarrow> 's) \<Rightarrow> ('s, unit) state" where
  "modify f = State (\<lambda>s. ((), f s))"

lemma run_gets [simp]: "run_state (gets f) s = (f s, s)"
  by (simp add: gets_def)

lemma run_modify [simp]: "run_state (modify f) s = ((), f s)"
  by (simp add: modify_def)

definition valid :: "('s \<Rightarrow> bool) \<Rightarrow> ('s, 'a) state \<Rightarrow> ('a \<Rightarrow> 's \<Rightarrow> bool) \<Rightarrow> bool" where
  "valid P m Q \<longleftrightarrow> (\<forall>s. P s \<longrightarrow> (case run_state m s of (a, t) \<Rightarrow> Q a t))"

lemma validI:
  "(\<And>s a t. P s \<Longrightarrow> run_state m s = (a, t) \<Longrightarrow> Q a t) \<Longrightarrow> valid P m Q"
  by (auto simp: valid_def split: prod.splits)

lemma validD: "valid P m Q \<Longrightarrow> P s \<Longrightarrow> run_state m s = (a, t) \<Longrightarrow> Q a t"
  by (fastforce simp: valid_def)

lemma valid_bind [valid_intros]:
  "valid P m R \<Longrightarrow> (\<And>a. valid (R a) (f a) Q) \<Longrightarrow> valid P (State_Monad.bind m f) Q"
  by (fastforce simp: valid_def split: prod.splits)

lemma valid_weaken:
  "valid P' m Q' \<Longrightarrow> (\<And>s. P s \<Longrightarrow> P' s) \<Longrightarrow> (\<And>a s. Q' a s \<Longrightarrow> Q a s) \<Longrightarrow> valid P m Q"
  by (fastforce simp: valid_def split: prod.splits)

text \<open>An operation keeps a state predicate whatever it returns.\<close>

definition keeps :: "('s \<Rightarrow> bool) \<Rightarrow> ('s, 'a) state \<Rightarrow> bool" where
  "keeps P m \<longleftrightarrow> valid P m (\<lambda>_. P)"

lemma keepsI: "(\<And>s a t. P s \<Longrightarrow> run_state m s = (a, t) \<Longrightarrow> P t) \<Longrightarrow> keeps P m"
  by (auto simp: keeps_def intro: validI)

lemma keepsD: "keeps P m \<Longrightarrow> P s \<Longrightarrow> run_state m s = (a, t) \<Longrightarrow> P t"
  by (auto simp: keeps_def dest: validD)

lemma keeps_run: "keeps P m \<Longrightarrow> P s \<Longrightarrow> P (snd (run_state m s))"
  by (cases "run_state m s") (auto dest: keepsD)

lemma keeps_bind [valid_intros]:
  "keeps P m \<Longrightarrow> (\<And>a. keeps P (f a)) \<Longrightarrow> keeps P (State_Monad.bind m f)"
  unfolding keeps_def by (rule valid_bind)

lemma keeps_return [valid_intros]: "keeps P (State_Monad.return a)"
  by (auto intro: keepsI)

lemma keeps_gets [valid_intros]: "keeps P (gets f)"
  by (auto intro: keepsI)

lemma keeps_modify [valid_intros]: "(\<And>s. P s \<Longrightarrow> P (f s)) \<Longrightarrow> keeps P (modify f)"
  by (rule keepsI) auto

lemma keeps_if [valid_intros]:
  "(b \<Longrightarrow> keeps P m) \<Longrightarrow> (\<not> b \<Longrightarrow> keeps P n) \<Longrightarrow> keeps P (if b then m else n)"
  by simp

lemma keeps_option [valid_intros]:
  "(x = None \<Longrightarrow> keeps P m) \<Longrightarrow> (\<And>y. x = Some y \<Longrightarrow> keeps P (n y)) \<Longrightarrow>
   keeps P (case x of None \<Rightarrow> m | Some y \<Rightarrow> n y)"
  by (cases x) auto

lemma keeps_sum [valid_intros]:
  "(\<And>y. x = Inl y \<Longrightarrow> keeps P (m y)) \<Longrightarrow> (\<And>y. x = Inr y \<Longrightarrow> keeps P (n y)) \<Longrightarrow>
   keeps P (case x of Inl y \<Rightarrow> m y | Inr y \<Rightarrow> n y)"
  by (cases x) auto

lemma keeps_prod [valid_intros]:
  "(\<And>y z. x = (y, z) \<Longrightarrow> keeps P (m y z)) \<Longrightarrow> keeps P (case x of (y, z) \<Rightarrow> m y z)"
  by (cases x) auto

lemma keeps_Let [valid_intros]: "keeps P (f x) \<Longrightarrow> keeps P (let y = x in f y)"
  by simp

text \<open>The weakest precondition, for stepping through a block by simplification.\<close>

named_theorems wp_simps "weakest preconditions of the monad's operations"

definition wp :: "('s, 'a) state \<Rightarrow> ('a \<Rightarrow> 's \<Rightarrow> bool) \<Rightarrow> 's \<Rightarrow> bool" where
  "wp m Q s = (case run_state m s of (a, t) \<Rightarrow> Q a t)"

lemma wp_bind [wp_simps]: "wp (State_Monad.bind m f) Q s = wp m (\<lambda>a. wp (f a) Q) s"
  by (simp add: wp_def split: prod.splits)

lemma wp_return [wp_simps]: "wp (State_Monad.return a) Q s = Q a s"
  by (simp add: wp_def)

lemma wp_gets [wp_simps]: "wp (gets f) Q s = Q (f s) s"
  by (simp add: wp_def)

lemma wp_modify [wp_simps]: "wp (modify f) Q s = Q () (f s)"
  by (simp add: wp_def)

lemma wp_if [wp_simps]: "wp (if b then m else n) Q s = (if b then wp m Q s else wp n Q s)"
  by simp

lemma wp_case_option [wp_simps]:
  "wp (case x of None \<Rightarrow> m | Some y \<Rightarrow> n y) Q s = (case x of None \<Rightarrow> wp m Q s | Some y \<Rightarrow> wp (n y) Q s)"
  by (cases x) auto

lemma wp_case_sum [wp_simps]:
  "wp (case x of Inl y \<Rightarrow> m y | Inr y \<Rightarrow> n y) Q s = (case x of Inl y \<Rightarrow> wp (m y) Q s | Inr y \<Rightarrow> wp (n y) Q s)"
  by (cases x) auto

lemma wp_case_prod [wp_simps]:
  "wp (case x of (y, z) \<Rightarrow> m y z) Q s = (case x of (y, z) \<Rightarrow> wp (m y z) Q s)"
  by (cases x) auto

lemma wp_eq: "run_state m s = (a, t) \<Longrightarrow> wp m Q s = Q a t"
  by (simp add: wp_def)

lemma wp_bindI: "wp m (\<lambda>a. wp (f a) Q) s \<Longrightarrow> wp (State_Monad.bind m f) Q s"
  by (simp add: wp_bind)

lemma wp_ifI: "(b \<Longrightarrow> wp m Q s) \<Longrightarrow> (\<not> b \<Longrightarrow> wp n Q s) \<Longrightarrow> wp (if b then m else n) Q s"
  by simp

lemma wp_optionI:
  "(x = None \<Longrightarrow> wp m Q s) \<Longrightarrow> (\<And>y. x = Some y \<Longrightarrow> wp (n y) Q s) \<Longrightarrow>
   wp (case x of None \<Rightarrow> m | Some y \<Rightarrow> n y) Q s"
  by (cases x) auto

lemma wp_sumI:
  "(\<And>y. x = Inl y \<Longrightarrow> wp (m y) Q s) \<Longrightarrow> (\<And>y. x = Inr y \<Longrightarrow> wp (n y) Q s) \<Longrightarrow>
   wp (case x of Inl y \<Rightarrow> m y | Inr y \<Rightarrow> n y) Q s"
  by (cases x) auto

lemma wp_prodI:
  "(\<And>y z. x = (y, z) \<Longrightarrow> wp (m y z) Q s) \<Longrightarrow> wp (case x of (y, z) \<Rightarrow> m y z) Q s"
  by (cases x) auto

lemma wp_returnI: "Q a s \<Longrightarrow> wp (State_Monad.return a) Q s"
  by (simp add: wp_return)

lemma wp_getsI: "Q (f s) s \<Longrightarrow> wp (gets f) Q s"
  by (simp add: wp_gets)

lemma wp_modifyI: "Q () (f s) \<Longrightarrow> wp (modify f) Q s"
  by (simp add: wp_modify)

lemmas wp_intros = wp_bindI wp_ifI wp_optionI wp_sumI wp_prodI wp_returnI wp_getsI wp_modifyI

lemma valid_wp: "valid P m Q \<longleftrightarrow> (\<forall>s. P s \<longrightarrow> wp m Q s)"
  by (simp add: valid_def wp_def)

lemma keeps_wpI: "(\<And>s. P s \<Longrightarrow> wp m (\<lambda>_. P) s) \<Longrightarrow> keeps P m"
  by (simp add: keeps_def valid_wp)

lemma wp_keeps: "keeps P m \<Longrightarrow> P s \<Longrightarrow> (\<And>a t. P t \<Longrightarrow> Q a t) \<Longrightarrow> wp m Q s"
  by (auto simp: wp_def split: prod.splits dest: keepsD)

lemma wp_mono: "wp m Q s \<Longrightarrow> (\<And>a t. Q a t \<Longrightarrow> Q' a t) \<Longrightarrow> wp m Q' s"
  by (auto simp: wp_def split: prod.splits)

lemma wp_run: "wp m Q s \<Longrightarrow> run_state m s = (a, t) \<Longrightarrow> Q a t"
  by (simp add: wp_def)

text \<open>
  A relation between the state before and after an operation. A reflexive and transitive
  relation composes along a block; the interface below collects the rules, and each relation
  the models use interprets it.
\<close>

definition frame :: "('s \<Rightarrow> 's \<Rightarrow> bool) \<Rightarrow> ('s, 'a) state \<Rightarrow> bool" where
  "frame R m \<longleftrightarrow> (\<forall>s. R s (snd (run_state m s)))"

lemma frameD: "frame R m \<Longrightarrow> run_state m s = (a, t) \<Longrightarrow> R s t"
  by (metis frame_def snd_conv)

lemma frameI: "(\<And>s. R s (snd (run_state m s))) \<Longrightarrow> frame R m"
  by (simp add: frame_def)

lemma frame_keeps: "frame R m \<Longrightarrow> (\<And>s t. R s t \<Longrightarrow> P s \<Longrightarrow> P t) \<Longrightarrow> keeps P m"
  by (rule keepsI) (blast dest: frameD)

lemma wp_frame: "frame R m \<Longrightarrow> (\<And>a t. R s t \<Longrightarrow> Q a t) \<Longrightarrow> wp m Q s"
  by (auto simp: wp_def split: prod.splits dest: frameD)

lemma wp_intro: "(\<And>a t. run_state m s = (a, t) \<Longrightarrow> Q a t) \<Longrightarrow> wp m Q s"
  by (auto simp: wp_def split: prod.splits)

lemma frame_wpI: "(\<And>s. wp m (\<lambda>_. R s) s) \<Longrightarrow> frame R m"
  by (simp add: frame_def wp_def case_prod_beta)

lemma frame_weaken: "frame R m \<Longrightarrow> (\<And>s t. R s t \<Longrightarrow> R' s t) \<Longrightarrow> frame R' m"
  by (simp add: frame_def)

lemma frame_modify [frame_intros]: "(\<And>s. R s (f s)) \<Longrightarrow> frame R (modify f)"
  by (simp add: frame_def)

lemma frame_if [frame_intros]:
  "(b \<Longrightarrow> frame R m) \<Longrightarrow> (\<not> b \<Longrightarrow> frame R n) \<Longrightarrow> frame R (if b then m else n)"
  by simp

lemma frame_option [frame_intros]:
  "(x = None \<Longrightarrow> frame R m) \<Longrightarrow> (\<And>y. x = Some y \<Longrightarrow> frame R (n y)) \<Longrightarrow>
   frame R (case x of None \<Rightarrow> m | Some y \<Rightarrow> n y)"
  by (cases x) auto

lemma frame_sum [frame_intros]:
  "(\<And>y. x = Inl y \<Longrightarrow> frame R (m y)) \<Longrightarrow> (\<And>y. x = Inr y \<Longrightarrow> frame R (n y)) \<Longrightarrow>
   frame R (case x of Inl y \<Rightarrow> m y | Inr y \<Rightarrow> n y)"
  by (cases x) auto

lemma frame_prod [frame_intros]:
  "(\<And>y z. x = (y, z) \<Longrightarrow> frame R (m y z)) \<Longrightarrow> frame R (case x of (y, z) \<Rightarrow> m y z)"
  by (cases x) auto

lemma frame_Let [frame_intros]: "frame R (f x) \<Longrightarrow> frame R (let y = x in f y)"
  by simp

locale frame_rel =
  fixes R :: "'s \<Rightarrow> 's \<Rightarrow> bool"
  assumes R_refl: "R s s"
    and R_trans: "R s t \<Longrightarrow> R t u \<Longrightarrow> R s u"
begin

lemma return [frame_intros]: "frame R (State_Monad.return a)"
  by (simp add: frame_def R_refl)

lemma get [frame_intros]: "frame R (gets f)"
  by (simp add: frame_def R_refl)

lemma bind [frame_intros]:
  assumes "frame R m" "\<And>a. frame R (f a)"
  shows "frame R (State_Monad.bind m f)"
proof (rule frameI)
  fix s
  obtain a t where m: "run_state m s = (a, t)" by fastforce
  obtain b u where f: "run_state (f a) t = (b, u)" by fastforce
  show "R s (snd (run_state (State_Monad.bind m f) s))"
    using R_trans frameD [OF assms(1) m] frameD [OF assms(2) f] by (simp add: m f)
qed

end

section \<open>The environment of a daemon\<close>

text \<open>
  Everything outside the repository that a daemon talks to (system calls, the C library's
  allocator, Android properties, the CCCI driver) is a function from a request and the
  state of the world to an answer and the next world. The daemon's own state extends the
  record below: the world, the requests issued so far (most recent last), and a flag that
  is set where the C code would read or free memory it does not own.
\<close>

record ('q, 'w) env =
  world :: 'w
  trace :: "'q list"
  ub :: bool

definition syscall ::
  "('q \<Rightarrow> 'w \<Rightarrow> 'r \<times> 'w) \<Rightarrow> 'q \<Rightarrow> (('q, 'w, 'z) env_scheme, 'r) state" where
  "syscall os q = State (\<lambda>s. case os q (world s) of
     (r, w) \<Rightarrow> (r, s\<lparr>world := w, trace := trace s @ [q]\<rparr>))"

definition fault :: "(('q, 'w, 'z) env_scheme, unit) state" where
  "fault = modify (\<lambda>s. s\<lparr>ub := True\<rparr>)"

lemma run_syscall [simp]:
  "run_state (syscall os q) s = (case os q (world s) of
     (r, w) \<Rightarrow> (r, s\<lparr>world := w, trace := trace s @ [q]\<rparr>))"
  by (simp add: syscall_def)

lemma wp_syscall [wp_simps]:
  "wp (syscall os q) Q s = (case os q (world s) of
     (r, w) \<Rightarrow> Q r (s\<lparr>world := w, trace := trace s @ [q]\<rparr>))"
  by (simp add: wp_def split: prod.splits)

lemma wp_syscallI:
  "(\<And>r w. os q (world s) = (r, w) \<Longrightarrow> Q r (s\<lparr>world := w, trace := trace s @ [q]\<rparr>)) \<Longrightarrow>
   wp (syscall os q) Q s"
  by (simp add: wp_syscall split: prod.splits)

lemma wp_fault [wp_simps]: "wp fault Q s = Q () (s\<lparr>ub := True\<rparr>)"
  by (simp add: fault_def wp_modify)

lemma keeps_syscall [valid_intros]:
  "(\<And>s w. P s \<Longrightarrow> P (s\<lparr>world := w, trace := trace s @ [q]\<rparr>)) \<Longrightarrow> keeps P (syscall os q)"
  by (auto intro!: keepsI split: prod.splits)

text \<open>Relations that no request to the environment disturbs.\<close>

locale env_frame = frame_rel R
  for R :: "('q, 'w, 'z) env_scheme \<Rightarrow> ('q, 'w, 'z) env_scheme \<Rightarrow> bool" +
  assumes R_request: "R s (s\<lparr>world := w, trace := tr\<rparr>)"
    and R_fault: "R s (s\<lparr>ub := u\<rparr>)"
begin

lemma request [frame_intros]: "frame R (syscall os q)"
  by (rule frameI) (simp add: R_request split: prod.splits)

lemma fault_keeps [frame_intros]: "frame R fault"
  unfolding fault_def by (rule frame_modify) (rule R_fault)

end

text \<open>Every request issued by an operation satisfies a predicate.\<close>

definition issues :: "('q \<Rightarrow> bool) \<Rightarrow> ('q, 'w, 'z) env_scheme \<Rightarrow> ('q, 'w, 'z) env_scheme \<Rightarrow> bool" where
  "issues P s t \<longleftrightarrow> (\<exists>qs. trace t = trace s @ qs \<and> list_all P qs)"

interpretation issues: frame_rel "issues P"
  by unfold_locales (force simp: issues_def)+

lemma issues_syscall [frame_intros]: "P q \<Longrightarrow> frame (issues P) (syscall os q)"
  by (rule frameI) (simp add: issues_def split: prod.splits)

lemma issues_same_trace: "trace t = trace s \<Longrightarrow> issues P s t"
  by (auto simp: issues_def)

lemma issues_fault [frame_intros]: "frame (issues P) fault"
  unfolding fault_def by (rule frame_modify) (rule issues_same_trace, simp)

lemma issues_set: "issues P s t \<Longrightarrow> q \<in> set (trace t) \<Longrightarrow> q \<in> set (trace s) \<or> P q"
  by (auto simp: issues_def list_all_iff)

end
