(* ===== verification/Ccci_Env.thy ===== *)
theory Ccci_Env
  imports Prelude
begin

unbundle bit_operations_syntax

text \<open>
  What the CCCI programs (the file-system daemon, the procedure-call daemon, the library and the start-up daemon) share: the
  requests they make of the kernel, the C library and the Android services, and the functions of the
  interface header \<open>ccci_intf.h\<close> that find the device node of a user.

  A program is given its environment as a parameter \<open>os\<close>: a function that answers a \<open>sysreq\<close> with
  a \<open>sysres\<close>. An \<open>ioctl\<close> names its command, carries the bytes of its argument and answers with the
  bytes the driver leaves there.
\<close>

section \<open>Constants\<close>

abbreviation (input) O_RDONLY :: u32 where "O_RDONLY \<equiv> 0"
abbreviation (input) O_WRONLY :: u32 where "O_WRONLY \<equiv> 1"
abbreviation (input) O_RDWR :: u32 where "O_RDWR \<equiv> 2"
abbreviation (input) O_CREAT :: u32 where "O_CREAT \<equiv> 0x40"
abbreviation (input) O_TRUNC :: u32 where "O_TRUNC \<equiv> 0x200"
abbreviation (input) O_CLOEXEC :: u32 where "O_CLOEXEC \<equiv> 0x80000"
abbreviation (input) O_NONBLOCK :: u32 where "O_NONBLOCK \<equiv> 0x800"
abbreviation (input) S_IFREG :: u32 where "S_IFREG \<equiv> 0x8000"
abbreviation (input) S_IFDIR :: u32 where "S_IFDIR \<equiv> 0x4000"
abbreviation (input) MD_DIR_ATTR :: u32 where "MD_DIR_ATTR \<equiv> 0x1F8"
abbreviation (input) EINTR :: s32 where "EINTR \<equiv> 4"
abbreviation (input) ENOENT :: s32 where "ENOENT \<equiv> 2"
abbreviation (input) EACCES :: s32 where "EACCES \<equiv> 13"
abbreviation (input) EINVAL :: s32 where "EINVAL \<equiv> 22"
abbreviation (input) EFAULT :: s32 where "EFAULT \<equiv> 14"
abbreviation (input) EAGAIN :: s32 where "EAGAIN \<equiv> 11"
abbreviation (input) ENODEV :: s32 where "ENODEV \<equiv> 19"
abbreviation (input) EMFILE :: s32 where "EMFILE \<equiv> 24"
abbreviation (input) ENOSPC :: s32 where "ENOSPC \<equiv> 28"

text \<open>The states of a modem as its users know them.\<close>

abbreviation (input) CCCI_MD_STA_UNDEFINED :: s32 where "CCCI_MD_STA_UNDEFINED \<equiv> - 3"
abbreviation (input) CCCI_MD_STA_INIT :: s32 where "CCCI_MD_STA_INIT \<equiv> - 1"
abbreviation (input) CCCI_MD_STA_BOOT_READY :: s32 where "CCCI_MD_STA_BOOT_READY \<equiv> 0"
abbreviation (input) CCCI_MD_STA_BOOT_UP :: s32 where "CCCI_MD_STA_BOOT_UP \<equiv> 1"
abbreviation (input) CCCI_MD_STA_RESET :: s32 where "CCCI_MD_STA_RESET \<equiv> 2"
abbreviation (input) CCCI_MD_STA_STOP :: s32 where "CCCI_MD_STA_STOP \<equiv> 3"
abbreviation (input) CCCI_MD_STA_FLIGHT_MODE :: s32 where "CCCI_MD_STA_FLIGHT_MODE \<equiv> 4"
abbreviation (input) CCCI_MD_STA_EXCEPTION :: s32 where "CCCI_MD_STA_EXCEPTION \<equiv> 5"

text \<open>The driver's status events.\<close>

abbreviation (input) MD_STA_EV_HS1 :: u32 where "MD_STA_EV_HS1 \<equiv> 9"
abbreviation (input) MD_STA_EV_READY :: u32 where "MD_STA_EV_READY \<equiv> 10"
abbreviation (input) MD_STA_EV_EXCEPTION :: u32 where "MD_STA_EV_EXCEPTION \<equiv> 11"
abbreviation (input) MD_STA_EV_STOP :: u32 where "MD_STA_EV_STOP \<equiv> 12"

section \<open>The environment\<close>

record stat_t =
  st_mode :: u32
  st_size :: int
  st_atime :: int
  st_mtime :: int
  st_ctime :: int

record statfs_t =
  f_bsize :: u32
  f_blocks :: u32

record tm =
  tm_sec :: s32
  tm_min :: s32
  tm_hour :: s32
  tm_mday :: s32
  tm_mon :: s32
  tm_year :: s32

datatype sysreq =
    Sys_open string u32 u32
  | Sys_creat string u32
  | Sys_close s32
  | Sys_read s32 u32
  | Sys_write s32 "u8 list"
  | Sys_lseek s32 s32 s32
  | Sys_fsync s32
  | Sys_stat string
  | Sys_fstat s32
  | Sys_statfs string
  | Sys_access string
  | Sys_mkdir string u32
  | Sys_rmdir string
  | Sys_unlink string
  | Sys_rename string string
  | Sys_opendir string
  | Sys_readdir s32
  | Sys_closedir s32
  | Sys_umask u32
  | Sys_malloc nat
  | Sys_localtime int
  | Sys_clock_gettime
  | Sys_property_get string
  | Sys_get_ext_md_post_fix s32
  | Sys_fs_ioctl_send s32 u32 u32
  | Sys_fs_ioctl_get_index s32
  | Sys_force_md_assert s32 s32
  | Sys_mmap s32 nat
  | Sys_munmap nat
  | Sys_ioctl s32 string "u8 list"
  | Sys_pthread_create
  | Sys_usleep nat
  | Sys_restore_one_file string
  | Sys_otp_get_libversion
  | Sys_otp_open
  | Sys_otp_close
  | Sys_otp_lock
  | Sys_otp_get_size
  | Sys_otp_read u32 u32
  | Sys_otp_write u32 "u8 list"
  | Sys_otp_ioctl_length s32
  | Sys_otp_ioctl_read s32 u32 u32
  | Sys_otp_ioctl_write s32 u32 "u8 list"
  | Sys_property_get_default string string
  | Sys_property_set string string
  | Sys_sleep nat
  | Sys_sysinfo
  | Sys_gettimeofday
  | Sys_time
  | Sys_ctime int
  | Sys_mutex_lock
  | Sys_mutex_unlock
  | Sys_dlopen string
  | Sys_dlsym string
  | Sys_dlclose
  | Sys_aee_system_exception string string u32 string
  | Sys_release_wake_lock string
  | Sys_prj_cfg_setting string
  | Sys_sysenv_get string
  | Sys_sysenv_set string string
  | Sys_NVM_GetLIDByName string
  | Sys_NVM_GetFileDesc s32
  | Sys_NVM_CloseFileDesc s32
  | Sys_msync nat
  | Sys_tc1_lib_init
  | Sys_tc1_rpc_srv_entry u32 "u8 list"

text \<open>
  One record carries every kind of answer: the integer result and \<open>errno\<close>, the bytes read,
  a name (the directory entry or property value, \<open>None\<close> when there is none), and the
  structures filled in by \<open>stat\<close>, \<open>statfs\<close>, \<open>localtime\<close> and \<open>clock_gettime\<close>, and the arguments that the
  library of \<open>ccci_rpcd\<close> answers with.
\<close>

record sysres =
  r_ret :: s32
  r_errno :: s32
  r_data :: "u8 list"
  r_name :: "string option"
  r_stat :: stat_t
  r_statfs :: statfs_t
  r_tm :: "tm option"
  r_time :: "int \<times> int"
  r_packs :: "u8 list list"

type_synonym 'w os = "sysreq \<Rightarrow> 'w \<Rightarrow> sysres \<times> 'w"

definition stat0 :: stat_t where
  "stat0 = \<lparr>st_mode = 0, st_size = 0, st_atime = 0, st_mtime = 0, st_ctime = 0\<rparr>"

definition res0 :: sysres where
  "res0 = \<lparr>r_ret = 0, r_errno = 0, r_data = [], r_name = None, r_stat = stat0,
     r_statfs = \<lparr>f_bsize = 0, f_blocks = 0\<rparr>, r_tm = None, r_time = (0, 0), r_packs = []\<rparr>"

section \<open>The C library\<close>

definition c_space :: "char \<Rightarrow> bool" where
  "c_space c \<longleftrightarrow> c \<in> set [CHR '' '', CHR 0x09, CHR 0x0A, CHR 0x0B, CHR 0x0C, CHR 0x0D]"

definition c_digit :: "char \<Rightarrow> bool" where
  "c_digit c \<longleftrightarrow> 48 \<le> (of_char c :: nat) \<and> (of_char c :: nat) \<le> 57"

text \<open>The value of a hexadecimal digit, \<open>None\<close> for another character.\<close>

definition hex_val :: "char \<Rightarrow> nat option" where
  "hex_val c = (let n = of_char c in
     if c_digit c then Some (n - 48)
     else if 97 \<le> n \<and> n \<le> 102 then Some (n - 87)
     else if 65 \<le> n \<and> n \<le> 70 then Some (n - 55) else None)"

fun digits_val :: "nat \<Rightarrow> (char \<Rightarrow> nat option) \<Rightarrow> int \<Rightarrow> string \<Rightarrow> int" where
  "digits_val base f acc [] = acc"
| "digits_val base f acc (c # cs) =
     (case f c of None \<Rightarrow> acc | Some d \<Rightarrow> digits_val base f (acc * int base + int d) cs)"

definition dec_val :: "char \<Rightarrow> nat option" where
  "dec_val c = (if c_digit c then Some (of_char c - 48) else None)"

text \<open>\<open>atoi\<close> on a 32-bit \<open>long\<close>: leading space, a sign, digits; saturating.\<close>

definition atoi :: "string \<Rightarrow> s32" where
  "atoi str = (let cs = dropWhile c_space str;
       v = (case cs of [] \<Rightarrow> 0
            | c # r \<Rightarrow> if c = CHR ''-'' then - digits_val 10 dec_val 0 r
                else if c = CHR ''+'' then digits_val 10 dec_val 0 r else digits_val 10 dec_val 0 cs)
     in word_of_int (max (- (2 ^ 31)) (min (2 ^ 31 - 1) v)))"

definition hex_prefix :: "string \<Rightarrow> string" where
  "hex_prefix cs = (case cs of c # x # h # r \<Rightarrow>
       if c = CHR ''0'' \<and> (x = CHR ''x'' \<or> x = CHR ''X'') \<and> hex_val h \<noteq> None then h # r else cs
     | _ \<Rightarrow> cs)"

text \<open>\<open>strtoul\<close> in base 16; too large a value gives \<open>ULONG_MAX\<close>.\<close>

definition strtoul16 :: "string \<Rightarrow> u32" where
  "strtoul16 str = (let cs = dropWhile c_space str;
       neg = (cs \<noteq> [] \<and> hd cs = CHR ''-'');
       v = digits_val 16 hex_val 0 (hex_prefix (if cs \<noteq> [] \<and> (neg \<or> hd cs = CHR ''+'') then tl cs else cs))
     in if 2 ^ 32 \<le> v then 0xFFFFFFFF else if neg then - word_of_int v else word_of_int v)"

text \<open>\<open>%d\<close>.\<close>

definition print_int :: "s32 \<Rightarrow> string" where
  "print_int v = (if v <s 0 then ''-'' @ dec (nat (- sint v)) else dec (unat v))"

text \<open>\<open>strtoul\<close> with base 0 on a 64-bit \<open>long\<close>: decimal, octal after 0, hexadecimal after 0x.\<close>

definition oct_val :: "char \<Rightarrow> nat option" where
  "oct_val c = (if c_digit c \<and> (of_char c :: nat) < 56 then Some (of_char c - 48) else None)"

definition strtoul0 :: "string \<Rightarrow> u64" where
  "strtoul0 str = (let cs = dropWhile c_space str;
       neg = (cs \<noteq> [] \<and> hd cs = CHR ''-'');
       ds = (if cs \<noteq> [] \<and> (neg \<or> hd cs = CHR ''+'') then tl cs else cs);
       v = (if hex_prefix ds \<noteq> ds then digits_val 16 hex_val 0 (hex_prefix ds)
            else if ds \<noteq> [] \<and> hd ds = CHR ''0'' then digits_val 8 oct_val 0 ds
            else digits_val 10 dec_val 0 ds)
     in if 2 ^ 64 \<le> v then - 1 else if neg then - word_of_int v else word_of_int v)"

section \<open>Device nodes\<close>

text \<open>The CCCI interface header: the driver's version and the device node of a user.\<close>

abbreviation (input) INVALID_NAME :: string where "INVALID_NAME \<equiv> ''/dev/null''"

text \<open>The table of device nodes, one row per user in the order of \<open>CCCI_USER\<close>: the node on each driver.\<close>

definition ccci_node_list :: "string list list" where
  "ccci_node_list = [
     [''/dev/ttyC0'', ''/dev/ttyC0'', ''/dev/ttyC0'', ''/dev/ccci2_tty0'', INVALID_NAME,
      ''/dev/eemcs_mux'', ''/dev/emd_cfifo1''],
     [''/dev/ccci_uem_tx'', ''/dev/ccci_ioctl0'', ''/dev/ccci_ioctl0'', ''/dev/ccci2_ioctl0'',
      INVALID_NAME, ''/dev/eemcs_muxrp'', ''/dev/emd_ctl1''],
     [INVALID_NAME, ''/dev/ccci_ioctl1'', ''/dev/ccci_ioctl1'', ''/dev/ccci2_ioctl1'',
      ''/dev/ccci3_ioctl1'', ''/dev/eemcs_ril'', ''/dev/emd_ctl2''],
     [INVALID_NAME, ''/dev/ccci_ioctl2'', ''/dev/ccci_ioctl2'', ''/dev/ccci2_ioctl2'', INVALID_NAME,
      ''/dev/eemcs_ioctl'', INVALID_NAME],
     [''/dev/ccci_pcm_tx'', ''/dev/ccci_pcm_tx'', ''/dev/ccci_aud'', ''/dev/ccci2_aud'',
      ''/dev/ccci3_aud'', ''/dev/eemcs_aud'', INVALID_NAME],
     [''/dev/ccci_pcm_rx'', ''/dev/ccci_pcm_rx'', ''/dev/ccci_aud'', ''/dev/ccci2_aud'',
      ''/dev/ccci3_aud'', ''/dev/eemcs_aud'', INVALID_NAME],
     [''/dev/ttyC1'', ''/dev/ttyC1'', ''/dev/ttyC1'', ''/dev/ccci2_tty1'', ''/dev/ccci3_tty1'',
      ''/dev/eemcs_md_log'', INVALID_NAME],
     [INVALID_NAME, ''/dev/ccci_ioctl4'', ''/dev/ccci_ioctl4'', ''/dev/ccci2_ioctl4'', INVALID_NAME,
      INVALID_NAME, ''/dev/emd_ctl3''],
     [''/dev/ccci_md_log_tx'', ''/dev/ccci_md_log_tx'', ''/dev/ttyC1'', ''/dev/ccci2_tty1'',
      ''/dev/ccci3_tty1'', ''/dev/eemcs_md_log'', INVALID_NAME],
     [''/dev/ccci_md_log_rx'', ''/dev/ccci_md_log_rx'', ''/dev/ttyC1'', ''/dev/ccci2_tty1'',
      ''/dev/ccci3_tty1'', ''/dev/eemcs_md_log'', INVALID_NAME],
     [''/dev/ccci_uem_rx'', ''/dev/ccci_ioctl0'', ''/dev/ttyC1'', ''/dev/ccci2_tty1'',
      ''/dev/ccci3_tty1'', ''/dev/eemcs_md_log'', ''/dev/emd_ctl4''],
     [INVALID_NAME, INVALID_NAME, ''/dev/ccci_md_log_ctrl'', ''/dev/ccci2_md_log_ctrl'',
      ''/dev/ccci3_md_log_ctrl'', ''/dev/eemcs_md_log_ctrl'', ''/dev/emd_ctl4''],
     [INVALID_NAME, INVALID_NAME, ''/dev/ccci_mdl_monitor'', INVALID_NAME, INVALID_NAME, INVALID_NAME,
      INVALID_NAME],
     [''/dev/ttyC2'', ''/dev/ttyC2'', ''/dev/ttyC2'', ''/dev/ccci2_tty2'', ''/dev/ccci3_tty2'',
      ''/dev/eemcs_ipc_uart'', INVALID_NAME],
     [''/dev/ccci_ipc_1220_0'', ''/dev/ccci_ipc_1220_0'', ''/dev/ccci_ipc_1220_0'',
      ''/dev/ccci2_ipc_0'', INVALID_NAME, ''/dev/eemcs_ipc_0'', INVALID_NAME],
     [INVALID_NAME, ''/dev/ccci_ipc_2'', ''/dev/ccci_ipc_2'', ''/dev/ccci2_ipc_2'', INVALID_NAME,
      ''/dev/eemcs_ipc_2'', INVALID_NAME],
     [''ccmni0'', ''ccmni0'', ''ccmni0'', ''cc2mni0'', ''cc3mni0'', ''ccemni0'', INVALID_NAME],
     [''ccmni1'', ''ccmni1'', ''ccmni1'', ''cc2mni1'', ''cc3mni1'', ''ccemni1'', INVALID_NAME],
     [''ccmni2'', ''ccmni2'', ''ccmni2'', ''cc2mni2'', ''cc3mni2'', ''ccemni2'', INVALID_NAME],
     [''ccmni3'', ''ccmni3'', ''ccmni3'', ''cc2mni3'', ''cc3mni3'', ''ccemni3'', INVALID_NAME],
     [''ccmni4'', ''ccmni4'', ''ccmni4'', ''cc2mni4'', ''cc3mni4'', ''ccemni4'', INVALID_NAME],
     [''ccmni5'', ''ccmni5'', ''ccmni5'', ''cc2mni5'', ''cc3mni5'', ''ccemni5'', INVALID_NAME],
     [''ccmni6'', ''ccmni6'', ''ccmni6'', ''cc2mni6'', ''cc3mni6'', ''ccemni6'', INVALID_NAME],
     [''ccmni7'', ''ccmni7'', ''ccmni7'', ''cc2mni7'', ''cc3mni7'', ''ccemni7'', INVALID_NAME],
     [INVALID_NAME, INVALID_NAME, INVALID_NAME, INVALID_NAME, INVALID_NAME, INVALID_NAME, INVALID_NAME],
     [''ccmni9'', ''ccmni9'', ''ccmni9'', ''cc2mni9'', ''cc3mni9'', ''ccemni9'', INVALID_NAME],
     [''ccmni10'', ''ccmni10'', ''ccmni10'', ''cc2mni10'', ''cc3mni10'', ''ccemni10'', INVALID_NAME],
     [''ccmni11'', ''ccmni11'', ''ccmni11'', ''cc2mni11'', ''cc3mni11'', ''ccemni11'', INVALID_NAME],
     [''ccmni12'', ''ccmni12'', ''ccmni12'', ''cc2mni12'', ''cc3mni12'', ''ccemni12'', INVALID_NAME],
     [''ccmni13'', ''ccmni13'', ''ccmni13'', ''cc2mni13'', ''cc3mni13'', ''ccemni13'', INVALID_NAME],
     [''ccmni14'', ''ccmni14'', ''ccmni14'', ''cc2mni14'', ''cc3mni14'', ''ccemni14'', INVALID_NAME],
     [''ccmni15'', ''ccmni15'', ''ccmni15'', ''cc2mni15'', ''cc3mni15'', ''ccemni15'', INVALID_NAME],
     [''ccmni16'', ''ccmni16'', ''ccmni16'', ''cc2mni16'', ''cc3mni16'', ''ccemni16'', INVALID_NAME],
     [''ccmni17'', ''ccmni17'', ''ccmni17'', ''cc2mni17'', ''cc3mni17'', ''ccemni17'', INVALID_NAME],
     [''ccmni18'', ''ccmni18'', ''ccmni18'', ''cc2mni18'', ''cc3mni18'', ''ccemni18'', INVALID_NAME],
     [''ccmni19'', ''ccmni19'', ''ccmni19'', ''cc2mni19'', ''cc3mni19'', ''ccemni19'', INVALID_NAME],
     [''ccmni20'', ''ccmni20'', ''ccmni20'', ''cc2mni20'', ''cc3mni20'', ''ccemni20'', INVALID_NAME],
     [INVALID_NAME, INVALID_NAME, ''/dev/ccci_imsa'', ''/dev/ccci2_imsa'', INVALID_NAME,
      ''/dev/eemcs_imsa'', INVALID_NAME],
     [INVALID_NAME, INVALID_NAME, ''/dev/ccci_imsv'', ''/dev/ccci2_imsa'', INVALID_NAME,
      ''/dev/eemcs_imsv'', INVALID_NAME],
     [INVALID_NAME, INVALID_NAME, ''/dev/ccci_imsc'', ''/dev/ccci2_imsa'', INVALID_NAME,
      ''/dev/eemcs_imsc'', INVALID_NAME],
     [INVALID_NAME, INVALID_NAME, ''/dev/ccci_imsdc'', ''/dev/ccci2_imsa'', INVALID_NAME,
      ''/dev/eemcs_imsdc'', INVALID_NAME],
     [INVALID_NAME, ''/dev/ttyC3'', ''/dev/ttyC3'', ''/dev/ccci2_tty3'', INVALID_NAME, INVALID_NAME,
      INVALID_NAME],
     [INVALID_NAME, ''/dev/ccci_ioctl3'', ''/dev/ccci_ioctl3'', ''/dev/ccci2_ioctl3'', INVALID_NAME,
      INVALID_NAME, INVALID_NAME],
     [''/dev/ccci_fs'', ''/dev/ccci_fs'', ''/dev/ccci_fs'', ''/dev/ccci2_fs'', ''/dev/ccci3_fs'',
      ''/dev/eemcs_fs'', INVALID_NAME],
     [''/dev/ccci_uem_rx'', ''/dev/ccci_monitor'', ''/dev/ccci_monitor'', ''/dev/ccci2_monitor'',
      ''/dev/ccci3_monitor'', ''/dev/eemcs_ctrl'', ''/dev/emd_ctl0''],
     [INVALID_NAME, INVALID_NAME, ''/dev/ccci_ipc_4'', ''/dev/ccci2_ipc_4'', INVALID_NAME, INVALID_NAME,
      INVALID_NAME],
     [''/dev/ccci_rpc'', ''/dev/ccci_rpc'', ''/dev/ccci_rpc'', ''/dev/ccci2_rpc'', INVALID_NAME,
      ''/dev/eemcs_rpc'', INVALID_NAME],
     [INVALID_NAME, INVALID_NAME, INVALID_NAME, INVALID_NAME, ''/dev/ccci3_fls'', INVALID_NAME,
      INVALID_NAME],
     [INVALID_NAME, INVALID_NAME, INVALID_NAME, INVALID_NAME, ''/dev/ccci3_at'', INVALID_NAME,
      INVALID_NAME],
     [INVALID_NAME, INVALID_NAME, INVALID_NAME, INVALID_NAME, ''/dev/ccci3_at2'', INVALID_NAME,
      INVALID_NAME],
     [INVALID_NAME, INVALID_NAME, INVALID_NAME, INVALID_NAME, ''/dev/ccci3_at3'', INVALID_NAME,
      INVALID_NAME],
     [INVALID_NAME, INVALID_NAME, INVALID_NAME, INVALID_NAME, ''/dev/ccci3_at4'', INVALID_NAME,
      INVALID_NAME],
     [INVALID_NAME, INVALID_NAME, INVALID_NAME, INVALID_NAME, ''/dev/ccci3_at5'', INVALID_NAME,
      INVALID_NAME],
     [INVALID_NAME, INVALID_NAME, INVALID_NAME, INVALID_NAME, ''/dev/ccci3_at6'', INVALID_NAME,
      INVALID_NAME],
     [INVALID_NAME, INVALID_NAME, INVALID_NAME, INVALID_NAME, ''/dev/ccci3_at7'', INVALID_NAME,
      INVALID_NAME],
     [INVALID_NAME, INVALID_NAME, INVALID_NAME, INVALID_NAME, ''/dev/ccci3_at8'', INVALID_NAME,
      INVALID_NAME],
     [INVALID_NAME, INVALID_NAME, ''/dev/ccci_c2k_agps'', INVALID_NAME, INVALID_NAME, INVALID_NAME,
      INVALID_NAME],
     [INVALID_NAME, INVALID_NAME, ''/dev/ccci_ccb_dhl'', INVALID_NAME, INVALID_NAME, INVALID_NAME,
      INVALID_NAME],
     [INVALID_NAME, INVALID_NAME, ''/dev/ccci_ccb_md_monitor'', INVALID_NAME, INVALID_NAME,
      INVALID_NAME, INVALID_NAME],
     [INVALID_NAME, INVALID_NAME, ''/dev/ccci_ccb_meta'', INVALID_NAME, INVALID_NAME, INVALID_NAME,
      INVALID_NAME],
     [INVALID_NAME, INVALID_NAME, ''/dev/ccci_raw_dhl'', INVALID_NAME, INVALID_NAME, INVALID_NAME,
      INVALID_NAME],
     [INVALID_NAME, INVALID_NAME, ''/dev/ccci_raw_mdm'', INVALID_NAME, INVALID_NAME, INVALID_NAME,
      INVALID_NAME],
     [INVALID_NAME, INVALID_NAME, ''/dev/ccci_raw_netd'', INVALID_NAME, INVALID_NAME, INVALID_NAME,
      INVALID_NAME],
     [INVALID_NAME, INVALID_NAME, ''/dev/ccci_raw_usb'', INVALID_NAME, INVALID_NAME, INVALID_NAME,
      INVALID_NAME],
     [INVALID_NAME, INVALID_NAME, ''/dev/ccci_imsem'', INVALID_NAME, INVALID_NAME, INVALID_NAME,
      INVALID_NAME],
     [INVALID_NAME, INVALID_NAME, ''/dev/ccci_raw_audio'', INVALID_NAME, ''/dev/ccci3_raw_audio'',
      INVALID_NAME, INVALID_NAME],
     [INVALID_NAME, INVALID_NAME, ''/dev/ccci_ipc_9'', INVALID_NAME, INVALID_NAME, INVALID_NAME,
      INVALID_NAME],
     [INVALID_NAME, INVALID_NAME, ''/dev/ccci_imsm'', INVALID_NAME, INVALID_NAME, INVALID_NAME,
      INVALID_NAME],
     [INVALID_NAME, INVALID_NAME, ''/dev/ccci_woa'', INVALID_NAME, INVALID_NAME, INVALID_NAME,
      INVALID_NAME],
     [INVALID_NAME, INVALID_NAME, ''/dev/ccci_wifi_proxy'', INVALID_NAME, INVALID_NAME, INVALID_NAME,
      INVALID_NAME]]"

text \<open>The row of \<open>USR_CCCI_FS\<close>.\<close>

definition node_row_FS :: "string list" where
  "node_row_FS = [''/dev/ccci_fs'', ''/dev/ccci_fs'', ''/dev/ccci_fs'', ''/dev/ccci2_fs'', ''/dev/ccci3_fs'',
     ''/dev/eemcs_fs'', INVALID_NAME]"

lemma node_row_FS: "ccci_node_list ! 43 = node_row_FS"
  by (simp add: ccci_node_list_def node_row_FS_def)

definition ccci_get_version :: "'w os \<Rightarrow> ((sysreq, 'w, 'z) env_scheme, u32) state" where
  "ccci_get_version os = do {
     fd \<leftarrow> syscall os (Sys_open ''/sys/kernel/ccci/version'' O_RDONLY 0);
     if r_ret fd <s 0 then ret 3
     else do {
       r \<leftarrow> syscall os (Sys_read (r_ret fd) 2);
       _ \<leftarrow> syscall os (Sys_close (r_ret fd));
       ret (if r_ret r <s 1 then 0 else ucast (byte_at (r_data r) 0) - 48) } }"

definition ccci_get_node_name :: "'w os \<Rightarrow> string list \<Rightarrow> u32 \<Rightarrow> ((sysreq, 'w, 'z) env_scheme, string option) state" where
  "ccci_get_node_name os row md = do {
     name \<leftarrow> (if md = 0 then do {
         v \<leftarrow> ccci_get_version os;
         ret (if v = 1 then Some (row ! 0) else if v = 2 then Some (row ! 1)
              else if v = 3 \<or> v = 5 \<or> v = 6 then Some (row ! 2) else None) }
       else if md = 1 then ret (Some (row ! 3))
       else if md = 2 then ret (Some (row ! 4))
       else if md = 4 then do {
         v \<leftarrow> ccci_get_version os;
         ret (Some (if v = 5 then row ! 6 else row ! 5)) }
       else ret None);
     ret (if name = Some INVALID_NAME then None else name) }"

text \<open>What \<open>snprintf\<close> with \<open>%s\<close> prints for a null pointer.\<close>

definition node_path :: "string option \<Rightarrow> string" where
  "node_path name = (case name of None \<Rightarrow> ''(null)'' | Some str \<Rightarrow> take 31 str)"

end
