(* ===== verification/Fsd_State.thy ===== *)
theory Fsd_State
  imports Ccci_Env
begin

unbundle bit_operations_syntax

text \<open>
  The state of the modem file-system daemon \<open>ccci_fsd\<close> and the operations on it that are
  not file-system operations themselves: the constants of \<open>ccci_fsd.h\<close>, the requests the
  daemon makes of its environment, the handle table \<open>g_FsInfo\<close>, and the few words of the
  C heap the daemon keeps (the file name and the search pattern of a handle).

  The environment (kernel, C library, property service, OTP library) is the parameter
  \<open>os\<close> of every definition.
  A C string that the code only logs is read for its address alone.
\<close>

section \<open>Constants\<close>

abbreviation (input) FS_NO_ERROR :: s32 where "FS_NO_ERROR \<equiv> 0"
abbreviation (input) FS_ERROR_RESERVED :: s32 where "FS_ERROR_RESERVED \<equiv> - 1"
abbreviation (input) FS_PARAM_ERROR :: s32 where "FS_PARAM_ERROR \<equiv> - 2"
abbreviation (input) FS_DRIVE_NOT_FOUND :: s32 where "FS_DRIVE_NOT_FOUND \<equiv> - 4"
abbreviation (input) FS_TOO_MANY_FILES :: s32 where "FS_TOO_MANY_FILES \<equiv> - 5"
abbreviation (input) FS_NO_MORE_FILES :: s32 where "FS_NO_MORE_FILES \<equiv> - 6"
abbreviation (input) FS_FILE_NOT_FOUND :: s32 where "FS_FILE_NOT_FOUND \<equiv> - 9"
abbreviation (input) FS_INVALID_FILE_HANDLE :: s32 where "FS_INVALID_FILE_HANDLE \<equiv> - 10"
abbreviation (input) FS_UNSUPPORTED_DRIVER_FUNCTION :: s32 where
  "FS_UNSUPPORTED_DRIVER_FUNCTION \<equiv> - 12"
abbreviation (input) FS_ACCESS_DENIED :: s32 where "FS_ACCESS_DENIED \<equiv> - 16"
abbreviation (input) FS_GENERAL_FAILURE :: s32 where "FS_GENERAL_FAILURE \<equiv> - 18"
abbreviation (input) FS_PATH_NOT_FOUND :: s32 where "FS_PATH_NOT_FOUND \<equiv> - 19"
abbreviation (input) FS_READ_ONLY_ERROR :: s32 where "FS_READ_ONLY_ERROR \<equiv> - 45"
abbreviation (input) FS_PATH_OVER_LEN_ERROR :: s32 where "FS_PATH_OVER_LEN_ERROR \<equiv> - 49"

abbreviation (input) FS_FILE_MAX :: nat where "FS_FILE_MAX \<equiv> 129"
abbreviation (input) FS_MAX_DIR_NUM :: nat where "FS_MAX_DIR_NUM \<equiv> 8"
abbreviation (input) FS_BUFFER_SLOT_NUM :: nat where "FS_BUFFER_SLOT_NUM \<equiv> 5"
abbreviation (input) PATH_MAX :: nat where "PATH_MAX \<equiv> 4096"
abbreviation (input) NAME_MAX :: nat where "NAME_MAX \<equiv> 255"
abbreviation (input) MAX_FS_PKT_BYTE :: nat where "MAX_FS_PKT_BYTE \<equiv> 3456"
abbreviation (input) INVALID_HANDLE_VALUE :: s32 where "INVALID_HANDLE_VALUE \<equiv> - 1"
abbreviation (input) FS_API_RESP_ID :: u32 where "FS_API_RESP_ID \<equiv> 0xFFFF0000"
abbreviation (input) CCCI_FS_REQ_SEND_AGAIN :: u32 where "CCCI_FS_REQ_SEND_AGAIN \<equiv> 0x80000000"

abbreviation (input) FS_ATTR_READ_ONLY :: s32 where "FS_ATTR_READ_ONLY \<equiv> 0x01"
abbreviation (input) FS_ATTR_DIR :: s32 where "FS_ATTR_DIR \<equiv> 0x10"

abbreviation (input) FS_READ_ONLY :: u32 where "FS_READ_ONLY \<equiv> 0x100"
abbreviation (input) FS_CREATE :: u32 where "FS_CREATE \<equiv> 0x10000"
abbreviation (input) FS_CREATE_ALWAYS :: u32 where "FS_CREATE_ALWAYS \<equiv> 0x20000"
abbreviation (input) FS_COMMITTED :: u32 where "FS_COMMITTED \<equiv> 0x1000000"
abbreviation (input) FS_NONBLOCK_MODE :: u32 where "FS_NONBLOCK_MODE \<equiv> 0x10000000"
abbreviation (input) FS_MOVE_COPY :: u32 where "FS_MOVE_COPY \<equiv> 1"
abbreviation (input) FS_MOVE_KILL :: u32 where "FS_MOVE_KILL \<equiv> 2"
abbreviation (input) FS_FILE_TYPE :: u32 where "FS_FILE_TYPE \<equiv> 4"
abbreviation (input) FS_DIR_TYPE :: u32 where "FS_DIR_TYPE \<equiv> 8"
abbreviation (input) FS_RECURSIVE_TYPE :: u32 where "FS_RECURSIVE_TYPE \<equiv> 0x10"
abbreviation (input) FS_MOVE_OVERWRITE :: u32 where "FS_MOVE_OVERWRITE \<equiv> 0x10000"

section \<open>The daemon's state\<close>

record FS_FILE_HANDLE =
  fInUse :: bool
  fSearch :: bool
  hFile :: s32
  Flag :: u32
  Attr :: u8
  AttrMask :: u8
  pFsFileName :: nat
  pFsSearchPattern :: nat

text \<open>
  A pointer of \<open>PackInfo\<close> leads into the shared buffer \<open>pFsBuf\<close> (an offset from its start)
  or into one of \<open>main\<close>'s local variables (an offset into the variable's bytes).
\<close>

datatype flocal = L_RetVal | L_FileSize | L_ReadByte | L_WriteByte | L_cmpt | L_cmptw
  | L_DosDirEntry | L_FileNameTemp | L_DiskInfo | L_FileDetail | L_Length

datatype pdata = PBuf nat | PLoc flocal nat

record FS_PACKET_INFO =
  Length :: u32
  pData :: pdata

record FS_INFO =
  FileNum :: u32
  hFileHandle :: "FS_FILE_HANDLE list"
  pFsBuf :: memory
  fs_buff_state :: "u8 list"
  fs_buff_offset :: "u32 list"

record SLOW_THAN_100MS_T =
  profiling :: bool
  slow_count :: s32
  totaltime :: s32

record 'w fsd = "(sysreq, 'w) env" +
  g_FsInfo :: FS_INFO
  FsRootDir :: "string list"
  stream_support :: bool
  DeviceFd :: s32
  FS_MAX_BUF_SIZE :: u32
  FS_MAX_ARG_NUM :: u32
  md_id :: u32
  slower_100ms :: SLOW_THAN_100MS_T
  otp_offset :: u32
  heap :: "nat \<Rightarrow> string option"
  heap_brk :: nat
  PackInfo :: "FS_PACKET_INFO list"
  locals :: "flocal \<Rightarrow> u8 list"
  aborted :: bool
  hung :: bool
  g_initialized :: bool
  g_error :: s32
  g_fds :: "s32 list"
  md_status_fd :: s32
  exit_signal :: s32

text \<open>
  \<open>aborted\<close> is set where the process ends itself; \<open>hung\<close> where a loop over a directory was cut off
  because the environment went on delivering entries beyond the number the definition allows.
\<close>

definition hang :: "('w fsd, unit) state" where
  "hang = modify (\<lambda>s. s\<lparr>hung := True\<rparr>)"

definition upd_info :: "(FS_INFO \<Rightarrow> FS_INFO) \<Rightarrow> ('w fsd, unit) state" where
  "upd_info f = modify (\<lambda>s. s\<lparr>g_FsInfo := f (g_FsInfo s)\<rparr>)"

definition get_handle :: "nat \<Rightarrow> ('w fsd, FS_FILE_HANDLE) state" where
  "get_handle i = gets (\<lambda>s. hFileHandle (g_FsInfo s) ! i)"

definition upd_handle :: "nat \<Rightarrow> (FS_FILE_HANDLE \<Rightarrow> FS_FILE_HANDLE) \<Rightarrow> ('w fsd, unit) state" where
  "upd_handle i f = upd_info (\<lambda>g. g\<lparr>hFileHandle := (hFileHandle g)[i := f (hFileHandle g ! i)]\<rparr>)"

section \<open>The heap words the daemon keeps\<close>

text \<open>
  \<open>malloc\<close> followed by \<open>memcpy\<close> of a string: 0 is NULL, other addresses are never reused,
  so that reading or freeing a freed block is visible.
\<close>

definition heap_strdup :: "'w os \<Rightarrow> string \<Rightarrow> ('w fsd, nat) state" where
  "heap_strdup os str = do {
     r \<leftarrow> syscall os (Sys_malloc (length str + 1));
     if r_ret r = 0 then ret 0
     else do {
       p \<leftarrow> gets (\<lambda>s. Suc (heap_brk s));
       modify (\<lambda>s. s\<lparr>heap := (heap s)(p \<mapsto> str), heap_brk := p\<rparr>);
       ret p } }"

definition heap_free :: "nat \<Rightarrow> ('w fsd, unit) state" where
  "heap_free p = (if p = 0 then ret () else do {
     h \<leftarrow> gets heap;
     if h p = None then fault else modify (\<lambda>s. s\<lparr>heap := (heap s)(p := None)\<rparr>) })"

text \<open>The string at \<open>p\<close> is read (here: to be printed by \<open>LOGE\<close>; bionic prints NULL as a text).\<close>

definition heap_str :: "nat \<Rightarrow> ('w fsd, string) state" where
  "heap_str p = (if p = 0 then ret [] else do {
     h \<leftarrow> gets heap;
     case h p of None \<Rightarrow> do { fault; ret [] } | Some str \<Rightarrow> ret str })"

definition log_file_name :: "nat \<Rightarrow> ('w fsd, unit) state" where
  "log_file_name i = do { h \<leftarrow> get_handle i; _ \<leftarrow> heap_str (pFsFileName h); ret () }"

section \<open>Reading and writing the shared buffer and main's locals\<close>

definition load :: "pdata \<Rightarrow> nat \<Rightarrow> 'w fsd \<Rightarrow> u8 list" where
  "load p n s = (case p of PBuf a \<Rightarrow> mread (pFsBuf (g_FsInfo s)) a n
     | PLoc l off \<Rightarrow> map (byte_at (locals s l)) [off..<off + n])"

text \<open>The buffer has five slots; writing past the last one is outside the allocation.\<close>

definition slot_head :: "'w fsd \<Rightarrow> nat" where
  "slot_head s = (if stream_support s then 20 else 4)"

definition buf_size :: "'w fsd \<Rightarrow> nat" where
  "buf_size s = (unat (FS_MAX_BUF_SIZE s) + slot_head s) * FS_BUFFER_SLOT_NUM"

definition store_buf :: "nat \<Rightarrow> u8 list \<Rightarrow> ('w fsd, unit) state" where
  "store_buf a bs = do {
     n \<leftarrow> gets buf_size;
     (if n < a + length bs then fault else ret ());
     upd_info (\<lambda>g. g\<lparr>pFsBuf := mwrite (pFsBuf g) a bs\<rparr>) }"

definition set_local :: "flocal \<Rightarrow> u8 list \<Rightarrow> ('w fsd, unit) state" where
  "set_local l bs = modify (\<lambda>s. s\<lparr>locals := (locals s)(l := bs)\<rparr>)"

end
