(* ===== verification/Fsd_Path.thy ===== *)
theory Fsd_Path
  imports Fsd_State
begin

text \<open>
  Names and paths of \<open>ccci_fsd.c\<close>: the error numbers given to the modem, the conversion of
  a 16-bit modem file name to a C string and back, the wildcard matcher used by the find
  operations, and the translation of a drive letter to a directory.
\<close>

section \<open>Definitions\<close>

definition FS_ErrorConv :: "s32 \<Rightarrow> s32" where
  "FS_ErrorConv err =
     (if err = EACCES then FS_ACCESS_DENIED
      else if err = ENOENT then FS_FILE_NOT_FOUND
      else if err = EMFILE then FS_TOO_MANY_FILES
      else FS_GENERAL_FAILURE)"

text \<open>
  \<open>FS_ConvWcsToCs\<close> reads every second byte of the name. The first argument of the loop is
  what is left of \<open>PATH_MAX - 1\<close> rounds, \<open>dst\<close> is \<open>strDst[0..length)\<close>. A name that would
  put a second full stop next to a first one is given up, with both stops in \<open>strDst\<close>.
  Bytes past the end of the list are read as zero.
\<close>

fun wcs_loop :: "nat \<Rightarrow> u8 list \<Rightarrow> string \<Rightarrow> s32 \<times> string" where
  "wcs_loop 0 ptr dst = (of_nat (length dst), dst)"
| "wcs_loop (Suc n) ptr dst =
     (let c = char_of_byte (byte_at ptr 0);
          c' = (if c = CHR 0x5C then CHR ''/'' else c)
      in if c \<noteq> CHR 0x5C \<and> c' = CHR ''.'' \<and> dst \<noteq> [] \<and> last dst = CHR ''.''
         then (- 1, dst @ [c'])
         else if byte_at ptr 2 = 0 then (of_nat (length dst + 1), dst @ [c'])
         else wcs_loop n (drop 2 ptr) (dst @ [c']))"

definition FS_ConvWcsToCs :: "u8 list \<Rightarrow> s32 \<times> string" where
  "FS_ConvWcsToCs strScr = wcs_loop (PATH_MAX - 1) strScr []"

text \<open>The C string the callers see in their zero-filled array \<open>ConvFileName\<close>.\<close>

definition conv_name :: "u8 list \<Rightarrow> string" where
  "conv_name strScr = cstr (snd (FS_ConvWcsToCs strScr))"

text \<open>
  \<open>FS_ConvCsToWcs\<close>: the source is the name of a directory entry, so it is not empty. The
  result is the length returned, the bytes of \<open>strDst\<close>, and whether the final truncation
  wrote in front of \<open>strDst\<close> (it does when \<open>MaxLength\<close> is 0).
\<close>

fun cs_loop :: "u32 \<Rightarrow> string \<Rightarrow> u32 \<Rightarrow> u8 list \<Rightarrow> u32 \<times> u8 list" where
  "cs_loop MaxLength [] len dst = (len, dst)"
| "cs_loop MaxLength (c # cs) len dst =
     (if len < MaxLength then
        let dst' = dst @ [byte_of_char (if c = CHR ''/'' then CHR 0x5C else c), 0]
        in if cs = [] then (len + 1, dst' @ [0, 0]) else cs_loop MaxLength cs (len + 1) dst'
      else (len, dst))"

definition FS_ConvCsToWcs :: "string \<Rightarrow> u32 \<Rightarrow> u32 \<times> u8 list \<times> bool" where
  "FS_ConvCsToWcs strScr MaxLength = (case cs_loop MaxLength strScr 0 [] of (len, dst) \<Rightarrow>
     if len = MaxLength then
       (if len = 0 then (len - 1, dst, True)
        else (len - 1, take (2 * unat (len - 1)) dst @ [0, 0] @ drop (2 * unat len) dst, False))
     else (len, dst, False))"

text \<open>Case-sensitive and case-insensitive pattern match.\<close>

fun PatMatch :: "string \<Rightarrow> string \<Rightarrow> bool" where
  "PatMatch [] str = (str = [])"
| "PatMatch (p # ps) str =
     (if p = CHR ''*'' then PatMatch ps str \<or> (case str of [] \<Rightarrow> False | _ # cs \<Rightarrow> PatMatch (p # ps) cs)
      else case str of [] \<Rightarrow> False | c # cs \<Rightarrow>
        if p = CHR ''?'' then PatMatch ps cs else p = c \<and> PatMatch ps cs)"

definition toupper :: "char \<Rightarrow> char" where
  "toupper c = (let n = of_char c :: nat in if 97 \<le> n \<and> n \<le> 122 then char_of (n - 32) else c)"

fun PatiMatch :: "string \<Rightarrow> string \<Rightarrow> bool" where
  "PatiMatch [] str = (str = [])"
| "PatiMatch (p # ps) str =
     (if p = CHR ''*'' then PatiMatch ps str \<or> (case str of [] \<Rightarrow> False | _ # cs \<Rightarrow> PatiMatch (p # ps) cs)
      else case str of [] \<Rightarrow> False | c # cs \<Rightarrow>
        if p = CHR ''?'' then PatiMatch ps cs else toupper p = toupper c \<and> PatiMatch ps cs)"

text \<open>The drives and the directories behind them, per modem.\<close>

definition MdRootDir :: "string list" where
  "MdRootDir = [''Z:'', ''X:'', ''Y:'', ''W:'', ''V:'', ''U:'', ''T:'', ''S:'']"

definition DrvIdx :: "u32 list" where
  "DrvIdx = map (\<lambda>c. of_nat (of_char c)) ''ZXYWVUTS''"

definition FS_ROOT_MDLPM :: string where "FS_ROOT_MDLPM = ''/data/vendor/mdlpm''"

definition FsRootDir_MD1 :: "string list" where
  "FsRootDir_MD1 = [''/mnt/vendor/nvdata/md'', ''/mnt/vendor/protect_f/md'',
     ''/mnt/vendor/protect_s/md'', ''/vendor/firmware'', ''/mnt/vendor/nvdata/md_cmn'',
     ''/data/vendor/mdlpm'', ''/vendor/etc/mdota'', ''/mnt/vendor/nvcfg'']"

definition FsRootDir_MD2 :: "string list" where
  "FsRootDir_MD2 = [''/mnt/vendor/nvdata/md2'', ''/mnt/vendor/protect_f/md2'',
     ''/mnt/vendor/protect_s/md2'', ''/vendor/firmware'', ''/mnt/vendor/nvdata/md_cmn'',
     [], [], []]"

definition FsRootDir_MD3 :: "string list" where
  "FsRootDir_MD3 = [''/mnt/vendor/nvdata/md3'', ''/mnt/vendor/protect_f/md3'',
     ''/mnt/vendor/protect_s/md3'', ''/vendor/firmware'', ''/mnt/vendor/nvdata/md3_v'',
     [], [], []]"

definition FsRootDir_MD5 :: "string list" where
  "FsRootDir_MD5 = [''/mnt/vendor/nvdata/md5'', ''/vendor/protect_f/md5'',
     ''/vendor/protect_s/md5'', ''/vendor/firmware'', ''/mnt/vendor/nvdata/md_cmn'',
     [], [], []]"

definition is_protect_path :: "string \<Rightarrow> bool" where
  "is_protect_path name = (take 2 name = ''X:'' \<or> take 2 name = ''Y:'')"

text \<open>
  The loop over \<open>MdRootDir\<close> that every operation on a name starts with: the first drive whose
  letter the name begins with; the path replaces the letter by the drive's directory.
\<close>

fun root_loop :: "string list \<Rightarrow> string list \<Rightarrow> nat \<Rightarrow> string \<Rightarrow> s32 + nat \<times> string" where
  "root_loop (d # ds) (r # rs) i name =
     (if take (length d) name = d then
        if length (drop (length d) name) + length r + 1 > PATH_MAX
        then Inl FS_PATH_OVER_LEN_ERROR
        else Inr (i, r @ drop (length d) name)
      else root_loop ds rs (Suc i) name)"
| "root_loop _ _ i name = Inl FS_PATH_NOT_FOUND"

definition map_path :: "string list \<Rightarrow> string \<Rightarrow> s32 + nat \<times> string" where
  "map_path roots name = root_loop MdRootDir roots 0 name"

section \<open>Name conversion\<close>

abbreviation DOTDOT :: string where "DOTDOT \<equiv> ''..''"

text \<open>The 16-bit encoding of a name the modem sends, and the change of path separators.\<close>

definition wcs :: "string \<Rightarrow> u8 list" where
  "wcs name = concat (map (\<lambda>c. [byte_of_char c, 0]) name) @ [0, 0]"

definition to_slash :: "char \<Rightarrow> char" where
  "to_slash c = (if c = CHR 0x5C then CHR ''/'' else c)"

lemma sublist_two_snoc:
  "sublist [a, a] (xs @ [b]) \<longleftrightarrow> sublist [a, a] xs \<or> (b = a \<and> xs \<noteq> [] \<and> last xs = a)"
proof -
  have "suffix [a, a] (xs @ [b]) \<longleftrightarrow> b = a \<and> xs \<noteq> [] \<and> last xs = a"
    by (cases xs rule: rev_cases) (auto simp: suffix_def)
  then show ?thesis by (auto simp: sublist_snoc)
qed

lemma sublist_two_single [simp]: "\<not> sublist [a, a] [b]"
  using sublist_two_snoc [of a "[]" b] by simp

lemma of_nat_not_minus_one: "n < PATH_MAX \<Longrightarrow> of_nat n \<noteq> (- 1 :: s32)"
proof
  assume "n < PATH_MAX" and eq: "of_nat n = (- 1 :: s32)"
  from eq have "unat (of_nat n :: s32) = unat (- 1 :: s32)" by (rule arg_cong)
  moreover have "unat (- 1 :: s32) = 2 ^ 32 - 1" by (simp add: unsigned_minus_1_eq_mask mask_eq_exp_minus_1)
  ultimately show False using \<open>n < PATH_MAX\<close> by (simp add: unat_of_nat)
qed

lemma wcs_loop_no_dotdot:
  "wcs_loop n ptr dst = (r, res) \<Longrightarrow> r \<noteq> - 1 \<Longrightarrow> \<not> sublist DOTDOT dst \<Longrightarrow> \<not> sublist DOTDOT res"
proof (induction n ptr dst rule: wcs_loop.induct)
  case (1 ptr dst)
  then show ?case by simp
next
  case (2 n ptr dst)
  then show ?case
    by (auto simp: Let_def sublist_two_snoc split: if_splits)
qed

lemma wcs_loop_rejected:
  "wcs_loop n ptr dst = (- 1, res) \<Longrightarrow> length dst + n < PATH_MAX \<Longrightarrow> \<not> sublist DOTDOT dst \<Longrightarrow>
   suffix DOTDOT res \<and> \<not> sublist DOTDOT (butlast res)"
proof (induction n ptr dst rule: wcs_loop.induct)
  case (1 ptr dst)
  then show ?case by (simp add: of_nat_not_minus_one)
next
  case (2 n ptr dst)
  let ?c = "char_of_byte (byte_at ptr 0)"
  show ?case
  proof (cases "?c = CHR ''.'' \<and> dst \<noteq> [] \<and> last dst = CHR ''.''")
    case True
    then obtain pre where "dst = pre @ [CHR ''.'']" by (metis append_butlast_last_id)
    with True "2.prems" show ?thesis by (auto simp: Let_def suffix_def butlast_append)
  next
    case False
    have "\<not> sublist DOTDOT (dst @ [to_slash ?c])"
      using False "2.prems"(3) by (auto simp: sublist_two_snoc to_slash_def)
    then show ?thesis
      using False "2.prems" "2.IH" of_nat_not_minus_one [of "Suc (length dst)"]
      by (auto simp: Let_def to_slash_def split: if_splits)
  qed
qed


text \<open>On a name the modem may send, the loop copies it with the separators changed, up to the
  first pair of full stops.\<close>

lemma wcs_Cons: "wcs (c # cs) = byte_of_char c # 0 # wcs cs"
  by (simp add: wcs_def)

lemma byte_at_wcs_0 [simp]: "byte_at (wcs cs @ rest) 0 = (case cs of [] \<Rightarrow> 0 | c # _ \<Rightarrow> byte_of_char c)"
  by (cases cs) (simp_all add: wcs_def byte_at_def)

lemma byte_at_wcs_2 [simp]:
  "byte_at (wcs (c # cs) @ rest) 2 = (case cs of [] \<Rightarrow> 0 | d # _ \<Rightarrow> byte_of_char d)"
  by (cases cs) (simp_all add: wcs_def byte_at_def)

lemma drop_wcs: "drop 2 (wcs (c # cs) @ rest) = wcs cs @ rest"
  by (simp add: wcs_def)

lemma wcs_loop_step:
  assumes "\<not> (c = CHR ''.'' \<and> dst \<noteq> [] \<and> last dst = CHR ''.'')" "NUL \<notin> set cs"
  shows "wcs_loop (Suc m) (wcs (c # cs) @ rest) dst =
    (if cs = [] then (of_nat (length dst + 1), dst @ [to_slash c])
     else wcs_loop m (wcs cs @ rest) (dst @ [to_slash c]))"
proof -
  have b0: "char_of_byte (byte_at (wcs (c # cs) @ rest) 0) = c" by simp
  have b2: "byte_at (wcs (c # cs) @ rest) 2 = 0 \<longleftrightarrow> cs = []"
    using assms(2) by (cases cs) auto
  show ?thesis
    using assms(1) unfolding wcs_loop.simps Let_def to_slash_def b0 b2 drop_wcs by auto
qed

lemma wcs_loop_copies:
  assumes "cs \<noteq> []" "NUL \<notin> set cs" "length cs \<le> n" "length dst + n < PATH_MAX"
    and "\<not> sublist DOTDOT (dst @ map to_slash cs)"
  shows "wcs_loop n (wcs cs @ rest) dst = (of_nat (length dst + length cs), dst @ map to_slash cs)"
  using assms
proof (induction cs arbitrary: n dst)
  case Nil
  then show ?case by simp
next
  case (Cons c cs)
  then obtain m where n: "n = Suc m" by (cases n) auto
  have nd: "\<not> (c = CHR ''.'' \<and> dst \<noteq> [] \<and> last dst = CHR ''.'')"
  proof
    assume "c = CHR ''.'' \<and> dst \<noteq> [] \<and> last dst = CHR ''.''"
    then have "sublist DOTDOT (dst @ [to_slash c])" by (auto simp: sublist_two_snoc to_slash_def)
    then have "sublist DOTDOT ((dst @ [to_slash c]) @ map to_slash cs)" by (rule sublist_appendI)
    with Cons.prems(5) show False by simp
  qed
  have "cs \<noteq> [] \<Longrightarrow> wcs_loop m (wcs cs @ rest) (dst @ [to_slash c])
      = (of_nat (length (dst @ [to_slash c]) + length cs), (dst @ [to_slash c]) @ map to_slash cs)"
    using Cons.prems n by (intro Cons.IH) auto
  then show ?case
    using Cons.prems(2) by (simp add: n wcs_loop_step [OF nd] del: wcs_loop.simps)
qed

definition to_backslash :: "char \<Rightarrow> char" where
  "to_backslash c = (if c = CHR ''/'' then CHR 0x5C else c)"

definition wcs_body :: "string \<Rightarrow> u8 list" where
  "wcs_body name = concat (map (\<lambda>c. [byte_of_char c, 0]) name)"

lemma wcs_body_simps [simp]:
  "wcs_body [] = []" "wcs_body (c # cs) = byte_of_char c # 0 # wcs_body cs"
  by (simp_all add: wcs_body_def)

lemma wcs_eq_body: "wcs name = wcs_body name @ [0, 0]"
  by (simp add: wcs_def wcs_body_def)

lemma length_wcs_body [simp]: "length (wcs_body cs) = 2 * length cs"
  by (induction cs) auto

lemma take_wcs_body: "take (2 * n) (wcs_body cs) = wcs_body (take n cs)"
proof (induction cs arbitrary: n)
  case (Cons c cs)
  then show ?case by (cases n) simp_all
qed simp

lemma cs_loop_eq:
  assumes "cs \<noteq> []" "unat len \<le> unat M"
  shows "cs_loop M cs len dst =
    (if unat len + length cs \<le> unat M
     then (len + of_nat (length cs), dst @ wcs (map to_backslash cs))
     else (M, dst @ wcs_body (map to_backslash (take (unat M - unat len) cs))))"
  using assms
proof (induction M cs len dst rule: cs_loop.induct)
  case (1 M len dst)
  then show ?case by simp
next
  case (2 M c cs len dst)
  show ?case
  proof (cases "len < M")
    case False
    then have "len = M" using "2.prems" by (simp add: word_le_nat_alt [symmetric])
    then show ?thesis using False by simp
  next
    case True
    then have l: "unat len < unat M" by (simp add: word_less_nat_alt)
    then have su: "unat (len + 1) = Suc (unat len)"
      using unat_u32_less [of M] by (simp add: unat_word_ariths)
    have tk: "take (unat M - unat len) (c # cs) = c # take (unat M - unat (len + 1)) cs"
      using l by (simp add: su take_Cons')
    show ?thesis
    proof (cases "cs = []")
      case True
      then show ?thesis using \<open>len < M\<close> l by (simp add: wcs_def to_backslash_def)
    next
      case False
      with "2.IH" [OF \<open>len < M\<close> refl] l su
      show ?thesis
        unfolding tk using \<open>len < M\<close>
        by (simp add: to_backslash_def [of c] wcs_eq_body Let_def)
    qed
  qed
qed

lemma FS_ConvWcsToCs_wcs:
  assumes "name \<noteq> []" "NUL \<notin> set name" "length name < PATH_MAX" "\<not> sublist DOTDOT name"
  shows "FS_ConvWcsToCs (wcs name @ rest) = (of_nat (length name), map to_slash name)"
proof -
  have "sublist DOTDOT (map to_slash name) \<Longrightarrow> sublist DOTDOT name"
  proof -
    assume "sublist DOTDOT (map to_slash name)"
    then obtain ps ss where "map to_slash name = ps @ DOTDOT @ ss" by (auto simp: sublist_def)
    then obtain as bs where n: "name = as @ bs" and b: "map to_slash bs = DOTDOT @ ss"
      by (auto simp: map_eq_append_conv)
    from b obtain x y zs where "bs = x # y # zs" "to_slash x = CHR ''.''" "to_slash y = CHR ''.''"
      by (auto simp: map_eq_Cons_conv)
    then have "name = as @ DOTDOT @ zs" using n by (auto simp: to_slash_def split: if_splits)
    then show ?thesis by (auto simp: sublist_def)
  qed
  then show ?thesis
    unfolding FS_ConvWcsToCs_def using assms wcs_loop_copies [of name "PATH_MAX - 1" "[]" rest] by auto
qed

section \<open>Properties of the name conversion\<close>

text \<open>
  conversion of a modem file name. A name of at most \<open>PATH_MAX - 1\<close> characters that holds
  no NUL and no two adjacent full stops is converted to the same name with every backslash
  replaced by a slash, and its length is returned; whatever follows the name's terminator in
  the request is not looked at.
\<close>

theorem FS_ConvWcsToCs_correct:
  assumes "name \<noteq> []" "NUL \<notin> set name" "length name < PATH_MAX" "\<not> sublist DOTDOT name"
  shows "FS_ConvWcsToCs (wcs name @ rest) = (of_nat (length name), map to_slash name)"
  using assms by (rule FS_ConvWcsToCs_wcs)

theorem FS_ConvWcsToCs_correct_witness:
  "FS_ConvWcsToCs (wcs [CHR ''Z'', CHR '':'', CHR 0x5C, CHR ''a''] @ [7]) = (4, ''Z:/a'')"
  using FS_ConvWcsToCs_correct [of "[CHR ''Z'', CHR '':'', CHR 0x5C, CHR ''a'']" "[7]"]
  by (simp add: sublist_code to_slash_def)

text \<open>
  a converted name never holds two adjacent full stops unless the conversion returned -1;
  and when it did, the pair is the last thing in the destination array, which holds no other.
\<close>

theorem FS_ConvWcsToCs_no_dotdot:
  "FS_ConvWcsToCs ptr = (r, dst) \<Longrightarrow>
     (if r = - 1 then suffix DOTDOT dst \<and> \<not> sublist DOTDOT (butlast dst) else \<not> sublist DOTDOT dst)"
  unfolding FS_ConvWcsToCs_def
  using wcs_loop_no_dotdot [of "PATH_MAX - 1" ptr "[]" r dst]
    wcs_loop_rejected [of "PATH_MAX - 1" ptr "[]" dst] by auto

theorem FS_ConvWcsToCs_no_dotdot_witness:
  "FS_ConvWcsToCs (wcs ''Z:/../a'') = (- 1, ''Z:/..'') \<and>
   suffix DOTDOT ''Z:/..'' \<and> \<not> sublist DOTDOT (butlast ''Z:/..'')"
proof -
  have e: "FS_ConvWcsToCs (wcs ''Z:/../a'') = (- 1, ''Z:/..'')"
    by code_simp
  show ?thesis using e FS_ConvWcsToCs_no_dotdot [OF e] by simp
qed

lemma to_slash_to_backslash: "c \<noteq> CHR 0x5C \<Longrightarrow> to_slash (to_backslash c) = c"
  by (simp add: to_slash_def to_backslash_def)

lemma FS_ConvCsToWcs_fits:
  assumes "name \<noteq> []" "length name < unat M"
  shows "FS_ConvCsToWcs name M = (of_nat (length name), wcs (map to_backslash name), False)"
proof -
  have "of_nat (length name) \<noteq> M"
    using assms(2) unat_u32_less [of M] by (auto simp: unat_of_nat)
  then show ?thesis
    using assms by (simp add: FS_ConvCsToWcs_def cs_loop_eq)
qed

lemma FS_ConvCsToWcs_truncates:
  assumes "unat M \<le> length name" "0 < M"
  shows "\<exists>rest. FS_ConvCsToWcs name M =
    (M - 1, wcs (map to_backslash (take (unat M - 1) name)) @ rest, False)"
proof -
  have M0: "unat M \<noteq> 0" "M \<noteq> 0" using assms(2) by (auto simp: unat_eq_0)
  then have ne: "name \<noteq> []" using assms(1) by auto
  have um: "unat (M - 1) = unat M - 1" using M0 by (simp add: unat_sub word_le_nat_alt)
  show ?thesis
  proof (cases "unat M = length name")
    case True
    then have "of_nat (length name) = M" by (simp flip: True)
    then show ?thesis
      using True ne M0 um by (simp add: FS_ConvCsToWcs_def cs_loop_eq wcs_eq_body take_wcs_body take_map)
  next
    case False
    then show ?thesis
      using assms ne M0 um
      by (simp add: FS_ConvCsToWcs_def cs_loop_eq wcs_eq_body take_wcs_body take_map min_def)
  qed
qed

text \<open>
  C34: a directory entry's name given to the modem and sent back unchanged names the same file:
  converting to 16-bit characters (with room for the name and its terminator) and back is the
  identity on names without backslashes, NULs and adjacent full stops.
\<close>

theorem name_round_trip:
  assumes "name \<noteq> []" "length name < unat MaxLength" "length name < PATH_MAX"
    and "NUL \<notin> set name" "CHR 0x5C \<notin> set name" "\<not> sublist DOTDOT name"
  shows "\<exists>dst. FS_ConvCsToWcs name MaxLength = (of_nat (length name), dst, False) \<and>
    FS_ConvWcsToCs dst = (of_nat (length name), name)"
proof -
  have id: "map to_slash (map to_backslash name) = name"
    using assms(5) by (induction name) (auto simp: to_slash_to_backslash)
  have nd: "\<not> sublist DOTDOT (map to_backslash name)"
  proof
    assume "sublist DOTDOT (map to_backslash name)"
    then have "sublist (map to_slash DOTDOT) (map to_slash (map to_backslash name))"
      by (rule map_mono_sublist)
    then show False using assms(6) unfolding id by (simp add: to_slash_def)
  qed
  have "FS_ConvWcsToCs (wcs (map to_backslash name) @ []) = (of_nat (length name), name)"
    using FS_ConvWcsToCs_wcs [of "map to_backslash name" "[]"] assms nd id
    by (auto simp: to_backslash_def split: if_splits)
  then show ?thesis using FS_ConvCsToWcs_fits assms(1,2) by simp
qed

theorem name_round_trip_witness:
  "\<exists>dst. FS_ConvCsToWcs ''a/b'' 8 = (3, dst, False) \<and> FS_ConvWcsToCs dst = (3, ''a/b'')"
  using name_round_trip [of "''a/b''" 8] by (simp add: sublist_code)

section \<open>The wildcard matcher\<close>

text \<open>What a pattern means: a star stands for any run of characters, a question mark for one
  character, everything else for itself.\<close>

inductive glob :: "string \<Rightarrow> string \<Rightarrow> bool" where
  glob_Nil: "glob [] []"
| glob_star: "glob ps str \<Longrightarrow> glob (CHR ''*'' # ps) (skipped @ str)"
| glob_any: "glob ps str \<Longrightarrow> glob (CHR ''?'' # ps) (c # str)"
| glob_char: "c \<noteq> CHR ''*'' \<Longrightarrow> c \<noteq> CHR ''?'' \<Longrightarrow> glob ps str \<Longrightarrow> glob (c # ps) (c # str)"

inductive_cases glob_NilE: "glob [] str"
inductive_cases glob_starE: "glob (CHR ''*'' # ps) str"
inductive_cases glob_ConsE: "glob (p # ps) str"

lemma PatMatch_Cons_simps [simp]:
  "PatMatch (p # ps) [] \<longleftrightarrow> p = CHR ''*'' \<and> PatMatch ps []"
  "PatMatch (p # ps) (c # cs) \<longleftrightarrow>
     (if p = CHR ''*'' then PatMatch ps (c # cs) \<or> PatMatch (p # ps) cs
      else if p = CHR ''?'' then PatMatch ps cs else p = c \<and> PatMatch ps cs)"
  by (subst PatMatch.simps; simp)+

lemma PatiMatch_Cons_simps [simp]:
  "PatiMatch (p # ps) [] \<longleftrightarrow> p = CHR ''*'' \<and> PatiMatch ps []"
  "PatiMatch (p # ps) (c # cs) \<longleftrightarrow>
     (if p = CHR ''*'' then PatiMatch ps (c # cs) \<or> PatiMatch (p # ps) cs
      else if p = CHR ''?'' then PatiMatch ps cs else toupper p = toupper c \<and> PatiMatch ps cs)"
  by (subst PatiMatch.simps; simp)+

declare PatMatch.simps(2) [simp del] PatiMatch.simps(2) [simp del]

lemma PatMatch_sound: "PatMatch pat str \<Longrightarrow> glob pat str"
proof (induction pat str rule: PatMatch.induct)
  case (1 str)
  then show ?case by (simp add: glob_Nil)
next
  case (2 p ps str)
  show ?case
  proof (cases "p = CHR ''*''")
    case True
    then consider "PatMatch ps str" | c cs where "str = c # cs" "PatMatch (p # ps) cs"
      using "2.prems" by (cases str) auto
    then show ?thesis
    proof cases
      case 1
      then have "glob ps str" using "2.IH"(1) True by simp
      then show ?thesis using glob_star [of ps str "[]"] True by simp
    next
      case (2 c cs)
      then have "glob (CHR ''*'' # ps) cs" using "2.IH"(2) True by simp
      then obtain sk rest where "cs = sk @ rest" "glob ps rest" by (auto elim: glob_starE)
      then show ?thesis using glob_star [of ps rest "c # sk"] True \<open>str = c # cs\<close> by simp
    qed
  next
    case False
    then obtain c cs where "str = c # cs" using "2.prems" by (cases str) auto
    then show ?thesis
      using False "2.prems" "2.IH"(3,4) by (auto intro: glob_any glob_char split: if_splits)
  qed
qed

lemma PatMatch_star_skip: "PatMatch ps str \<Longrightarrow> PatMatch (CHR ''*'' # ps) (skipped @ str)"
proof (induction skipped)
  case Nil
  then show ?case by (cases str) auto
qed simp

lemma PatMatch_complete: "glob pat str \<Longrightarrow> PatMatch pat str"
  by (induction rule: glob.induct) (simp_all add: PatMatch_star_skip)

text \<open>
  C35: \<open>PatMatch\<close> decides exactly the wildcard language of the pattern.
\<close>

theorem PatMatch_glob: "PatMatch pat str \<longleftrightarrow> glob pat str"
  by (auto intro: PatMatch_sound PatMatch_complete)

lemma of_char_toupper:
  "of_char (toupper c) = (let n = of_char c :: nat in if 97 \<le> n \<and> n \<le> 122 then n - 32 else n)"
  by (auto simp: toupper_def Let_def)

lemma toupper_wildcard [simp]:
  "toupper c = CHR ''*'' \<longleftrightarrow> c = CHR ''*''" "toupper c = CHR ''?'' \<longleftrightarrow> c = CHR ''?''"
proof -
  have e: "\<And>d. c = d \<longleftrightarrow> (of_char c :: nat) = of_char d" "\<And>d. toupper c = d \<longleftrightarrow> (of_char (toupper c) :: nat) = of_char d"
    by simp_all
  show "toupper c = CHR ''*'' \<longleftrightarrow> c = CHR ''*''" "toupper c = CHR ''?'' \<longleftrightarrow> c = CHR ''?''"
    unfolding e of_char_toupper Let_def by auto
qed

text \<open>
  \<open>PatiMatch\<close> is \<open>PatMatch\<close> on the upper-case pattern and name.
\<close>

theorem PatiMatch_upper: "PatiMatch pat str \<longleftrightarrow> PatMatch (map toupper pat) (map toupper str)"
proof (induction pat str rule: PatiMatch.induct)
  case (1 str)
  then show ?case by simp
next
  case (2 p ps str)
  then show ?case by (cases str) auto
qed

section \<open>Drives and directories\<close>

lemma root_loop_Inr:
  assumes "root_loop ds rs i name = Inr (k, path)"
  shows "\<exists>j. k = i + j \<and> j < length ds \<and> j < length rs \<and> take (length (ds ! j)) name = ds ! j \<and>
    path = rs ! j @ drop (length (ds ! j)) name \<and> length path < PATH_MAX"
  using assms
proof (induction ds rs i name rule: root_loop.induct)
  case (1 d ds r rs i name)
  show ?case
  proof (cases "take (length d) name = d")
    case True
    then show ?thesis using "1.prems" by (intro exI [of _ 0]) (auto split: if_splits)
  next
    case False
    then obtain j where "k = Suc i + j \<and> j < length ds \<and> j < length rs \<and>
        take (length (ds ! j)) name = ds ! j \<and> path = rs ! j @ drop (length (ds ! j)) name \<and>
        length path < PATH_MAX"
      using 1 by auto
    then show ?thesis by (intro exI [of _ "Suc j"]) auto
  qed
qed auto

lemma length_MdRootDir [simp]: "length MdRootDir = 8"
  by (simp add: MdRootDir_def)

lemma MdRootDir_length2: "j < 8 \<Longrightarrow> length (MdRootDir ! j) = 2"
proof -
  have "\<forall>d \<in> set MdRootDir. length d = 2" by (simp add: MdRootDir_def)
  then show "j < 8 \<Longrightarrow> length (MdRootDir ! j) = 2" by (metis length_MdRootDir nth_mem)
qed

lemma map_path_Inr:
  assumes "map_path roots name = Inr (k, path)"
  shows "k < 8 \<and> k < length roots \<and> take 2 name = MdRootDir ! k \<and> path = roots ! k @ drop 2 name \<and>
    length path < PATH_MAX"
  using root_loop_Inr [OF assms [unfolded map_path_def]] MdRootDir_length2 by auto

text \<open>
  a name that begins with a drive letter of the table is mapped to that drive's directory
  followed by the rest of the name, or refused for its length; the drive is found whatever
  the others are.
\<close>

theorem map_path_drive:
  assumes "length roots = FS_MAX_DIR_NUM" "k < FS_MAX_DIR_NUM"
  shows "map_path roots (MdRootDir ! k @ rest) =
    (if length rest + length (roots ! k) + 1 > PATH_MAX then Inl FS_PATH_OVER_LEN_ERROR
     else Inr (k, roots ! k @ rest))"
proof -
  obtain a b c d e f g h where r: "roots = [a, b, c, d, e, f, g, h]"
    using assms(1) by (auto simp: length_Suc_conv eval_nat_numeral)
  consider "k = 0" | "k = 1" | "k = 2" | "k = 3" | "k = 4" | "k = 5" | "k = 6" | "k = 7"
    using assms(2) by linarith
  then show ?thesis
    by cases (simp_all add: map_path_def MdRootDir_def r)
qed

theorem map_path_drive_witness:
  "map_path FsRootDir_MD1 (MdRootDir ! 1 @ ''/NVD'') = Inr (1, ''/mnt/vendor/protect_f/md/NVD'')"
  using map_path_drive [of FsRootDir_MD1 1 "''/NVD''"] by (simp add: FsRootDir_MD1_def)

text \<open>
  The separator after the drive letter is not required, so drive Z of the first modem also
  reaches the directories whose names extend its own: here the third modem's.
\<close>

theorem drive_Z_reaches_md3:
  "map_path FsRootDir_MD1 ''Z:3/NVD'' = map_path FsRootDir_MD3 ''Z:/NVD''"
  by (simp add: map_path_def MdRootDir_def FsRootDir_MD1_def FsRootDir_MD3_def)

end
