(* ===== verification/Fsd_Handle.thy ===== *)
theory Fsd_Handle
  imports Fsd_Path
begin

unbundle bit_operations_syntax

text \<open>
  The handle table of \<open>ccci_fsd.c\<close> and the operations on an open file: \<open>FS_GetFreeHandle\<close>,
  \<open>FS_CCCI_Open\<close>, \<open>FS_CCCI_Seek\<close>, \<open>FS_CCCI_Read\<close>, \<open>FS_CCCI_Write\<close>, \<open>FS_CCCI_Close\<close>,
  \<open>FS_CCCI_CloseAll\<close>, \<open>FS_CCCI_GetFileSize\<close>. A handle is an index of the table; the guard at
  the head of every operation is \<open>check_handle\<close>.

  The operations that fill a variable of the caller (\<open>*ReadByte\<close>, \<open>*WriteByte\<close>,
  \<open>*pFileSize\<close>) return the value stored there, or None where they leave it as it was.
\<close>

section \<open>Definitions\<close>

definition first_free :: "FS_FILE_HANDLE list \<Rightarrow> nat option" where
  "first_free hs = find (\<lambda>i. \<not> fInUse (hs ! i)) [1..<FS_FILE_MAX]"

definition FS_GetFreeHandle :: "('w fsd, u32) state" where
  "FS_GetFreeHandle = do {
     g \<leftarrow> gets g_FsInfo;
     ret (if of_nat FS_FILE_MAX \<le> FileNum g then 0xFFFFFFFF
       else case first_free (hFileHandle g) of
         Some i \<Rightarrow> of_nat i
       | None \<Rightarrow> 0xFFFFFFFF) }"

text \<open>The guard of the operations on a handle; the failing second test logs the file name.\<close>

definition check_handle :: "u32 \<Rightarrow> ('w fsd, bool) state" where
  "check_handle HandleIndex =
     (if of_nat FS_FILE_MAX \<le> HandleIndex then ret False
      else do {
        g \<leftarrow> gets g_FsInfo;
        h \<leftarrow> get_handle (unat HandleIndex);
        if FileNum g = 0 \<or> hFile h = INVALID_HANDLE_VALUE \<or> \<not> fInUse h
        then do { log_file_name (unat HandleIndex); ret False }
        else ret True })"

text \<open>\<open>CCCI_Dump_FS_Path\<close>: which of the directories above a file that could not be opened are
  missing; when it is the modem's own root directory the process is made to crash.\<close>

definition last_slash :: "string \<Rightarrow> nat option" where
  "last_slash str = find (\<lambda>i. str ! i = CHR ''/'') (rev [0..<length str])"

definition first_slash :: "string \<Rightarrow> nat option" where
  "first_slash str = find (\<lambda>i. str ! i = CHR ''/'') [0..<length str]"

primrec dump_loop :: "'w os \<Rightarrow> nat \<Rightarrow> nat \<Rightarrow> string \<Rightarrow> string \<Rightarrow> bool \<Rightarrow> ('w fsd, bool) state" where
  "dump_loop os 0 head backup new trigger = ret trigger"
| "dump_loop os (Suc n) head backup new trigger =
     (case last_slash backup of
        None \<Rightarrow> ret trigger
      | Some tail \<Rightarrow>
          if tail - head \<noteq> 0 then do {
            let copied = take (tail - head + 1) (take tail backup @ [NUL]);
            let new' = copied @ drop (length copied) new;
            r \<leftarrow> syscall os (Sys_access (cstr new'));
            let hit = r_ret r <s 0 \<and>
              (cstr new' = ''/mnt/vendor/nvdata/md'' \<or> cstr new' = ''/mnt/vendor/nvdata'');
            dump_loop os n head (take tail backup) new' (trigger \<or> hit) }
          else ret trigger)"

definition CCCI_Dump_FS_Path :: "'w os \<Rightarrow> string \<Rightarrow> ('w fsd, unit) state" where
  "CCCI_Dump_FS_Path os FsFileName = do {
     need_trigger_ne \<leftarrow> (case first_slash FsFileName of
         None \<Rightarrow> ret False
       | Some head \<Rightarrow> dump_loop os 3 head FsFileName [] False);
     if need_trigger_ne then modify (\<lambda>s. s\<lparr>aborted := True\<rparr>) else ret () }"

definition linux_flags :: "u32 \<Rightarrow> u32" where
  "linux_flags Flg =
     (if Flg AND FS_READ_ONLY \<noteq> 0 then O_RDONLY else O_RDWR)
     OR (if Flg AND FS_CREATE \<noteq> 0 then O_CREAT OR O_RDWR else 0)
     OR (if Flg AND FS_CREATE_ALWAYS \<noteq> 0 then O_CREAT OR O_RDWR OR O_TRUNC else 0)
     OR (if Flg AND FS_NONBLOCK_MODE \<noteq> 0 then O_NONBLOCK else 0)"

text \<open>The path that is opened: drive W names the DSP image of the modem, whatever follows the
  drive letter.\<close>

definition open_path :: "'w os \<Rightarrow> string \<Rightarrow> nat \<Rightarrow> string \<Rightarrow> ('w fsd, string) state" where
  "open_path os name i path =
     (if take 2 name = ''W:'' then do {
        dev \<leftarrow> gets DeviceFd;
        root \<leftarrow> gets (\<lambda>s. FsRootDir s ! i);
        r \<leftarrow> syscall os (Sys_get_ext_md_post_fix dev);
        let post_fix = (case r_name r of None \<Rightarrow> [] | Some str \<Rightarrow> str);
        let file = root @ ''/dsp_'' @ post_fix @ ''.bin'';
        a \<leftarrow> syscall os (Sys_access file);
        ret (if r_ret a \<noteq> 0 then ''/custom/etc/firmware'' @ ''/dsp_'' @ post_fix @ ''.bin''
             else file) }
      else ret path)"

text \<open>The second half of \<open>FS_CCCI_Open\<close>: a free entry, the descriptor, the entry filled in. When
  the name cannot be stored the entry stays in use and the error is returned.\<close>

definition open_handle :: "'w os \<Rightarrow> string \<Rightarrow> u32 \<Rightarrow> ('w fsd, s32) state" where
  "open_handle os FsFileName Flg = do {
     HandleIndex \<leftarrow> FS_GetFreeHandle;
     if HandleIndex = 0xFFFFFFFF then ret FS_TOO_MANY_FILES
     else do {
       r \<leftarrow> syscall os (Sys_open FsFileName (linux_flags Flg) 0x1B0);
       if r_ret r = INVALID_HANDLE_VALUE then do {
         CCCI_Dump_FS_Path os FsFileName;
         ret (FS_ErrorConv (r_errno r)) }
       else do {
         upd_info (\<lambda>g. g\<lparr>FileNum := FileNum g + 1\<rparr>);
         upd_handle (unat HandleIndex)
           (\<lambda>h. h\<lparr>hFile := r_ret r, fInUse := True, Flag := Flg, fSearch := False\<rparr>);
         p \<leftarrow> heap_strdup os FsFileName;
         upd_handle (unat HandleIndex) (\<lambda>h. h\<lparr>pFsFileName := p\<rparr>);
         ret (if p = 0 then FS_ERROR_RESERVED else HandleIndex) } } }"

definition FS_CCCI_Open :: "'w os \<Rightarrow> u8 list \<Rightarrow> u32 \<Rightarrow> ('w fsd, s32) state" where
  "FS_CCCI_Open os FileName Flg =
     (if fst (FS_ConvWcsToCs FileName) <s 0 then ret FS_ACCESS_DENIED
      else do {
        roots \<leftarrow> gets FsRootDir;
        let ConvFileName = conv_name FileName;
        case map_path roots ConvFileName of
          Inl e \<Rightarrow> ret e
        | Inr (i, path) \<Rightarrow> do {
            FsFileName \<leftarrow> open_path os ConvFileName i path;
            open_handle os FsFileName Flg } })"

definition FS_CCCI_Seek :: "'w os \<Rightarrow> u32 \<Rightarrow> s32 \<Rightarrow> s32 \<Rightarrow> ('w fsd, s32) state" where
  "FS_CCCI_Seek os HandleIndex Offset Whence = do {
     ok \<leftarrow> check_handle HandleIndex;
     if \<not> ok then ret FS_INVALID_FILE_HANDLE
     else if Whence \<noteq> 0 \<and> Whence \<noteq> 1 \<and> Whence \<noteq> 2 then ret FS_PARAM_ERROR
     else do {
       h \<leftarrow> get_handle (unat HandleIndex);
       r \<leftarrow> syscall os (Sys_lseek (hFile h) Offset Whence);
       if r_ret r = - 1 then do {
         log_file_name (unat HandleIndex);
         ret (FS_ErrorConv (r_errno r)) }
       else ret (r_ret r) } }"

definition FS_CCCI_Read ::
  "'w os \<Rightarrow> u32 \<Rightarrow> nat \<Rightarrow> u32 \<Rightarrow> ('w fsd, s32 \<times> u32 option) state" where
  "FS_CCCI_Read os HandleIndex pBuffer NumOfByte = do {
     ok \<leftarrow> check_handle HandleIndex;
     if \<not> ok then ret (FS_INVALID_FILE_HANDLE, None)
     else do {
       h \<leftarrow> get_handle (unat HandleIndex);
       r \<leftarrow> syscall os (Sys_read (hFile h) NumOfByte);
       store_buf pBuffer (r_data r);
       if r_ret r = - 1 then do {
         log_file_name (unat HandleIndex);
         ret (FS_ErrorConv (r_errno r), Some (r_ret r)) }
       else ret (FS_NO_ERROR, Some (r_ret r)) } }"

text \<open>The time measurements of \<open>PROFILE_NVRAM_API\<close>: C division truncates towards zero.\<close>

definition c_div :: "int \<Rightarrow> int \<Rightarrow> int" where
  "c_div a b = sgn a * sgn b * (\<bar>a\<bar> div \<bar>b\<bar>)"

definition elapsed_borrow :: "int \<times> int \<Rightarrow> int \<times> int \<Rightarrow> s32" where
  "elapsed_borrow start stop =
     (if snd stop < snd start
      then word_of_int (c_div (1000000000 + snd stop - snd start) 1000000
             + (fst stop - fst start - 1) * 1000)
      else word_of_int (c_div (snd stop - snd start) 1000000 + (fst stop - fst start) * 1000))"

definition elapsed_plain :: "int \<times> int \<Rightarrow> int \<times> int \<Rightarrow> s32" where
  "elapsed_plain start stop =
     word_of_int ((fst stop - fst start) * 1000 + c_div (snd stop - snd start) 1000000)"

definition profile :: "(int \<times> int \<Rightarrow> int \<times> int \<Rightarrow> s32) \<Rightarrow> 'w os \<Rightarrow> int \<times> int \<Rightarrow> ('w fsd, unit) state" where
  "profile elapsed os start = do {
     on \<leftarrow> gets (\<lambda>s. profiling (slower_100ms s));
     if on then do {
       r \<leftarrow> syscall os Sys_clock_gettime;
       let ms = elapsed start (r_time r);
       if 100 <s ms then
         modify (\<lambda>s. s\<lparr>slower_100ms := (slower_100ms s)\<lparr>
           slow_count := slow_count (slower_100ms s) + 1,
           totaltime := totaltime (slower_100ms s) + ms\<rparr>\<rparr>)
       else ret () }
     else ret () }"

definition FS_CCCI_Write ::
  "'w os \<Rightarrow> u32 \<Rightarrow> u8 list \<Rightarrow> ('w fsd, s32 \<times> u32 option) state" where
  "FS_CCCI_Write os HandleIndex bytes_out = do {
     ok \<leftarrow> check_handle HandleIndex;
     if \<not> ok then ret (FS_INVALID_FILE_HANDLE, None)
     else do {
       h \<leftarrow> get_handle (unat HandleIndex);
       start \<leftarrow> syscall os Sys_clock_gettime;
       r \<leftarrow> syscall os (Sys_write (hFile h) bytes_out);
       profile elapsed_borrow os (r_time start);
       if r_ret r = - 1 then do {
         log_file_name (unat HandleIndex);
         ret (FS_ErrorConv (r_errno r), Some (r_ret r)) }
       else ret (FS_NO_ERROR, Some (r_ret r)) } }"

text \<open>The end of every successful close: the entry is marked free, its file name released.\<close>

definition release_handle :: "nat \<Rightarrow> ('w fsd, unit) state" where
  "release_handle i = do {
     upd_handle i (\<lambda>h. h\<lparr>hFile := INVALID_HANDLE_VALUE, fInUse := False\<rparr>);
     h \<leftarrow> get_handle i;
     heap_free (pFsFileName h);
     upd_info (\<lambda>g. g\<lparr>FileNum := FileNum g - 1\<rparr>) }"

text \<open>The two branches of \<open>FS_CCCI_Close\<close>: a search handle holds a directory stream.\<close>

definition close_search :: "'w os \<Rightarrow> u32 \<Rightarrow> FS_FILE_HANDLE \<Rightarrow> ('w fsd, s32) state" where
  "close_search os HandleIndex h = do {
     r \<leftarrow> syscall os (Sys_closedir (hFile h));
     if r_ret r \<noteq> 0 then do {
       log_file_name (unat HandleIndex);
       ret (FS_ErrorConv (r_errno r)) }
     else do { release_handle (unat HandleIndex); ret FS_NO_ERROR } }"

definition sync_file :: "'w os \<Rightarrow> u32 \<Rightarrow> FS_FILE_HANDLE \<Rightarrow> ('w fsd, unit) state" where
  "sync_file os HandleIndex h =
     (if Flag h AND (FS_CREATE OR FS_CREATE_ALWAYS OR FS_COMMITTED) \<noteq> 0 then do {
        r \<leftarrow> syscall os (Sys_fsync (hFile h));
        if r_ret r <s 0 then log_file_name (unat HandleIndex) else ret () }
      else ret ())"

definition close_file :: "'w os \<Rightarrow> u32 \<Rightarrow> FS_FILE_HANDLE \<Rightarrow> ('w fsd, s32) state" where
  "close_file os HandleIndex h = do {
     sync_file os HandleIndex h;
     start \<leftarrow> syscall os Sys_clock_gettime;
     r \<leftarrow> syscall os (Sys_close (hFile h));
     if r_ret r = - 1 then do {
       log_file_name (unat HandleIndex);
       ret (FS_ErrorConv (r_errno r)) }
     else do {
       profile elapsed_borrow os (r_time start);
       release_handle (unat HandleIndex);
       ret FS_NO_ERROR } }"

definition FS_CCCI_Close :: "'w os \<Rightarrow> u32 \<Rightarrow> ('w fsd, s32) state" where
  "FS_CCCI_Close os HandleIndex = do {
     ok \<leftarrow> check_handle HandleIndex;
     if \<not> ok then ret FS_INVALID_FILE_HANDLE
     else do {
       h \<leftarrow> get_handle (unat HandleIndex);
       if fSearch h then close_search os HandleIndex h else close_file os HandleIndex h } }"

primrec close_loop :: "'w os \<Rightarrow> nat list \<Rightarrow> ('w fsd, s32) state" where
  "close_loop os [] = ret FS_NO_ERROR"
| "close_loop os (i # is) = do {
     h \<leftarrow> get_handle i;
     if fInUse h then
       if fSearch h then do { release_handle i; close_loop os is }
       else do {
         r \<leftarrow> syscall os (Sys_close (hFile h));
         if r_ret r = - 1 then do { log_file_name i; ret (FS_ErrorConv (r_errno r)) }
         else do { release_handle i; close_loop os is } }
     else close_loop os is }"

definition FS_CCCI_CloseAll :: "'w os \<Rightarrow> ('w fsd, s32) state" where
  "FS_CCCI_CloseAll os = close_loop os [0..<FS_FILE_MAX]"

definition FS_CCCI_ShutDown :: "'w os \<Rightarrow> ('w fsd, unit) state" where
  "FS_CCCI_ShutDown os = do { _ \<leftarrow> FS_CCCI_CloseAll os; ret () }"

definition FS_CCCI_GetFileSize :: "'w os \<Rightarrow> u32 \<Rightarrow> ('w fsd, s32 \<times> u32 option) state" where
  "FS_CCCI_GetFileSize os HandleIndex = do {
     ok \<leftarrow> check_handle HandleIndex;
     if \<not> ok then ret (FS_INVALID_FILE_HANDLE, None)
     else do {
       h \<leftarrow> get_handle (unat HandleIndex);
       r \<leftarrow> syscall os (Sys_fstat (hFile h));
       if r_ret r = - 1 then do {
         log_file_name (unat HandleIndex);
         ret (FS_ErrorConv (r_errno r), None) }
       else ret (FS_NO_ERROR, Some (word_of_int (st_size (r_stat r)))) } }"

section \<open>The handle-table invariant\<close>

text \<open>
  \<open>FileNum\<close> counts the entries in use, entry 0 is never handed out, a free entry holds no
  descriptor.
\<close>

definition table_inv :: "u32 \<Rightarrow> FS_FILE_HANDLE list \<Rightarrow> bool" where
  "table_inv n hs \<longleftrightarrow> length hs = FS_FILE_MAX \<and> \<not> fInUse (hs ! 0) \<and>
     unat n = card {i. i < FS_FILE_MAX \<and> fInUse (hs ! i)} \<and>
     (\<forall>i < FS_FILE_MAX. \<not> fInUse (hs ! i) \<longrightarrow> hFile (hs ! i) = INVALID_HANDLE_VALUE)"

definition handles_ok :: "'w fsd \<Rightarrow> bool" where
  "handles_ok s \<longleftrightarrow> table_inv (FileNum (g_FsInfo s)) (hFileHandle (g_FsInfo s))"

definition in_use :: "'w fsd \<Rightarrow> nat set" where
  "in_use s = {i. i < FS_FILE_MAX \<and> fInUse (hFileHandle (g_FsInfo s) ! i)}"

lemma table_inv_alloc:
  assumes t: "table_inv n hs" and i: "i < FS_FILE_MAX" "i \<noteq> 0" "\<not> fInUse (hs ! i)" and h: "fInUse h"
  shows "table_inv (n + 1) (hs[i := h])"
proof -
  let ?A = "{k. k < FS_FILE_MAX \<and> fInUse (hs ! k)}"
  have len: "length hs = FS_FILE_MAX" using t by (simp add: table_inv_def)
  have "{k. k < FS_FILE_MAX \<and> fInUse (hs[i := h] ! k)} = insert i ?A"
    using i(1) h len by (auto simp: nth_list_update)
  moreover have "finite ?A" by simp
  moreover have "i \<notin> ?A" using i(3) by simp
  moreover have "unat (n + 1) = unat n + 1"
  proof -
    have "card ?A \<le> card {..<FS_FILE_MAX}" by (rule card_mono) auto
    then show ?thesis using t by (simp add: table_inv_def unat_word_ariths)
  qed
  ultimately show ?thesis using t i h len
    by (auto simp: table_inv_def nth_list_update)
qed

lemma table_inv_free:
  assumes t: "table_inv n hs" and i: "i < FS_FILE_MAX" "fInUse (hs ! i)"
    and h: "\<not> fInUse h" "hFile h = INVALID_HANDLE_VALUE"
  shows "table_inv (n - 1) (hs[i := h])"
proof -
  let ?A = "{k. k < FS_FILE_MAX \<and> fInUse (hs ! k)}"
  have len: "length hs = FS_FILE_MAX" using t by (simp add: table_inv_def)
  have e: "{k. k < FS_FILE_MAX \<and> fInUse (hs[i := h] ! k)} = ?A - {i}"
    using i(1) h len by (auto simp: nth_list_update)
  have "i \<in> ?A" using i by simp
  then have c: "card (?A - {i}) = card ?A - 1" "0 < card ?A"
    by (auto simp: card_gt_0_iff)
  then have "unat n \<noteq> 0" using t unfolding table_inv_def by linarith
  then have "unat (n - 1) = unat n - 1" by (simp add: unat_sub word_le_nat_alt)
  then show ?thesis using t i h len c e
    by (auto simp: table_inv_def nth_list_update)
qed

lemma table_inv_upd:
  assumes "table_inv n hs" "i < FS_FILE_MAX" "fInUse h = fInUse (hs ! i)"
    "\<not> fInUse h \<Longrightarrow> hFile h = INVALID_HANDLE_VALUE"
  shows "table_inv n (hs[i := h])"
proof -
  have "{k. k < FS_FILE_MAX \<and> fInUse (hs[i := h] ! k)} = {k. k < FS_FILE_MAX \<and> fInUse (hs ! k)}"
    using assms by (auto simp: nth_list_update table_inv_def)
  then show ?thesis using assms by (auto simp: table_inv_def nth_list_update)
qed

lemma handles_ok_frame [simp]:
  "handles_ok (s\<lparr>world := w, trace := tr\<rparr>) = handles_ok s"
  "handles_ok (s\<lparr>ub := u\<rparr>) = handles_ok s"
  "handles_ok (s\<lparr>heap := hp\<rparr>) = handles_ok s"
  "handles_ok (s\<lparr>heap := hp, heap_brk := b\<rparr>) = handles_ok s"
  "handles_ok (s\<lparr>slower_100ms := sl\<rparr>) = handles_ok s"
  "handles_ok (s\<lparr>aborted := a\<rparr>) = handles_ok s"
  "handles_ok (s\<lparr>locals := lo\<rparr>) = handles_ok s"
 "handles_ok (s\<lparr>g_initialized := b1\<rparr>) = handles_ok s" "handles_ok (s\<lparr>g_error := e1\<rparr>) = handles_ok s"
  "handles_ok (s\<lparr>g_fds := f1\<rparr>) = handles_ok s" "handles_ok (s\<lparr>otp_offset := o1\<rparr>) = handles_ok s"
  "handles_ok (s\<lparr>PackInfo := pk\<rparr>) = handles_ok s" "handles_ok (s\<lparr>hung := hg\<rparr>) = handles_ok s"
  by (simp_all add: handles_ok_def)

text \<open>Operations that touch neither the table nor the count: they keep the invariant, and more
  generally every predicate of the table alone.\<close>

definition same_table :: "'w fsd \<Rightarrow> 'w fsd \<Rightarrow> bool" where
  "same_table s t \<longleftrightarrow> FileNum (g_FsInfo t) = FileNum (g_FsInfo s) \<and>
     hFileHandle (g_FsInfo t) = hFileHandle (g_FsInfo s)"

interpretation same_table: env_frame same_table
  by unfold_locales (auto simp: same_table_def)

lemma same_table_simps [simp]:
  "same_table s (s\<lparr>heap := hp\<rparr>)" "same_table s (s\<lparr>heap := hp, heap_brk := b\<rparr>)"
  "same_table s (s\<lparr>slower_100ms := sl\<rparr>)" "same_table s (s\<lparr>aborted := a\<rparr>)"
  "same_table s (s\<lparr>locals := lo\<rparr>)" "same_table s (s\<lparr>PackInfo := pk\<rparr>)" "same_table s (s\<lparr>hung := hg\<rparr>)"
  "same_table s (s\<lparr>g_initialized := b1\<rparr>)" "same_table s (s\<lparr>g_error := e1\<rparr>)"
  "same_table s (s\<lparr>g_fds := f1\<rparr>)" "same_table s (s\<lparr>otp_offset := o1\<rparr>)"
  "same_table s (s\<lparr>g_FsInfo := (g_FsInfo s)\<lparr>pFsBuf := m\<rparr>\<rparr>)"
  by (simp_all add: same_table_def)

lemma same_table_handles_ok: "same_table s t \<Longrightarrow> handles_ok s \<Longrightarrow> handles_ok t"
  by (simp add: same_table_def handles_ok_def)

lemma quiet_handles_ok: "frame same_table m \<Longrightarrow> keeps handles_ok m"
  by (erule frame_keeps) (rule same_table_handles_ok)

lemma same_table_store [frame_intros]:
  "frame same_table (store_buf a bs)" "frame same_table (set_local l bs)"
  unfolding store_buf_def upd_info_def set_local_def
  by (intro frame_intros; simp)+

lemma same_table_hang [frame_intros]: "frame same_table hang"
  unfolding hang_def by (rule frame_modify) simp

lemma same_table_heap [frame_intros]:
  "frame same_table (heap_strdup os str)" "frame same_table (heap_free p)"
  "frame same_table (heap_str p)" "frame same_table (get_handle i)"
  unfolding heap_strdup_def heap_free_def heap_str_def get_handle_def
  by (intro frame_intros; simp)+

lemma same_table_reads [frame_intros]:
  "frame same_table (log_file_name i)" "frame same_table (check_handle n)"
  "frame same_table FS_GetFreeHandle"
  unfolding log_file_name_def check_handle_def FS_GetFreeHandle_def
  by (intro frame_intros; simp)+

lemma same_table_profile [frame_intros]: "frame same_table (profile el os st)"
  unfolding profile_def by (intro frame_intros; simp)

lemma same_table_dump_loop [frame_intros]:
  "frame same_table (dump_loop os n head backup new tr)"
  by (induction n arbitrary: backup new tr) (auto intro!: frame_intros)

lemma same_table_open_parts [frame_intros]:
  "frame same_table (CCCI_Dump_FS_Path os f)" "frame same_table (open_path os name i path)"
  unfolding CCCI_Dump_FS_Path_def open_path_def by (intro frame_intros; simp)+

section \<open>Every operation keeps the table\<close>

lemma of_nat_handle: "i < FS_FILE_MAX \<Longrightarrow> unat (of_nat i :: u32) = i"
  by (simp add: unat_of_nat)

lemma of_nat_handle_valid: "i < FS_FILE_MAX \<Longrightarrow> of_nat i \<noteq> (0xFFFFFFFF :: u32)"
proof
  assume "i < FS_FILE_MAX" and "of_nat i = (0xFFFFFFFF :: u32)"
  then have "unat (of_nat i :: u32) = 0xFFFFFFFF" by simp
  then show False using \<open>i < FS_FILE_MAX\<close> by (simp add: unat_of_nat)
qed

lemma first_free_Some:
  "first_free hs = Some i \<Longrightarrow> 0 < i \<and> i < FS_FILE_MAX \<and> \<not> fInUse (hs ! i) \<and>
     (\<forall>j. 0 < j \<and> j < i \<longrightarrow> fInUse (hs ! j))"
  unfolding first_free_def by (drule find_upt_Some) auto

lemma first_free_None: "first_free hs = None \<Longrightarrow> 0 < i \<Longrightarrow> i < FS_FILE_MAX \<Longrightarrow> fInUse (hs ! i)"
  unfolding first_free_def find_None_iff set_upt by auto

lemma FS_GetFreeHandle_eq:
  "run_state FS_GetFreeHandle s =
    (if of_nat FS_FILE_MAX \<le> FileNum (g_FsInfo s) then 0xFFFFFFFF
     else case first_free (hFileHandle (g_FsInfo s)) of Some i \<Rightarrow> of_nat i | None \<Rightarrow> 0xFFFFFFFF, s)"
  by (simp add: FS_GetFreeHandle_def)

lemma FS_GetFreeHandle_run:
  assumes r: "run_state FS_GetFreeHandle s = (r, t)"
  shows "t = s \<and> (r \<noteq> 0xFFFFFFFF \<longrightarrow> 0 < unat r \<and> unat r < FS_FILE_MAX \<and> unat r \<notin> in_use s \<and>
        (\<forall>j. 0 < j \<and> j < unat r \<longrightarrow> j \<in> in_use s))"
proof -
  have ts: "t = s" using r unfolding FS_GetFreeHandle_eq by (rule prod.inject [THEN iffD1, THEN conjunct2, symmetric])
  have rv: "r = (if of_nat FS_FILE_MAX \<le> FileNum (g_FsInfo s) then 0xFFFFFFFF
     else case first_free (hFileHandle (g_FsInfo s)) of Some i \<Rightarrow> of_nat i | None \<Rightarrow> 0xFFFFFFFF)"
    using r unfolding FS_GetFreeHandle_eq by (rule prod.inject [THEN iffD1, THEN conjunct1, symmetric])
  show ?thesis
  proof (cases "first_free (hFileHandle (g_FsInfo s))")
    case None
    then have "r = 0xFFFFFFFF" unfolding rv by simp
    then show ?thesis using ts by simp
  next
    case (Some i)
    note ff = first_free_Some [OF Some]
    from Some have "r = 0xFFFFFFFF \<or> r = of_nat i" unfolding rv by simp
    moreover have "unat (of_nat i :: u32) = i" using ff of_nat_handle by blast
    ultimately show ?thesis using ts ff unfolding in_use_def by auto
  qed
qed

lemma in_use_bound:
  assumes "handles_ok s" shows "in_use s \<subseteq> {1..<FS_FILE_MAX}"
proof
  fix i assume i: "i \<in> in_use s"
  then have "i \<noteq> 0" using assms by (auto simp: in_use_def handles_ok_def table_inv_def intro: ccontr)
  then show "i \<in> {1..<FS_FILE_MAX}" using i by (auto simp: in_use_def)
qed

lemma FS_GetFreeHandle_full:
  assumes ok: "handles_ok s" and r: "run_state FS_GetFreeHandle s = (0xFFFFFFFF, t)"
  shows "in_use s = {1..<FS_FILE_MAX}"
proof -
  have c: "card (in_use s) \<le> 128"
    using card_mono [OF _ in_use_bound [OF ok]] by simp
  have "unat (FileNum (g_FsInfo s)) = card (in_use s)"
    using ok by (simp add: handles_ok_def table_inv_def in_use_def)
  then have nf: "\<not> of_nat FS_FILE_MAX \<le> FileNum (g_FsInfo s)"
    using c by (simp add: word_le_nat_alt)
  have "first_free (hFileHandle (g_FsInfo s)) = None"
  proof (rule ccontr)
    assume "first_free (hFileHandle (g_FsInfo s)) \<noteq> None"
    then obtain i where i: "first_free (hFileHandle (g_FsInfo s)) = Some i"
      by auto
    have "of_nat i = (0xFFFFFFFF :: u32)"
      using r unfolding FS_GetFreeHandle_eq i if_not_P [OF nf] option.case by (rule prod.inject [THEN iffD1, THEN conjunct1])
    then show False using of_nat_handle_valid first_free_Some [OF i] by blast
  qed
  then show ?thesis
    using in_use_bound [OF ok] first_free_None by (auto simp: in_use_def)
qed

lemma upd_handle_run [simp]:
  "run_state (upd_handle i f) s =
     ((), s\<lparr>g_FsInfo := (g_FsInfo s)\<lparr>hFileHandle :=
        (hFileHandle (g_FsInfo s))[i := f (hFileHandle (g_FsInfo s) ! i)]\<rparr>\<rparr>)"
  by (simp add: upd_handle_def upd_info_def)

lemma table_inv_free_entry:
  "table_inv n hs \<Longrightarrow> i < FS_FILE_MAX \<Longrightarrow> \<not> fInUse (hs ! i) \<Longrightarrow> hFile (hs ! i) = INVALID_HANDLE_VALUE"
  by (simp add: table_inv_def)

lemma keeps_upd_handle:
  assumes "i < FS_FILE_MAX" "\<And>h. fInUse (f h) = fInUse h" "\<And>h. hFile (f h) = hFile h"
  shows "keeps handles_ok (upd_handle i f)"
proof (rule keepsI)
  fix s a t assume "handles_ok s" "run_state (upd_handle i f) s = (a, t)"
  then show "handles_ok t"
    using table_inv_upd [OF _ assms(1)] table_inv_free_entry [OF _ assms(1)]
    by (auto simp: handles_ok_def assms(2,3))
qed

text \<open>Taking an entry into use, and giving it back.\<close>

lemma handles_ok_install:
  assumes "handles_ok s" "0 < i" "i < FS_FILE_MAX" "i \<notin> in_use s" "fInUse h"
  shows "handles_ok (s\<lparr>g_FsInfo := (g_FsInfo s)\<lparr>FileNum := FileNum (g_FsInfo s) + 1,
    hFileHandle := (hFileHandle (g_FsInfo s))[i := h]\<rparr>\<rparr>)"
  using assms table_inv_alloc [of _ "hFileHandle (g_FsInfo s)" i h]
  by (auto simp: handles_ok_def in_use_def)

lemma release_handle_run:
  "run_state (release_handle i) s = (a, t) \<Longrightarrow>
     FileNum (g_FsInfo t) = FileNum (g_FsInfo s) - 1 \<and>
     (\<exists>h. hFileHandle (g_FsInfo t) = (hFileHandle (g_FsInfo s))[i := h] \<and>
        \<not> fInUse h \<and> hFile h = INVALID_HANDLE_VALUE)"
  by (auto simp: release_handle_def get_handle_def heap_free_def upd_info_def fault_def
      split: if_splits prod.splits)

lemma handles_ok_release:
  "valid (\<lambda>s. handles_ok s \<and> i \<in> in_use s) (release_handle i) (\<lambda>_. handles_ok)"
proof (rule validI)
  fix s a t assume "handles_ok s \<and> i \<in> in_use s" "run_state (release_handle i) s = (a, t)"
  then show "handles_ok t"
    using table_inv_free [of _ "hFileHandle (g_FsInfo s)" i]
    by (auto simp: handles_ok_def in_use_def dest!: release_handle_run)
qed

lemma in_use_release:
  assumes "handles_ok s" "run_state (release_handle i) s = (a, t)" "i < FS_FILE_MAX"
  shows "in_use t = in_use s - {i}"
  using assms(1,3) release_handle_run [OF assms(2)]
  by (auto simp: in_use_def handles_ok_def table_inv_def nth_list_update split: if_splits)

lemma same_table_in_use: "same_table s t \<Longrightarrow> in_use t = in_use s"
  by (simp add: same_table_def in_use_def)

lemma check_handle_run:
  "run_state (check_handle n) s = (ok, t) \<Longrightarrow> same_table s t \<and> (ok \<longrightarrow> unat n \<in> in_use s \<and> t = s)"
proof -
  assume r: "run_state (check_handle n) s = (ok, t)"
  have "same_table s t" using frameD [OF same_table_reads(2) r] .
  moreover have "ok \<longrightarrow> unat n \<in> in_use s \<and> t = s"
    using r by (auto simp: check_handle_def get_handle_def log_file_name_def in_use_def
        word_le_nat_alt not_le split: if_splits prod.splits)
  ultimately show ?thesis by blast
qed


text \<open>What opening a file does to the table: nothing, with a negative result; or the lowest free
  entry is filled with the new descriptor, and the handle is its index (or, when the name cannot
  be stored, the error code with the entry left in use).\<close>

definition lowest_free :: "'w fsd \<Rightarrow> nat \<Rightarrow> bool" where
  "lowest_free s i \<longleftrightarrow> 0 < i \<and> i < FS_FILE_MAX \<and> i \<notin> in_use s \<and> (\<forall>j. 0 < j \<and> j < i \<longrightarrow> j \<in> in_use s)"

definition fills :: "'w fsd \<Rightarrow> nat \<Rightarrow> FS_FILE_HANDLE \<Rightarrow> 'w fsd \<Rightarrow> bool" where
  "fills s i e t \<longleftrightarrow> lowest_free s i \<and> fInUse e \<and> FileNum (g_FsInfo t) = FileNum (g_FsInfo s) + 1 \<and>
     hFileHandle (g_FsInfo t) = (hFileHandle (g_FsInfo s))[i := e]"

lemma FS_GetFreeHandle_lowest:
  "run_state FS_GetFreeHandle s = (r, t) \<Longrightarrow> t = s \<and> (r \<noteq> 0xFFFFFFFF \<longrightarrow> lowest_free s (unat r))"
  using FS_GetFreeHandle_run [of s r t] by (auto simp: lowest_free_def)

lemma fills_handles_ok: "fills s i e t \<Longrightarrow> handles_ok s \<Longrightarrow> handles_ok t"
  using table_inv_alloc [of _ "hFileHandle (g_FsInfo s)" i e]
  by (auto simp: fills_def lowest_free_def handles_ok_def in_use_def)

lemma fills_in_use: "fills s i e t \<Longrightarrow> handles_ok s \<Longrightarrow> in_use t = insert i (in_use s)"
  by (auto simp: fills_def lowest_free_def in_use_def handles_ok_def table_inv_def nth_list_update
      split: if_splits)

lemma same_table_lowest_free: "same_table s t \<Longrightarrow> lowest_free t i = lowest_free s i"
  by (simp add: lowest_free_def same_table_in_use)

lemma fills_same_table: "same_table s t \<Longrightarrow> fills t i e u \<Longrightarrow> fills s i e u"
  by (simp add: fills_def same_table_lowest_free) (simp add: same_table_def)

lemma FS_ErrorConv_neg: "FS_ErrorConv e <s 0"
  by (simp add: FS_ErrorConv_def word_sless_alt)

lemma heap_strdup_same:
  "run_state (heap_strdup os str) s = (p, t) \<Longrightarrow> g_FsInfo t = g_FsInfo s"
  by (auto simp: heap_strdup_def split: if_splits prod.splits)

definition open_effect :: "'w fsd \<Rightarrow> u32 \<Rightarrow> s32 \<Rightarrow> 'w fsd \<Rightarrow> bool" where
  "open_effect s Flg r t \<longleftrightarrow> same_table s t \<and> r <s 0 \<or>
     (\<exists>i e. fills s i e t \<and> \<not> fSearch e \<and> Flag e = Flg \<and> hFile e \<noteq> INVALID_HANDLE_VALUE \<and>
       r = (if pFsFileName e = 0 then FS_ERROR_RESERVED else of_nat i))"

lemma FS_CCCI_Open_install:
  assumes ok: "handles_ok s" and free: "lowest_free s (unat n)" and fd: "fd \<noteq> INVALID_HANDLE_VALUE"
  shows "wp (do {
      upd_info (\<lambda>g. g\<lparr>FileNum := FileNum g + 1\<rparr>);
      upd_handle (unat n) (\<lambda>h. h\<lparr>hFile := fd, fInUse := True, Flag := Flg, fSearch := False\<rparr>);
      p \<leftarrow> heap_strdup os f;
      upd_handle (unat n) (\<lambda>h. h\<lparr>pFsFileName := p\<rparr>);
      ret (if p = 0 then FS_ERROR_RESERVED else n) }) (open_effect s Flg) s"
proof -
  have i: "unat n < length (hFileHandle (g_FsInfo s))"
    using ok free by (simp add: handles_ok_def table_inv_def lowest_free_def)
  let ?e = "\<lambda>p. (hFileHandle (g_FsInfo s) ! unat n)\<lparr>hFile := fd, fInUse := True, Flag := Flg,
    fSearch := False, pFsFileName := p\<rparr>"
  have "open_effect s Flg (if p = 0 then FS_ERROR_RESERVED else n) t" if "fills s (unat n) (?e p) t" for p t
    unfolding open_effect_def by (rule disjI2, rule exI [of _ "unat n"], rule exI [of _ "?e p"])
      (use that fd in simp)
  moreover have "fills s (unat n) (?e p) t"
    if "FileNum (g_FsInfo t) = FileNum (g_FsInfo s) + 1"
      "hFileHandle (g_FsInfo t) = (hFileHandle (g_FsInfo s))[unat n := ?e p]" for p t
    using that free by (simp add: fills_def)
  ultimately show ?thesis
    by (simp only: wp_simps upd_info_def upd_handle_def)
      (rule wp_intro, drule heap_strdup_same, simp add: wp_simps i)
qed

lemma open_effect_error: "same_table s t \<Longrightarrow> r <s 0 \<Longrightarrow> open_effect s Flg r t"
  by (simp add: open_effect_def)

lemma open_effect_carry: "same_table s t \<Longrightarrow> open_effect t Flg r u \<Longrightarrow> open_effect s Flg r u"
  unfolding open_effect_def by (blast intro: fills_same_table same_table.R_trans)

lemma map_path_neg: "map_path roots name = Inl e \<Longrightarrow> e <s 0"
proof -
  have "root_loop ds rs i name = Inl e \<Longrightarrow> e <s 0" for ds rs i
    by (induction ds rs i name rule: root_loop.induct) (auto simp: word_sless_alt split: if_splits)
  then show "map_path roots name = Inl e \<Longrightarrow> e <s 0" by (simp add: map_path_def)
qed

lemma open_handle_effect:
  assumes ok: "handles_ok s"
  shows "wp (open_handle os f Flg) (open_effect s Flg) s"
  unfolding open_handle_def
proof (rule wp_bindI, rule wp_intro)
  fix n t assume "run_state FS_GetFreeHandle s = (n, t)"
  then have t: "t = s" and low: "n \<noteq> 0xFFFFFFFF \<Longrightarrow> lowest_free s (unat n)"
    using FS_GetFreeHandle_lowest by blast+
  show "wp (if n = 0xFFFFFFFF then ret FS_TOO_MANY_FILES
     else do {
       r \<leftarrow> syscall os (Sys_open f (linux_flags Flg) 0x1B0);
       if r_ret r = INVALID_HANDLE_VALUE then do {
         CCCI_Dump_FS_Path os f;
         ret (FS_ErrorConv (r_errno r)) }
       else do {
         upd_info (\<lambda>g. g\<lparr>FileNum := FileNum g + 1\<rparr>);
         upd_handle (unat n)
           (\<lambda>h. h\<lparr>hFile := r_ret r, fInUse := True, Flag := Flg, fSearch := False\<rparr>);
         p \<leftarrow> heap_strdup os f;
         upd_handle (unat n) (\<lambda>h. h\<lparr>pFsFileName := p\<rparr>);
         ret (if p = 0 then FS_ERROR_RESERVED else n) } }) (open_effect s Flg) t"
    unfolding t
  proof (rule wp_ifI, rule wp_returnI, rule open_effect_error [OF same_table.R_refl],
      simp add: word_sless_alt, rule wp_bindI, rule wp_syscallI, rule wp_ifI)
    fix r w let ?t = "s\<lparr>world := w, trace := trace s @ [Sys_open f (linux_flags Flg) 0x1B0]\<rparr>"
    have st: "same_table s ?t" by (rule same_table.R_request)
    show "wp (do { CCCI_Dump_FS_Path os f; ret (FS_ErrorConv (r_errno r)) }) (open_effect s Flg) ?t"
      by (intro wp_bindI wp_frame [OF same_table_open_parts(1)] wp_returnI open_effect_error
          FS_ErrorConv_neg) (rule same_table.R_trans [OF st])
    assume "n \<noteq> 0xFFFFFFFF" "r_ret r \<noteq> INVALID_HANDLE_VALUE"
    then show "wp (do {
         upd_info (\<lambda>g. g\<lparr>FileNum := FileNum g + 1\<rparr>);
         upd_handle (unat n)
           (\<lambda>h. h\<lparr>hFile := r_ret r, fInUse := True, Flag := Flg, fSearch := False\<rparr>);
         p \<leftarrow> heap_strdup os f;
         upd_handle (unat n) (\<lambda>h. h\<lparr>pFsFileName := p\<rparr>);
         ret (if p = 0 then FS_ERROR_RESERVED else n) }) (open_effect s Flg) ?t"
      using ok low same_table_lowest_free [OF st] same_table_handles_ok [OF st]
      by (intro wp_mono [OF FS_CCCI_Open_install open_effect_carry [OF st]]) simp_all
  qed
qed

lemma FS_CCCI_Open_effect:
  assumes ok: "handles_ok s"
  shows "wp (FS_CCCI_Open os name Flg) (open_effect s Flg) s"
  unfolding FS_CCCI_Open_def Let_def
proof (intro wp_intros)
  show "open_effect s Flg FS_ACCESS_DENIED s"
    by (simp add: open_effect_error same_table.R_refl word_sless_alt)
  show "open_effect s Flg e s" if "map_path (FsRootDir s) (conv_name name) = Inl e" for e
    by (simp add: open_effect_error same_table.R_refl map_path_neg [OF that])
  show "wp (open_path os (conv_name name) i path) (\<lambda>f. wp (open_handle os f Flg) (open_effect s Flg)) s"
    for i path
    using same_table_handles_ok [OF _ ok]
    by (intro wp_frame [OF same_table_open_parts(2)] wp_mono [OF open_handle_effect open_effect_carry])
qed

lemma FS_CCCI_Open_run:
  "handles_ok s \<Longrightarrow> run_state (FS_CCCI_Open os name Flg) s = (r, t) \<Longrightarrow> open_effect s Flg r t"
  by (rule wp_run [OF FS_CCCI_Open_effect])

lemma open_effect_handles_ok: "open_effect s Flg r t \<Longrightarrow> handles_ok s \<Longrightarrow> handles_ok t"
  unfolding open_effect_def by (blast intro: same_table_handles_ok fills_handles_ok)

lemma FS_CCCI_Open_ok [valid_intros]: "keeps handles_ok (FS_CCCI_Open os name Flg)"
  by (rule keepsI) (blast intro: open_effect_handles_ok FS_CCCI_Open_run)


text \<open>The operations that only use an entry.\<close>

lemma same_table_ops [frame_intros]:
  "frame same_table (FS_CCCI_Seek os n off wh)" "frame same_table (FS_CCCI_Read os n buf num)"
  "frame same_table (FS_CCCI_Write os n bs)" "frame same_table (FS_CCCI_GetFileSize os n)"
  unfolding FS_CCCI_Seek_def FS_CCCI_Read_def FS_CCCI_Write_def FS_CCCI_GetFileSize_def
  by (intro frame_intros)+

text \<open>Closing: the entry is given back exactly when the result is \<open>FS_NO_ERROR\<close>.\<close>

definition frees :: "'w fsd \<Rightarrow> nat \<Rightarrow> 'w fsd \<Rightarrow> bool" where
  "frees s i t \<longleftrightarrow> i \<in> in_use s \<and> FileNum (g_FsInfo t) = FileNum (g_FsInfo s) - 1 \<and>
     (\<exists>h. hFileHandle (g_FsInfo t) = (hFileHandle (g_FsInfo s))[i := h] \<and>
        \<not> fInUse h \<and> hFile h = INVALID_HANDLE_VALUE)"

lemma frees_release:
  "same_table s u \<Longrightarrow> i \<in> in_use s \<Longrightarrow> run_state (release_handle i) u = (a, t) \<Longrightarrow> frees s i t"
  by (drule release_handle_run) (simp add: frees_def same_table_def)

lemma frees_used: "frees s i t \<Longrightarrow> i \<in> in_use s"
  by (simp add: frees_def)

lemma frees_handles_ok: "frees s i t \<Longrightarrow> handles_ok s \<Longrightarrow> handles_ok t"
  using table_inv_free [of _ "hFileHandle (g_FsInfo s)" i]
  by (auto simp: frees_def handles_ok_def in_use_def)

lemma frees_in_use: "frees s i t \<Longrightarrow> handles_ok s \<Longrightarrow> in_use t = in_use s - {i}"
  by (auto simp: frees_def in_use_def handles_ok_def table_inv_def nth_list_update split: if_splits)

lemma same_table_carry_frees: "same_table s u \<Longrightarrow> frees u i t \<Longrightarrow> frees s i t"
  by (simp add: frees_def same_table_in_use) (simp add: same_table_def)

definition close_effect :: "'w fsd \<Rightarrow> u32 \<Rightarrow> s32 \<Rightarrow> 'w fsd \<Rightarrow> bool" where
  "close_effect s n r t \<longleftrightarrow> same_table s t \<and> r <s 0 \<or> frees s (unat n) t \<and> r = FS_NO_ERROR"

lemma close_effect_error: "same_table s t \<Longrightarrow> r <s 0 \<Longrightarrow> close_effect s n r t"
  by (simp add: close_effect_def)

lemma same_table_report: "frame same_table (do { log_file_name i; ret a })"
  by (intro frame_intros)

lemma close_failed:
  "same_table s u \<Longrightarrow> wp (do { log_file_name i; ret (FS_ErrorConv e) }) (close_effect s n) u"
  by (intro wp_bindI wp_frame [OF same_table_reads(1)] wp_returnI close_effect_error FS_ErrorConv_neg)
    (rule same_table.R_trans)

lemma close_done:
  "same_table s u \<Longrightarrow> unat n \<in> in_use s \<Longrightarrow>
   wp (do { release_handle (unat n); ret FS_NO_ERROR }) (close_effect s n) u"
  by (intro wp_bindI wp_intro) (auto simp: close_effect_def wp_return intro: frees_release)

lemma close_search_effect:
  "unat n \<in> in_use s \<Longrightarrow> wp (close_search os n h) (close_effect s n) s"
  unfolding close_search_def
  by (intro wp_bindI wp_syscallI wp_ifI close_failed close_done same_table.R_request)

lemma same_table_sync [frame_intros]: "frame same_table (sync_file os n h)"
  unfolding sync_file_def by (intro frame_intros)

lemma close_file_effect:
  assumes "unat n \<in> in_use s" shows "wp (close_file os n h) (close_effect s n) s"
  unfolding close_file_def
  by (intro wp_bindI [of "sync_file _ _ _"] wp_bindI [of "syscall _ _"] wp_bindI [of "profile _ _ _"]
      wp_frame [OF same_table_sync] wp_frame [OF same_table.request] wp_frame [OF same_table_profile]
      wp_ifI close_failed close_done assms)
    (blast intro: same_table.R_trans)+

lemma FS_CCCI_Close_effect: "wp (FS_CCCI_Close os n) (close_effect s n) s"
  unfolding FS_CCCI_Close_def get_handle_def
proof (rule wp_bindI, rule wp_intro, drule check_handle_run, rule wp_ifI)
  fix ok t assume c: "same_table s t \<and> (ok \<longrightarrow> unat n \<in> in_use s \<and> t = s)"
  then show "wp (ret FS_INVALID_FILE_HANDLE) (close_effect s n) t"
    by (simp add: wp_return close_effect_error word_sless_alt)
  assume "\<not> \<not> ok"
  with c show "wp (do { h \<leftarrow> gets (\<lambda>s. hFileHandle (g_FsInfo s) ! unat n);
      if fSearch h then close_search os n h else close_file os n h }) (close_effect s n) t"
    by (intro wp_bindI wp_getsI wp_ifI) (auto intro: close_search_effect close_file_effect)
qed

lemma FS_CCCI_Close_run: "run_state (FS_CCCI_Close os n) s = (r, t) \<Longrightarrow> close_effect s n r t"
  by (rule wp_run [OF FS_CCCI_Close_effect])

lemma FS_CCCI_Close_ok [valid_intros]: "keeps handles_ok (FS_CCCI_Close os n)"
  by (rule keepsI, drule FS_CCCI_Close_run)
    (auto simp: close_effect_def intro: same_table_handles_ok frees_handles_ok)

definition loop_effect :: "'w fsd \<Rightarrow> nat list \<Rightarrow> s32 \<Rightarrow> 'w fsd \<Rightarrow> bool" where
  "loop_effect s is r t \<longleftrightarrow> handles_ok t \<and> in_use t \<subseteq> in_use s \<and>
     (if r = FS_NO_ERROR then in_use t = in_use s - set is else r <s 0)"

lemma loop_effect_same:
  "same_table s u \<Longrightarrow> loop_effect u is r t \<Longrightarrow> loop_effect s is r t"
  by (simp add: loop_effect_def same_table_in_use)

lemma close_loop_release:
  assumes IH: "\<And>s. handles_ok s \<Longrightarrow> wp (close_loop os is) (loop_effect s is) s"
    and s: "handles_ok s" "i \<in> in_use s"
  shows "wp (do { release_handle i; close_loop os is }) (loop_effect s (i # is)) s"
proof (rule wp_bindI, rule wp_intro)
  fix a t assume r: "run_state (release_handle i) s = (a, t)"
  have "frees s i t" using frees_release [OF same_table.R_refl s(2) r] .
  then have "handles_ok t" "in_use t = in_use s - {i}"
    using s(1) by (auto intro: frees_handles_ok simp: frees_in_use)
  then show "wp (close_loop os is) (loop_effect s (i # is)) t"
    by (intro wp_mono [OF IH]) (auto simp: loop_effect_def split: if_splits)
qed

lemma close_loop_effect:
  "handles_ok s \<Longrightarrow> set is \<subseteq> {..<FS_FILE_MAX} \<Longrightarrow> wp (close_loop os is) (loop_effect s is) s"
proof (induction "is" arbitrary: s)
  case Nil
  then show ?case by (simp add: wp_return loop_effect_def)
next
  case (Cons i "is")
  have IH: "\<And>s. handles_ok s \<Longrightarrow> wp (close_loop os is) (loop_effect s is) s"
    using Cons by simp
  have skip: "wp (close_loop os is) (loop_effect s (i # is)) s" if "i \<notin> in_use s"
    by (rule wp_mono [OF IH [OF Cons.prems(1)]])
      (use that in \<open>auto simp: loop_effect_def split: if_splits\<close>)
  have closed: "wp (do { release_handle i; close_loop os is }) (loop_effect s (i # is)) t"
    if "same_table s t" "i \<in> in_use s" for t
    by (rule wp_mono [OF close_loop_release [OF IH] loop_effect_same [OF that(1)]])
      (use that same_table_handles_ok [OF that(1) Cons.prems(1)] in \<open>auto simp: same_table_in_use\<close>)
  have failed: "wp (do { log_file_name i; ret (FS_ErrorConv e) }) (loop_effect s (i # is)) t"
    if "same_table s t" for t e
  proof (intro wp_bindI wp_frame [OF same_table_reads(1)] wp_returnI)
    fix a u assume "same_table t u"
    with that have st: "same_table s u" by (rule same_table.R_trans)
    show "loop_effect s (i # is) (FS_ErrorConv e) u"
      using FS_ErrorConv_neg [of e] same_table_handles_ok [OF st Cons.prems(1)]
      by (auto simp: loop_effect_def same_table_in_use [OF st] word_sless_alt)
  qed
  have used: "fInUse (hFileHandle (g_FsInfo s) ! i) \<longleftrightarrow> i \<in> in_use s"
    using Cons.prems by (simp add: in_use_def)
  show ?case
    unfolding close_loop.simps get_handle_def
    by (intro wp_bindI wp_getsI wp_ifI wp_bindI [of "syscall _ _"] wp_syscallI failed closed skip
        same_table.R_request same_table.R_refl) (simp_all add: used)
qed

lemma FS_CCCI_CloseAll_effect:
  "handles_ok s \<Longrightarrow> wp (FS_CCCI_CloseAll os) (loop_effect s [0..<FS_FILE_MAX]) s"
  unfolding FS_CCCI_CloseAll_def by (rule close_loop_effect) auto

lemma FS_CCCI_CloseAll_run:
  "handles_ok s \<Longrightarrow> run_state (FS_CCCI_CloseAll os) s = (r, t) \<Longrightarrow> loop_effect s [0..<FS_FILE_MAX] r t"
  by (rule wp_run [OF FS_CCCI_CloseAll_effect])

lemma FS_CCCI_CloseAll_ok [valid_intros]: "keeps handles_ok (FS_CCCI_CloseAll os)"
  by (rule keepsI) (drule (1) FS_CCCI_CloseAll_run, simp add: loop_effect_def)

lemma FS_CCCI_ShutDown_ok [valid_intros]: "keeps handles_ok (FS_CCCI_ShutDown os)"
  unfolding FS_CCCI_ShutDown_def by (intro valid_intros)

lemma handle_uses_ok [valid_intros]:
  "keeps handles_ok (FS_CCCI_Seek os n off wh)" "keeps handles_ok (FS_CCCI_Read os n buf num)"
  "keeps handles_ok (FS_CCCI_Write os n bs)" "keeps handles_ok (FS_CCCI_GetFileSize os n)"
  by (rule quiet_handles_ok, rule same_table_ops)+


section \<open>The contract of the handle table\<close>

text \<open>
  What a client may rely on: opening hands out an entry that was free, closing gives it back,
  neither disturbs the other entries. An open that fails after taking its entry may leave it in
  use (\<open>used s \<subseteq> used t\<close>).
\<close>

locale handle_table =
  fixes inv :: "'s \<Rightarrow> bool"
    and used :: "'s \<Rightarrow> nat set"
    and opn :: "'a \<Rightarrow> ('s, s32) state"
    and cls :: "u32 \<Rightarrow> ('s, s32) state"
  assumes open_law: "inv s \<Longrightarrow> run_state (opn a) s = (r, t) \<Longrightarrow>
      inv t \<and> (if r <s 0 then used s \<subseteq> used t else unat r \<notin> used s \<and> used t = insert (unat r) (used s))"
    and close_law: "inv s \<Longrightarrow> run_state (cls n) s = (r, t) \<Longrightarrow>
      inv t \<and> (if r = 0 then unat n \<in> used s \<and> used t = used s - {unat n} else used t = used s)"
begin

lemma open_distinct:
  assumes "inv s" "run_state (opn a) s = (r, t)" "run_state (opn b) t = (q, u)"
    and "\<not> r <s 0" "\<not> q <s 0"
  shows "r \<noteq> q \<and> used u = used s \<union> {unat r, unat q}"
proof -
  note o1 = open_law [OF assms(1,2)]
  then have "inv t" by simp
  from open_law [OF this assms(3)] show ?thesis using o1 assms(4,5) by auto
qed

text \<open>A session: open, a body that leaves the table alone, close.\<close>

lemma session:
  assumes "inv s" "run_state (opn a) s = (r, t)" "\<not> r <s 0"
    and "inv u" "used u = used t" "run_state (cls r) u = (q, v)"
  shows "inv v \<and> used v = (if q = 0 then used s else insert (unat r) (used s))"
  using open_law [OF assms(1,2)] close_law [OF assms(4,6)] assms(3,5) by auto

lemma double_close:
  assumes "inv s" "run_state (cls n) s = (0, t)" "run_state (cls n) t = (q, u)"
  shows "q \<noteq> 0 \<and> used u = used t"
proof -
  note c1 = close_law [OF assms(1,2)]
  then have "inv t" by simp
  from close_law [OF this assms(3)] show ?thesis using c1 by (auto split: if_splits)
qed

end

lemma of_nat_handle_pos: "i < FS_FILE_MAX \<Longrightarrow> \<not> of_nat i <s (0 :: s32)"
  by (rule of_nat_nonneg) simp

lemma open_effect_law:
  assumes "handles_ok s" "open_effect s Flg r t"
  shows "handles_ok t \<and> (if r <s 0 then in_use s \<subseteq> in_use t
      else unat r \<notin> in_use s \<and> in_use t = insert (unat r) (in_use s))"
proof (cases "same_table s t \<and> r <s 0")
  case True
  then show ?thesis using assms(1) by (auto simp: same_table_in_use intro: same_table_handles_ok)
next
  case False
  then obtain i e where f: "fills s i e t" and r: "r = (if pFsFileName e = 0 then - 1 else of_nat i)"
    using assms(2) by (auto simp: open_effect_def)
  have i: "i < FS_FILE_MAX" "i \<notin> in_use s" using f by (auto simp: fills_def lowest_free_def)
  show ?thesis
    using fills_handles_ok [OF f assms(1)] fills_in_use [OF f assms(1)] i(2)
    by (cases "pFsFileName e = 0")
      (auto simp: r of_nat_handle_pos [OF i(1)] of_nat_handle [OF i(1)])
qed

lemma close_effect_law:
  "handles_ok s \<Longrightarrow> close_effect s n r t \<Longrightarrow> handles_ok t \<and>
     (if r = 0 then unat n \<in> in_use s \<and> in_use t = in_use s - {unat n} else in_use t = in_use s)"
  by (auto simp: close_effect_def same_table_in_use frees_in_use
      intro: same_table_handles_ok frees_handles_ok) (simp add: frees_def)

interpretation fsd_handles: handle_table handles_ok in_use "\<lambda>(name, Flg). FS_CCCI_Open os name Flg"
    "FS_CCCI_Close os" for os
proof
  fix s a r t assume ok: "handles_ok s"
    and r: "run_state (case a of (name, Flg) \<Rightarrow> FS_CCCI_Open os name Flg) s = (r, t)"
  obtain name Flg where a: "a = (name, Flg)" by (cases a)
  show "handles_ok t \<and> (if r <s 0 then in_use s \<subseteq> in_use t
      else unat r \<notin> in_use s \<and> in_use t = insert (unat r) (in_use s))"
    by (rule open_effect_law [OF ok FS_CCCI_Open_run [OF ok r [unfolded a prod.case]]])
next
  fix s n r t assume "handles_ok s" "run_state (FS_CCCI_Close os n) s = (r, t)"
  then show "handles_ok t \<and> (if r = 0 then unat n \<in> in_use s \<and> in_use t = in_use s - {unat n}
      else in_use t = in_use s)"
    by (rule close_effect_law [OF _ FS_CCCI_Close_run])
qed

section \<open>Properties\<close>

text \<open>
  C4: The handle-table invariant (\<open>FileNum\<close> counts the entries in use, entry 0 is never used,
  a free entry holds no descriptor) is kept by every operation on handles, whatever the kernel
  answers and whatever the modem passes.
\<close>

theorem handle_ops_invariant:
  "keeps handles_ok (FS_CCCI_Open os name Flg) \<and> keeps handles_ok (FS_CCCI_Seek os n off wh) \<and>
   keeps handles_ok (FS_CCCI_Read os n buf num) \<and> keeps handles_ok (FS_CCCI_Write os n bs) \<and>
   keeps handles_ok (FS_CCCI_GetFileSize os n) \<and> keeps handles_ok (FS_CCCI_Close os n) \<and>
   keeps handles_ok (FS_CCCI_CloseAll os) \<and> keeps handles_ok (FS_CCCI_ShutDown os)"
  by (intro conjI valid_intros)

text \<open>The files the modem has open, as a map from handles to descriptors.\<close>

definition files :: "'w fsd \<Rightarrow> nat \<rightharpoonup> s32" where
  "files s = (\<lambda>i. if i \<in> in_use s then Some (hFile (hFileHandle (g_FsInfo s) ! i)) else None)"

lemma dom_files [simp]: "dom (files s) = in_use s"
  by (auto simp: files_def dom_def)

lemma same_table_files: "same_table s t \<Longrightarrow> files t = files s"
  by (auto simp: files_def in_use_def same_table_def)

lemma fills_files:
  assumes "fills s i e t" "handles_ok s" shows "files t = (files s)(i \<mapsto> hFile e)"
  using assms fills_in_use [OF assms]
  by (auto simp: files_def fills_def lowest_free_def handles_ok_def table_inv_def fun_eq_iff)

lemma frees_files:
  assumes "frees s i t" "handles_ok s" shows "files t = (files s)(i := None)"
  using assms frees_in_use [OF assms]
  by (auto simp: files_def frees_def handles_ok_def table_inv_def fun_eq_iff)

text \<open>
  C18: Opening refines the map of open files: a non-negative result binds exactly one new handle,
  the lowest that was free, to the descriptor the kernel gave; a negative result other than the
  one for lack of memory leaves the map as it was.
\<close>

theorem open_refines_map:
  assumes ok: "handles_ok s" and run: "run_state (FS_CCCI_Open os name Flg) s = (r, t)"
  shows "if r <s 0 then r \<noteq> FS_ERROR_RESERVED \<longrightarrow> files t = files s
    else \<exists>fd. fd \<noteq> INVALID_HANDLE_VALUE \<and> files t = (files s)(unat r \<mapsto> fd) \<and> lowest_free s (unat r)"
proof (cases "same_table s t \<and> r <s 0")
  case True
  then show ?thesis by (simp add: same_table_files)
next
  case False
  then obtain i e where f: "fills s i e t" "hFile e \<noteq> INVALID_HANDLE_VALUE"
    and r: "r = (if pFsFileName e = 0 then - 1 else of_nat i)"
    using FS_CCCI_Open_run [OF ok run] by (auto simp: open_effect_def)
  have i: "i < FS_FILE_MAX" "lowest_free s i" using f by (auto simp: fills_def lowest_free_def)
  show ?thesis
    using f(2) fills_files [OF f(1) ok] i(2)
    by (cases "pFsFileName e = 0")
      (auto simp: r of_nat_handle_pos [OF i(1)] of_nat_handle [OF i(1)])
qed

text \<open>
  C19: Closing refines the map of open files: success removes the binding of the handle and no
  other, any error leaves the map as it was.
\<close>

theorem close_refines_map:
  assumes ok: "handles_ok s" and run: "run_state (FS_CCCI_Close os n) s = (r, t)"
  shows "files t = (if r = FS_NO_ERROR then (files s)(unat n := None) else files s) \<and>
    (r = FS_NO_ERROR \<longrightarrow> unat n \<in> dom (files s))"
  using FS_CCCI_Close_run [OF run] frees_files [OF _ ok] frees_used
  by (auto simp: close_effect_def same_table_files)

lemma check_handle_refuses:
  assumes "unat n \<notin> in_use s"
  shows "\<exists>t. run_state (check_handle n) s = (False, t) \<and> trace t = trace s \<and> same_table s t"
  using assms
  by (auto simp: check_handle_def get_handle_def log_file_name_def heap_str_def fault_def in_use_def
      word_le_nat_alt not_le same_table_def split: option.splits)

lemma refused_run:
  assumes "unat n \<notin> in_use s" "run_state (do { ok \<leftarrow> check_handle n; if \<not> ok then ret x else m }) s = (r, t)"
  shows "r = x \<and> trace t = trace s \<and> files t = files s"
  using check_handle_refuses [OF assms(1)] assms(2) by (auto dest: same_table_files)

text \<open>
  C24: An operation on a handle that is out of range or not in use is refused with
  \<open>FS_INVALID_FILE_HANDLE\<close>: it asks nothing of the kernel, leaves the open files alone, and does
  not fill the caller's variable.
\<close>

theorem bad_handle_refused:
  assumes "unat n \<notin> dom (files s)"
  shows "\<exists>t. run_state (FS_CCCI_Seek os n off wh) s = (FS_INVALID_FILE_HANDLE, t) \<and>
     run_state (FS_CCCI_Read os n buf num) s = ((FS_INVALID_FILE_HANDLE, None), t) \<and>
     run_state (FS_CCCI_Write os n bs) s = ((FS_INVALID_FILE_HANDLE, None), t) \<and>
     run_state (FS_CCCI_GetFileSize os n) s = ((FS_INVALID_FILE_HANDLE, None), t) \<and>
     run_state (FS_CCCI_Close os n) s = (FS_INVALID_FILE_HANDLE, t) \<and>
     trace t = trace s \<and> files t = files s"
proof -
  have "unat n \<notin> in_use s" using assms by simp
  then obtain t where "run_state (check_handle n) s = (False, t)" "trace t = trace s" "same_table s t"
    using check_handle_refuses by blast
  then show ?thesis
    by (intro exI [of _ t])
      (simp add: FS_CCCI_Seek_def FS_CCCI_Read_def FS_CCCI_Write_def FS_CCCI_GetFileSize_def
        FS_CCCI_Close_def same_table_files)
qed

text \<open>A daemon with an empty table, for the examples.\<close>

definition free_entry :: FS_FILE_HANDLE where
  "free_entry = \<lparr>fInUse = False, fSearch = False, hFile = INVALID_HANDLE_VALUE, Flag = 0, Attr = 0,
     AttrMask = 0, pFsFileName = 0, pFsSearchPattern = 0\<rparr>"

definition idle_fsd :: "'w \<Rightarrow> 'w fsd" where
  "idle_fsd w = \<lparr>world = w, trace = [], ub = False,
     g_FsInfo = \<lparr>FileNum = 0, hFileHandle = replicate FS_FILE_MAX free_entry, pFsBuf = (\<lambda>_. 0),
       fs_buff_state = replicate FS_BUFFER_SLOT_NUM 0, fs_buff_offset = replicate FS_BUFFER_SLOT_NUM 0\<rparr>,
     FsRootDir = FsRootDir_MD1, stream_support = True, DeviceFd = 3, FS_MAX_BUF_SIZE = 0x4000,
     FS_MAX_ARG_NUM = 6, md_id = 0,
     slower_100ms = \<lparr>profiling = False, slow_count = 0, totaltime = 0\<rparr>, otp_offset = 0,
     heap = (\<lambda>_. None), heap_brk = 0, PackInfo = [], locals = (\<lambda>_. []), aborted = False, hung = False,
     g_initialized = False, g_error = - 1, g_fds = [0, 0], md_status_fd = 0, exit_signal = 0\<rparr>"

definition answering :: "s32 \<Rightarrow> 'w os" where
  "answering r = (\<lambda>q w. (res0\<lparr>r_ret := r\<rparr>, w))"

lemma answering_simps [simp]:
  "r_ret (fst (answering r q w)) = r" "snd (answering r q w) = w"
  by (simp_all add: answering_def res0_def)

lemma idle_fsd_simps [simp]:
  "trace (idle_fsd w) = []" "world (idle_fsd w) = w" "ub (idle_fsd w) = False"
  "FsRootDir (idle_fsd w) = FsRootDir_MD1" "DeviceFd (idle_fsd w) = 3"
  "FileNum (g_FsInfo (idle_fsd w)) = 0" "heap (idle_fsd w) = (\<lambda>_. None)" "heap_brk (idle_fsd w) = 0"
  "hFileHandle (g_FsInfo (idle_fsd w)) = replicate FS_FILE_MAX free_entry"
  by (simp_all add: idle_fsd_def)

lemma first_free_idle [simp]: "first_free (replicate FS_FILE_MAX free_entry) = Some 1"
  by (simp add: first_free_def free_entry_def upt_rec)

lemma in_use_idle [simp]: "in_use (idle_fsd w) = {}"
  by (auto simp: in_use_def idle_fsd_def free_entry_def)

lemma handles_ok_idle [simp]: "handles_ok (idle_fsd w)"
  by (simp add: handles_ok_def table_inv_def idle_fsd_def free_entry_def)

lemma bad_handle_refused_witness:
  "\<exists>t. run_state (FS_CCCI_Seek (answering 0) 5 0 0) (idle_fsd ()) = (FS_INVALID_FILE_HANDLE, t) \<and>
     run_state (FS_CCCI_Close (answering 0) 5) (idle_fsd ()) = (FS_INVALID_FILE_HANDLE, t) \<and>
     trace t = []"
  using bad_handle_refused [of 5 "idle_fsd ()" "answering 0" 0 0 0 0 "[]"]
  by auto



lemma idle_run: "run_state m (idle_fsd ()) = (fst (run_state m (idle_fsd ())), snd (run_state m (idle_fsd ())))"
  by simp

theorem open_refines_map_witness:
  "fst (run_state (FS_CCCI_Open (answering 3) (wcs ''Z:/a'') 0) (idle_fsd ())) = 1 \<and>
   (\<exists>fd. fd \<noteq> INVALID_HANDLE_VALUE \<and>
     files (snd (run_state (FS_CCCI_Open (answering 3) (wcs ''Z:/a'') 0) (idle_fsd ()))) = [1 \<mapsto> fd])"
proof -
  have r: "fst (run_state (FS_CCCI_Open (answering 3) (wcs ''Z:/a'') 0) (idle_fsd ())) = 1" by code_simp
  have "files (idle_fsd ()) = Map.empty" by (simp add: files_def)
  then show ?thesis
    using open_refines_map [OF handles_ok_idle idle_run, of "answering 3" "wcs ''Z:/a''" 0]
    unfolding r by (auto simp: word_sless_alt)
qed

definition busy_fsd :: "unit fsd" where
  "busy_fsd = snd (run_state (FS_CCCI_Open (answering 3) (wcs ''Z:/a'') 0) (idle_fsd ()))"

lemma handles_ok_busy [simp]: "handles_ok busy_fsd"
  unfolding busy_fsd_def by (rule keeps_run [OF FS_CCCI_Open_ok handles_ok_idle])

theorem close_refines_map_witness:
  "fst (run_state (FS_CCCI_Close (answering 0) 1) busy_fsd) = FS_NO_ERROR \<and>
   files (snd (run_state (FS_CCCI_Close (answering 0) 1) busy_fsd)) = (files busy_fsd)(1 := None) \<and>
   1 \<in> dom (files busy_fsd)"
proof -
  have r: "fst (run_state (FS_CCCI_Close (answering 0) 1) busy_fsd) = FS_NO_ERROR"
    unfolding busy_fsd_def by code_simp
  show ?thesis
    using close_refines_map [OF handles_ok_busy surjective_pairing, of "answering 0" 1]
    unfolding r by simp
qed

lemma close_loop_succeeds:
  assumes os: "\<And>fd w. r_ret (fst (os (Sys_close fd) w)) \<noteq> - 1"
  shows "wp (close_loop os is) (\<lambda>r _. r = FS_NO_ERROR) s"
proof (induction "is" arbitrary: s)
  case Nil
  then show ?case by (simp add: wp_return)
next
  case (Cons i "is")
  have rel: "wp (do { release_handle i; close_loop os is }) (\<lambda>r _. r = FS_NO_ERROR) t" for t
    by (rule wp_bindI, rule wp_intro) (rule Cons.IH)
  have "r_ret r \<noteq> - 1" if "os (Sys_close fd) w = (r, w')" for fd w r w'
    using os [of fd w] that by simp
  then show ?case
    unfolding close_loop.simps get_handle_def
    by (intro wp_bindI [of "gets _"] wp_bindI [of "syscall _ _"] wp_getsI wp_ifI wp_syscallI rel Cons.IH)
      (use os in auto)
qed

text \<open>
  When no \<open>close\<close> fails, \<open>FS_CCCI_CloseAll\<close> (run when the modem is reset) succeeds and leaves
  an empty table; a failing \<open>close\<close> ends it with a negative code, and it never opens anything.
\<close>

theorem CloseAll_empties:
  assumes ok: "handles_ok s" and run: "run_state (FS_CCCI_CloseAll os) s = (r, t)"
  shows "((\<forall>fd w. r_ret (fst (os (Sys_close fd) w)) \<noteq> - 1) \<longrightarrow> r = FS_NO_ERROR) \<and>
    (if r = FS_NO_ERROR then files t = Map.empty \<and> FileNum (g_FsInfo t) = 0
     else r <s 0 \<and> dom (files t) \<subseteq> dom (files s))"
proof (intro conjI impI)
  assume "\<forall>fd w. r_ret (fst (os (Sys_close fd) w)) \<noteq> - 1"
  then have "wp (FS_CCCI_CloseAll os) (\<lambda>r _. r = FS_NO_ERROR) s"
    unfolding FS_CCCI_CloseAll_def by (intro close_loop_succeeds) auto
  then show "r = FS_NO_ERROR" using run by (rule wp_run)
next
  have e: "loop_effect s [0..<FS_FILE_MAX] r t" by (rule FS_CCCI_CloseAll_run [OF ok run])
  have "in_use s - {0..<FS_FILE_MAX} = {}" by (auto simp: in_use_def)
  moreover have "FileNum (g_FsInfo t) = 0" if "in_use t = {}"
    using e that by (simp add: loop_effect_def handles_ok_def table_inv_def in_use_def unat_eq_0 [symmetric])
  ultimately show "if r = FS_NO_ERROR then files t = Map.empty \<and> FileNum (g_FsInfo t) = 0
     else r <s 0 \<and> dom (files t) \<subseteq> dom (files s)"
    using e by (auto simp: loop_effect_def files_def fun_eq_iff in_use_def simp del: dom_files split: if_splits)
qed

theorem CloseAll_empties_witness:
  "files (snd (run_state (FS_CCCI_CloseAll (answering 0)) busy_fsd)) = Map.empty \<and>
   FileNum (g_FsInfo busy_fsd) = 1"
proof -
  have "FileNum (g_FsInfo busy_fsd) = 1" unfolding busy_fsd_def by code_simp
  then show ?thesis
    using CloseAll_empties [OF handles_ok_busy surjective_pairing, of "answering 0"]
    by simp
qed


section \<open>Which files are opened\<close>

definition opens_only :: "string set \<Rightarrow> sysreq \<Rightarrow> bool" where
  "opens_only A q \<longleftrightarrow> (case q of Sys_open f _ _ \<Rightarrow> f \<in> A | _ \<Rightarrow> True)"

lemma opens_only_simps [simp]:
  "opens_only A (Sys_open f fl m) \<longleftrightarrow> f \<in> A" "opens_only A (Sys_malloc n)" "opens_only A (Sys_access f)"
  "opens_only A (Sys_get_ext_md_post_fix d)"
  by (simp_all add: opens_only_def)

lemma issues_quiet [frame_intros]:
  "frame (issues P) (upd_info f)" "frame (issues P) (upd_handle i g)" "frame (issues P) (get_handle i)"
  "frame (issues P) FS_GetFreeHandle"
  unfolding upd_handle_def upd_info_def get_handle_def FS_GetFreeHandle_def
  by (intro frame_intros issues.bind issues.get issues.return issues_same_trace; simp)+

lemma issues_heap_strdup: "(\<And>n. P (Sys_malloc n)) \<Longrightarrow> frame (issues P) (heap_strdup os str)"
  unfolding heap_strdup_def by (intro frame_intros issues_same_trace; simp)

lemma issues_dump: "(\<And>f. P (Sys_access f)) \<Longrightarrow> frame (issues P) (dump_loop os n head backup new tr)"
  by (induction n arbitrary: backup new tr) (auto intro!: frame_intros)

lemma opens_only_parts [frame_intros]:
  "frame (issues (opens_only A)) (heap_strdup os str)"
  "frame (issues (opens_only A)) (CCCI_Dump_FS_Path os f)"
  "frame (issues (opens_only A)) (open_path os name i path)"
  unfolding CCCI_Dump_FS_Path_def open_path_def
  by (intro frame_intros issues_heap_strdup issues_dump issues_same_trace; simp)+

lemma opens_only_open_handle: "f \<in> A \<Longrightarrow> frame (issues (opens_only A)) (open_handle os f Flg)"
  unfolding open_handle_def by (intro frame_intros; simp)


text \<open>The files a name may lead to: below the directory of its drive without a pair of full
  stops, or the DSP image for drive W.\<close>

definition dsp_images :: "string \<Rightarrow> string set" where
  "dsp_images root = {dir @ ''/dsp_'' @ post_fix @ ''.bin'' | dir post_fix.
     dir = root \<or> dir = ''/custom/etc/firmware''}"

definition reachable_files :: "string list \<Rightarrow> string set" where
  "reachable_files roots = dsp_images (roots ! 3) \<union>
     {roots ! i @ rest | i rest. i < 8 \<and> \<not> sublist DOTDOT rest}"

lemma conv_name_no_dotdot:
  assumes "fst (FS_ConvWcsToCs ptr) \<noteq> - 1" shows "\<not> sublist DOTDOT (conv_name ptr)"
proof -
  obtain r res where w: "wcs_loop (PATH_MAX - 1) ptr [] = (r, res)" by fastforce
  then have "\<not> sublist DOTDOT res"
    using wcs_loop_no_dotdot [OF w] assms by (simp add: FS_ConvWcsToCs_def)
  moreover have "prefix (conv_name ptr) res"
    using w by (simp add: conv_name_def cstr_def FS_ConvWcsToCs_def takeWhile_is_prefix)
  ultimately show ?thesis by (metis prefix_imp_sublist sublist_order.order_trans)
qed

lemma drive_W_index: "k < 8 \<Longrightarrow> MdRootDir ! k = ''W:'' \<Longrightarrow> k = 3"
proof -
  have "\<forall>k \<in> set [0..<8]. MdRootDir ! k = ''W:'' \<longrightarrow> k = 3" by code_simp
  then show "k < 8 \<Longrightarrow> MdRootDir ! k = ''W:'' \<Longrightarrow> k = 3" by simp
qed

lemma open_path_reachable:
  assumes m: "map_path (FsRootDir s) name = Inr (i, path)" and nd: "\<not> sublist DOTDOT name"
  shows "wp (open_path os name i path) (\<lambda>f t. f \<in> reachable_files (FsRootDir s)) s"
proof -
  note mp = map_path_Inr [OF m]
  have "sublist (drop 2 name) name" by (rule suffix_imp_sublist [OF suffix_drop])
  with nd have "\<not> sublist DOTDOT (drop 2 name)" by (blast intro: sublist_order.order_trans)
  with mp have plain: "path \<in> reachable_files (FsRootDir s)"
    by (auto simp: reachable_files_def)
  have w: "dir @ ''/dsp_'' @ pf @ ''.bin'' \<in> reachable_files (FsRootDir s)"
    if "dir = FsRootDir s ! 3 \<or> dir = ''/custom/etc/firmware''" for dir pf
    using that unfolding reachable_files_def dsp_images_def by blast
  have "i = 3" if "take 2 name = ''W:''" using that mp drive_W_index [of i] by simp
  then show ?thesis
    unfolding open_path_def Let_def
    using w [of "FsRootDir s ! 3"] w [of "''/custom/etc/firmware''"] plain
    by (intro wp_intros wp_bindI [of "syscall _ _"] wp_syscallI) (simp_all)
qed

lemma FS_CCCI_Open_reachable:
  "wp (FS_CCCI_Open os name Flg) (\<lambda>_ t. issues (opens_only (reachable_files (FsRootDir s))) s t) s"
  unfolding FS_CCCI_Open_def Let_def
proof (intro wp_intros)
  let ?A = "reachable_files (FsRootDir s)"
  fix y i path
  assume neg: "\<not> fst (FS_ConvWcsToCs name) <s 0"
    and m: "map_path (FsRootDir s) (conv_name name) = Inr y" and y: "y = (i, path)"
  have nd: "\<not> sublist DOTDOT (conv_name name)"
    using neg by (intro conv_name_no_dotdot) (auto simp: word_sless_alt)
  show "wp (open_path os (conv_name name) i path)
      (\<lambda>f. wp (open_handle os f Flg) (\<lambda>_. issues (opens_only ?A) s)) s"
  proof (rule wp_intro)
    fix f t assume r: "run_state (open_path os (conv_name name) i path) s = (f, t)"
    have "f \<in> ?A" using wp_run [OF open_path_reachable [OF _ nd] r] m y by simp
    moreover have "issues (opens_only ?A) s t" by (rule frameD [OF opens_only_parts(3) r])
    ultimately show "wp (open_handle os f Flg) (\<lambda>_. issues (opens_only ?A) s) t"
      by (intro wp_frame [OF opens_only_open_handle]) (auto intro: issues.R_trans)
  qed
qed (auto intro: issues.R_refl)




text \<open>
  A handle that was closed keeps the address of its file name, and every refused operation on it
  prints that name: after open and close, a seek reads freed memory.
\<close>

theorem closed_handle_name_read_after_free:
  "\<not> ub busy_fsd \<and>
   ub (snd (run_state (do { _ \<leftarrow> FS_CCCI_Close (answering 0) 1; FS_CCCI_Seek (answering 0) 1 0 0 }) busy_fsd))"
  unfolding busy_fsd_def by code_simp

end
