(* ===== verification/Fsd_Dir.thy ===== *)
theory Fsd_Dir
  imports Fsd_Handle
begin

unbundle bit_operations_syntax

text \<open>
  The operations of \<open>ccci_fsd.c\<close> on names: attributes, directories, renaming, deletion, counting,
  moving and the search handles. Each begins with the loop over the drive table
  (\<open>Fsd_Path.map_path\<close>), here \<open>with_path\<close>.

  A directory is read with one \<open>Sys_readdir\<close> request per entry. Since the environment may never
  report the end of a directory, the loops take the number of entries they may read (\<open>width\<close>) and
  set \<open>hung\<close> beyond it. The recursion over subdirectories is bounded by the length of a path,
  \<open>PATH_MAX\<close>; that this depth is enough is proved below.
\<close>

section \<open>Attributes\<close>

definition with_path ::
  "u8 list \<Rightarrow> (string \<Rightarrow> nat \<Rightarrow> string \<Rightarrow> ('w fsd, s32) state) \<Rightarrow> ('w fsd, s32) state" where
  "with_path FileName k = do {
     roots \<leftarrow> gets FsRootDir;
     case map_path roots (conv_name FileName) of
       Inl e \<Rightarrow> ret e
     | Inr (i, FsFileName) \<Rightarrow> k (conv_name FileName) i FsFileName }"

definition FS_IsFile :: "'w os \<Rightarrow> string \<Rightarrow> ('w fsd, s32) state" where
  "FS_IsFile os file = do {
     r \<leftarrow> syscall os (Sys_stat file);
     ret (if r_ret r = - 1 then FS_ErrorConv (r_errno r) else st_mode (r_stat r) AND S_IFREG) }"

definition FS_IsDIR :: "'w os \<Rightarrow> string \<Rightarrow> ('w fsd, s32) state" where
  "FS_IsDIR os file = do {
     r \<leftarrow> syscall os (Sys_stat file);
     ret (if r_ret r = - 1 then FS_ErrorConv (r_errno r) else st_mode (r_stat r) AND S_IFDIR) }"

definition FS_IsReadOnly :: "'w os \<Rightarrow> string \<Rightarrow> ('w fsd, s32) state" where
  "FS_IsReadOnly os file = do {
     r \<leftarrow> syscall os (Sys_stat file);
     let Mode = st_mode (r_stat r);
     ret (if r_ret r = - 1 then FS_ErrorConv (r_errno r)
          else if Mode AND 0x124 \<noteq> 0 \<and> Mode AND 0x92 = 0 \<and> Mode AND 0x49 = 0 then 1 else 0) }"

definition FS_AttrReconv :: "'w os \<Rightarrow> string \<Rightarrow> ('w fsd, s32) state" where
  "FS_AttrReconv os file = do {
     ro \<leftarrow> FS_IsReadOnly os file;
     if ro <s 0 then ret ro
     else do {
       dir \<leftarrow> FS_IsDIR os file;
       ret (if dir <s 0 then dir
            else (if ro = 1 then FS_ATTR_READ_ONLY else 0) OR (if dir = S_IFDIR then FS_ATTR_DIR else 0)) } }"

definition le64 :: "u64 \<Rightarrow> u8 list" where
  "le64 v = le32 (ucast v) @ le32 (ucast (drop_bit 32 v))"

definition FS_GetFileDetail :: "'w os \<Rightarrow> string \<Rightarrow> ('w fsd, s32) state" where
  "FS_GetFileDetail os file = do {
     r \<leftarrow> syscall os (Sys_stat file);
     if r_ret r = - 1 then ret (FS_ErrorConv (r_errno r))
     else do {
       set_local L_FileDetail (le64 (word_of_int (st_mtime (r_stat r))) @
         le64 (word_of_int (st_atime (r_stat r))) @ le64 (word_of_int (st_ctime (r_stat r))));
       ret 0 } }"

text \<open>The DOS time stamp as the code computes it; \<open>localtime\<close> returns the address of one static
  structure, so that the second call also replaces what the first one returned.\<close>

definition dos_time :: "tm \<Rightarrow> u32" where
  "dos_time t = (tm_sec t AND 0x1F) OR push_bit 5 (tm_min t AND 0x3F) OR push_bit 11 (tm_hour t AND 0x1F)
     OR push_bit 16 (tm_mday t AND 0x1F) OR push_bit 21 (tm_mday t AND 0x0F)
     OR push_bit 25 ((tm_year t - 80) AND 0x7F)"

definition FS_EntryLinuxToDos :: "'w os \<Rightarrow> string \<Rightarrow> ('w fsd, u8 list) state" where
  "FS_EntryLinuxToDos os file = do {
     r \<leftarrow> syscall os (Sys_stat file);
     (if r_ret r = - 1 then fault else ret ());
     at \<leftarrow> syscall os (Sys_localtime (st_atime (r_stat r)));
     mt \<leftarrow> syscall os (Sys_localtime (st_mtime (r_stat r)));
     attr \<leftarrow> FS_AttrReconv os file;
     let CreateDateTime = (case r_tm at of None \<Rightarrow> 0
       | Some ta \<Rightarrow> dos_time (case r_tm mt of None \<Rightarrow> ta | Some tmod \<Rightarrow> tmod));
     let DateTime = (case r_tm mt of None \<Rightarrow> 0 | Some tmod \<Rightarrow> dos_time tmod);
     ret (replicate 11 0 @ [ucast attr, 0, 0] @ le32 CreateDateTime @ replicate 4 0 @ le32 DateTime @
       replicate 2 0 @ le32 (word_of_int (st_size (r_stat r))) @ replicate 20 0) }"

section \<open>Directories and names\<close>

definition FS_CCCI_CreateDir :: "'w os \<Rightarrow> u8 list \<Rightarrow> ('w fsd, s32) state" where
  "FS_CCCI_CreateDir os FileName = with_path FileName (\<lambda>name i path. do {
     (if take 1 name = ''U'' then do {
        r \<leftarrow> syscall os (Sys_stat FS_ROOT_MDLPM);
        if r_ret r <s 0 then do { _ \<leftarrow> syscall os (Sys_mkdir FS_ROOT_MDLPM MD_DIR_ATTR); ret () } else ret () }
      else ret ());
     r \<leftarrow> syscall os (Sys_mkdir path MD_DIR_ATTR);
     ret (if r_ret r = - 1 then FS_ErrorConv (r_errno r) else FS_NO_ERROR) })"

definition FS_CCCI_RemoveDir :: "'w os \<Rightarrow> u8 list \<Rightarrow> ('w fsd, s32) state" where
  "FS_CCCI_RemoveDir os FileName = with_path FileName (\<lambda>name i path. do {
     r \<leftarrow> syscall os (Sys_rmdir path);
     ret (if r_ret r = - 1 then FS_ErrorConv (r_errno r) else FS_NO_ERROR) })"

definition FS_CCCI_Rename :: "'w os \<Rightarrow> u8 list \<Rightarrow> u8 list \<Rightarrow> ('w fsd, s32) state" where
  "FS_CCCI_Rename os FileName NewFileName = with_path FileName (\<lambda>_ _ path.
     with_path NewFileName (\<lambda>_ _ new. do {
       r \<leftarrow> syscall os (Sys_rename path new);
       ret (if r_ret r = - 1 then FS_ErrorConv (r_errno r) else FS_NO_ERROR) }))"

definition FS_CCCI_Delete :: "'w os \<Rightarrow> u8 list \<Rightarrow> ('w fsd, s32) state" where
  "FS_CCCI_Delete os FileName = with_path FileName (\<lambda>name i path. do {
     r \<leftarrow> syscall os (Sys_unlink path);
     ret (if r_ret r = - 1 then FS_ErrorConv (r_errno r) else FS_NO_ERROR) })"

definition FS_CCCI_GetClusterSize :: "'w os \<Rightarrow> u32 \<Rightarrow> ('w fsd, s32) state" where
  "FS_CCCI_GetClusterSize os DriverIdx =
     (case find (\<lambda>i. DrvIdx ! i = DriverIdx) [0..<FS_MAX_DIR_NUM] of
        None \<Rightarrow> ret FS_DRIVE_NOT_FOUND
      | Some i \<Rightarrow> do {
          root \<leftarrow> gets (\<lambda>s. FsRootDir s ! i);
          r \<leftarrow> syscall os (Sys_statfs root);
          ret (if r_ret r = - 1 then FS_GENERAL_FAILURE else f_bsize (r_statfs r)) })"

definition is_subdir :: "u32 \<Rightarrow> string \<Rightarrow> bool" where
  "is_subdir mode d_name \<longleftrightarrow> mode AND S_IFDIR \<noteq> 0 \<and> d_name \<noteq> ''.'' \<and> d_name \<noteq> ''..''"

text \<open>\<open>FS_RecursiveSearch\<close>: the number of entries found, or a negative code, and the clusters added
  to the caller's count. The loop over one directory takes the search of a subdirectory as an
  argument.\<close>

definition file_clusters :: "int \<Rightarrow> s32 \<Rightarrow> u32" where
  "file_clusters file_size ClusterSize =
     (if 0 < file_size \<and> 0 <s ClusterSize then word_of_int (file_size div sint ClusterSize + 1) else 0)"

primrec search_loop ::
  "'w os \<Rightarrow> (string \<Rightarrow> ('w fsd, s32 \<times> u32) state) \<Rightarrow> u32 \<Rightarrow> string \<Rightarrow> s32 \<Rightarrow> s32 \<Rightarrow> nat \<Rightarrow> u32 \<Rightarrow> u32 \<Rightarrow>
    ('w fsd, s32 \<times> u32) state" where
  "search_loop os sub Flg dir pDir ClusterSize 0 found clusters = do { hang; ret (found, clusters) }"
| "search_loop os sub Flg dir pDir ClusterSize (Suc width) found clusters = do {
     e \<leftarrow> syscall os (Sys_readdir pDir);
     case r_name e of None \<Rightarrow> ret (found, clusters)
     | Some d_name \<Rightarrow>
       if PATH_MAX < length dir + length d_name + 2 then ret (FS_PATH_OVER_LEN_ERROR, clusters)
       else do {
         let FsFileName = dir @ ''/'' @ d_name;
         st \<leftarrow> syscall os (Sys_stat FsFileName);
         let mode = st_mode (r_stat st);
         if r_ret st = - 1 then search_loop os sub Flg dir pDir ClusterSize width found clusters
         else if is_subdir mode d_name then do {
           let found1 = (if Flg AND FS_DIR_TYPE \<noteq> 0 then found + 1 else found);
           if Flg AND FS_RECURSIVE_TYPE \<noteq> 0 then do {
             (RetVal, cl) \<leftarrow> sub FsFileName;
             if RetVal <s 0 then ret (RetVal, clusters)
             else search_loop os sub Flg dir pDir ClusterSize width (found1 + RetVal) (clusters + cl) }
           else search_loop os sub Flg dir pDir ClusterSize width found1 clusters }
         else if mode AND S_IFREG \<noteq> 0 \<and> Flg AND FS_FILE_TYPE \<noteq> 0
         then search_loop os sub Flg dir pDir ClusterSize width (found + 1)
                (clusters + file_clusters (st_size (r_stat st)) ClusterSize)
         else search_loop os sub Flg dir pDir ClusterSize width found clusters } }"

primrec rec_search :: "'w os \<Rightarrow> nat \<Rightarrow> u32 \<Rightarrow> nat \<Rightarrow> string \<Rightarrow> ('w fsd, s32 \<times> u32) state" where
  "rec_search os width Flg 0 = (\<lambda>dir. do { hang; ret (0, 0) })"
| "rec_search os width Flg (Suc depth) = (\<lambda>dir. do {
     ClusterSize \<leftarrow> FS_CCCI_GetClusterSize os (of_nat (of_char CHR ''Z''));
     r \<leftarrow> syscall os (Sys_opendir dir);
     if r_ret r = 0 then ret (0, 0)
     else do {
       res \<leftarrow> search_loop os (rec_search os width Flg depth) Flg dir (r_ret r) ClusterSize width 0 0;
       _ \<leftarrow> syscall os (Sys_closedir (r_ret r));
       ret res } })"

definition FS_RecursiveSearch :: "'w os \<Rightarrow> nat \<Rightarrow> string \<Rightarrow> u32 \<Rightarrow> ('w fsd, s32 \<times> u32) state" where
  "FS_RecursiveSearch os width FsDirName Flg = rec_search os width Flg (Suc PATH_MAX) FsDirName"

text \<open>\<open>FS_RecursiveDelete\<close>, the same way.\<close>

definition remove_dir :: "'w os \<Rightarrow> u32 \<Rightarrow> string \<Rightarrow> ('w fsd, s32 option) state" where
  "remove_dir os Flg f =
     (if Flg AND FS_DIR_TYPE \<noteq> 0 then do {
        r \<leftarrow> syscall os (Sys_rmdir f);
        ret (if r_ret r = - 1 then Some (FS_ErrorConv (r_errno r)) else None) }
      else ret None)"

primrec delete_loop ::
  "'w os \<Rightarrow> (string \<Rightarrow> ('w fsd, s32) state) \<Rightarrow> u32 \<Rightarrow> string \<Rightarrow> s32 \<Rightarrow> nat \<Rightarrow> u32 \<Rightarrow> ('w fsd, s32) state" where
  "delete_loop os sub Flg dir pDir 0 n = do { hang; ret n }"
| "delete_loop os sub Flg dir pDir (Suc width) n = do {
     e \<leftarrow> syscall os (Sys_readdir pDir);
     case r_name e of None \<Rightarrow> ret n
     | Some d_name \<Rightarrow>
       if PATH_MAX < length dir + length d_name + 2 then ret FS_PATH_OVER_LEN_ERROR
       else do {
         let FsFileName = dir @ ''/'' @ d_name;
         st \<leftarrow> syscall os (Sys_stat FsFileName);
         let mode = st_mode (r_stat st);
         if r_ret st = - 1 then delete_loop os sub Flg dir pDir width n
         else if is_subdir mode d_name then do {
           RetVal \<leftarrow> (if Flg AND FS_RECURSIVE_TYPE \<noteq> 0 then sub FsFileName else ret 0);
           if RetVal <s 0 then ret RetVal
           else do {
             e2 \<leftarrow> remove_dir os Flg FsFileName;
             case e2 of Some err \<Rightarrow> ret err
             | None \<Rightarrow> delete_loop os sub Flg dir pDir width
                 (n + RetVal + (if Flg AND FS_DIR_TYPE \<noteq> 0 then 1 else 0)) } }
         else if mode AND S_IFREG \<noteq> 0 \<and> Flg AND FS_FILE_TYPE \<noteq> 0 then do {
           r \<leftarrow> syscall os (Sys_unlink FsFileName);
           if r_ret r = - 1 then ret (FS_ErrorConv (r_errno r))
           else delete_loop os sub Flg dir pDir width (n + 1) }
         else delete_loop os sub Flg dir pDir width n } }"

primrec rec_delete :: "'w os \<Rightarrow> nat \<Rightarrow> u32 \<Rightarrow> nat \<Rightarrow> string \<Rightarrow> ('w fsd, s32) state" where
  "rec_delete os width Flg 0 = (\<lambda>dir. do { hang; ret 0 })"
| "rec_delete os width Flg (Suc depth) = (\<lambda>dir. do {
     r \<leftarrow> syscall os (Sys_opendir dir);
     if r_ret r = 0 then ret 0
     else do {
       RetVal \<leftarrow> delete_loop os (rec_delete os width Flg depth) Flg dir (r_ret r) width 0;
       _ \<leftarrow> syscall os (Sys_closedir (r_ret r));
       ret RetVal } })"

definition FS_RecursiveDelete :: "'w os \<Rightarrow> nat \<Rightarrow> string \<Rightarrow> u32 \<Rightarrow> ('w fsd, s32) state" where
  "FS_RecursiveDelete os width FsDirName Flg = rec_delete os width Flg (Suc PATH_MAX) FsDirName"


section \<open>Operations built on them\<close>

abbreviation (input) FS_COUNT_IN_CLUSTER :: u32 where "FS_COUNT_IN_CLUSTER \<equiv> 2"

definition FS_CCCI_GetFolderSize :: "'w os \<Rightarrow> nat \<Rightarrow> u8 list \<Rightarrow> u32 \<Rightarrow> ('w fsd, s32) state" where
  "FS_CCCI_GetFolderSize os width FullPath Flg = with_path FullPath (\<lambda>name i path. do {
     ClusterSize \<leftarrow> FS_CCCI_GetClusterSize os (DrvIdx ! i);
     r \<leftarrow> syscall os (Sys_stat path);
     if r_ret r = - 1 then ret (FS_ErrorConv (r_errno r))
     else if st_mode (r_stat r) AND S_IFDIR = 0 then ret FS_PARAM_ERROR
     else do {
       (FileCount, ClusterCount) \<leftarrow>
         FS_RecursiveSearch os width path (FS_FILE_TYPE OR FS_DIR_TYPE OR FS_RECURSIVE_TYPE);
       ret (if FileCount <s 0 then FileCount
            else if Flg = FS_COUNT_IN_CLUSTER then ClusterCount
            else ClusterCount * ClusterSize) } })"

definition FS_CCCI_Count :: "'w os \<Rightarrow> nat \<Rightarrow> u8 list \<Rightarrow> u32 \<Rightarrow> ('w fsd, s32) state" where
  "FS_CCCI_Count os width FullPath Flg = with_path FullPath (\<lambda>name i path. do {
     r \<leftarrow> syscall os (Sys_stat path);
     if r_ret r = - 1 then ret (FS_ErrorConv (r_errno r))
     else if st_mode (r_stat r) AND S_IFDIR = 0 then ret FS_PARAM_ERROR
     else do {
       (n, _) \<leftarrow> FS_RecursiveSearch os width path Flg;
       ret n } })"

definition FS_CCCI_GetAttributes :: "'w os \<Rightarrow> u8 list \<Rightarrow> ('w fsd, s32) state" where
  "FS_CCCI_GetAttributes os FileName = with_path FileName (\<lambda>name i path. FS_AttrReconv os path)"

definition FS_CCCI_GetFileDetail :: "'w os \<Rightarrow> u8 list \<Rightarrow> ('w fsd, s32) state" where
  "FS_CCCI_GetFileDetail os FileName = with_path FileName (\<lambda>name i path. FS_GetFileDetail os path)"

definition FS_CCCI_XDelete :: "'w os \<Rightarrow> nat \<Rightarrow> u8 list \<Rightarrow> u32 \<Rightarrow> ('w fsd, s32) state" where
  "FS_CCCI_XDelete os width FileName Flg = with_path FileName (\<lambda>name i path.
     if Flg AND FS_FILE_TYPE = 0 \<and> Flg AND FS_DIR_TYPE = 0 \<and> Flg AND FS_RECURSIVE_TYPE = 0
     then ret FS_PARAM_ERROR
     else if Flg AND NOT (FS_FILE_TYPE OR FS_DIR_TYPE OR FS_RECURSIVE_TYPE) \<noteq> 0 then ret FS_PARAM_ERROR
     else do {
       r \<leftarrow> syscall os (Sys_stat path);
       if r_ret r = - 1 then ret (FS_ErrorConv (r_errno r))
       else if st_mode (r_stat r) AND S_IFDIR = 0 then ret FS_PARAM_ERROR
       else do {
         DelFileNum \<leftarrow> FS_RecursiveDelete os width path Flg;
         if Flg AND FS_DIR_TYPE \<noteq> 0 \<and> Flg AND FS_RECURSIVE_TYPE \<noteq> 0 then do {
           d \<leftarrow> syscall os (Sys_rmdir path);
           ret (if r_ret d = - 1 then FS_ErrorConv (r_errno d) else DelFileNum + 1) }
         else ret DelFileNum } })"

text \<open>The copy at the end of \<open>FS_CCCI_Move\<close>. Both descriptors start at 0 and are closed when they are
  not negative, also where they were never opened.\<close>

definition close_fd :: "'w os \<Rightarrow> s32 \<Rightarrow> ('w fsd, unit) state" where
  "close_fd os fd = (if fd <s 0 then ret () else do { _ \<leftarrow> syscall os (Sys_close fd); ret () })"

definition finish_copy :: "'w os \<Rightarrow> s32 \<Rightarrow> s32 \<Rightarrow> s32 \<Rightarrow> ('w fsd, s32) state" where
  "finish_copy os fd newfd r = do { close_fd os fd; close_fd os newfd; ret r }"

definition move_copy :: "'w os \<Rightarrow> string \<Rightarrow> string \<Rightarrow> ('w fsd, s32) state" where
  "move_copy os FsFileName FsNewFileName = do {
     o1 \<leftarrow> syscall os (Sys_open FsFileName O_RDONLY 0);
     let fd = r_ret o1;
     if fd <s 0 then finish_copy os fd 0 (FS_ErrorConv (r_errno o1))
     else do {
       e1 \<leftarrow> syscall os (Sys_lseek fd 0 2);
       b1 \<leftarrow> syscall os (Sys_lseek fd 0 0);
       let len = r_ret e1 - r_ret b1;
       if len <s 0 then finish_copy os fd 0 FS_ERROR_RESERVED
       else do {
         m \<leftarrow> syscall os (Sys_malloc (unat len));
         if r_ret m = 0 then finish_copy os fd 0 FS_ERROR_RESERVED
         else do {
           _ \<leftarrow> syscall os (Sys_lseek fd 0 0);
           rd \<leftarrow> syscall os (Sys_read fd len);
           if r_ret rd <s len
           then finish_copy os fd 0 (if r_ret rd <s 0 then FS_ErrorConv (r_errno rd) else FS_ERROR_RESERVED)
           else do {
             c1 \<leftarrow> syscall os (Sys_creat FsNewFileName 0x1FF);
             let newfd = r_ret c1;
             if newfd <s 0 then finish_copy os fd newfd (FS_ErrorConv (r_errno c1))
             else do {
               wr \<leftarrow> syscall os (Sys_write newfd (take (unat len) (r_data rd)));
               finish_copy os fd newfd
                 (if r_ret wr <s len
                  then if r_ret wr <s 0 then FS_ErrorConv (r_errno wr) else FS_ERROR_RESERVED
                  else FS_NO_ERROR) } } } } } }"

text \<open>The part that clears the way: None to go on, Some code to leave.\<close>

definition move_overwrite :: "'w os \<Rightarrow> nat \<Rightarrow> u8 list \<Rightarrow> string \<Rightarrow> s32 \<Rightarrow> ('w fsd, s32 \<times> bool) state" where
  "move_overwrite os width DstFullPath FsNewFileName r0 = do {
     ro \<leftarrow> FS_IsReadOnly os FsNewFileName;
     if 1 \<le>s ro then ret (FS_READ_ONLY_ERROR, True)
     else do {
       d \<leftarrow> FS_IsDIR os FsNewFileName;
       if 1 \<le>s d then do {
         x \<leftarrow> FS_CCCI_XDelete os width DstFullPath (FS_FILE_TYPE OR FS_DIR_TYPE OR FS_RECURSIVE_TYPE);
         ret (x, x <s 0) }
       else do {
         f \<leftarrow> FS_IsFile os FsNewFileName;
         if 1 \<le>s f then do {
           x \<leftarrow> FS_CCCI_Delete os DstFullPath;
           ret (x, x <s 0) }
         else ret (r0, False) } } }"

definition FS_CCCI_Move :: "'w os \<Rightarrow> nat \<Rightarrow> u8 list \<Rightarrow> u8 list \<Rightarrow> u32 \<Rightarrow> ('w fsd, s32) state" where
  "FS_CCCI_Move os width SrcFullPath DstFullPath Flg =
     with_path SrcFullPath (\<lambda>_ _ src. with_path DstFullPath (\<lambda>_ _ dst.
       if src = dst then ret FS_PARAM_ERROR
       else if Flg AND FS_MOVE_COPY = 0 \<and> Flg AND FS_MOVE_KILL = 0 then ret FS_PARAM_ERROR
       else if Flg AND NOT (FS_MOVE_COPY OR FS_MOVE_KILL OR FS_MOVE_OVERWRITE) \<noteq> 0 then ret FS_PARAM_ERROR
       else do {
         ro \<leftarrow> (if Flg AND FS_MOVE_KILL \<noteq> 0 then FS_IsReadOnly os src else ret 0);
         if 1 \<le>s ro then ret FS_READ_ONLY_ERROR
         else do {
           (r, leave) \<leftarrow> (if Flg AND FS_MOVE_OVERWRITE \<noteq> 0
             then move_overwrite os width DstFullPath dst FS_GENERAL_FAILURE
             else ret (FS_GENERAL_FAILURE, False));
           if leave then ret r
           else if Flg AND FS_MOVE_COPY \<noteq> 0 then move_copy os src dst
           else ret r } }))"

section \<open>Search handles\<close>

text \<open>The loop over the entries of a directory: the next one whose name matches the pattern and
  whose attributes match, with its path; None at the end of the directory.\<close>

primrec find_loop ::
  "'w os \<Rightarrow> bool \<Rightarrow> string \<Rightarrow> string \<Rightarrow> u8 \<Rightarrow> u8 \<Rightarrow> s32 \<Rightarrow> nat \<Rightarrow> ('w fsd, s32 + (string \<times> string) option) state" where
  "find_loop os skip base pat attr amask pDir 0 = do { hang; ret (Inr None) }"
| "find_loop os skip base pat attr amask pDir (Suc width) = do {
     e \<leftarrow> syscall os (Sys_readdir pDir);
     case r_name e of None \<Rightarrow> ret (Inr None)
     | Some d_name \<Rightarrow>
       if skip \<and> (d_name = ''.'' \<or> d_name = ''..'') \<or> \<not> PatMatch pat d_name
       then find_loop os skip base pat attr amask pDir width
       else if PATH_MAX < length base + length d_name then ret (Inl FS_PATH_OVER_LEN_ERROR)
       else do {
         let path = base @ take (PATH_MAX - length base - 1) d_name;
         a \<leftarrow> FS_AttrReconv os path;
         let FileAttr = (ucast a :: u8);
         if FileAttr AND attr = attr \<and> FileAttr AND amask = 0 then ret (Inr (Some (d_name, path)))
         else find_loop os skip base pat attr amask pDir width } }"

text \<open>What a found entry leaves in the caller's variables.\<close>

definition store_name :: "string \<Rightarrow> u32 \<Rightarrow> ('w fsd, u32) state" where
  "store_name d_name max_len = (case FS_ConvCsToWcs d_name max_len of (n, dst, below) \<Rightarrow> do {
     (if below then fault else ret ());
     modify (\<lambda>s. s\<lparr>locals := (locals s)(L_FileNameTemp :=
       dst @ drop (length dst) (locals s L_FileNameTemp))\<rparr>);
     ret n })"

definition store_found :: "'w os \<Rightarrow> string \<Rightarrow> string \<Rightarrow> u32 \<Rightarrow> ('w fsd, u32) state" where
  "store_found os d_name path max_len = do {
     entry \<leftarrow> FS_EntryLinuxToDos os path;
     n \<leftarrow> store_name d_name max_len;
     set_local L_DosDirEntry (entry[12 := (if length d_name < unat max_len then 1 else 0)]);
     ret n }"

text \<open>Result and the new value of \<open>*pMaxLength\<close>.\<close>

definition find_names :: "'w os \<Rightarrow> u32 \<Rightarrow> string \<Rightarrow> string \<Rightarrow> string \<Rightarrow> u32 \<Rightarrow> ('w fsd, s32 \<times> u32) state" where
  "find_names os HandleIndex pat d_name path max_len = do {
     p \<leftarrow> heap_strdup os path;
     upd_handle (unat HandleIndex) (\<lambda>h. h\<lparr>pFsFileName := p\<rparr>);
     if p = 0 then ret (FS_ERROR_RESERVED, 0)
     else do {
       q \<leftarrow> heap_strdup os pat;
       upd_handle (unat HandleIndex) (\<lambda>h. h\<lparr>pFsSearchPattern := q\<rparr>);
       if q = 0 then ret (FS_ERROR_RESERVED, 0)
       else do {
         n \<leftarrow> store_found os d_name path max_len;
         ret (HandleIndex, n) } } }"

definition find_install ::
  "'w os \<Rightarrow> s32 \<Rightarrow> u8 \<Rightarrow> u8 \<Rightarrow> string \<Rightarrow> string \<Rightarrow> string \<Rightarrow> u32 \<Rightarrow> ('w fsd, s32 \<times> u32) state" where
  "find_install os pDir attr amask pat d_name path max_len = do {
     HandleIndex \<leftarrow> FS_GetFreeHandle;
     if HandleIndex = 0xFFFFFFFF then ret (FS_TOO_MANY_FILES, 0)
     else do {
       upd_info (\<lambda>g. g\<lparr>FileNum := FileNum g + 1\<rparr>);
       upd_handle (unat HandleIndex)
         (\<lambda>h. h\<lparr>hFile := pDir, fInUse := True, fSearch := True, Attr := attr, AttrMask := amask\<rparr>);
       find_names os HandleIndex pat d_name path max_len } }"

definition FS_CCCI_FindFirst ::
  "'w os \<Rightarrow> nat \<Rightarrow> u8 list \<Rightarrow> u8 \<Rightarrow> u8 \<Rightarrow> u32 \<Rightarrow> ('w fsd, s32 \<times> u32) state" where
  "FS_CCCI_FindFirst os width PatternName attr amask max_len = do {
     roots \<leftarrow> gets FsRootDir;
     case map_path roots (conv_name PatternName) of
       Inl e \<Rightarrow> ret (e, 0)
     | Inr (_, FsPatternName) \<Rightarrow>
       (case last_slash FsPatternName of
          None \<Rightarrow> ret (FS_PATH_NOT_FOUND, 0)
        | Some j \<Rightarrow>
          if j = 0 then ret (FS_PATH_NOT_FOUND, 0)
          else if NAME_MAX < length (drop (j + 1) FsPatternName) then ret (FS_PATH_OVER_LEN_ERROR, 0)
          else do {
            let FsFileName = take (NAME_MAX - 1) (drop (j + 1) FsPatternName);
            d \<leftarrow> syscall os (Sys_opendir (take j FsPatternName));
            if r_ret d = 0 then ret (FS_ErrorConv (r_errno d), 0)
            else do {
              found \<leftarrow> find_loop os True (take (j + 1) FsPatternName) FsFileName attr amask (r_ret d) width;
              case found of
                Inl e \<Rightarrow> ret (e, 0)
              | Inr None \<Rightarrow> do { _ \<leftarrow> syscall os (Sys_closedir (r_ret d)); ret (FS_NO_MORE_FILES, 0) }
              | Inr (Some (d_name, path)) \<Rightarrow>
                  find_install os (r_ret d) attr amask FsFileName d_name path max_len } }) }"

definition find_next_found ::
  "'w os \<Rightarrow> u32 \<Rightarrow> nat \<Rightarrow> string \<Rightarrow> string \<Rightarrow> u32 \<Rightarrow> ('w fsd, s32 \<times> u32) state" where
  "find_next_found os HandleIndex oldName d_name path max_len = do {
     heap_free oldName;
     p \<leftarrow> heap_strdup os path;
     upd_handle (unat HandleIndex) (\<lambda>h. h\<lparr>pFsFileName := p\<rparr>);
     if p = 0 then ret (FS_ERROR_RESERVED, 0)
     else do {
       n \<leftarrow> store_found os d_name path max_len;
       ret (FS_NO_ERROR, n) } }"

definition FS_CCCI_FindNext :: "'w os \<Rightarrow> nat \<Rightarrow> u32 \<Rightarrow> u32 \<Rightarrow> ('w fsd, s32 \<times> u32) state" where
  "FS_CCCI_FindNext os width HandleIndex max_len = do {
     ok \<leftarrow> check_handle HandleIndex;
     if \<not> ok then ret (FS_INVALID_FILE_HANDLE, 0)
     else do {
       h \<leftarrow> get_handle (unat HandleIndex);
       FsPatternName \<leftarrow> heap_str (pFsFileName h);
       case last_slash FsPatternName of
         None \<Rightarrow> ret (FS_PATH_NOT_FOUND, 0)
       | Some j \<Rightarrow>
         if j = 0 then ret (FS_PATH_NOT_FOUND, 0)
         else do {
           (if \<not> fSearch h \<or> pFsSearchPattern h = 0 then fault else ret ());
           pat \<leftarrow> heap_str (pFsSearchPattern h);
           found \<leftarrow> find_loop os False (take (j + 1) FsPatternName) pat (Attr h) (AttrMask h) (hFile h) width;
           case found of
             Inl e \<Rightarrow> ret (e, 0)
           | Inr None \<Rightarrow> ret (FS_NO_MORE_FILES, 0)
           | Inr (Some (d_name, path)) \<Rightarrow>
               find_next_found os HandleIndex (pFsFileName h) d_name path max_len } } }"

definition find_release :: "nat \<Rightarrow> FS_FILE_HANDLE \<Rightarrow> ('w fsd, unit) state" where
  "find_release i h = do {
     upd_handle i (\<lambda>h. h\<lparr>hFile := INVALID_HANDLE_VALUE, fInUse := False\<rparr>);
     heap_free (pFsFileName h);
     heap_free (pFsSearchPattern h);
     upd_info (\<lambda>g. g\<lparr>FileNum := FileNum g - 1\<rparr>) }"

definition FS_CCCI_FindClose :: "'w os \<Rightarrow> u32 \<Rightarrow> ('w fsd, s32) state" where
  "FS_CCCI_FindClose os HandleIndex = do {
     ok \<leftarrow> check_handle HandleIndex;
     if \<not> ok then ret FS_INVALID_FILE_HANDLE
     else do {
       log_file_name (unat HandleIndex);
       h \<leftarrow> get_handle (unat HandleIndex);
       r \<leftarrow> syscall os (if fSearch h then Sys_closedir (hFile h) else Sys_close (hFile h));
       if (if fSearch h then r_ret r \<noteq> 0 else r_ret r = - 1) then do {
         log_file_name (unat HandleIndex);
         ret (FS_ErrorConv (r_errno r)) }
       else do { find_release (unat HandleIndex) h; ret FS_NO_ERROR } } }"


section \<open>The handle table\<close>

lemma frame_with_path [frame_intros]:
  "(\<And>name i path. frame same_table (k name i path)) \<Longrightarrow> frame same_table (with_path FileName k)"
  unfolding with_path_def by (intro frame_intros)

lemma same_table_attr [frame_intros]:
  "frame same_table (FS_IsFile os f)" "frame same_table (FS_IsDIR os f)" "frame same_table (FS_IsReadOnly os f)"
  "frame same_table (FS_GetFileDetail os f)" "frame same_table (FS_CCCI_GetClusterSize os d)"
  unfolding FS_IsFile_def FS_IsDIR_def FS_IsReadOnly_def FS_GetFileDetail_def FS_CCCI_GetClusterSize_def
  by (intro frame_intros)+

lemma same_table_attr2 [frame_intros]:
  "frame same_table (FS_AttrReconv os f)" "frame same_table (close_fd os fd)"
  "frame same_table (remove_dir os Flg f)" "frame same_table (store_name d n)"
  unfolding FS_AttrReconv_def close_fd_def remove_dir_def store_name_def
  by (intro frame_intros; simp)+

lemma same_table_entry [frame_intros]:
  "frame same_table (FS_EntryLinuxToDos os f)" "frame same_table (finish_copy os fd newfd r)"
  unfolding FS_EntryLinuxToDos_def finish_copy_def by (intro frame_intros)+

lemma same_table_store_found [frame_intros]: "frame same_table (store_found os d path n)"
  unfolding store_found_def by (intro frame_intros)

lemma same_table_search_loop:
  "(\<And>f. frame same_table (sub f)) \<Longrightarrow> frame same_table (search_loop os sub Flg dir p cs width n c)"
  by (induction width arbitrary: n c) (auto intro!: frame_intros)

lemma same_table_delete_loop:
  "(\<And>f. frame same_table (sub f)) \<Longrightarrow> frame same_table (delete_loop os sub Flg dir p width n)"
  by (induction width arbitrary: n) (auto intro!: frame_intros)

lemma same_table_rec [frame_intros]:
  "frame same_table (rec_search os width Flg depth dir)" "frame same_table (rec_delete os width Flg depth dir)"
proof -
  show "frame same_table (rec_search os width Flg depth dir)"
    by (induction depth arbitrary: dir) (auto intro!: frame_intros same_table_search_loop)
  show "frame same_table (rec_delete os width Flg depth dir)"
    by (induction depth arbitrary: dir) (auto intro!: frame_intros same_table_delete_loop)
qed

lemma same_table_find_loop [frame_intros]:
  "frame same_table (find_loop os skip base pat attr amask p width)"
  by (induction width) (auto intro!: frame_intros)

lemma same_table_names [frame_intros]:
  "frame same_table (FS_CCCI_CreateDir os name)" "frame same_table (FS_CCCI_RemoveDir os name)"
  "frame same_table (FS_CCCI_Rename os name new)" "frame same_table (FS_CCCI_Delete os name)"
  "frame same_table (FS_CCCI_GetFolderSize os width name Flg)" "frame same_table (FS_CCCI_Count os width name Flg)"
  "frame same_table (FS_CCCI_GetAttributes os name)" "frame same_table (FS_CCCI_GetFileDetail os name)"
  "frame same_table (FS_CCCI_XDelete os width name Flg)" "frame same_table (move_copy os src dst)"
  unfolding FS_CCCI_CreateDir_def FS_CCCI_RemoveDir_def FS_CCCI_Rename_def FS_CCCI_Delete_def
    FS_CCCI_GetFolderSize_def FS_CCCI_Count_def FS_CCCI_GetAttributes_def FS_CCCI_GetFileDetail_def
    FS_CCCI_XDelete_def move_copy_def Let_def FS_RecursiveSearch_def FS_RecursiveDelete_def
  by (intro frame_intros)+

lemma same_table_move [frame_intros]:
  "frame same_table (move_overwrite os width dst f r)" "frame same_table (FS_CCCI_Move os width src dst Flg)"
  unfolding move_overwrite_def FS_CCCI_Move_def by (intro frame_intros)+


text \<open>A search handle is installed like a file handle: the lowest free entry, or an error.\<close>

definition find_effect :: "'w fsd \<Rightarrow> s32 \<times> u32 \<Rightarrow> 'w fsd \<Rightarrow> bool" where
  "find_effect s r t \<longleftrightarrow> same_table s t \<and> fst r <s 0 \<or>
     (\<exists>i e. fills s i e t \<and> fSearch e \<and> (fst r = FS_ERROR_RESERVED \<or> fst r = of_nat i))"

lemma find_effect_error: "same_table s t \<Longrightarrow> e <s 0 \<Longrightarrow> find_effect s (e, n) t"
  by (simp add: find_effect_def)

lemma find_effect_carry: "same_table s t \<Longrightarrow> find_effect t r u \<Longrightarrow> find_effect s r u"
  unfolding find_effect_def by (blast intro: fills_same_table same_table.R_trans)

lemma find_effect_handles_ok: "find_effect s r t \<Longrightarrow> handles_ok s \<Longrightarrow> handles_ok t"
  unfolding find_effect_def by (blast intro: same_table_handles_ok fills_handles_ok)

text \<open>An entry that was just filled may be filled in further.\<close>

definition filled :: "'w fsd \<Rightarrow> nat \<Rightarrow> 'w fsd \<Rightarrow> bool" where
  "filled s i t \<longleftrightarrow> (\<exists>e. fills s i e t \<and> fSearch e \<and> i < length (hFileHandle (g_FsInfo s)))"

lemma filled_same_table: "filled s i t \<Longrightarrow> same_table t u \<Longrightarrow> filled s i u"
  by (auto simp: filled_def fills_def same_table_def)

lemma filled_upd:
  assumes "filled s i t" "\<And>h. fInUse (f h) = fInUse h \<and> fSearch (f h) = fSearch h"
  shows "wp (upd_handle i f) (\<lambda>_. filled s i) t"
proof -
  obtain e where "fills s i e t" "fSearch e" "i < length (hFileHandle (g_FsInfo s))"
    using assms(1) by (auto simp: filled_def)
  then show ?thesis using assms(2)
    by (auto simp: wp_def filled_def fills_def intro!: exI [of _ "f e"])
qed

lemma filled_effect: "filled s i t \<Longrightarrow> r = FS_ERROR_RESERVED \<or> r = of_nat i \<Longrightarrow> find_effect s (r, n) t"
  by (auto simp: filled_def find_effect_def)

lemma wp_filled: "filled s i t \<Longrightarrow> frame same_table m \<Longrightarrow> (\<And>a u. filled s i u \<Longrightarrow> Q a u) \<Longrightarrow> wp m Q t"
  by (erule wp_frame) (blast intro: filled_same_table)

lemma find_names_effect:
  assumes "filled s (unat k) u"
  shows "wp (find_names os k pat d path n) (find_effect s) u"
  unfolding find_names_def
proof (rule wp_bindI, rule wp_filled [OF assms same_table_heap(1)], rule wp_bindI,
    rule wp_mono [OF filled_upd], assumption, simp, rule wp_ifI)
  fix p :: nat and t assume t: "filled s (unat k) t"
  show "wp (ret (FS_ERROR_RESERVED, 0)) (find_effect s) t"
    by (rule wp_returnI, rule filled_effect [OF t]) simp
  have stored: "wp (do { n \<leftarrow> store_found os d path n; ret (k, n) }) (find_effect s) v" if "filled s (unat k) v" for v
    by (rule wp_bindI, rule wp_filled [OF that same_table_store_found], rule wp_returnI, rule filled_effect)
      (assumption, rule disjI2, simp)
  show "wp (do {
      q \<leftarrow> heap_strdup os pat;
      upd_handle (unat k) (\<lambda>h. h\<lparr>pFsSearchPattern := q\<rparr>);
      if q = 0 then ret (FS_ERROR_RESERVED, 0)
      else do { n \<leftarrow> store_found os d path n; ret (k, n) } }) (find_effect s) t"
    by (rule wp_bindI, rule wp_filled [OF t same_table_heap(1)], rule wp_bindI,
        rule wp_mono [OF filled_upd], assumption, simp, rule wp_ifI)
      (auto intro: stored wp_returnI filled_effect)
qed

lemma find_install_effect:
  assumes ok: "handles_ok s"
  shows "wp (find_install os pDir attr amask pat d path n) (find_effect s) s"
  unfolding find_install_def
proof (rule wp_bindI, rule wp_intro)
  fix k t assume "run_state FS_GetFreeHandle s = (k, t)"
  then have t: "t = s" and low: "k \<noteq> 0xFFFFFFFF \<Longrightarrow> lowest_free s (unat k)"
    using FS_GetFreeHandle_lowest by blast+
  have "unat k < length (hFileHandle (g_FsInfo s))" if "k \<noteq> 0xFFFFFFFF"
    using low [OF that] ok by (simp add: lowest_free_def handles_ok_def table_inv_def)
  then have taken: "filled s (unat k) (s\<lparr>g_FsInfo := (g_FsInfo s)\<lparr>FileNum := FileNum (g_FsInfo s) + 1,
      hFileHandle := (hFileHandle (g_FsInfo s))[unat k := (hFileHandle (g_FsInfo s) ! unat k)
        \<lparr>hFile := pDir, fInUse := True, fSearch := True, Attr := attr, AttrMask := amask\<rparr>]\<rparr>\<rparr>)"
    if "k \<noteq> 0xFFFFFFFF"
    using low [OF that] that
    by (auto simp: filled_def fills_def intro!: exI [of _ "(hFileHandle (g_FsInfo s) ! unat k)
        \<lparr>hFile := pDir, fInUse := True, fSearch := True, Attr := attr, AttrMask := amask\<rparr>"])
  show "wp (if k = 0xFFFFFFFF then ret (FS_TOO_MANY_FILES, 0) else do {
       upd_info (\<lambda>g. g\<lparr>FileNum := FileNum g + 1\<rparr>);
       upd_handle (unat k)
         (\<lambda>h. h\<lparr>hFile := pDir, fInUse := True, fSearch := True, Attr := attr, AttrMask := amask\<rparr>);
       find_names os k pat d path n }) (find_effect s) t"
    unfolding t upd_info_def upd_handle_def
    by (intro wp_ifI wp_returnI find_effect_error same_table.R_refl wp_bindI wp_modifyI find_names_effect)
      (use taken in \<open>simp_all add: word_sless_alt\<close>)
qed

text \<open>What the search loop delivers.\<close>

definition find_result :: "bool \<Rightarrow> string \<Rightarrow> string \<Rightarrow> s32 + (string \<times> string) option \<Rightarrow> bool" where
  "find_result skip base pat r \<longleftrightarrow> (case r of Inl e \<Rightarrow> e = FS_PATH_OVER_LEN_ERROR | Inr None \<Rightarrow> True
     | Inr (Some (d_name, path)) \<Rightarrow> PatMatch pat d_name \<and> (skip \<longrightarrow> d_name \<noteq> ''.'' \<and> d_name \<noteq> ''..'') \<and>
         length base + length d_name \<le> PATH_MAX \<and>
         path = base @ take (PATH_MAX - length base - 1) d_name)"

lemma find_loop_result: "wp (find_loop os skip base pat attr amask p width) (\<lambda>r _. find_result skip base pat r) s"
proof (induction width arbitrary: s)
  case 0
  show ?case unfolding find_loop.simps hang_def by (intro wp_intros) (simp add: find_result_def)
next
  case (Suc width)
  have attr: "wp (FS_AttrReconv os f) Q t" if "\<And>a u. Q a u" for f Q t
    by (rule wp_intro) (rule that)
  show ?case
    unfolding find_loop.simps Let_def
    by (intro wp_bindI wp_syscallI wp_optionI wp_ifI wp_returnI attr Suc) (auto simp: find_result_def)
qed

lemma wp_find_loop:
  assumes "same_table s t" "\<And>a u. same_table s u \<Longrightarrow> find_result skip base pat a \<Longrightarrow> Q a u"
  shows "wp (find_loop os skip base pat attr amask p width) Q t"
proof (rule wp_intro)
  fix a u assume r: "run_state (find_loop os skip base pat attr amask p width) t = (a, u)"
  show "Q a u"
    using assms(2) [OF same_table.R_trans [OF assms(1) frameD [OF same_table_find_loop r]]]
      wp_run [OF find_loop_result r] by blast
qed

lemma FS_CCCI_FindFirst_effect:
  assumes ok: "handles_ok s"
  shows "wp (FS_CCCI_FindFirst os width name attr amask n) (find_effect s) s"
proof -
  have err: "wp (ret (e, 0)) (find_effect s) t" if "same_table s t" "e <s 0" for e t
    by (rule wp_returnI, rule find_effect_error [OF that])
  have inst: "wp (find_install os p attr amask pat d path n) (find_effect s) t" if "same_table s t" for t p pat d path
    by (rule wp_mono [OF find_install_effect [OF same_table_handles_ok [OF that ok]] find_effect_carry [OF that]])
  have sys: "wp (syscall os q) Q t" if "\<And>a u. same_table s u \<Longrightarrow> Q a u" "same_table s t" for q Q t
    by (rule wp_frame [OF same_table.request]) (blast intro: that same_table.R_trans)
  show ?thesis
    unfolding FS_CCCI_FindFirst_def Let_def
    by (intro wp_bindI wp_getsI wp_sumI wp_prodI wp_optionI wp_ifI sys wp_find_loop inst err same_table.R_refl
        FS_ErrorConv_neg) (auto simp: word_sless_alt find_result_def dest: map_path_neg)
qed

lemma FS_CCCI_FindFirst_ok [valid_intros]: "keeps handles_ok (FS_CCCI_FindFirst os width name attr amask n)"
  by (rule keeps_wpI) (rule wp_mono [OF FS_CCCI_FindFirst_effect], assumption, erule (1) find_effect_handles_ok)

lemma find_next_found_ok:
  "unat k < FS_FILE_MAX \<Longrightarrow> keeps handles_ok (find_next_found os k old d path n)"
  unfolding find_next_found_def
  by (intro keeps_bind quiet_handles_ok [OF same_table_heap(1)] quiet_handles_ok [OF same_table_heap(2)]
      keeps_upd_handle keeps_if keeps_return quiet_handles_ok [OF same_table_store_found]) auto

lemma keeps_checked:
  assumes "keeps P (check_handle n)" "keeps P m1" "unat n < FS_FILE_MAX \<Longrightarrow> keeps P m2"
  shows "keeps P (do { ok \<leftarrow> check_handle n; if \<not> ok then m1 else m2 })"
proof (rule keeps_wpI, rule wp_bindI, rule wp_intro)
  fix s ok t assume "P s" and r: "run_state (check_handle n) s = (ok, t)"
  then have P: "P t" by (rule keepsD [OF assms(1)])
  have "ok \<Longrightarrow> unat n < FS_FILE_MAX" using check_handle_run [OF r] by (simp add: in_use_def)
  then show "wp (if \<not> ok then m1 else m2) (\<lambda>_. P) t"
    using P by (intro wp_ifI) (auto intro: wp_keeps [OF assms(2)] wp_keeps [OF assms(3)])
qed

lemma FS_CCCI_FindNext_ok [valid_intros]: "keeps handles_ok (FS_CCCI_FindNext os width k n)"
  unfolding FS_CCCI_FindNext_def
proof (rule keeps_checked)
  show "keeps handles_ok (check_handle k)" by (rule quiet_handles_ok, rule same_table_reads)
  note quiet = quiet_handles_ok [OF same_table_heap(3)] quiet_handles_ok [OF same_table_heap(4)]
    quiet_handles_ok [OF same_table.fault_keeps] quiet_handles_ok [OF same_table_find_loop]
  assume "unat k < FS_FILE_MAX"
  note found = find_next_found_ok [OF this]
  show "keeps handles_ok (do {
       h \<leftarrow> get_handle (unat k);
       FsPatternName \<leftarrow> heap_str (pFsFileName h);
       case last_slash FsPatternName of
         None \<Rightarrow> ret (FS_PATH_NOT_FOUND, 0)
       | Some j \<Rightarrow>
         if j = 0 then ret (FS_PATH_NOT_FOUND, 0)
         else do {
           (if \<not> fSearch h \<or> pFsSearchPattern h = 0 then fault else ret ());
           pat \<leftarrow> heap_str (pFsSearchPattern h);
           found \<leftarrow> find_loop os False (take (j + 1) FsPatternName) pat (Attr h) (AttrMask h) (hFile h) width;
           case found of
             Inl e \<Rightarrow> ret (e, 0)
           | Inr None \<Rightarrow> ret (FS_NO_MORE_FILES, 0)
           | Inr (Some (d_name, path)) \<Rightarrow> find_next_found os k (pFsFileName h) d_name path n } })"
    by (intro valid_intros quiet found)
qed (rule keeps_return)


lemma find_release_frees:
  assumes "same_table s u" "i \<in> in_use s" "run_state (find_release i h) u = (a, t)"
  shows "frees s i t"
proof -
  have "hFileHandle (g_FsInfo t) = (hFileHandle (g_FsInfo u))
      [i := (hFileHandle (g_FsInfo u) ! i)\<lparr>hFile := INVALID_HANDLE_VALUE, fInUse := False\<rparr>] \<and>
    FileNum (g_FsInfo t) = FileNum (g_FsInfo u) - 1"
    using assms(3) by (auto simp: find_release_def heap_free_def upd_info_def fault_def split: if_splits)
  then show ?thesis using assms(1,2) by (auto simp: frees_def same_table_def)
qed

lemma FS_CCCI_FindClose_effect: "wp (FS_CCCI_FindClose os n) (close_effect s n) s"
  unfolding FS_CCCI_FindClose_def
proof (rule wp_bindI, rule wp_intro, drule check_handle_run, rule wp_ifI)
  fix ok t assume c: "same_table s t \<and> (ok \<longrightarrow> unat n \<in> in_use s \<and> t = s)"
  then show "wp (ret FS_INVALID_FILE_HANDLE) (close_effect s n) t"
    by (simp add: wp_return close_effect_error word_sless_alt)
  assume "\<not> \<not> ok"
  with c have used: "unat n \<in> in_use s" and t: "t = s" by auto
  have sys: "wp (syscall os q) Q u" if "\<And>a v. same_table s v \<Longrightarrow> Q a v" "same_table s u" for q Q u
    by (rule wp_frame [OF same_table.request]) (blast intro: that same_table.R_trans)
  have quiet: "wp (log_file_name (unat n)) Q u" "wp (get_handle (unat n)) Q' u"
    if "\<And>a v. same_table s v \<Longrightarrow> Q a v" "\<And>a v. same_table s v \<Longrightarrow> Q' a v" "same_table s u" for Q Q' u
    using that by (blast intro: wp_frame [OF same_table_reads(1)] wp_frame [OF same_table_heap(4)] same_table.R_trans)+
  have rel: "wp (do { find_release (unat n) h; ret FS_NO_ERROR }) (close_effect s n) u" if "same_table s u" for h u
    by (intro wp_bindI wp_intro) (use that used find_release_frees in \<open>auto simp: close_effect_def\<close>)
  show "wp (do {
       log_file_name (unat n);
       h \<leftarrow> get_handle (unat n);
       r \<leftarrow> syscall os (if fSearch h then Sys_closedir (hFile h) else Sys_close (hFile h));
       if (if fSearch h then r_ret r \<noteq> 0 else r_ret r = - 1) then do {
         log_file_name (unat n);
         ret (FS_ErrorConv (r_errno r)) }
       else do { find_release (unat n) h; ret FS_NO_ERROR } }) (close_effect s n) t"
    unfolding t
    by (rule wp_bindI, rule quiet(1) [OF _ _ same_table.R_refl], rule wp_bindI, rule quiet(2), assumption,
        rule wp_bindI, rule sys, rule wp_ifI [OF close_failed rel])
      (assumption | rule TrueI)+
qed


lemma FS_CCCI_FindClose_ok [valid_intros]: "keeps handles_ok (FS_CCCI_FindClose os n)"
  by (rule keepsI, drule wp_run [OF FS_CCCI_FindClose_effect])
    (auto simp: close_effect_def intro: same_table_handles_ok frees_handles_ok)

section \<open>What the recursive deletion removes\<close>

definition removal :: "sysreq \<Rightarrow> bool" where
  "removal q \<longleftrightarrow> (case q of Sys_unlink f \<Rightarrow> True | Sys_rmdir f \<Rightarrow> True | _ \<Rightarrow> False)"

text \<open>Requests that delete nothing but files and directories below \<open>dir\<close>, and only of the kinds the
  flag asks for.\<close>

definition removes_below :: "u32 \<Rightarrow> string \<Rightarrow> sysreq \<Rightarrow> bool" where
  "removes_below Flg dir q \<longleftrightarrow> (case q of
     Sys_unlink f \<Rightarrow> prefix (dir @ ''/'') f \<and> Flg AND FS_FILE_TYPE \<noteq> 0
   | Sys_rmdir f \<Rightarrow> prefix (dir @ ''/'') f \<and> Flg AND FS_DIR_TYPE \<noteq> 0
   | Sys_open f fl m \<Rightarrow> False | Sys_creat f m \<Rightarrow> False | Sys_write fd bs \<Rightarrow> False
   | Sys_rename f g \<Rightarrow> False | Sys_mkdir f m \<Rightarrow> False | _ \<Rightarrow> True)"

lemma removes_below_simps [simp]:
  "removes_below Flg dir (Sys_unlink f) \<longleftrightarrow> prefix (dir @ ''/'') f \<and> Flg AND FS_FILE_TYPE \<noteq> 0"
  "removes_below Flg dir (Sys_rmdir f) \<longleftrightarrow> prefix (dir @ ''/'') f \<and> Flg AND FS_DIR_TYPE \<noteq> 0"
  "removes_below Flg dir (Sys_readdir p)" "removes_below Flg dir (Sys_stat f)"
  "removes_below Flg dir (Sys_opendir f)" "removes_below Flg dir (Sys_closedir p)"
  by (simp_all add: removes_below_def)

lemma removes_below_sub:
  "removes_below Flg (dir @ ''/'' @ d) q \<Longrightarrow> removes_below Flg dir q"
  by (auto simp: removes_below_def prefix_def split: sysreq.splits)

lemma issues_mono: "frame (issues P) m \<Longrightarrow> (\<And>q. P q \<Longrightarrow> P' q) \<Longrightarrow> frame (issues P') m"
  by (erule frame_weaken) (auto simp: issues_def list_all_iff)

lemma issues_hang [frame_intros]: "frame (issues P) hang"
  unfolding hang_def by (rule frame_modify) (simp add: issues_same_trace)

lemma removes_below_loop:
  assumes "\<And>d. frame (issues (removes_below Flg dir)) (sub (dir @ ''/'' @ d))"
  shows "frame (issues (removes_below Flg dir)) (delete_loop os sub Flg dir p width n)"
proof (induction width arbitrary: n)
  case 0
  show ?case unfolding delete_loop.simps by (intro frame_intros)
next
  case (Suc width)
  show ?case
    unfolding delete_loop.simps remove_dir_def Let_def
    by (intro frame_intros Suc assms) auto
qed

lemma rec_delete_below: "frame (issues (removes_below Flg dir)) (rec_delete os width Flg depth dir)"
proof (induction depth arbitrary: dir)
  case 0
  show ?case unfolding rec_delete.simps by (intro frame_intros)
next
  case (Suc depth)
  have "frame (issues (removes_below Flg dir)) (rec_delete os width Flg depth (dir @ ''/'' @ d))" for d
    by (rule issues_mono [OF Suc removes_below_sub])
  then show ?case
    unfolding rec_delete.simps by (intro frame_intros removes_below_loop) simp_all
qed

text \<open>How many removals a run asks for.\<close>

definition removed :: "'w fsd \<Rightarrow> nat \<Rightarrow> 'w fsd \<Rightarrow> bool" where
  "removed s k t \<longleftrightarrow> (\<exists>qs. trace t = trace s @ qs \<and> length (filter removal qs) = k)"

definition counted :: "'w fsd \<Rightarrow> u32 \<Rightarrow> s32 \<Rightarrow> 'w fsd \<Rightarrow> bool" where
  "counted s n r t \<longleftrightarrow> (\<exists>k. removed s k t \<and> (r <s 0 \<or> r = n + of_nat k))"

lemma removed_refl: "removed s 0 s"
  by (simp add: removed_def)

lemma removed_trans: "removed s k u \<Longrightarrow> removed u j t \<Longrightarrow> removed s (k + j) t"
  by (auto simp: removed_def)

lemma wp_removed:
  assumes "removed s k u" "\<And>a v. removed s (if removal q then Suc k else k) v \<Longrightarrow> Q a v"
  shows "wp (syscall os q) Q u"
  by (rule wp_syscallI, rule assms(2)) (use assms(1) in \<open>auto simp: removed_def\<close>)

lemma counted_error: "removed s k t \<Longrightarrow> r <s 0 \<Longrightarrow> counted s n r t"
  by (auto simp: counted_def)

lemma counted_done: "removed s k t \<Longrightarrow> r = n + of_nat k \<Longrightarrow> counted s n r t"
  by (auto simp: counted_def)

lemma counted_rest:
  assumes "removed s k u" "\<And>s n. wp (m n) (counted s n) s" "n' = n + of_nat k"
  shows "wp (m n') (counted s n) u"
  unfolding assms(3)
proof (rule wp_mono [OF assms(2)])
  fix r t assume "counted u (n + of_nat k) r t"
  then obtain j where j: "removed u j t" "r <s 0 \<or> r = n + of_nat k + of_nat j" by (auto simp: counted_def)
  then show "counted s n r t"
    unfolding counted_def using removed_trans [OF assms(1) j(1)] by (intro exI [of _ "k + j"]) (auto simp: add.assoc)
qed

lemma counted_sub:
  assumes "removed s k u" "wp m (counted u 0) u"
    and "\<And>r j v. removed s (k + j) v \<Longrightarrow> r <s 0 \<or> r = of_nat j \<Longrightarrow> Q r v"
  shows "wp m Q u"
  by (rule wp_mono [OF assms(2)]) (auto simp: counted_def intro!: assms(3) removed_trans [OF assms(1)])

lemma removal_simps [simp]:
  "removal (Sys_unlink f)" "removal (Sys_rmdir f)" "\<not> removal (Sys_readdir p)" "\<not> removal (Sys_stat f)"
  "\<not> removal (Sys_opendir f)" "\<not> removal (Sys_closedir p)"
  by (simp_all add: removal_def)

lemma remove_dir_removed:
  assumes "removed s k u"
    and "\<And>v e. removed s (if Flg AND FS_DIR_TYPE \<noteq> 0 then Suc k else k) v \<Longrightarrow> (\<And>x. e = Some x \<Longrightarrow> x <s 0) \<Longrightarrow> Q e v"
  shows "wp (remove_dir os Flg f) Q u"
  unfolding remove_dir_def
  by (intro wp_ifI wp_bindI wp_removed [OF assms(1)] wp_returnI assms(2))
    (auto simp: FS_ErrorConv_neg assms(1) split: if_splits)

lemma delete_loop_counts:
  assumes sub: "\<And>f s. wp (sub f) (counted s 0) s"
  shows "wp (delete_loop os sub Flg dir p width n) (counted s n) s"
proof (induction width arbitrary: s n)
  case 0
  show ?case unfolding delete_loop.simps hang_def
    by (intro wp_intros counted_done [of _ 0]) (simp_all add: removed_def)
next
  case (Suc width)
  note IH = counted_rest [where m = "\<lambda>n. delete_loop os sub Flg dir p width n", OF _ Suc]
  have isub: "wp (if b then sub f else ret 0) Q u"
    if "removed s k u" "\<And>r j v. removed s (k + j) v \<Longrightarrow> r <s 0 \<or> r = of_nat j \<Longrightarrow> Q r v" for b f Q k u
    using that that(2) [of 0 u 0] by (intro wp_ifI counted_sub [OF that(1) sub] wp_returnI) auto
  show ?case
    unfolding delete_loop.simps Let_def
    apply (rule wp_bindI)
    apply (rule wp_removed [OF removed_refl])
    apply (rule wp_optionI)
    apply (rule wp_returnI, rule counted_done, assumption, simp)
    apply (rule wp_ifI)
    apply (rule wp_returnI, rule counted_error, assumption, simp add: word_sless_alt)
    apply (rule wp_bindI)
    apply (rule wp_removed, assumption)
    apply (rule wp_ifI)
    apply (rule IH, assumption, simp)
    apply (rule wp_ifI)
     apply (rule wp_bindI, rule isub, assumption)
     apply (rule wp_ifI, rule wp_returnI, rule counted_error, assumption, assumption)
     apply (rule wp_bindI, rule remove_dir_removed, assumption)
     apply (rule wp_optionI)
      apply (rule IH, assumption, simp)
     apply (rule wp_returnI, rule counted_error, assumption, blast)
    apply (rule wp_ifI)
     apply (rule wp_bindI, rule wp_removed, assumption)
     apply (rule wp_ifI)
      apply (rule wp_returnI, rule counted_error, assumption, rule FS_ErrorConv_neg)
     apply (rule IH, assumption, simp)
    apply (rule IH, assumption, simp)
    done
qed

lemma rec_delete_counts: "wp (rec_delete os width Flg depth dir) (counted s 0) s"
proof (induction depth arbitrary: dir s)
  case 0
  show ?case unfolding rec_delete.simps hang_def
    by (intro wp_intros counted_done [of _ 0]) (simp_all add: removed_def)
next
  case (Suc depth)
  show ?case
    unfolding rec_delete.simps
    apply (rule wp_bindI, rule wp_removed [OF removed_refl])
    apply (rule wp_ifI)
     apply (rule wp_returnI, rule counted_done, assumption, simp)
    apply (rule wp_bindI, rule counted_sub, assumption, rule delete_loop_counts [OF Suc])
    apply (rule wp_bindI, rule wp_removed, assumption)
    apply (rule wp_returnI)
    apply (auto intro: counted_error counted_done)
    done
qed


section \<open>The recursion over directories ends\<close>

text \<open>
  What POSIX says of directory streams, as a condition on the environment: \<open>streams w\<close> gives the
  open streams of the world \<open>w\<close> with the number of entries still to come. Opening a directory adds
  a stream with fewer than \<open>width\<close> entries, reading one delivers an entry or the end, closing removes
  it; no other request opens, closes or lengthens a stream.
\<close>

definition shrinks :: "(s32 \<rightharpoonup> nat) \<Rightarrow> (s32 \<rightharpoonup> nat) \<Rightarrow> bool" where
  "shrinks m m' \<longleftrightarrow> (\<forall>p n. m p = Some n \<longrightarrow> (\<exists>k \<le> n. m' p = Some k))"

definition posix_dirs :: "'w os \<Rightarrow> ('w \<Rightarrow> s32 \<rightharpoonup> nat) \<Rightarrow> nat \<Rightarrow> bool" where
  "posix_dirs os streams width \<longleftrightarrow> (\<forall>q w. let r = fst (os q w); w' = snd (os q w) in
     (case q of
        Sys_opendir d \<Rightarrow> shrinks (streams w) (streams w') \<and> (r_ret r \<noteq> 0 \<longrightarrow>
          streams w (r_ret r) = None \<and> (\<exists>n < width. streams w' (r_ret r) = Some n))
      | Sys_readdir p \<Rightarrow> shrinks (streams w) (streams w') \<and>
          (\<forall>n. streams w p = Some n \<longrightarrow> r_name r = None \<or> (\<exists>m < n. streams w' p = Some m))
      | Sys_closedir p \<Rightarrow> shrinks ((streams w)(p := None)) (streams w')
      | _ \<Rightarrow> shrinks (streams w) (streams w')))"

lemma posix_opendir:
  "posix_dirs os streams width \<Longrightarrow> os (Sys_opendir d) w = (r, w') \<Longrightarrow> shrinks (streams w) (streams w') \<and>
     (r_ret r \<noteq> 0 \<longrightarrow> streams w (r_ret r) = None \<and> (\<exists>n < width. streams w' (r_ret r) = Some n))"
  by (force simp: posix_dirs_def Let_def dest!: spec [of _ "Sys_opendir d"] spec [of _ w])

lemma posix_readdir:
  "posix_dirs os streams width \<Longrightarrow> os (Sys_readdir p) w = (r, w') \<Longrightarrow> shrinks (streams w) (streams w') \<and>
     (\<forall>n. streams w p = Some n \<longrightarrow> r_name r = None \<or> (\<exists>m < n. streams w' p = Some m))"
  by (force simp: posix_dirs_def Let_def dest!: spec [of _ "Sys_readdir p"] spec [of _ w])

lemma posix_closedir:
  "posix_dirs os streams width \<Longrightarrow> os (Sys_closedir p) w = (r, w') \<Longrightarrow>
   shrinks ((streams w)(p := None)) (streams w')"
  by (force simp: posix_dirs_def Let_def dest!: spec [of _ "Sys_closedir p"] spec [of _ w])

lemma posix_other:
  "posix_dirs os streams width \<Longrightarrow> os q w = (r, w') \<Longrightarrow> (\<And>p. q \<noteq> Sys_closedir p) \<Longrightarrow>
   shrinks (streams w) (streams w')"
proof -
  assume "posix_dirs os streams width" and os: "os q w = (r, w')" and q: "\<And>p. q \<noteq> Sys_closedir p"
  then have "(case q of
        Sys_opendir d \<Rightarrow> shrinks (streams w) (streams (snd (os q w))) \<and> (r_ret (fst (os q w)) \<noteq> 0 \<longrightarrow>
          streams w (r_ret (fst (os q w))) = None \<and> (\<exists>n < width. streams (snd (os q w)) (r_ret (fst (os q w))) = Some n))
      | Sys_readdir p \<Rightarrow> shrinks (streams w) (streams (snd (os q w))) \<and>
          (\<forall>n. streams w p = Some n \<longrightarrow> r_name (fst (os q w)) = None \<or> (\<exists>m < n. streams (snd (os q w)) p = Some m))
      | Sys_closedir p \<Rightarrow> shrinks ((streams w)(p := None)) (streams (snd (os q w)))
      | _ \<Rightarrow> shrinks (streams w) (streams (snd (os q w))))"
    unfolding posix_dirs_def by (simp add: Let_def)
  then show ?thesis using os q by (cases q) auto
qed

definition calm :: "('w \<Rightarrow> s32 \<rightharpoonup> nat) \<Rightarrow> 'w fsd \<Rightarrow> 'w fsd \<Rightarrow> bool" where
  "calm streams s t \<longleftrightarrow> shrinks (streams (world s)) (streams (world t)) \<and> hung t = hung s"

interpretation calm: frame_rel "calm streams" for streams
proof
  show "calm streams s s" for s by (auto simp: calm_def shrinks_def)
  show "calm streams s t \<Longrightarrow> calm streams t u \<Longrightarrow> calm streams s u" for s t u
    unfolding calm_def shrinks_def by (metis order_trans)
qed

lemma calm_syscall:
  "posix_dirs os streams width \<Longrightarrow> (\<And>p. q \<noteq> Sys_closedir p) \<Longrightarrow> frame (calm streams) (syscall os q)"
  by (rule frameI) (auto simp: calm_def dest: posix_other split: prod.splits)

lemma delete_loop_calm:
  assumes posix: "posix_dirs os streams W"
    and sub: "\<And>d. length dir + length d + 2 \<le> PATH_MAX \<Longrightarrow> frame (calm streams) (sub (dir @ ''/'' @ d))"
    and p: "streams (world s) p = Some k" "k < width"
  shows "wp (delete_loop os sub Flg dir p width n) (\<lambda>_. calm streams s) s"
  using p
proof (induction width arbitrary: s n k)
  case 0
  then show ?case by simp
next
  case (Suc width)
  have "wp (delete_loop os sub Flg dir p (Suc width) n) (\<lambda>_. calm streams s) s"
    if rd: "os (Sys_readdir p) (world s) = (r, w)" for r w
  proof -
    let ?u = "s\<lparr>world := w, trace := trace s @ [Sys_readdir p]\<rparr>"
    have su: "calm streams s ?u" using posix_readdir [OF posix rd] by (simp add: calm_def)
    have IH: "wp (delete_loop os sub Flg dir p width j) (\<lambda>_. calm streams s) v"
      if c: "calm streams ?u v" and nn: "r_name r \<noteq> None" for v j
    proof -
      obtain m where "m < k" "streams w p = Some m"
        using posix_readdir [OF posix rd] Suc.prems(1) nn by auto
      then obtain m' where "streams (world v) p = Some m'" "m' < width"
        using c Suc.prems(2) by (force simp: calm_def shrinks_def)
      then show ?thesis
        by (intro wp_mono [OF Suc.IH]) (auto intro: calm.R_trans [OF calm.R_trans [OF su c]])
    qed
    have sys: "wp (syscall os q) Q v"
      if "calm streams ?u v" "\<And>p. q \<noteq> Sys_closedir p" "\<And>a x. calm streams ?u x \<Longrightarrow> Q a x" for q Q v
      by (rule wp_frame [OF calm_syscall [OF posix that(2)]]) (blast intro: that calm.R_trans)
    have isub: "wp (if b then sub (dir @ ''/'' @ d) else ret 0) Q v"
      if "calm streams ?u v" "\<not> PATH_MAX < length dir + length d + 2" "\<And>a x. calm streams ?u x \<Longrightarrow> Q a x" for b d Q v
      using that by (intro wp_ifI wp_frame [OF sub] wp_returnI) (auto intro: calm.R_trans)
    have rm: "wp (remove_dir os Flg f) Q v"
      if "calm streams ?u v" "\<And>a x. calm streams ?u x \<Longrightarrow> Q a x" for f Q v
      unfolding remove_dir_def using that by (intro wp_ifI wp_bindI sys wp_returnI) auto
    have leave: "wp (ret a) (\<lambda>_. calm streams s) v" if "calm streams ?u v" for a v
      by (rule wp_returnI) (rule calm.R_trans [OF su that])
    show ?thesis
      unfolding delete_loop.simps Let_def wp_bind [of "syscall os (Sys_readdir p)"] wp_syscall rd prod.case
      by (intro wp_optionI wp_ifI wp_bindI sys isub rm leave IH calm.R_refl) simp_all
  qed
  then show ?case by (cases "os (Sys_readdir p) (world s)") blast
qed


lemma rec_delete_calm:
  assumes posix: "posix_dirs os streams width"
  shows "PATH_MAX < depth + length dir \<Longrightarrow> 0 < depth \<Longrightarrow>
    frame (calm streams) (rec_delete os width Flg depth dir)"
proof (induction depth arbitrary: dir)
  case 0
  then show ?case by simp
next
  case (Suc depth)
  have sub: "frame (calm streams) (rec_delete os width Flg depth (dir @ ''/'' @ d))"
    if "length dir + length d + 2 \<le> PATH_MAX" for d
    using that Suc.prems(1) by (intro Suc.IH) auto
  have "wp (rec_delete os width Flg (Suc depth) dir) (\<lambda>_. calm streams s) s" for s
    unfolding rec_delete.simps
  proof (rule wp_bindI, rule wp_syscallI)
    fix r w assume op: "os (Sys_opendir dir) (world s) = (r, w)"
    let ?u = "s\<lparr>world := w, trace := trace s @ [Sys_opendir dir]\<rparr>" and ?p = "r_ret r"
    note od = posix_opendir [OF posix op]
    have su: "calm streams s ?u" using od by (simp add: calm_def)
    have fin: "wp (do { _ \<leftarrow> syscall os (Sys_closedir ?p); ret a }) (\<lambda>_. calm streams s) v"
      if c: "calm streams ?u v" and nz: "?p \<noteq> 0" for v a
    proof (rule wp_bindI, rule wp_syscallI, rule wp_returnI)
      fix b w' assume "os (Sys_closedir ?p) (world v) = (b, w')"
      note cl = posix_closedir [OF posix this]
      have "\<exists>m \<le> n. streams w' q = Some m" if q: "streams (world s) q = Some n" for q n
      proof -
        have "q \<noteq> ?p" using od nz q by auto
        moreover obtain m where "m \<le> n" "streams (world v) q = Some m"
          using calm.R_trans [OF su c] q by (auto simp: calm_def shrinks_def)
        ultimately obtain m' where "m' \<le> m" "streams w' q = Some m'"
          using cl [unfolded shrinks_def, rule_format, of q m] by auto
        with \<open>m \<le> n\<close> show ?thesis by (auto intro: order_trans)
      qed
      then show "calm streams s (v\<lparr>world := w', trace := trace v @ [Sys_closedir ?p]\<rparr>)"
        using su c by (simp add: calm_def shrinks_def)
    qed
    have loop: "wp (delete_loop os (rec_delete os width Flg depth) Flg dir ?p width 0) (\<lambda>_. calm streams ?u) ?u"
      if "?p \<noteq> 0"
      using od that by (auto intro!: delete_loop_calm [OF posix, where sub = "rec_delete os width Flg depth"] sub)
    show "wp (if ?p = 0 then ret 0 else do {
        RetVal \<leftarrow> delete_loop os (rec_delete os width Flg depth) Flg dir ?p width 0;
        _ \<leftarrow> syscall os (Sys_closedir ?p);
        ret RetVal }) (\<lambda>_. calm streams s) ?u"
      by (intro wp_ifI wp_returnI su wp_bindI [of "delete_loop _ _ _ _ _ _ _"] wp_mono [OF loop] fin)
  qed
  then show ?case by (rule frame_wpI)
qed


section \<open>Properties\<close>

text \<open>
  C29: The handle-table invariant is kept by the search operations and by every operation on names,
  and the operations on names do not touch the table at all.
\<close>

theorem name_ops_invariant:
  "keeps handles_ok (FS_CCCI_FindFirst os width name attr amask n) \<and>
   keeps handles_ok (FS_CCCI_FindNext os width k n) \<and> keeps handles_ok (FS_CCCI_FindClose os k) \<and>
   frame same_table (FS_CCCI_CreateDir os name) \<and> frame same_table (FS_CCCI_RemoveDir os name) \<and>
   frame same_table (FS_CCCI_Rename os name new) \<and> frame same_table (FS_CCCI_Delete os name) \<and>
   frame same_table (FS_CCCI_GetFolderSize os width name Flg) \<and> frame same_table (FS_CCCI_Count os width name Flg) \<and>
   frame same_table (FS_CCCI_GetAttributes os name) \<and> frame same_table (FS_CCCI_GetFileDetail os name) \<and>
   frame same_table (FS_CCCI_XDelete os width name Flg) \<and> frame same_table (FS_CCCI_Move os width name new Flg)"
  by (intro conjI valid_intros frame_intros)


text \<open>
  The number that recursive deletion returns is right: a non-negative result is the number of
  removals it asked for, each of which succeeded.
\<close>

theorem RecursiveDelete_counts:
  assumes "run_state (FS_RecursiveDelete os width dir Flg) s = (r, t)" "\<not> r <s 0"
  shows "r = of_nat (length (filter removal (drop (length (trace s)) (trace t))))"
  using wp_run [OF rec_delete_counts assms(1) [unfolded FS_RecursiveDelete_def]] assms(2)
  by (auto simp: counted_def removed_def)

text \<open>A world with one directory of one file: its state is whether the entry was read.\<close>

definition one_file_os :: "nat os" where
  "one_file_os q w = (case q of
     Sys_opendir d \<Rightarrow> (if w = 0 then (res0\<lparr>r_ret := 7\<rparr>, 1) else (res0, w))
   | Sys_readdir p \<Rightarrow> (if w = 1 then (res0\<lparr>r_name := Some ''a''\<rparr>, 2) else (res0, w))
   | Sys_stat f \<Rightarrow> (res0\<lparr>r_stat := stat0\<lparr>st_mode := 0x8000\<rparr>\<rparr>, w)
   | Sys_closedir p \<Rightarrow> (res0, if p = 7 then 0 else w)
   | _ \<Rightarrow> (res0, w))"

lemma one_file_run:
  "run_state (rec_delete one_file_os (Suc (Suc 0)) FS_FILE_TYPE (Suc d) ''/d'') (idle_fsd 0) =
   (1, (idle_fsd 0)\<lparr>world := 0, trace := [Sys_opendir ''/d'', Sys_readdir 7, Sys_stat ''/d/a'', Sys_unlink ''/d/a'',
     Sys_readdir 7, Sys_closedir 7]\<rparr>)"
  by (simp add: one_file_os_def res0_def stat0_def is_subdir_def Let_def)

theorem RecursiveDelete_counts_witness:
  "\<exists>t. run_state (FS_RecursiveDelete one_file_os (Suc (Suc 0)) ''/d'' FS_FILE_TYPE) (idle_fsd 0) = (1, t) \<and>
     1 = (of_nat (length (filter removal (trace t))) :: u32)"
proof -
  have r: "run_state (FS_RecursiveDelete one_file_os (Suc (Suc 0)) ''/d'' FS_FILE_TYPE) (idle_fsd 0) =
    (1, (idle_fsd 0)\<lparr>world := 0, trace := [Sys_opendir ''/d'', Sys_readdir 7, Sys_stat ''/d/a'', Sys_unlink ''/d/a'',
     Sys_readdir 7, Sys_closedir 7]\<rparr>)"
    unfolding FS_RecursiveDelete_def by (rule one_file_run)
  show ?thesis using r RecursiveDelete_counts [OF r] by (simp add: word_sless_alt)
qed

text \<open>
  C31: Recursive deletion ends: when every directory stream delivers fewer than \<open>width\<close> entries, the
  recursion neither runs out of entries to read nor of depth; the depth \<open>PATH_MAX\<close> is enough because
  the path grows with every level.
\<close>

theorem RecursiveDelete_terminates:
  assumes "posix_dirs os streams width" "run_state (FS_RecursiveDelete os width dir Flg) s = (r, t)"
  shows "hung t = hung s"
proof -
  have "frame (calm streams) (FS_RecursiveDelete os width dir Flg)"
    unfolding FS_RecursiveDelete_def by (rule rec_delete_calm [OF assms(1)]) auto
  from frameD [OF this assms(2)] show ?thesis by (simp add: calm_def)
qed

definition one_file_streams :: "nat \<Rightarrow> s32 \<rightharpoonup> nat" where
  "one_file_streams w p = (if p = 7 \<and> w = 1 then Some 1 else if p = 7 \<and> w = 2 then Some 0 else None)"

theorem RecursiveDelete_terminates_witness:
  "hung (snd (run_state (FS_RecursiveDelete one_file_os 2 ''/d'' FS_FILE_TYPE) (idle_fsd 0))) = False"
proof -
  have "posix_dirs one_file_os one_file_streams 2"
    unfolding posix_dirs_def Let_def
    by (intro allI) (auto simp: one_file_os_def one_file_streams_def shrinks_def res0_def split: sysreq.split)
  from RecursiveDelete_terminates [OF this surjective_pairing] show ?thesis by (simp add: idle_fsd_def)
qed


text \<open>
  A search returns only what was asked for: an entry delivered by the directory loop matches the
  wildcard pattern in the sense of \<open>glob\<close>, is not the directory itself or its parent for a first
  search, and its path is the searched directory followed by its name.
\<close>

theorem find_loop_sound:
  assumes "run_state (find_loop os skip base pat attr amask p width) s = (Inr (Some (d_name, path)), t)"
    and "length base + length d_name < PATH_MAX"
  shows "glob pat d_name \<and> path = base @ d_name \<and> (skip \<longrightarrow> d_name \<noteq> ''.'' \<and> d_name \<noteq> ''..'')"
  using wp_run [OF find_loop_result assms(1)] assms(2)
  by (simp add: find_result_def PatMatch_sound)

theorem find_loop_sound_witness:
  "\<exists>t. run_state (find_loop one_file_os True ''/d/'' ''?'' 0 0 7 1) (idle_fsd 1) = (Inr (Some (''a'', ''/d/a'')), t) \<and>
     glob ''?'' ''a''"
proof -
  have r: "run_state (find_loop one_file_os True ''/d/'' ''?'' 0 0 7 1) (idle_fsd 1) =
     (Inr (Some (''a'', ''/d/a'')), snd (run_state (find_loop one_file_os True ''/d/'' ''?'' 0 0 7 1) (idle_fsd 1)))"
    by (simp add: one_file_os_def res0_def stat0_def FS_AttrReconv_def FS_IsReadOnly_def FS_IsDIR_def Let_def)
  have "glob ''?'' ''a''" using find_loop_sound [OF r] by simp
  with r show ?thesis by blast
qed

text \<open>
  Names that \<open>FS_ConvWcsToCs\<close> refuses are refused by \<open>FS_CCCI_Open\<close> only; the other operations use what
  was converted up to the second full stop, so that a deletion can start above the drive's directory.
\<close>

theorem XDelete_escapes:
  "map_path FsRootDir_MD1 (conv_name (wcs ''Z:/../x'')) = Inr (0, ''/mnt/vendor/nvdata/md/..'')"
  by code_simp

text \<open>A move whose source cannot be opened closes descriptor 0, which it never opened.\<close>

theorem move_closes_descriptor_0:
  "Sys_close 0 \<in> set (trace (snd (run_state (move_copy (answering (- 1)) ''/a'' ''/b'') (idle_fsd ()))))"
  by code_simp

text \<open>The month field of the time stamp repeats the day: the month has no influence on it.\<close>

theorem dos_time_ignores_month: "dos_time (t\<lparr>tm_mon := m\<rparr>) = dos_time t"
  by (simp add: dos_time_def)

end
