(* ===== verification/Fsd_Cmpt.thy ===== *)
theory Fsd_Cmpt
  imports Fsd_Dir
begin

unbundle bit_operations_syntax

text \<open>
  The remaining services of \<open>ccci_fsd.c\<close>: the compound operations that run several file operations
  for one request (\<open>FS_CCCI_CMPT_Read\<close>, \<open>FS_CCCI_CMPT_Write\<close>), drives and disk information, restoring
  a file, and \<open>FS_Init\<close>.

  The two parameter blocks are records here; their place in the request's bytes is fixed in
  \<open>Fsd_Main\<close>. A pointer into the shared buffer is its offset.
\<close>

section \<open>Drives and disks\<close>

abbreviation (input) FS_DRIVE_I_SYSTEM :: u32 where "FS_DRIVE_I_SYSTEM \<equiv> 4"
abbreviation (input) FS_DRIVE_V_NORMAL :: u32 where "FS_DRIVE_V_NORMAL \<equiv> 8"
abbreviation (input) FS_DRIVE_V_REMOVABLE :: u32 where "FS_DRIVE_V_REMOVABLE \<equiv> 16"
abbreviation (input) FS_NO_ALT_DRIVE :: u32 where "FS_NO_ALT_DRIVE \<equiv> 1"
abbreviation (input) FS_ONLY_ALT_SERIAL :: u32 where "FS_ONLY_ALT_SERIAL \<equiv> 2"

definition FS_CCCI_GetDrive :: "u32 \<Rightarrow> u32 \<Rightarrow> u32 \<Rightarrow> s32" where
  "FS_CCCI_GetDrive Type Serial AltMask =
     (let drives = FS_DRIVE_I_SYSTEM OR FS_DRIVE_V_NORMAL OR FS_DRIVE_V_REMOVABLE in
      if Type AND drives = 0 \<or> Type AND NOT drives \<noteq> 0 \<or>
         Type \<noteq> FS_DRIVE_V_REMOVABLE \<and> 2 < Serial \<or> Type = FS_DRIVE_V_REMOVABLE \<and> 1 < Serial \<or>
         Serial < 1 \<or>
         AltMask \<noteq> FS_NO_ALT_DRIVE \<and> AltMask AND FS_NO_ALT_DRIVE \<noteq> 0 \<or>
         AltMask \<noteq> FS_ONLY_ALT_SERIAL \<and> AltMask AND FS_ONLY_ALT_SERIAL \<noteq> 0
      then FS_PARAM_ERROR
      else if Type = FS_DRIVE_I_SYSTEM then 0x5A else FS_PARAM_ERROR)"

text \<open>Overwriting part of a local variable.\<close>

definition put_local :: "flocal \<Rightarrow> nat \<Rightarrow> u8 list \<Rightarrow> ('w fsd, unit) state" where
  "put_local l off bs = modify (\<lambda>s. s\<lparr>locals := (locals s)(l :=
     map (\<lambda>i. if off \<le> i \<and> i < off + length bs then bs ! (i - off) else byte_at (locals s l) i)
       [0..<max (length (locals s l)) (off + length bs)])\<rparr>)"

definition FS_CCCI_GetDiskInfo :: "'w os \<Rightarrow> ('w fsd, s32) state" where
  "FS_CCCI_GetDiskInfo os = do {
     root \<leftarrow> gets (\<lambda>s. FsRootDir s ! 0);
     r \<leftarrow> syscall os (Sys_statfs root);
     if r_ret r = - 1 then ret (- 1)
     else do {
       put_local L_DiskInfo 48 (le32 512);
       put_local L_DiskInfo 52 (le32 (f_bsize (r_statfs r) div 512));
       put_local L_DiskInfo 56 (le32 (f_blocks (r_statfs r)));
       put_local L_DiskInfo 64 (le32 512);
       ret FS_NO_ERROR } }"

text \<open>\<open>NVM_RestoreFromBinRegion_OneFile\<close> is a function of the NVRAM library: false is 0.\<close>

definition FS_CCCI_Restore :: "'w os \<Rightarrow> u8 list \<Rightarrow> ('w fsd, s32) state" where
  "FS_CCCI_Restore os FileName = with_path FileName (\<lambda>_ _ path. do {
     r \<leftarrow> syscall os (Sys_restore_one_file path);
     ret (if r_ret r = 0 then FS_GENERAL_FAILURE else FS_NO_ERROR) })"

definition FS_BinRegion_Access :: "s32 \<Rightarrow> s32" where
  "FS_BinRegion_Access access_type =
     (if access_type = 1 then FS_PARAM_ERROR
      else if access_type = 2 then FS_PARAM_ERROR
      else if access_type = 3 then FS_PARAM_ERROR
      else FS_PARAM_ERROR)"

section \<open>The compound read\<close>

abbreviation (input) FS_CMPT_OPEN :: u32 where "FS_CMPT_OPEN \<equiv> 1"
abbreviation (input) FS_CMPT_GETFILESIZE :: u32 where "FS_CMPT_GETFILESIZE \<equiv> 2"
abbreviation (input) FS_CMPT_SEEK :: u32 where "FS_CMPT_SEEK \<equiv> 4"
abbreviation (input) FS_CMPT_READ :: u32 where "FS_CMPT_READ \<equiv> 8"
abbreviation (input) FS_CMPT_CLOSE :: u32 where "FS_CMPT_CLOSE \<equiv> 16"
abbreviation (input) FS_CMPT_WRITE :: u32 where "FS_CMPT_WRITE \<equiv> 32"

record nvram_fs_para_cmpt =
  c_opid_map :: u32
  c_ret0 :: u32
  c_ret1 :: u32
  c_flag :: u32
  c_file_size :: u32
  c_offset :: u32
  c_whence :: u32
  c_data_ptr :: nat
  c_length :: u32
  c_act_read :: u32

text \<open>A step that fails leaves the bitmap of the steps done and its error code, and the file is
  closed whatever that close returns.\<close>

definition cmpt_fail ::
  "'w os \<Rightarrow> u32 \<Rightarrow> nvram_fs_para_cmpt \<Rightarrow> u32 \<Rightarrow> s32 \<Rightarrow> s32 \<Rightarrow> ('w fsd, s32 \<times> nvram_fs_para_cmpt) state" where
  "cmpt_fail os HandleIndex p ret_bitmap err code = do {
     _ \<leftarrow> FS_CCCI_Close os HandleIndex;
     ret (code, p\<lparr>c_ret0 := ret_bitmap, c_ret1 := err\<rparr>) }"

definition cmpt_close ::
  "'w os \<Rightarrow> u32 \<Rightarrow> nvram_fs_para_cmpt \<Rightarrow> u32 \<Rightarrow> ('w fsd, s32 \<times> nvram_fs_para_cmpt) state" where
  "cmpt_close os HandleIndex p ret_bitmap =
     (if c_opid_map p AND FS_CMPT_CLOSE \<noteq> 0 then do {
        r \<leftarrow> FS_CCCI_Close os HandleIndex;
        ret (if r <s 0 then (- 5, p\<lparr>c_ret0 := ret_bitmap, c_ret1 := r\<rparr>)
             else (0, p\<lparr>c_ret0 := ret_bitmap OR FS_CMPT_CLOSE, c_ret1 := 0\<rparr>)) }
      else do {
        _ \<leftarrow> FS_CCCI_Close os HandleIndex;
        ret (- 6, p) })"

definition cmpt_read ::
  "'w os \<Rightarrow> u32 \<Rightarrow> nvram_fs_para_cmpt \<Rightarrow> u32 \<Rightarrow> ('w fsd, s32 \<times> nvram_fs_para_cmpt) state" where
  "cmpt_read os HandleIndex p ret_bitmap =
     (if c_opid_map p AND FS_CMPT_READ \<noteq> 0 then do {
        (r, n) \<leftarrow> FS_CCCI_Read os HandleIndex (c_data_ptr p) (c_length p);
        let p1 = (case n of None \<Rightarrow> p | Some k \<Rightarrow> p\<lparr>c_act_read := k\<rparr>);
        if r <s 0 then cmpt_fail os HandleIndex p1 ret_bitmap r (- 4)
        else cmpt_close os HandleIndex p1 (ret_bitmap OR FS_CMPT_READ) }
      else cmpt_close os HandleIndex p ret_bitmap)"

definition cmpt_seek ::
  "'w os \<Rightarrow> u32 \<Rightarrow> nvram_fs_para_cmpt \<Rightarrow> u32 \<Rightarrow> ('w fsd, s32 \<times> nvram_fs_para_cmpt) state" where
  "cmpt_seek os HandleIndex p ret_bitmap =
     (if c_opid_map p AND FS_CMPT_SEEK \<noteq> 0 then do {
        r \<leftarrow> FS_CCCI_Seek os HandleIndex (c_offset p) (c_whence p);
        if r <s 0 then cmpt_fail os HandleIndex p ret_bitmap r (- 3)
        else cmpt_read os HandleIndex p (ret_bitmap OR FS_CMPT_SEEK) }
      else cmpt_read os HandleIndex p ret_bitmap)"

definition cmpt_size ::
  "'w os \<Rightarrow> u32 \<Rightarrow> nvram_fs_para_cmpt \<Rightarrow> u32 \<Rightarrow> ('w fsd, s32 \<times> nvram_fs_para_cmpt) state" where
  "cmpt_size os HandleIndex p ret_bitmap =
     (if c_opid_map p AND FS_CMPT_GETFILESIZE \<noteq> 0 then do {
        start \<leftarrow> syscall os Sys_clock_gettime;
        (r, n) \<leftarrow> FS_CCCI_GetFileSize os HandleIndex;
        let p1 = (case n of None \<Rightarrow> p | Some k \<Rightarrow> p\<lparr>c_file_size := k\<rparr>);
        profile elapsed_plain os (r_time start);
        if r <s 0 then cmpt_fail os HandleIndex p1 ret_bitmap r (- 2)
        else cmpt_seek os HandleIndex p1 (ret_bitmap OR FS_CMPT_GETFILESIZE) }
      else cmpt_seek os HandleIndex p ret_bitmap)"

definition cmpt_open ::
  "'w os \<Rightarrow> u8 list \<Rightarrow> nvram_fs_para_cmpt \<Rightarrow> ('w fsd, s32 \<times> nvram_fs_para_cmpt) state" where
  "cmpt_open os name p = do {
     start \<leftarrow> syscall os Sys_clock_gettime;
     HandleIndex \<leftarrow> FS_CCCI_Open os name (c_flag p);
     profile elapsed_plain os (r_time start);
     if HandleIndex <s 0 then ret (- 1, p\<lparr>c_ret0 := 0, c_ret1 := HandleIndex\<rparr>)
     else cmpt_size os HandleIndex p FS_CMPT_OPEN }"

definition FS_CCCI_CMPT_Read ::
  "'w os \<Rightarrow> u8 list \<Rightarrow> nvram_fs_para_cmpt \<Rightarrow> ('w fsd, s32 \<times> nvram_fs_para_cmpt) state" where
  "FS_CCCI_CMPT_Read os name in_para = (let p = in_para\<lparr>c_act_read := 0\<rparr> in
     if c_opid_map p AND FS_CMPT_OPEN \<noteq> 0 then cmpt_open os name p
     else ret (- 7, p\<lparr>c_ret0 := 0, c_ret1 := FS_GENERAL_FAILURE\<rparr>))"

section \<open>The compound write\<close>

record nvram_fs_para_cmptw =
  w_opid_map :: u32
  w_ret0 :: u32
  w_ret1 :: u32
  w_flag :: u32
  w_offset :: u32
  w_whence :: u32
  w_data_ptr :: u32
  w_length :: u32
  w_file_handle :: s32
  w_file_handle_ptr :: s32
  w_act_write_size :: u32

definition cmptw_fail ::
  "'w os \<Rightarrow> u32 \<Rightarrow> nvram_fs_para_cmptw \<Rightarrow> u32 \<Rightarrow> s32 \<Rightarrow> s32 \<Rightarrow> ('w fsd, s32 \<times> nvram_fs_para_cmptw) state" where
  "cmptw_fail os HandleIndex p ret_bitmap err code = do {
     _ \<leftarrow> FS_CCCI_Close os HandleIndex;
     ret (code, p\<lparr>w_ret0 := ret_bitmap, w_ret1 := err\<rparr>) }"

definition cmptw_close ::
  "'w os \<Rightarrow> u32 \<Rightarrow> nvram_fs_para_cmptw \<Rightarrow> u32 \<Rightarrow> ('w fsd, s32 \<times> nvram_fs_para_cmptw) state" where
  "cmptw_close os HandleIndex p ret_bitmap =
     (if w_opid_map p AND FS_CMPT_CLOSE \<noteq> 0 then do {
        r \<leftarrow> FS_CCCI_Close os HandleIndex;
        ret (if r <s 0 then (- 5, p\<lparr>w_ret0 := ret_bitmap, w_ret1 := r\<rparr>)
             else (0, p\<lparr>w_ret0 := ret_bitmap OR FS_CMPT_CLOSE, w_ret1 := 0\<rparr>)) }
      else ret (0, p\<lparr>w_ret0 := ret_bitmap, w_ret1 := 0\<rparr>))"

text \<open>\<open>w_length\<close> bytes from \<open>pBuffer\<close> are written, however long that argument of the request is.\<close>

definition cmptw_write ::
  "'w os \<Rightarrow> pdata \<Rightarrow> u32 \<Rightarrow> nvram_fs_para_cmptw \<Rightarrow> u32 \<Rightarrow> ('w fsd, s32 \<times> nvram_fs_para_cmptw) state" where
  "cmptw_write os pBuffer HandleIndex p ret_bitmap =
     (if w_opid_map p AND FS_CMPT_WRITE \<noteq> 0 then do {
        bs \<leftarrow> gets (load pBuffer (unat (w_length p)));
        (r, n) \<leftarrow> FS_CCCI_Write os HandleIndex bs;
        let p1 = (case n of None \<Rightarrow> p | Some k \<Rightarrow> p\<lparr>w_act_write_size := k\<rparr>);
        if r <s 0 then cmptw_fail os HandleIndex p1 ret_bitmap r (- 4)
        else cmptw_close os HandleIndex p1 (ret_bitmap OR FS_CMPT_WRITE) }
      else cmptw_close os HandleIndex p ret_bitmap)"

definition cmptw_seek ::
  "'w os \<Rightarrow> pdata \<Rightarrow> u32 \<Rightarrow> nvram_fs_para_cmptw \<Rightarrow> u32 \<Rightarrow> ('w fsd, s32 \<times> nvram_fs_para_cmptw) state" where
  "cmptw_seek os pBuffer HandleIndex p ret_bitmap =
     (if w_opid_map p AND FS_CMPT_SEEK \<noteq> 0 then do {
        r \<leftarrow> FS_CCCI_Seek os HandleIndex (w_offset p) (w_whence p);
        if r <s 0 then cmptw_fail os HandleIndex p ret_bitmap r (- 3)
        else cmptw_write os pBuffer HandleIndex p (ret_bitmap OR FS_CMPT_SEEK) }
      else cmptw_write os pBuffer HandleIndex p ret_bitmap)"

definition cmptw_open ::
  "'w os \<Rightarrow> u8 list \<Rightarrow> pdata \<Rightarrow> nvram_fs_para_cmptw \<Rightarrow> ('w fsd, s32 \<times> nvram_fs_para_cmptw) state" where
  "cmptw_open os name pBuffer p = do {
     start \<leftarrow> syscall os Sys_clock_gettime;
     HandleIndex \<leftarrow> FS_CCCI_Open os name (w_flag p);
     profile elapsed_plain os (r_time start);
     if HandleIndex <s 0 then ret (- 1, p\<lparr>w_ret0 := 0, w_ret1 := HandleIndex\<rparr>)
     else cmptw_seek os pBuffer HandleIndex (p\<lparr>w_file_handle_ptr := HandleIndex\<rparr>) FS_CMPT_OPEN }"

definition FS_CCCI_CMPT_Write ::
  "'w os \<Rightarrow> u8 list \<Rightarrow> nvram_fs_para_cmptw \<Rightarrow> pdata \<Rightarrow> ('w fsd, s32 \<times> nvram_fs_para_cmptw) state" where
  "FS_CCCI_CMPT_Write os name in_para pBuffer = (let p = in_para\<lparr>w_act_write_size := 0\<rparr> in
     if w_file_handle p <s 0 then
       if w_opid_map p AND FS_CMPT_OPEN \<noteq> 0 then cmptw_open os name pBuffer p
       else ret (- 2, p\<lparr>w_ret0 := 0, w_ret1 := FS_PARAM_ERROR\<rparr>)
     else cmptw_seek os pBuffer (w_file_handle p) (p\<lparr>w_file_handle_ptr := w_file_handle p\<rparr>) 0)"

section \<open>Starting up\<close>

definition check_dir :: "'w os \<Rightarrow> string \<Rightarrow> ('w fsd, unit) state" where
  "check_dir os dir = do {
     r \<leftarrow> syscall os (Sys_stat dir);
     if r_ret r <s 0 then do { _ \<leftarrow> syscall os (Sys_mkdir dir MD_DIR_ATTR); ret () } else ret () }"

primrec check_dirs :: "'w os \<Rightarrow> string list \<Rightarrow> ('w fsd, unit) state" where
  "check_dirs os [] = ret ()"
| "check_dirs os (d # ds) = do { check_dir os d; check_dirs os ds }"

definition init_dirs :: "u32 \<Rightarrow> string list" where
  "init_dirs md = [''/mnt/vendor/nvdata'', ''/mnt/vendor/nvdata/md_cmn''] @
     (if md = 0 then take 3 FsRootDir_MD1
      else if md = 1 then take 3 FsRootDir_MD2
      else if md = 2 then take 3 FsRootDir_MD3 @ [FsRootDir_MD3 ! 4]
      else [])"

definition FS_Init :: "'w os \<Rightarrow> ('w fsd, unit) state" where
  "FS_Init os = do {
     upd_info (\<lambda>g. g\<lparr>FileNum := 0\<rparr>);
     _ \<leftarrow> syscall os (Sys_umask 7);
     md \<leftarrow> gets md_id;
     check_dirs os (init_dirs md);
     upd_info (\<lambda>g. g\<lparr>hFileHandle :=
       map (\<lambda>h. h\<lparr>fInUse := False, hFile := INVALID_HANDLE_VALUE\<rparr>) (hFileHandle g)\<rparr>) }"

definition FS_Deinit :: "'w os \<Rightarrow> ('w fsd, unit) state" where
  "FS_Deinit os = FS_CCCI_ShutDown os"

section \<open>Closing an open file\<close>

definition closes_ok :: "'w os \<Rightarrow> bool" where
  "closes_ok os \<longleftrightarrow> (\<forall>fd w. r_ret (fst (os (Sys_close fd) w)) \<noteq> - 1)"

text \<open>A handle of an open file (not of a search), as \<open>FS_CCCI_Open\<close> leaves it.\<close>

definition is_file :: "'w fsd \<Rightarrow> u32 \<Rightarrow> bool" where
  "is_file s h \<longleftrightarrow> unat h \<in> in_use s \<and> \<not> fSearch (hFileHandle (g_FsInfo s) ! unat h) \<and>
     hFile (hFileHandle (g_FsInfo s) ! unat h) \<noteq> INVALID_HANDLE_VALUE"

lemma is_file_same_table: "same_table s t \<Longrightarrow> is_file t h = is_file s h"
  by (simp add: is_file_def same_table_in_use) (simp add: same_table_def)

lemma check_handle_file:
  assumes "handles_ok s" "is_file s h" shows "run_state (check_handle h) s = (True, s)"
proof -
  have "FileNum (g_FsInfo s) \<noteq> 0"
  proof
    assume "FileNum (g_FsInfo s) = 0"
    then have "card (in_use s) = 0" using assms(1) by (simp add: handles_ok_def table_inv_def in_use_def)
    moreover have "finite (in_use s)" by (simp add: in_use_def)
    ultimately show False using assms(2) by (simp add: is_file_def)
  qed
  then show ?thesis
    using assms(2) by (auto simp: check_handle_def get_handle_def is_file_def in_use_def word_le_nat_alt not_le)
qed

lemma close_file_succeeds: "closes_ok os \<Longrightarrow> wp (close_file os n h) (\<lambda>r _. r = FS_NO_ERROR) s"
  unfolding close_file_def
  by (intro wp_bindI [of "sync_file _ _ _"] wp_bindI [of "syscall _ _"] wp_bindI [of "profile _ _ _"]
      wp_bindI [of "release_handle _"] wp_ifI wp_syscallI wp_returnI wp_intro [of "sync_file _ _ _"]
      wp_intro [of "profile _ _ _"] wp_intro [of "release_handle _"])
    (auto simp: closes_ok_def, metis fst_conv)

lemma Close_succeeds:
  assumes "handles_ok s" "is_file s h" "closes_ok os"
  shows "wp (FS_CCCI_Close os h) (\<lambda>r _. r = FS_NO_ERROR) s"
  using assms(2) close_file_succeeds [OF assms(3)]
  by (simp add: FS_CCCI_Close_def wp_def check_handle_file [OF assms(1,2)] get_handle_def is_file_def)

definition close_result :: "'w os \<Rightarrow> 'w fsd \<Rightarrow> u32 \<Rightarrow> s32 \<Rightarrow> 'w fsd \<Rightarrow> bool" where
  "close_result os s h r t \<longleftrightarrow> handles_ok t \<and>
     (if r = FS_NO_ERROR then in_use t = in_use s - {unat h}
      else r <s 0 \<and> in_use t = in_use s \<and> \<not> (closes_ok os \<and> is_file s h))"

lemma Close_result:
  assumes "handles_ok s" shows "wp (FS_CCCI_Close os h) (close_result os s h) s"
proof (rule wp_intro)
  fix r t assume run: "run_state (FS_CCCI_Close os h) s = (r, t)"
  have e: "close_effect s h r t" by (rule FS_CCCI_Close_run [OF run])
  have "closes_ok os \<and> is_file s h \<longrightarrow> r = 0"
    using wp_run [OF Close_succeeds run] assms by blast
  then show "close_result os s h r t"
    using e fsd_handles.close_law [OF assms run]
    by (auto simp: close_result_def close_effect_def)
qed

lemma close_result_carry: "same_table s t \<Longrightarrow> close_result os t h r u \<Longrightarrow> close_result os s h r u"
  using same_table_in_use [of s t] is_file_same_table [of s t h] by (auto simp: close_result_def)

section \<open>The compound read\<close>

lemma one_bit: "x AND 2 ^ n \<noteq> 0 \<Longrightarrow> x AND 2 ^ n = (2 ^ n :: u32)"
  by (auto simp: and_exp_eq_0_iff_not_bit bit_simps intro!: bit_word_eqI)

lemma cmpt_bits:
  "x AND 1 \<noteq> 0 \<Longrightarrow> x AND 1 = (1 :: u32)" "x AND 2 \<noteq> 0 \<Longrightarrow> x AND 2 = (2 :: u32)"
  "x AND 4 \<noteq> 0 \<Longrightarrow> x AND 4 = (4 :: u32)" "x AND 8 \<noteq> 0 \<Longrightarrow> x AND 8 = (8 :: u32)"
  "x AND 16 \<noteq> 0 \<Longrightarrow> x AND 16 = (16 :: u32)" "x AND 32 \<noteq> 0 \<Longrightarrow> x AND 32 = (32 :: u32)"
  using one_bit [of x 0] one_bit [of x 1] one_bit [of x 2] one_bit [of x 3] one_bit [of x 4] one_bit [of x 5]
  by simp_all

text \<open>What the steps from one on leave, relative to the state in which the handle is open: success
  adds the requested bits among \<open>m\<close> to the bitmap; any end gives the handle back unless its
  descriptor cannot be closed.\<close>

definition cmpt_result ::
  "'w os \<Rightarrow> 'w fsd \<Rightarrow> u32 \<Rightarrow> u32 \<Rightarrow> u32 \<Rightarrow> u32 \<Rightarrow> s32 \<times> nvram_fs_para_cmpt \<Rightarrow> 'w fsd \<Rightarrow> bool" where
  "cmpt_result os s h opid bm m = (\<lambda>(r, p) t. handles_ok t \<and> c_opid_map p = opid \<and>
     (in_use t = in_use s - {unat h} \<or> in_use t = in_use s \<and> r \<noteq> 0 \<and> \<not> (closes_ok os \<and> is_file s h)) \<and>
     (r = 0 \<longrightarrow> c_ret0 p = bm OR (opid AND m) \<and> c_ret1 p = 0 \<and> opid AND FS_CMPT_CLOSE \<noteq> 0) \<and> r \<noteq> - 1)"

lemma cmpt_result_carry:
  "same_table s t \<Longrightarrow> cmpt_result os t h opid bm m x u \<Longrightarrow> cmpt_result os s h opid bm m x u"
  using same_table_in_use [of s t] is_file_same_table [of s t h] by (simp add: cmpt_result_def case_prod_beta)

lemma cmpt_step:
  assumes "handles_ok s" "frame same_table m" "\<And>a t. handles_ok t \<Longrightarrow> wp (f a) (cmpt_result os t h opid bm k) t"
  shows "wp (State_Monad.bind m f) (cmpt_result os s h opid bm k) s"
proof (rule wp_bindI, rule wp_frame [OF assms(2)])
  fix a t assume st: "same_table s t"
  show "wp (f a) (cmpt_result os s h opid bm k) t"
    using assms(3) [OF same_table_handles_ok [OF st assms(1)]] cmpt_result_carry [OF st] by (rule wp_mono)
qed

lemma cmpt_fail_result:
  assumes "handles_ok s" "code \<noteq> 0" "code \<noteq> - 1"
  shows "wp (cmpt_fail os h p bm err code) (cmpt_result os s h (c_opid_map p) bm' m) s"
  unfolding cmpt_fail_def
  by (intro wp_bindI wp_mono [OF Close_result [OF assms(1)]] wp_returnI)
    (use assms(2,3) in \<open>auto simp: close_result_def cmpt_result_def split: if_splits\<close>)

lemma cmpt_close_result:
  assumes "handles_ok s" shows "wp (cmpt_close os h p bm) (cmpt_result os s h (c_opid_map p) bm 16) s"
  unfolding cmpt_close_def
  by (intro wp_ifI wp_bindI wp_mono [OF Close_result [OF assms]] wp_returnI)
    (auto simp: close_result_def cmpt_result_def cmpt_bits split: if_splits)

lemma bitmap_more:
  assumes "opid AND b = b" "b OR m = k" shows "(bm OR b) OR (opid AND m) = bm OR (opid AND k :: u32)"
  using assms by (metis bit.conj_disj_distrib or.assoc)

lemma bitmap_less:
  assumes "opid AND b = 0" "b OR m = k" shows "opid AND m = (opid AND k :: u32)"
  using assms by (metis bit.conj_disj_distrib or.left_neutral)

lemma cmpt_result_more:
  "opid AND b = b \<Longrightarrow> b OR m = k \<Longrightarrow> cmpt_result os s h opid (bm OR b) m = cmpt_result os s h opid bm k"
  using bitmap_more [of opid b m k bm] by (simp add: cmpt_result_def)

lemma cmpt_result_less:
  assumes "opid AND b = 0" "b OR m = k"
  shows "cmpt_result os s h opid bm m = cmpt_result os s h opid bm k"
  by (simp only: cmpt_result_def bitmap_less [OF assms])

lemma cmpt_read_result:
  assumes "handles_ok s" shows "wp (cmpt_read os h p bm) (cmpt_result os s h (c_opid_map p) bm 24) s"
proof (cases "c_opid_map p AND 8 = 0")
  case True
  then show ?thesis
    unfolding cmpt_read_def
    using cmpt_close_result [OF assms, of os h p bm] by (simp add: cmpt_result_less [OF True, of 16 24])
next
  case False
  note more = cmpt_result_more [OF cmpt_bits(4) [OF False], of 16 24, simplified]
  have "wp (cmpt_close os h q (bm OR 8)) (cmpt_result os t h (c_opid_map p) bm 24) t"
    if "handles_ok t" "c_opid_map q = c_opid_map p" for t q
    using cmpt_close_result [OF that(1), of os h q "bm OR 8"] that(2) by (simp add: more)
  moreover have "wp (cmpt_fail os h q bm err (- 4)) (cmpt_result os t h (c_opid_map p) bm 24) t"
    if "handles_ok t" "c_opid_map q = c_opid_map p" for t q err
    using cmpt_fail_result [OF that(1), of "- 4" os h q bm err] that(2) by simp
  ultimately show ?thesis
    unfolding cmpt_read_def Let_def using False assms
    by (auto intro!: cmpt_step frame_intros wp_prodI wp_ifI split: option.splits)
qed

lemma cmpt_seek_result:
  assumes "handles_ok s" shows "wp (cmpt_seek os h p bm) (cmpt_result os s h (c_opid_map p) bm 28) s"
proof (cases "c_opid_map p AND 4 = 0")
  case True
  then show ?thesis
    unfolding cmpt_seek_def
    using cmpt_read_result [OF assms, of os h p bm] by (simp add: cmpt_result_less [OF True, of 24 28])
next
  case False
  note more = cmpt_result_more [OF cmpt_bits(3) [OF False], of 24 28, simplified]
  have "wp (cmpt_read os h p (bm OR 4)) (cmpt_result os t h (c_opid_map p) bm 28) t" if "handles_ok t" for t
    using cmpt_read_result [OF that, of os h p "bm OR 4"] by (simp add: more)
  moreover have "wp (cmpt_fail os h p bm err (- 3)) (cmpt_result os t h (c_opid_map p) bm 28) t"
    if "handles_ok t" for t err
    using cmpt_fail_result [OF that, of "- 3" os h p bm err] by simp
  ultimately show ?thesis
    unfolding cmpt_seek_def using False assms
    by (auto intro!: cmpt_step frame_intros wp_ifI)
qed

lemma cmpt_size_result:
  assumes "handles_ok s" shows "wp (cmpt_size os h p bm) (cmpt_result os s h (c_opid_map p) bm 30) s"
proof (cases "c_opid_map p AND 2 = 0")
  case True
  then show ?thesis
    unfolding cmpt_size_def
    using cmpt_seek_result [OF assms, of os h p bm] by (simp add: cmpt_result_less [OF True, of 28 30])
next
  case False
  note more = cmpt_result_more [OF cmpt_bits(2) [OF False], of 28 30, simplified]
  have "wp (cmpt_seek os h q (bm OR 2)) (cmpt_result os t h (c_opid_map p) bm 30) t"
    if "handles_ok t" "c_opid_map q = c_opid_map p" for t q
    using cmpt_seek_result [OF that(1), of os h q "bm OR 2"] that(2) by (simp add: more)
  moreover have "wp (cmpt_fail os h q bm err (- 2)) (cmpt_result os t h (c_opid_map p) bm 30) t"
    if "handles_ok t" "c_opid_map q = c_opid_map p" for t q err
    using cmpt_fail_result [OF that(1), of "- 2" os h q bm err] that(2) by simp
  ultimately show ?thesis
    unfolding cmpt_size_def Let_def using False assms
    by (auto intro!: cmpt_step frame_intros wp_prodI wp_ifI split: option.splits)
qed


definition cmpt_read_done ::
  "'w os \<Rightarrow> 'w fsd \<Rightarrow> u32 \<Rightarrow> s32 \<times> nvram_fs_para_cmpt \<Rightarrow> 'w fsd \<Rightarrow> bool" where
  "cmpt_read_done os s opid = (\<lambda>(r, p) t. handles_ok t \<and>
     (r = 0 \<longrightarrow> in_use t = in_use s \<and> c_ret0 p = opid AND 0x1F \<and> c_ret1 p = 0 \<and>
        opid AND FS_CMPT_OPEN \<noteq> 0 \<and> opid AND FS_CMPT_CLOSE \<noteq> 0) \<and>
     (closes_ok os \<and> r \<noteq> - 1 \<longrightarrow> in_use t = in_use s))"

lemma Open_result:
  assumes "handles_ok s"
  shows "wp (FS_CCCI_Open os name Flg) (\<lambda>r t. handles_ok t \<and>
    (r <s 0 \<or> is_file t r \<and> unat r \<notin> in_use s \<and> in_use t = insert (unat r) (in_use s))) s"
proof (rule wp_intro)
  fix r t assume run: "run_state (FS_CCCI_Open os name Flg) s = (r, t)"
  note law = open_effect_law [OF assms FS_CCCI_Open_run [OF assms run]]
  have "is_file t r" if nonneg: "\<not> r <s 0"
  proof -
    obtain i e where f: "fills s i e t" "\<not> fSearch e" "hFile e \<noteq> - 1" "r = (if pFsFileName e = 0 then - 1 else of_nat i)"
      using FS_CCCI_Open_run [OF assms run] nonneg unfolding open_effect_def by blast
    have i: "i < FS_FILE_MAX" using f(1) by (simp add: fills_def lowest_free_def)
    have "r = of_nat i" using f(4) nonneg by (auto split: if_splits)
    then have "unat r = i" using of_nat_handle [OF i] by simp
    then show ?thesis
      using f i assms fills_in_use [OF f(1) assms]
      by (auto simp: is_file_def fills_def handles_ok_def table_inv_def)
  qed
  then show "handles_ok t \<and> (r <s 0 \<or> is_file t r \<and> unat r \<notin> in_use s \<and> in_use t = insert (unat r) (in_use s))"
    using law by (auto split: if_splits)
qed

lemma cmpt_read_done_carry: "same_table s t \<Longrightarrow> cmpt_read_done os t opid x u \<Longrightarrow> cmpt_read_done os s opid x u"
  using same_table_in_use [of s t] by (simp add: cmpt_read_done_def case_prod_beta)

lemma cmpt_read_after_open:
  assumes opid: "c_opid_map p AND 1 \<noteq> 0"
    and t: "handles_ok t" "h <s 0 \<or> is_file t h \<and> unat h \<notin> in_use s \<and> in_use t = insert (unat h) (in_use s)"
    and st: "same_table t u"
  shows "wp (if h <s 0 then ret (- 1, p\<lparr>c_ret0 := 0, c_ret1 := h\<rparr>) else cmpt_size os h p 1)
    (cmpt_read_done os s (c_opid_map p)) u"
proof (rule wp_ifI)
  assume "h <s 0"
  then show "wp (ret (- 1, p\<lparr>c_ret0 := 0, c_ret1 := h\<rparr>)) (cmpt_read_done os s (c_opid_map p)) u"
    using t(1) st by (auto simp: wp_return cmpt_read_done_def intro: same_table_handles_ok)
next
  assume "\<not> h <s 0"
  then have f: "is_file u h" "unat h \<notin> in_use s" "in_use u = insert (unat h) (in_use s)"
    using t(2) is_file_same_table [OF st] same_table_in_use [OF st] by auto
  have "(1 :: u32) OR (c_opid_map p AND 30) = c_opid_map p AND 31"
    using bitmap_more [of "c_opid_map p" 1 30 31 0] cmpt_bits(1) [OF opid] by simp
  then show "wp (cmpt_size os h p 1) (cmpt_read_done os s (c_opid_map p)) u"
    using f opid
    by (intro wp_mono [OF cmpt_size_result [OF same_table_handles_ok [OF st t(1)]]])
      (auto simp: cmpt_result_def cmpt_read_done_def)
qed

text \<open>Both compound operations open the file between two readings of the clock.\<close>

lemma timed_open:
  assumes "handles_ok s"
    and rest: "\<And>h t u. handles_ok t \<Longrightarrow> h <s 0 \<or> is_file t h \<and> unat h \<notin> in_use s \<and>
      in_use t = insert (unat h) (in_use s) \<Longrightarrow> same_table t u \<Longrightarrow> wp (k h) Q u"
  shows "wp (do { start \<leftarrow> syscall os Sys_clock_gettime; h \<leftarrow> FS_CCCI_Open os name Flg;
    profile elapsed_plain os (r_time start); k h }) Q s"
proof -
  have "wp (do { h \<leftarrow> FS_CCCI_Open os name Flg; profile elapsed_plain os ts; k h }) Q u" if "same_table s u" for u ts
    using same_table_in_use [OF that]
    by (intro wp_bindI wp_mono [OF Open_result [OF same_table_handles_ok [OF that assms(1)]]]
        wp_frame [OF same_table_profile] rest) auto
  note opn = this
  show ?thesis by (intro wp_bindI [of "syscall _ _"] wp_syscallI opn same_table.R_request)
qed

lemma CMPT_Read_done:
  assumes "handles_ok s"
  shows "wp (FS_CCCI_CMPT_Read os name p) (cmpt_read_done os s (c_opid_map p)) s"
proof -
  let ?p = "p\<lparr>c_act_read := 0\<rparr>"
  have "wp (cmpt_open os name ?p) (cmpt_read_done os s (c_opid_map ?p)) s" if "c_opid_map ?p AND 1 \<noteq> 0"
    unfolding cmpt_open_def by (intro timed_open assms cmpt_read_after_open [OF that])
  moreover have "cmpt_read_done os s (c_opid_map p) (- 7, q) s" for q
    using assms by (simp add: cmpt_read_done_def)
  ultimately show ?thesis by (simp add: FS_CCCI_CMPT_Read_def Let_def wp_return)
qed

section \<open>The compound write\<close>

definition cmptw_result ::
  "'w os \<Rightarrow> 'w fsd \<Rightarrow> u32 \<Rightarrow> nvram_fs_para_cmptw \<Rightarrow> u32 \<Rightarrow> u32 \<Rightarrow> s32 \<times> nvram_fs_para_cmptw \<Rightarrow> 'w fsd \<Rightarrow> bool" where
  "cmptw_result os s h p0 bm m = (\<lambda>(r, p) t. handles_ok t \<and> w_file_handle_ptr p = w_file_handle_ptr p0 \<and>
     (if r = 0 then in_use t = (if w_opid_map p0 AND FS_CMPT_CLOSE \<noteq> 0 then in_use s - {unat h} else in_use s) \<and>
        w_ret0 p = bm OR (w_opid_map p0 AND m) \<and> w_ret1 p = 0
      else r \<noteq> - 1 \<and> r \<noteq> - 2 \<and>
        (in_use t = in_use s - {unat h} \<or> in_use t = in_use s \<and> \<not> (closes_ok os \<and> is_file s h))))"

lemma cmptw_result_carry:
  "same_table s t \<Longrightarrow> cmptw_result os t h p bm m x u \<Longrightarrow> cmptw_result os s h p bm m x u"
  using same_table_in_use [of s t] is_file_same_table [of s t h]
  by (auto simp: cmptw_result_def case_prod_beta split: if_splits)

lemma cmptw_step:
  assumes "handles_ok s" "frame same_table m" "\<And>a t. handles_ok t \<Longrightarrow> wp (f a) (cmptw_result os t h p bm k) t"
  shows "wp (State_Monad.bind m f) (cmptw_result os s h p bm k) s"
proof (rule wp_bindI, rule wp_frame [OF assms(2)])
  fix a t assume st: "same_table s t"
  show "wp (f a) (cmptw_result os s h p bm k) t"
    using assms(3) [OF same_table_handles_ok [OF st assms(1)]] cmptw_result_carry [OF st] by (rule wp_mono)
qed

lemma cmptw_fail_result:
  assumes "handles_ok s" "code \<noteq> 0" "code \<noteq> - 1" "code \<noteq> - 2" "w_file_handle_ptr q = w_file_handle_ptr p"
  shows "wp (cmptw_fail os h q bm err code) (cmptw_result os s h p bm' m) s"
  unfolding cmptw_fail_def
  by (intro wp_bindI wp_mono [OF Close_result [OF assms(1)]] wp_returnI)
    (use assms(2-) in \<open>auto simp: close_result_def cmptw_result_def split: if_splits\<close>)

lemma cmptw_close_result:
  assumes "handles_ok s" "w_file_handle_ptr q = w_file_handle_ptr p" "w_opid_map q = w_opid_map p"
  shows "wp (cmptw_close os h q bm) (cmptw_result os s h p bm 16) s"
  unfolding cmptw_close_def
  by (intro wp_ifI wp_bindI wp_mono [OF Close_result [OF assms(1)]] wp_returnI)
    (use assms in \<open>auto simp: close_result_def cmptw_result_def cmpt_bits split: if_splits\<close>)

lemma cmptw_result_more:
  "w_opid_map p AND b = b \<Longrightarrow> b OR m = k \<Longrightarrow> cmptw_result os s h p (bm OR b) m = cmptw_result os s h p bm k"
  using bitmap_more [of "w_opid_map p" b m k bm] by (simp add: cmptw_result_def)

lemma cmptw_result_less:
  assumes "w_opid_map p AND b = 0" "b OR m = k"
  shows "cmptw_result os s h p bm m = cmptw_result os s h p bm k"
  by (simp only: cmptw_result_def bitmap_less [OF assms])

lemma cmptw_write_result:
  assumes "handles_ok s" shows "wp (cmptw_write os buf h p bm) (cmptw_result os s h p bm 48) s"
proof (cases "w_opid_map p AND 32 = 0")
  case True
  then show ?thesis
    unfolding cmptw_write_def
    using cmptw_close_result [OF assms refl refl, of os h p bm] by (simp add: cmptw_result_less [OF True, of 16 48])
next
  case False
  note more = cmptw_result_more [OF cmpt_bits(6) [OF False], of 16 48, simplified]
  have "wp (cmptw_close os h q (bm OR 32)) (cmptw_result os t h p bm 48) t"
    if "handles_ok t" "w_opid_map q = w_opid_map p" "w_file_handle_ptr q = w_file_handle_ptr p" for t q
    using cmptw_close_result [OF that(1,3,2), of os h "bm OR 32"] by (simp add: more)
  moreover have "wp (cmptw_fail os h q bm err (- 4)) (cmptw_result os t h p bm 48) t"
    if "handles_ok t" "w_file_handle_ptr q = w_file_handle_ptr p" for t q err
    using that by (intro cmptw_fail_result) simp_all
  ultimately show ?thesis
    unfolding cmptw_write_def Let_def using False assms
    by (auto intro!: cmptw_step frame_intros wp_prodI wp_ifI split: option.splits)
qed

lemma cmptw_seek_result:
  assumes "handles_ok s" shows "wp (cmptw_seek os buf h p bm) (cmptw_result os s h p bm 52) s"
proof (cases "w_opid_map p AND 4 = 0")
  case True
  then show ?thesis
    unfolding cmptw_seek_def
    using cmptw_write_result [OF assms, of os buf h p bm] by (simp add: cmptw_result_less [OF True, of 48 52])
next
  case False
  note more = cmptw_result_more [OF cmpt_bits(3) [OF False], of 48 52, simplified]
  have "wp (cmptw_write os buf h p (bm OR 4)) (cmptw_result os t h p bm 52) t" if "handles_ok t" for t
    using cmptw_write_result [OF that, of os buf h p "bm OR 4"] by (simp add: more)
  moreover have "wp (cmptw_fail os h p bm err (- 3)) (cmptw_result os t h p bm 52) t" if "handles_ok t" for t err
    using that by (intro cmptw_fail_result) simp_all
  ultimately show ?thesis
    unfolding cmptw_seek_def using False assms by (auto intro!: cmptw_step frame_intros wp_ifI)
qed

text \<open>What a compound write leaves, for the first of a series (no handle yet) and for a later one.\<close>

definition cmptw_done ::
  "'w os \<Rightarrow> 'w fsd \<Rightarrow> nvram_fs_para_cmptw \<Rightarrow> s32 \<times> nvram_fs_para_cmptw \<Rightarrow> 'w fsd \<Rightarrow> bool" where
  "cmptw_done os s p0 = (\<lambda>(r, p) t. handles_ok t \<and>
     (let h = unat (w_file_handle_ptr p); closing = (w_opid_map p0 AND FS_CMPT_CLOSE \<noteq> 0);
          first = (w_file_handle p0 <s 0) in
      (r = 0 \<longrightarrow> w_ret0 p = w_opid_map p0 AND (if first then 0x35 else 0x34) \<and> w_ret1 p = 0 \<and>
         in_use t = (if closing then in_use s - {h} else if first then insert h (in_use s) else in_use s) \<and>
         (first \<longrightarrow> h \<notin> in_use s)) \<and>
      (first \<and> closes_ok os \<and> r \<noteq> 0 \<and> r \<noteq> - 1 \<longrightarrow> in_use t = in_use s)))"

lemma cmptw_after_open:
  assumes opid: "w_opid_map p AND 1 \<noteq> 0" and first: "w_file_handle p <s 0"
    and t: "handles_ok t" "h <s 0 \<or> is_file t h \<and> unat h \<notin> in_use s \<and> in_use t = insert (unat h) (in_use s)"
    and st: "same_table t u"
  shows "wp (if h <s 0 then ret (- 1, p\<lparr>w_ret0 := 0, w_ret1 := h\<rparr>)
      else cmptw_seek os buf h (p\<lparr>w_file_handle_ptr := h\<rparr>) 1) (cmptw_done os s p) u"
proof (rule wp_ifI)
  assume "h <s 0"
  then show "wp (ret (- 1, p\<lparr>w_ret0 := 0, w_ret1 := h\<rparr>)) (cmptw_done os s p) u"
    using t(1) st by (auto simp: wp_return cmptw_done_def Let_def intro: same_table_handles_ok)
next
  assume "\<not> h <s 0"
  then have f: "is_file u h" "unat h \<notin> in_use s" "in_use u = insert (unat h) (in_use s)"
    using t(2) is_file_same_table [OF st] same_table_in_use [OF st] by auto
  have "(1 :: u32) OR (w_opid_map p AND 52) = w_opid_map p AND 53"
    using bitmap_more [of "w_opid_map p" 1 52 53 0] cmpt_bits(1) [OF opid] by simp
  then show "wp (cmptw_seek os buf h (p\<lparr>w_file_handle_ptr := h\<rparr>) 1) (cmptw_done os s p) u"
    using f first
    by (intro wp_mono [OF cmptw_seek_result [OF same_table_handles_ok [OF st t(1)]]])
      (auto simp: cmptw_result_def cmptw_done_def Let_def split: if_splits)
qed

lemma CMPT_Write_done:
  assumes "handles_ok s"
  shows "wp (FS_CCCI_CMPT_Write os name p buf) (cmptw_done os s p) s"
proof -
  let ?p = "p\<lparr>w_act_write_size := 0\<rparr>"
  have same: "cmptw_done os s ?p = cmptw_done os s p" by (simp add: cmptw_done_def)
  have "wp (cmptw_open os name buf ?p) (cmptw_done os s ?p) s"
    if "w_opid_map ?p AND 1 \<noteq> 0" "w_file_handle ?p <s 0"
    unfolding cmptw_open_def by (intro timed_open assms cmptw_after_open [OF that])
  moreover have "wp (cmptw_seek os buf (w_file_handle p) (?p\<lparr>w_file_handle_ptr := w_file_handle p\<rparr>) 0)
      (cmptw_done os s p) s" if "\<not> w_file_handle p <s 0"
  proof (rule wp_mono [OF cmptw_seek_result [OF assms]])
    fix x t assume r: "cmptw_result os s (w_file_handle p) (?p\<lparr>w_file_handle_ptr := w_file_handle p\<rparr>) 0 52 x t"
    obtain r q where x: "x = (r, q)" by (cases x)
    show "cmptw_done os s p x t"
      using r that by (cases "r = 0") (simp_all add: x cmptw_result_def cmptw_done_def)
  qed
  moreover have "cmptw_done os s p (- 2, q) s" for q
    using assms by (simp add: cmptw_done_def Let_def)
  ultimately show ?thesis by (simp add: FS_CCCI_CMPT_Write_def Let_def wp_return same)
qed

section \<open>Starting up\<close>

lemma issues_table_check_dirs: "frame same_table (check_dirs os ds)"
  by (induction ds) (auto simp: check_dir_def intro!: frame_intros)

lemma table_inv_cleared:
  assumes "length hs = FS_FILE_MAX"
  shows "table_inv 0 (map (\<lambda>h. h\<lparr>fInUse := False, hFile := INVALID_HANDLE_VALUE\<rparr>) hs)" (is "table_inv 0 ?hs")
proof -
  have "\<not> fInUse (?hs ! i) \<and> hFile (?hs ! i) = - 1" if "i < FS_FILE_MAX" for i using that assms by simp
  then show ?thesis using assms by (simp add: table_inv_def)
qed

lemma FS_Init_table:
  assumes "length (hFileHandle (g_FsInfo s)) = FS_FILE_MAX"
  shows "wp (FS_Init os) (\<lambda>_ t. handles_ok t \<and> in_use t = {}) s"
proof -
  let ?clear = "map (\<lambda>h. h\<lparr>fInUse := False, hFile := INVALID_HANDLE_VALUE\<rparr> :: FS_FILE_HANDLE)"
  have "handles_ok (t\<lparr>g_FsInfo := (g_FsInfo t)\<lparr>hFileHandle := ?clear (hFileHandle (g_FsInfo t))\<rparr>\<rparr>) \<and>
      in_use (t\<lparr>g_FsInfo := (g_FsInfo t)\<lparr>hFileHandle := ?clear (hFileHandle (g_FsInfo t))\<rparr>\<rparr>) = {}"
    if "FileNum (g_FsInfo t) = 0" "hFileHandle (g_FsInfo t) = hFileHandle (g_FsInfo s)" for t :: "'a fsd"
    using table_inv_cleared [OF assms] that assms by (simp add: handles_ok_def in_use_def)
  then show ?thesis
    unfolding FS_Init_def upd_info_def
    by (intro wp_bindI wp_modifyI wp_getsI wp_syscallI wp_frame [OF issues_table_check_dirs])
      (simp add: same_table_def)
qed

section \<open>Properties\<close>

text \<open>
  C25: A compound read is a closed session. It reports success only when it opened and closed the
  file; then its bitmap names exactly the steps the modem asked for, the error code is 0 and the
  table of open files is as before. When the kernel closes every descriptor, no failure of a later
  step leaks the handle either.
\<close>

theorem CMPT_Read_session:
  assumes "handles_ok s" "run_state (FS_CCCI_CMPT_Read os name p) s = ((r, p'), t)"
  shows "handles_ok t \<and>
    (r = 0 \<longrightarrow> in_use t = in_use s \<and> c_ret0 p' = c_opid_map p AND 0x1F \<and> c_ret1 p' = 0 \<and>
       c_opid_map p AND FS_CMPT_OPEN \<noteq> 0 \<and> c_opid_map p AND FS_CMPT_CLOSE \<noteq> 0) \<and>
    (closes_ok os \<and> r \<noteq> - 1 \<longrightarrow> in_use t = in_use s)"
  using wp_run [OF CMPT_Read_done [OF assms(1)] assms(2)] by (simp add: cmpt_read_done_def)

definition cmpt_args :: "u32 \<Rightarrow> nvram_fs_para_cmpt" where
  "cmpt_args opid = \<lparr>c_opid_map = opid, c_ret0 = 0, c_ret1 = 0, c_flag = 0, c_file_size = 0, c_offset = 0,
     c_whence = 0, c_data_ptr = 56, c_length = 4, c_act_read = 0\<rparr>"

theorem CMPT_Read_session_witness:
  "\<exists>p' t. run_state (FS_CCCI_CMPT_Read (answering 3) (wcs ''Z:/a'') (cmpt_args 19)) (idle_fsd ()) = ((0, p'), t) \<and>
     c_ret0 p' = 19 \<and> in_use t = {}"
proof -
  let ?x = "run_state (FS_CCCI_CMPT_Read (answering 3) (wcs ''Z:/a'') (cmpt_args 19)) (idle_fsd ())"
  have "fst (fst ?x) = 0" by code_simp
  then have r: "?x = ((0, snd (fst ?x)), snd ?x)" by (metis prod.collapse)
  show ?thesis using CMPT_Read_session [OF handles_ok_idle r] r by (auto simp: cmpt_args_def)
qed

text \<open>
  C26: A compound write reports exactly the steps it did. The first one of a series opens a file
  and hands out a handle that was free; without the close bit the handle stays open for the next
  one, with it the handle is given back; when the kernel closes every descriptor, a failing step of
  a first write does not leak the handle.
\<close>

theorem CMPT_Write_session:
  assumes "handles_ok s" "run_state (FS_CCCI_CMPT_Write os name p buf) s = ((r, p'), t)"
    and "h = unat (w_file_handle_ptr p')" "first = (w_file_handle p <s 0)"
  shows "handles_ok t \<and>
    (r = 0 \<longrightarrow> w_ret0 p' = w_opid_map p AND (if first then 0x35 else 0x34) \<and> w_ret1 p' = 0 \<and>
       in_use t = (if w_opid_map p AND FS_CMPT_CLOSE \<noteq> 0 then in_use s - {h}
                   else if first then insert h (in_use s) else in_use s) \<and> (first \<longrightarrow> h \<notin> in_use s)) \<and>
    (first \<and> closes_ok os \<and> r \<noteq> 0 \<and> r \<noteq> - 1 \<longrightarrow> in_use t = in_use s)"
  using wp_run [OF CMPT_Write_done [OF assms(1)] assms(2)] unfolding assms(3,4) by (simp add: cmptw_done_def Let_def)

definition cmptw_args :: "u32 \<Rightarrow> s32 \<Rightarrow> nvram_fs_para_cmptw" where
  "cmptw_args opid h = \<lparr>w_opid_map = opid, w_ret0 = 0, w_ret1 = 0, w_flag = 0, w_offset = 0, w_whence = 0,
     w_data_ptr = 0, w_length = 2, w_file_handle = h, w_file_handle_ptr = 0, w_act_write_size = 0\<rparr>"

theorem CMPT_Write_session_witness:
  "\<exists>p' t. run_state (FS_CCCI_CMPT_Write (answering 3) (wcs ''Z:/a'') (cmptw_args 33 (- 1)) (PBuf 0)) (idle_fsd ()) = ((0, p'), t) \<and>
     w_ret0 p' = 33 \<and> in_use t = {unat (w_file_handle_ptr p')}"
proof -
  let ?x = "run_state (FS_CCCI_CMPT_Write (answering 3) (wcs ''Z:/a'') (cmptw_args 33 (- 1)) (PBuf 0)) (idle_fsd ())"
  have "fst (fst ?x) = 0" by code_simp
  then have r: "?x = ((0, snd (fst ?x)), snd ?x)" by (metis prod.collapse)
  show ?thesis
    using CMPT_Write_session [OF handles_ok_idle r refl refl] r by (auto simp: cmptw_args_def word_sless_alt)
qed

text \<open>
  \<open>FS_Init\<close> establishes the handle-table invariant with no handle in use, whatever the table held
  before and whatever the kernel answers about the directories.
\<close>

theorem FS_Init_establishes:
  assumes "length (hFileHandle (g_FsInfo s)) = FS_FILE_MAX" "run_state (FS_Init os) s = (r, t)"
  shows "handles_ok t \<and> in_use t = {}"
  by (rule wp_run [OF FS_Init_table [OF assms(1)] assms(2)])

theorem FS_Init_establishes_witness:
  "in_use busy_fsd = {1} \<and> in_use (snd (run_state (FS_Init (answering (- 1))) busy_fsd)) = {}"
proof -
  have "length (hFileHandle (g_FsInfo busy_fsd)) = FS_FILE_MAX"
    using handles_ok_busy by (simp add: handles_ok_def table_inv_def)
  from FS_Init_establishes [OF this surjective_pairing]
  have "in_use (snd (run_state (FS_Init (answering (- 1))) busy_fsd)) = {}" by blast
  moreover have "fst (run_state (FS_CCCI_Open (answering 3) (wcs ''Z:/a'') 0) (idle_fsd ())) = 1" by code_simp
  then have "in_use busy_fsd = {1}"
    using fsd_handles.open_law [OF handles_ok_idle [of "()"] surjective_pairing, where a = "(wcs ''Z:/a'', 0)" and os = "answering 3"]
    by (simp add: busy_fsd_def word_sless_alt)
  ultimately show ?thesis by blast
qed

text \<open>
  \<open>FS_CCCI_GetDrive\<close> knows one drive: it answers the letter Z exactly for the system drive with
  serial number 1 or 2 and a mask that does not mix the two alternatives with other bits; every other
  question is a parameter error.
\<close>

theorem GetDrive_only_system:
  "FS_CCCI_GetDrive Type Serial AltMask =
     (if Type = FS_DRIVE_I_SYSTEM \<and> (Serial = 1 \<or> Serial = 2) \<and>
         (AltMask AND 3 = 0 \<or> AltMask = FS_NO_ALT_DRIVE \<or> AltMask = FS_ONLY_ALT_SERIAL)
      then 0x5A else FS_PARAM_ERROR)"
proof -
  have serial: "\<not> 2 < Serial \<and> \<not> Serial < 1 \<longleftrightarrow> Serial = 1 \<or> Serial = 2"
  proof -
    have "\<not> 2 < Serial \<and> \<not> Serial < 1 \<longleftrightarrow> 1 \<le> unat Serial \<and> unat Serial \<le> 2"
      by (auto simp: word_less_nat_alt)
    also have "\<dots> \<longleftrightarrow> unat Serial = 1 \<or> unat Serial = 2" by linarith
    finally show ?thesis by (simp add: word_unat_eq_iff)
  qed
  have "AltMask AND 3 = (AltMask AND 1) OR (AltMask AND 2)"
    using bit.conj_disj_distrib [of AltMask 1 2] by simp
  then have "AltMask AND 3 = 0 \<longleftrightarrow> AltMask AND 1 = 0 \<and> AltMask AND 2 = 0" by (simp add: or_eq_0_iff)
  then have alt: "\<not> (AltMask \<noteq> 1 \<and> AltMask AND 1 \<noteq> 0) \<and> \<not> (AltMask \<noteq> 2 \<and> AltMask AND 2 \<noteq> 0) \<longleftrightarrow>
      AltMask AND 3 = 0 \<or> AltMask = 1 \<or> AltMask = 2" by auto
  show ?thesis
    unfolding FS_CCCI_GetDrive_def Let_def using serial alt by (cases "Type = 4") auto
qed

text \<open>The drives that a modem does not have are empty strings in its table: on the second modem, drive
  U leads to the root of the file system.\<close>

theorem unset_drive_reaches_root:
  "map_path FsRootDir_MD2 ''U:/system/x'' = Inr (5, ''/system/x'')"
  by code_simp

end
