(* ===== verification/Fsd_Packet.thy ===== *)
theory Fsd_Packet
  imports Fsd_Handle
begin

unbundle bit_operations_syntax

text \<open>
  The transport between daemon and modem in \<open>ccci_fsd.c\<close>: parsing a request's arguments
  (\<open>FS_GetPackInfo\<close>), laying out and sending a response in fragments (\<open>FS_WriteToMD\<close>,
  \<open>FS_PreparePktEx\<close>, \<open>FS_PreparePktDone\<close>) and the reassembly of a request that arrives in
  several packets (the receive loop of \<open>main\<close>).

  A slot of the shared buffer holds, in stream mode, the 16-byte CCCI header, the operation id
  and the payload; in the older mode the operation id and the payload. Offsets are counted from
  the start of the buffer, and the offset of a slot is computed modulo \<open>2 ^ 32\<close> as on the 32-bit
  target.
\<close>

section \<open>Definitions\<close>

definition read_buf :: "nat \<Rightarrow> nat \<Rightarrow> ('w fsd, u8 list) state" where
  "read_buf a n = do {
     size \<leftarrow> gets buf_size;
     (if size < a + n then fault else ret ());
     gets (load (PBuf a) n) }"

definition read_word :: "nat \<Rightarrow> ('w fsd, u32) state" where
  "read_word a = do { bs \<leftarrow> read_buf a 4; ret (rd32 bs) }"

definition slot_addr :: "u32 \<Rightarrow> 'w fsd \<Rightarrow> nat" where
  "slot_addr BufIndex s = unat ((FS_MAX_BUF_SIZE s + of_nat (slot_head s)) * BufIndex)"

definition set_PackInfo :: "nat \<Rightarrow> u32 \<Rightarrow> pdata \<Rightarrow> ('w fsd, unit) state" where
  "set_PackInfo i len p = modify (\<lambda>s. s\<lparr>PackInfo := (PackInfo s)[i := \<lparr>Length = len, pData = p\<rparr>]\<rparr>)"

text \<open>\<open>FS_GetPackInfo\<close>: None is the early return on an argument of length 0.\<close>

primrec pack_loop :: "nat \<Rightarrow> nat \<Rightarrow> u32 \<Rightarrow> nat \<Rightarrow> ('w fsd, u32 option) state" where
  "pack_loop 0 i Index base = ret (Some Index)"
| "pack_loop (Suc n) i Index base = do {
     len \<leftarrow> read_word (base + unat Index);
     set_PackInfo i len (PBuf (base + unat (Index + 4)));
     if len = 0 then ret None
     else pack_loop n (Suc i) (Index + 4 + align4 len) base }"

primrec log_packs :: "nat list \<Rightarrow> ('w fsd, unit) state" where
  "log_packs [] = ret ()"
| "log_packs (i # is) = do {
     p \<leftarrow> gets (\<lambda>s. pData (PackInfo s ! i));
     (case p of PBuf a \<Rightarrow> do { _ \<leftarrow> read_word a; ret () } | PLoc l off \<Rightarrow> ret ());
     log_packs is }"

definition FS_GetPackInfo :: "nat \<Rightarrow> ('w fsd, bool) state" where
  "FS_GetPackInfo base = do {
     PackNum \<leftarrow> read_word base;
     max_arg \<leftarrow> gets FS_MAX_ARG_NUM;
     if max_arg < PackNum then ret False
     else do {
       r \<leftarrow> pack_loop (unat PackNum) 0 4 base;
       case r of None \<Rightarrow> ret False
       | Some Index \<Rightarrow> do {
           size \<leftarrow> gets FS_MAX_BUF_SIZE;
           if size < Index then do {
             log_packs [0..<unat PackNum];
             _ \<leftarrow> read_buf base 112;
             ret False }
           else ret True } } }"

text \<open>A fragment's header is built in place over the 20 bytes before its data; they are saved
  first (\<open>g_bak\<close>, here returned with the packet's address) and put back after the write.\<close>

definition FS_PreparePktEx ::
  "nat \<Rightarrow> nat \<Rightarrow> nat \<Rightarrow> u32 \<Rightarrow> bool \<Rightarrow> ('w fsd, nat \<times> u8 list) state" where
  "FS_PreparePktEx data data_to_send ccci_src op_id again = do {
     (if MAX_FS_PKT_BYTE < data_to_send \<or> data < ccci_src + 20
      then modify (\<lambda>s. s\<lparr>aborted := True\<rparr>) else ret ());
     let bak_ptr = data - 20;
     g_bak \<leftarrow> read_buf bak_ptr 20;
     d0 \<leftarrow> read_word ccci_src;
     store_buf bak_ptr (le32 (if again then d0 OR CCCI_FS_REQ_SEND_AGAIN
                              else d0 AND NOT CCCI_FS_REQ_SEND_AGAIN));
     store_buf (bak_ptr + 4) (le32 (of_nat (data_to_send + 20)));
     channel \<leftarrow> read_word (ccci_src + 8);
     store_buf (bak_ptr + 8) (le32 channel);
     reserved \<leftarrow> read_word (ccci_src + 12);
     store_buf (bak_ptr + 12) (le32 reserved);
     store_buf (bak_ptr + 16) (le32 op_id);
     ret (bak_ptr, g_bak) }"

definition FS_PreparePktDone :: "nat \<Rightarrow> u8 list \<Rightarrow> ('w fsd, unit) state" where
  "FS_PreparePktDone pStream g_bak = store_buf pStream g_bak"

text \<open>\<open>memcpy\<close> into the buffer; source and destination may not overlap.\<close>

definition overlap :: "nat \<Rightarrow> nat \<Rightarrow> nat \<Rightarrow> bool" where
  "overlap a b n \<longleftrightarrow> a < b + n \<and> b < a + n"

definition memcpy_buf :: "nat \<Rightarrow> pdata \<Rightarrow> nat \<Rightarrow> ('w fsd, unit) state" where
  "memcpy_buf dst src n = do {
     (case src of PBuf a \<Rightarrow> if overlap dst a n then fault else ret () | PLoc l off \<Rightarrow> ret ());
     bs \<leftarrow> gets (load src n);
     store_buf dst bs }"

text \<open>The loop of \<open>FS_WriteToMD\<close> over the arguments: None is \<open>goto _Exit\<close> on a full buffer.\<close>

primrec write_args :: "FS_PACKET_INFO list \<Rightarrow> u32 \<Rightarrow> nat \<Rightarrow> ('w fsd, u32 option) state" where
  "write_args [] DataLength a = ret (Some DataLength)"
| "write_args (p # ps) DataLength a = do {
     size \<leftarrow> gets FS_MAX_BUF_SIZE;
     if size < DataLength + 8 + Length p then ret None
     else do {
       store_buf a (le32 (Length p));
       (if PBuf (a + 4) \<noteq> pData p then memcpy_buf (a + 4) (pData p) (unat (Length p)) else ret ());
       write_args ps (DataLength + 4 + align4 (Length p)) (a + 4 + unat (align4 (Length p))) } }"

text \<open>The single write of a short response is repeated while it is interrupted; None when the
  given number of attempts was not enough.\<close>

primrec write_retry :: "'w os \<Rightarrow> nat \<Rightarrow> nat \<Rightarrow> u32 \<Rightarrow> ('w fsd, bool option) state" where
  "write_retry os 0 a DataLength = ret None"
| "write_retry os (Suc fuel) a DataLength = do {
     dev \<leftarrow> gets DeviceFd;
     bs \<leftarrow> read_buf a (unat DataLength);
     r \<leftarrow> syscall os (Sys_write dev bs);
     if r_ret r \<noteq> DataLength then
       if r_errno r = EINTR then write_retry os fuel a DataLength else ret (Some False)
     else ret (Some True) }"

text \<open>The fragments of a long response: offset, size, and whether another one follows.\<close>

function frag_plan :: "nat \<Rightarrow> nat \<Rightarrow> (nat \<times> nat \<times> bool) list" where
  "frag_plan data_sent data_len =
     (if data_sent < data_len then
        if MAX_FS_PKT_BYTE < data_len - data_sent
        then (data_sent, MAX_FS_PKT_BYTE, True) # frag_plan (data_sent + MAX_FS_PKT_BYTE) data_len
        else (data_sent, data_len - data_sent, False) # frag_plan data_len data_len
      else [])"
  by pat_completeness auto
termination
  by (relation "measure (\<lambda>(sent, len). len - sent)") auto

declare frag_plan.simps [simp del]

text \<open>Sending them; the result is that of the last \<open>write\<close>, which may have been short.\<close>

primrec send_frags :: "'w os \<Rightarrow> nat \<Rightarrow> (nat \<times> nat \<times> bool) list \<Rightarrow> s32 \<Rightarrow> ('w fsd, s32) state" where
  "send_frags os slot [] r = ret r"
| "send_frags os slot (f # fs) r = (case f of (data_sent, data_to_send, again) \<Rightarrow> do {
     dev \<leftarrow> gets DeviceFd;
     op_id \<leftarrow> read_word (slot + 16);
     (pkt, g_bak) \<leftarrow> FS_PreparePktEx (slot + 20 + data_sent) data_to_send slot op_id again;
     bs \<leftarrow> read_buf pkt (data_to_send + 20);
     w \<leftarrow> syscall os (Sys_write dev bs);
     if r_ret w \<noteq> of_nat (data_to_send + 20) then ret (r_ret w)
     else do {
       FS_PreparePktDone pkt g_bak;
       send_frags os slot fs (r_ret w) } })"

definition send_stream :: "'w os \<Rightarrow> nat \<Rightarrow> nat \<Rightarrow> u32 \<Rightarrow> ('w fsd, bool option) state" where
  "send_stream os fuel slot DataLength = do {
     channel \<leftarrow> read_word (slot + 8);
     store_buf (slot + 8) (le32 (channel + 1));
     let data_len = DataLength - 20;
     if data_len \<le>s of_nat MAX_FS_PKT_BYTE then do {
       d0 \<leftarrow> read_word slot;
       store_buf slot (le32 (d0 AND NOT CCCI_FS_REQ_SEND_AGAIN));
       store_buf (slot + 4) (le32 DataLength);
       write_retry os fuel slot DataLength }
     else do {
       r \<leftarrow> send_frags os slot (frag_plan 0 (unat data_len)) 0;
       ret (Some (\<not> r <s 0)) } }"

text \<open>\<open>FS_WriteToMD\<close> with \<open>fuel\<close> attempts for an interrupted write.\<close>

definition FS_WriteToMD :: "'w os \<Rightarrow> nat \<Rightarrow> u32 \<Rightarrow> nat \<Rightarrow> ('w fsd, bool option) state" where
  "FS_WriteToMD os fuel BufIndex PacketNum = do {
     slot \<leftarrow> gets (slot_addr BufIndex);
     head \<leftarrow> gets slot_head;
     stream \<leftarrow> gets stream_support;
     op_id \<leftarrow> read_word (slot + head - 4);
     store_buf (slot + head - 4) (le32 (FS_API_RESP_ID OR op_id));
     store_buf (slot + head) (le32 (of_nat PacketNum));
     packs \<leftarrow> gets (\<lambda>s. take PacketNum (PackInfo s));
     r \<leftarrow> write_args packs ((if stream then 20 else 0) + 4) (slot + head + 4);
     case r of None \<Rightarrow> ret (Some False)
     | Some DataLength \<Rightarrow>
         if \<not> stream then do {
           dev \<leftarrow> gets DeviceFd;
           w \<leftarrow> syscall os (Sys_fs_ioctl_send dev DataLength BufIndex);
           ret (Some (\<not> r_ret w <s 0)) }
         else send_stream os fuel slot DataLength }"


text \<open>
  One packet read from the device in stream mode. The packet sits in a zeroed block of
  \<open>MAX_FS_BUF_BYTE\<close> bytes; the result is the slot it names and None when its header is refused,
  else whether the request is now complete.
\<close>

abbreviation (input) MAX_FS_BUF_BYTE :: nat where "MAX_FS_BUF_BYTE \<equiv> 4096"
abbreviation (input) FS_BUFF_IDLE :: u8 where "FS_BUFF_IDLE \<equiv> 0"
abbreviation (input) FS_BUFF_WAIT :: u8 where "FS_BUFF_WAIT \<equiv> 1"

definition copy_pkt :: "nat \<Rightarrow> u8 list \<Rightarrow> nat \<Rightarrow> u32 \<Rightarrow> ('w fsd, unit) state" where
  "copy_pkt dst pkt_buff off n = do {
     (if MAX_FS_BUF_BYTE < off + unat n then fault else ret ());
     store_buf dst (map (byte_at pkt_buff) [off..<off + unat n]) }"

definition set_slot :: "u32 \<Rightarrow> u8 \<Rightarrow> (u32 \<Rightarrow> u32) \<Rightarrow> ('w fsd, unit) state" where
  "set_slot idx st f = upd_info (\<lambda>g. g\<lparr>fs_buff_state := (fs_buff_state g)[unat idx := st],
     fs_buff_offset := (fs_buff_offset g)[unat idx := f (fs_buff_offset g ! unat idx)]\<rparr>)"

definition assert_fail :: "('w fsd, unit) state" where
  "assert_fail = modify (\<lambda>s. s\<lparr>aborted := True\<rparr>)"

definition recv_last :: "u32 \<Rightarrow> u8 list \<Rightarrow> u32 \<Rightarrow> ('w fsd, unit) state" where
  "recv_last idx pkt d1 = do {
     slot \<leftarrow> gets (slot_addr idx);
     st \<leftarrow> gets (\<lambda>s. fs_buff_state (g_FsInfo s) ! unat idx);
     off \<leftarrow> gets (\<lambda>s. fs_buff_offset (g_FsInfo s) ! unat idx);
     (if st = FS_BUFF_IDLE then copy_pkt slot pkt 0 d1
      else if st = FS_BUFF_WAIT then do {
        (if 20 < d1 then copy_pkt (slot + unat off) pkt 20 (d1 - 20) else ret ());
        copy_pkt slot pkt 0 16 }
      else assert_fail);
     set_slot idx FS_BUFF_IDLE (\<lambda>_. 0) }"

definition recv_more :: "u32 \<Rightarrow> u8 list \<Rightarrow> u32 \<Rightarrow> ('w fsd, unit) state" where
  "recv_more idx pkt d1 = do {
     slot \<leftarrow> gets (slot_addr idx);
     st \<leftarrow> gets (\<lambda>s. fs_buff_state (g_FsInfo s) ! unat idx);
     off \<leftarrow> gets (\<lambda>s. fs_buff_offset (g_FsInfo s) ! unat idx);
     if st = FS_BUFF_IDLE then do {
       copy_pkt slot pkt 0 d1;
       set_slot idx FS_BUFF_WAIT (\<lambda>o1. o1 + d1) }
     else if st = FS_BUFF_WAIT then do {
       copy_pkt (slot + unat off) pkt 20 (d1 - 20);
       set_slot idx FS_BUFF_WAIT (\<lambda>o1. o1 + (d1 - 20)) }
     else do { assert_fail; set_slot idx FS_BUFF_WAIT (\<lambda>o1. o1) } }"

definition recv_packet :: "u8 list \<Rightarrow> ('w fsd, u32 \<times> bool option) state" where
  "recv_packet pkt = do {
     let d0 = rd32 pkt;
     let d1 = rd32 (drop 4 pkt);
     let channel = rd32 (drop 8 pkt);
     let idx = rd32 (drop 12 pkt);
     size \<leftarrow> gets FS_MAX_BUF_SIZE;
     if channel AND 0xFFFF \<noteq> 0x0e \<or> idx <s 0 \<or> 5 \<le>s idx \<or> 20 + size < d1
     then ret (idx, None)
     else if d0 AND CCCI_FS_REQ_SEND_AGAIN = 0
     then do { recv_last idx pkt d1; ret (idx, Some True) }
     else do { recv_more idx pkt d1; ret (idx, Some False) } }"

section \<open>Buffer operations inside the allocation\<close>

abbreviation mem :: "'w fsd \<Rightarrow> memory" where "mem s \<equiv> pFsBuf (g_FsInfo s)"

definition set_mem :: "memory \<Rightarrow> 'w fsd \<Rightarrow> 'w fsd" where
  "set_mem m s = s\<lparr>g_FsInfo := (g_FsInfo s)\<lparr>pFsBuf := m\<rparr>\<rparr>"

lemma set_mem_simps [simp]:
  "mem (set_mem m s) = m" "set_mem m (set_mem n s) = set_mem m s" "set_mem (mem s) s = s"
  "buf_size (set_mem m s) = buf_size s" "DeviceFd (set_mem m s) = DeviceFd s"
  "world (set_mem m s) = world s" "trace (set_mem m s) = trace s"
  "FS_MAX_BUF_SIZE (set_mem m s) = FS_MAX_BUF_SIZE s" "PackInfo (set_mem m s) = PackInfo s"
  "slot_head (set_mem m s) = slot_head s" "slot_addr idx (set_mem m s) = slot_addr idx s"
  "fs_buff_state (g_FsInfo (set_mem m s)) = fs_buff_state (g_FsInfo s)"
  "fs_buff_offset (g_FsInfo (set_mem m s)) = fs_buff_offset (g_FsInfo s)"
  "stream_support (set_mem m s) = stream_support s" "ub (set_mem m s) = ub s"
  by (simp_all add: set_mem_def buf_size_def slot_head_def slot_addr_def)

lemma request_simps [simp]:
  "mem (s\<lparr>world := w, trace := tr\<rparr>) = mem s" "buf_size (s\<lparr>world := w, trace := tr\<rparr>) = buf_size s"
  "set_mem m (s\<lparr>world := w, trace := tr\<rparr>) = (set_mem m s)\<lparr>world := w, trace := tr\<rparr>"
  by (simp_all add: set_mem_def buf_size_def slot_head_def)

lemma load_PBuf [simp]: "load (PBuf a) n s = mread (mem s) a n"
  by (simp add: load_def)

lemma store_buf_run [simp]:
  "a + length bs \<le> buf_size s \<Longrightarrow> run_state (store_buf a bs) s = ((), set_mem (mwrite (mem s) a bs) s)"
  by (simp add: store_buf_def upd_info_def set_mem_def)

lemma read_buf_run [simp]:
  "a + n \<le> buf_size s \<Longrightarrow> run_state (read_buf a n) s = (mread (mem s) a n, s)"
  by (simp add: read_buf_def)

lemma read_word_run [simp]:
  "a + 4 \<le> buf_size s \<Longrightarrow> run_state (read_word a) s = (rd32 (mread (mem s) a 4), s)"
  by (simp add: read_word_def)

lemma mread_rd32_mwrite [simp]: "rd32 (mread (mwrite m a (le32 v)) a 4) = v"
  using mread_mwrite_same [of m a "le32 v"] by simp

section \<open>Sending in fragments\<close>

text \<open>A device that takes every write whole.\<close>

definition writes_ok :: "'w os \<Rightarrow> bool" where
  "writes_ok os \<longleftrightarrow> (\<forall>fd bs w. r_ret (fst (os (Sys_write fd bs) w)) = of_nat (length bs))"

lemma writes_okD: "writes_ok os \<Longrightarrow> r_ret (fst (os (Sys_write fd bs) w)) = of_nat (length bs)"
  by (simp add: writes_ok_def)

text \<open>A packet on the wire, and the packets a plan stands for.\<close>

definition packet :: "u32 \<Rightarrow> u32 \<Rightarrow> u32 \<Rightarrow> u32 \<Rightarrow> u32 \<Rightarrow> u8 list \<Rightarrow> u8 list" where
  "packet d0 d1 channel reserved op payload =
     le32 d0 @ le32 d1 @ le32 channel @ le32 reserved @ le32 op @ payload"

definition again_flag :: "bool \<Rightarrow> u32 \<Rightarrow> u32" where
  "again_flag again d0 = (if again then d0 OR CCCI_FS_REQ_SEND_AGAIN else d0 AND NOT CCCI_FS_REQ_SEND_AGAIN)"

definition frag_packet :: "u32 \<Rightarrow> u32 \<Rightarrow> u32 \<Rightarrow> u32 \<Rightarrow> u8 list \<Rightarrow> nat \<times> nat \<times> bool \<Rightarrow> u8 list" where
  "frag_packet d0 channel reserved op payload = (\<lambda>(sent, n, again).
     packet (again_flag again d0) (of_nat (n + 20)) channel reserved op (take n (drop sent payload)))"

lemma length_packet [simp]: "length (packet d0 d1 ch rs op p) = length p + 20"
  by (simp add: packet_def)

lemma nth_mread [simp]: "i < n \<Longrightarrow> mread m a n ! i = m (a + i)"
  by (simp add: mread_def)

lemma mread_mread: "i + k \<le> n \<Longrightarrow> take k (drop i (mread m a n)) = mread m (a + i) k"
  by (rule nth_equalityI) (simp_all add: add.assoc)

lemma FS_PreparePktEx_run:
  assumes "n \<le> MAX_FS_PKT_BYTE" "sent = 0 \<or> 20 \<le> sent" "slot + 20 + sent \<le> buf_size s"
  shows "run_state (FS_PreparePktEx (slot + 20 + sent) n slot op again) s =
    ((slot + sent, mread (mem s) (slot + sent) 20),
     set_mem (mwrite (mem s) (slot + sent) (packet (again_flag again (rd32 (mread (mem s) slot 4)))
        (of_nat (n + 20)) (rd32 (mread (mem s) (slot + 8) 4)) (rd32 (mread (mem s) (slot + 12) 4)) op [])) s)"
proof -
  have far: "mread (mwrite m (slot + sent + j) (le32 v)) (slot + k) 4 = mread m (slot + k) 4"
    if "j + 4 \<le> k" "k \<le> 12" for m j k v
    using that assms(2) by (intro mread_mwrite_disjoint) auto
  note far' = far [of 0, simplified] far
  have c: "8 + (slot + sent) = slot + sent + 8" "12 + (slot + sent) = slot + sent + 12"
    "16 + (slot + sent) = slot + sent + 16" by simp_all
  show ?thesis
    using assms(1,3)
    by (simp add: FS_PreparePktEx_def again_flag_def [symmetric] packet_def mwrite_append Let_def far' c)
qed

lemma mread_mwrite_over: "mread (mwrite m a bs) a (n + length bs) = bs @ mread m (a + length bs) n"
  by (rule nth_equalityI) (auto simp: nth_append mwrite_def)

lemma mwrite_back: "length bs = n \<Longrightarrow> mwrite (mwrite m a bs) a (mread m a n) = m"
  using mwrite_mwrite_same [of bs "mread m a n" m a] by (simp add: mwrite_same)

lemma packet_append: "packet d0 d1 ch rs op [] @ p = packet d0 d1 ch rs op p"
  by (simp add: packet_def)

lemma send_frags_step:
  assumes os: "writes_ok os"
    and n: "n \<le> MAX_FS_PKT_BYTE" "sent = 0 \<or> 20 \<le> sent" "sent + n \<le> len"
    and room: "slot + 20 + len \<le> buf_size s"
    and hdr: "d0 = rd32 (mread (mem s) slot 4)" "ch = rd32 (mread (mem s) (slot + 8) 4)"
      "rs = rd32 (mread (mem s) (slot + 12) 4)" "op = rd32 (mread (mem s) (slot + 16) 4)"
      "payload = mread (mem s) (slot + 20) len"
    and q_def: "q = Sys_write (DeviceFd s) (frag_packet d0 ch rs op payload (sent, n, again))"
  shows "run_state (send_frags os slot ((sent, n, again) # plan) r) s =
    run_state (send_frags os slot plan (of_nat (n + 20)))
      (s\<lparr>world := snd (os q (world s)), trace := trace s @ [q]\<rparr>)"
proof -
  let ?p = "packet (again_flag again d0) (of_nat (n + 20)) ch rs op []"
  have pay: "take n (drop sent payload) = mread (mem s) (slot + 20 + sent) n"
    unfolding hdr(5) using mread_mread [OF n(3), of "mem s" "slot + 20"] by simp
  have bytes: "mread (mwrite (mem s) (slot + sent) ?p) (slot + sent) (n + 20) =
      frag_packet d0 ch rs op payload (sent, n, again)"
    using mread_mwrite_over [of "mem s" "slot + sent" ?p n]
    by (simp add: frag_packet_def pay packet_append ac_simps)
  have len: "length (frag_packet d0 ch rs op payload (sent, n, again)) = n + 20"
    by (simp add: frag_packet_def pay)
  obtain a w where q: "os q (world s) = (a, w)" by fastforce
  then have a: "r_ret a = of_nat (n + 20)" using writes_okD [OF os] len by (metis fst_conv q_def)
  have "slot + 20 + sent \<le> buf_size s" using room n(3) by simp
  note prep = FS_PreparePktEx_run [OF n(1,2) this, of op again, folded hdr(1-3)]
  have restored: "mwrite (mwrite (mem s) (slot + sent) ?p) (slot + sent) (mread (mem s) (slot + sent) 20) = mem s"
    by (rule mwrite_back) simp
  show ?thesis
    using room n(3) q a
    by (simp add: prep hdr(4) [symmetric] bytes q_def [symmetric] FS_PreparePktDone_def restored del: of_nat_add)
qed

lemma send_frags_run:
  assumes os: "writes_ok os"
    and plan: "\<And>sent n again. (sent, n, again) \<in> set plan \<Longrightarrow>
      n \<le> MAX_FS_PKT_BYTE \<and> (sent = 0 \<or> 20 \<le> sent) \<and> sent + n \<le> len"
    and room: "slot + 20 + len \<le> buf_size s"
    and hdr: "d0 = rd32 (mread (mem s) slot 4)" "ch = rd32 (mread (mem s) (slot + 8) 4)"
      "rs = rd32 (mread (mem s) (slot + 12) 4)" "op = rd32 (mread (mem s) (slot + 16) 4)"
      "payload = mread (mem s) (slot + 20) len"
    and r: "\<not> r <s 0"
  shows "\<exists>w r'. run_state (send_frags os slot plan r) s = (r', s\<lparr>world := w,
      trace := trace s @ map (\<lambda>f. Sys_write (DeviceFd s) (frag_packet d0 ch rs op payload f)) plan\<rparr>) \<and>
      \<not> r' <s 0"
  using plan room hdr r
proof (induction plan arbitrary: s r)
  case Nil
  then show ?case by (intro exI [of _ "world s"] exI [of _ r]) simp
next
  case (Cons f plan)
  obtain sent n again where f: "f = (sent, n, again)" by (cases f)
  with Cons.prems(1) have n: "n \<le> MAX_FS_PKT_BYTE" "sent = 0 \<or> 20 \<le> sent" "sent + n \<le> len"
    by auto
  have pos: "\<not> of_nat (n + 20) <s (0 :: s32)" using n by (intro of_nat_nonneg) simp
  let ?q = "Sys_write (DeviceFd s) (frag_packet d0 ch rs op payload f)"
  let ?s = "s\<lparr>world := snd (os ?q (world s)), trace := trace s @ [?q]\<rparr>"
  have "\<exists>w r'. run_state (send_frags os slot plan (of_nat (n + 20))) ?s = (r', ?s\<lparr>world := w,
      trace := trace ?s @ map (\<lambda>f. Sys_write (DeviceFd ?s) (frag_packet d0 ch rs op payload f)) plan\<rparr>) \<and>
      \<not> r' <s 0"
    using Cons.prems pos by (intro Cons.IH) auto
  then show ?case
    using send_frags_step [OF os n Cons.prems(2-7) refl]
    by (simp add: f)
qed


section \<open>The fragments of a payload\<close>

lemma frag_plan_bounds:
  "(sent', n, again) \<in> set (frag_plan sent len) \<Longrightarrow>
     n \<le> MAX_FS_PKT_BYTE \<and> (sent' = sent \<or> sent + 20 \<le> sent') \<and> sent' + n \<le> len \<and> 0 < n"
proof (induction sent len rule: frag_plan.induct)
  case (1 sent len)
  show ?case
  proof (cases "sent < len \<and> MAX_FS_PKT_BYTE < len - sent")
    case True
    with "1.prems" have "(sent', n, again) = (sent, MAX_FS_PKT_BYTE, True) \<or>
        (sent', n, again) \<in> set (frag_plan (sent + MAX_FS_PKT_BYTE) len)"
      by (subst (asm) frag_plan.simps) auto
    then show ?thesis using "1.IH"(1) True by auto
  next
    case False
    then show ?thesis using "1.prems"
      by (subst (asm) frag_plan.simps) (auto simp: frag_plan.simps [of len len] split: if_splits)
  qed
qed

lemma frag_plan_concat:
  "concat (map (\<lambda>(sent, n, again). take n (drop sent xs)) (frag_plan sent (length xs))) = drop sent xs"
proof (induction sent "length xs" rule: frag_plan.induct)
  case (1 sent)
  have "take n (drop sent xs) @ drop (sent + n) xs = drop sent xs" for n
    by (metis add.commute append_take_drop_id drop_drop)
  then show ?case
    using 1 by (subst frag_plan.simps) (auto simp: frag_plan.simps [of "length xs"])
qed

text \<open>All fragments but the last announce another one.\<close>

lemma frag_plan_again:
  "sent < len \<Longrightarrow> \<exists>fs n. frag_plan sent len = fs @ [(len - n, n, False)] \<and> (\<forall>(o1, n1, again) \<in> set fs. again)"
proof (induction sent len rule: frag_plan.induct)
  case (1 sent len)
  show ?case
  proof (cases "MAX_FS_PKT_BYTE < len - sent")
    case True
    then have "sent + MAX_FS_PKT_BYTE < len" by simp
    then obtain fs n where "frag_plan (sent + MAX_FS_PKT_BYTE) len = fs @ [(len - n, n, False)]"
      "\<forall>(o1, n1, again) \<in> set fs. again"
      using "1.IH"(1) [OF "1.prems" True] by blast
    then show ?thesis using True "1.prems"
      by (subst frag_plan.simps)
        (intro exI [of _ "(sent, MAX_FS_PKT_BYTE, True) # fs"] exI [of _ n], simp)
  next
    case False
    then show ?thesis using "1.prems"
      by (subst frag_plan.simps)
        (intro exI [of _ "[]"] exI [of _ "len - sent"], simp add: frag_plan.simps [of len])
  qed
qed

section \<open>Reassembly\<close>

lemma packet_fields [simp]:
  "rd32 (packet d0 d1 ch rs op p) = d0" "rd32 (drop 4 (packet d0 d1 ch rs op p)) = d1"
  "rd32 (drop 8 (packet d0 d1 ch rs op p)) = ch" "rd32 (drop 12 (packet d0 d1 ch rs op p)) = rs"
  by (simp_all add: packet_def drop_append)

lemma and_not_and: "(d AND NOT a) AND a = (0 :: u32)"
  by (rule bit_word_eqI) (auto simp: bit_simps)

lemma again_flag_test [simp]:
  "again_flag again d0 AND CCCI_FS_REQ_SEND_AGAIN = 0 \<longleftrightarrow> \<not> again"
proof -
  have "bit (CCCI_FS_REQ_SEND_AGAIN) 31" by (simp add: bit_iff_odd)
  then have "bit ((d0 OR CCCI_FS_REQ_SEND_AGAIN) AND CCCI_FS_REQ_SEND_AGAIN) 31"
    by (simp add: bit_simps)
  then have "(d0 OR CCCI_FS_REQ_SEND_AGAIN) AND CCCI_FS_REQ_SEND_AGAIN \<noteq> 0" by (metis bit_0_eq bot_apply bot_bool_def)
  moreover have "(d0 AND NOT CCCI_FS_REQ_SEND_AGAIN) AND CCCI_FS_REQ_SEND_AGAIN = 0"
    by (rule and_not_and)
  ultimately show ?thesis unfolding again_flag_def by (cases again) (simp_all only: if_True if_False simp_thms)
qed

lemma copy_pkt_run:
  assumes "off + unat n \<le> length pkt" "length pkt \<le> MAX_FS_BUF_BYTE" "dst + unat n \<le> buf_size s"
  shows "run_state (copy_pkt dst pkt off n) s =
    ((), set_mem (mwrite (mem s) dst (take (unat n) (drop off pkt))) s)"
proof -
  have "map (byte_at pkt) [off..<off + unat n] = take (unat n) (drop off pkt)"
    using assms(1) by (intro nth_equalityI) (simp_all add: byte_at_def)
  then show ?thesis using assms by (simp add: copy_pkt_def)
qed


text \<open>The conditions under which a packet for slot \<open>idx\<close> is accepted and stays in the buffer.\<close>

definition slot_ready :: "u32 \<Rightarrow> u32 \<Rightarrow> nat \<Rightarrow> 'w fsd \<Rightarrow> bool" where
  "slot_ready idx ch len s \<longleftrightarrow> ch AND 0xFFFF = 0x0e \<and> unat idx < FS_BUFFER_SLOT_NUM \<and>
     length (fs_buff_state (g_FsInfo s)) = FS_BUFFER_SLOT_NUM \<and>
     length (fs_buff_offset (g_FsInfo s)) = FS_BUFFER_SLOT_NUM \<and>
     MAX_FS_PKT_BYTE \<le> unat (FS_MAX_BUF_SIZE s) \<and> unat (FS_MAX_BUF_SIZE s) < 2 ^ 31 \<and>
     slot_addr idx s + 20 + len \<le> buf_size s"

definition slot_state :: "u32 \<Rightarrow> 'w fsd \<Rightarrow> u8 \<times> u32" where
  "slot_state idx s = (fs_buff_state (g_FsInfo s) ! unat idx, fs_buff_offset (g_FsInfo s) ! unat idx)"

lemma slot_ready_header:
  assumes "slot_ready idx ch len s" "n \<le> MAX_FS_PKT_BYTE"
  shows "\<not> (ch AND 0xFFFF \<noteq> 0x0e \<or> idx <s 0 \<or> 5 \<le>s idx \<or> 20 + FS_MAX_BUF_SIZE s < of_nat (n + 20))"
proof -
  have i: "unat idx < 5" using assms(1) by (simp add: slot_ready_def)
  have "sint (of_nat (unat idx) :: s32) = int (unat idx)" using i by (intro sint_of_nat_small) simp
  then have "sint idx = int (unat idx)" by simp
  moreover have "int (unat idx) < 5" using i by linarith
  ultimately have "0 \<le> sint idx" "sint idx < 5" by simp_all
  then have "\<not> idx <s 0" "\<not> 5 \<le>s idx" by (simp_all add: word_sless_alt word_sle_eq)
  moreover have "\<not> 20 + FS_MAX_BUF_SIZE s < of_nat (n + 20)"
    using assms by (simp add: slot_ready_def word_less_nat_alt unat_word_ariths unat_of_nat)
  ultimately show ?thesis using assms(1) by (simp add: slot_ready_def)
qed

lemma recv_packet_accepts:
  assumes "slot_ready idx ch len s" "n \<le> MAX_FS_PKT_BYTE"
  shows "run_state (recv_packet (packet (again_flag again d0) (of_nat (n + 20)) ch idx op p)) s =
    (let pkt = packet (again_flag again d0) (of_nat (n + 20)) ch idx op p in
     case run_state (if again then recv_more idx pkt (of_nat (n + 20)) else recv_last idx pkt (of_nat (n + 20))) s
     of (_, t) \<Rightarrow> ((idx, Some (\<not> again)), t))"
  using slot_ready_header [OF assms]
  by (cases again) (simp_all add: recv_packet_def Let_def del: of_nat_add split: prod.splits)


text \<open>A fragment that announces another one, as the first and as a later one; and the last one.\<close>

lemma set_slot_run:
  "run_state (set_slot idx st f) s = ((), s\<lparr>g_FsInfo := (g_FsInfo s)\<lparr>
     fs_buff_state := (fs_buff_state (g_FsInfo s))[unat idx := st],
     fs_buff_offset := (fs_buff_offset (g_FsInfo s))[unat idx := f (fs_buff_offset (g_FsInfo s) ! unat idx)]\<rparr>\<rparr>)"
  by (simp add: set_slot_def upd_info_def)

definition slot_step :: "u32 \<Rightarrow> u8 \<Rightarrow> u32 \<Rightarrow> memory \<Rightarrow> 'w fsd \<Rightarrow> 'w fsd" where
  "slot_step idx st off m s = s\<lparr>g_FsInfo := (g_FsInfo s)\<lparr>pFsBuf := m,
     fs_buff_state := (fs_buff_state (g_FsInfo s))[unat idx := st],
     fs_buff_offset := (fs_buff_offset (g_FsInfo s))[unat idx := off]\<rparr>\<rparr>"

lemma slot_step_simps [simp]:
  "mem (slot_step idx st off m s) = m" "slot_addr i (slot_step idx st off m s) = slot_addr i s"
  "slot_ready i ch len (slot_step idx st off m s) = slot_ready i ch len s"
  "slot_step idx st off m (slot_step idx st' off' m' s) = slot_step idx st off m s"
  by (simp_all add: slot_step_def slot_addr_def slot_ready_def slot_head_def buf_size_def)

lemma slot_step_more [simp]:
  "PackInfo (slot_step idx st off m s) = PackInfo s"
  "FS_MAX_ARG_NUM (slot_step idx st off m s) = FS_MAX_ARG_NUM s"
  "FS_MAX_BUF_SIZE (slot_step idx st off m s) = FS_MAX_BUF_SIZE s"
  "buf_size (slot_step idx st off m s) = buf_size s"
  by (simp_all add: slot_step_def slot_head_def buf_size_def)

lemma slot_step_state: "slot_ready idx ch len s \<Longrightarrow> slot_state idx (slot_step idx st off m s) = (st, off)"
  by (simp add: slot_state_def slot_step_def slot_ready_def)

lemma packet_data: "drop 20 (packet d0 d1 ch rs op p) = p"
  by (simp add: packet_def)

lemma unat_frag_length: "n \<le> MAX_FS_PKT_BYTE \<Longrightarrow> unat (of_nat (n + 20) :: u32) = n + 20"
  by (rule unat_of_nat_small) simp

lemma unat_frag_data: "n \<le> MAX_FS_PKT_BYTE \<Longrightarrow> unat (of_nat (n + 20) - 20 :: u32) = n"
  by (simp add: unat_of_nat)

lemma recv_first:
  assumes "slot_ready idx ch len s" "slot_state idx s = (FS_BUFF_IDLE, 0)" "length p = n" "n \<le> len"
    "n \<le> MAX_FS_PKT_BYTE"
    and pkt_def: "pkt = packet d0 (of_nat (n + 20)) ch idx op p"
  shows "run_state (recv_more idx pkt (of_nat (n + 20))) s =
    ((), slot_step idx FS_BUFF_WAIT (of_nat (n + 20)) (mwrite (mem s) (slot_addr idx s) pkt) s)"
    and "run_state (recv_last idx pkt (of_nat (n + 20))) s =
    ((), slot_step idx FS_BUFF_IDLE 0 (mwrite (mem s) (slot_addr idx s) pkt) s)"
proof -
  have "slot_addr idx s + unat (of_nat (n + 20) :: u32) \<le> buf_size s"
    using assms(1,4) by (simp add: slot_ready_def unat_frag_length [OF assms(5)] del: of_nat_add)
  then have c: "run_state (copy_pkt (slot_addr idx s) pkt 0 (of_nat (n + 20))) s =
      ((), set_mem (mwrite (mem s) (slot_addr idx s) pkt) s)"
    using assms(3,5) by (subst copy_pkt_run) (simp_all add: unat_frag_length pkt_def del: of_nat_add)
  show "run_state (recv_more idx pkt (of_nat (n + 20))) s =
    ((), slot_step idx FS_BUFF_WAIT (of_nat (n + 20)) (mwrite (mem s) (slot_addr idx s) pkt) s)"
    "run_state (recv_last idx pkt (of_nat (n + 20))) s =
    ((), slot_step idx FS_BUFF_IDLE 0 (mwrite (mem s) (slot_addr idx s) pkt) s)"
    using assms(2) unfolding recv_more_def recv_last_def
    by (simp_all add: slot_state_def c set_slot_run slot_step_def set_mem_def del: of_nat_add)
qed

lemma recv_later:
  assumes "slot_ready idx ch len s" "slot_state idx s = (FS_BUFF_WAIT, of_nat (sent + 20))"
    "length p = n" "sent + n \<le> len" "n \<le> MAX_FS_PKT_BYTE" "0 < n" "len < 2 ^ 31"
    and pkt_def: "pkt = packet d0 (of_nat (n + 20)) ch idx op p"
    and m1_def: "m1 = mwrite (mem s) (slot_addr idx s + sent + 20) p"
  shows "run_state (recv_more idx pkt (of_nat (n + 20))) s =
    ((), slot_step idx FS_BUFF_WAIT (of_nat (sent + n + 20)) m1 s)"
    and "run_state (recv_last idx pkt (of_nat (n + 20))) s =
    ((), slot_step idx FS_BUFF_IDLE 0 (mwrite m1 (slot_addr idx s) (take 16 pkt)) s)"
proof -
  have u: "unat (of_nat (sent + 20) :: u32) = sent + 20"
    using assms(4,7) by (intro unat_of_nat_small) simp
  have "slot_addr idx s + (sent + 20) + unat (of_nat (n + 20) - 20 :: u32) \<le> buf_size s"
    using assms(1,4) by (simp add: slot_ready_def unat_frag_data [OF assms(5)] del: of_nat_add)
  then have c: "run_state (copy_pkt (slot_addr idx s + (sent + 20)) pkt 20 (of_nat (n + 20) - 20)) s =
      ((), set_mem m1 s)"
    using assms(3,5) by (subst copy_pkt_run)
      (simp_all add: unat_frag_data pkt_def m1_def packet_data ac_simps del: of_nat_add)
  have h: "run_state (copy_pkt (slot_addr idx s) pkt 0 16) (set_mem m1 s) =
      ((), set_mem (mwrite m1 (slot_addr idx s) (take 16 pkt)) s)"
    using assms(1,3,5) by (subst copy_pkt_run) (simp_all add: pkt_def slot_ready_def)
  have gt: "(20 :: u32) < of_nat (n + 20)"
    using assms(6) unat_frag_length [OF assms(5)] by (simp add: word_less_nat_alt del: of_nat_add)
  show "run_state (recv_more idx pkt (of_nat (n + 20))) s =
    ((), slot_step idx FS_BUFF_WAIT (of_nat (sent + n + 20)) m1 s)"
    using assms(2) unfolding recv_more_def
    by (simp add: slot_state_def c u set_slot_run slot_step_def set_mem_def del: of_nat_add)
      (simp add: ac_simps)
  show "run_state (recv_last idx pkt (of_nat (n + 20))) s =
    ((), slot_step idx FS_BUFF_IDLE 0 (mwrite m1 (slot_addr idx s) (take 16 pkt)) s)"
    using assms(2) gt unfolding recv_last_def
    by (simp add: slot_state_def c u h set_slot_run del: of_nat_add) (simp add: slot_step_def set_mem_def)
qed


primrec recv_all :: "u8 list list \<Rightarrow> ('w fsd, (u32 \<times> bool option) list) state" where
  "recv_all [] = ret []"
| "recv_all (p # ps) = do { r \<leftarrow> recv_packet p; rs \<leftarrow> recv_all ps; ret (r # rs) }"

lemma mread_extend:
  assumes "mread m a k = xs" shows "mread (mwrite m (a + k) p) a (k + length p) = xs @ p"
  using assms mread_append [of "mwrite m (a + k) p" a k "length p"]
  by (simp add: mread_mwrite_disjoint)

lemma mread_skip_header:
  "mread (mwrite m a (take 16 (packet d0 d1 ch rs op p))) (a + 16) n = mread m (a + 16) n"
  by (rule mread_mwrite_disjoint) simp

text \<open>What the slot holds once \<open>sent\<close> bytes of the payload have arrived.\<close>

definition slot_holds :: "u32 \<Rightarrow> u32 \<Rightarrow> u8 list \<Rightarrow> 'w fsd \<Rightarrow> bool" where
  "slot_holds idx op data s \<longleftrightarrow>
     mread (mem s) (slot_addr idx s + 16) (4 + length data) = le32 op @ data"

lemma slot_holds_extend:
  assumes "slot_holds idx op data s" "length data = sent"
  shows "mread (mwrite (mem s) (slot_addr idx s + sent + 20) p) (slot_addr idx s + 16)
      (4 + length (data @ p)) = le32 op @ data @ p"
  using mread_extend [of "mem s" "slot_addr idx s + 16" "4 + sent" "le32 op @ data" p] assms
  by (simp add: slot_holds_def ac_simps)

lemma slot_holds_step [simp]:
  "slot_holds idx op data (slot_step i st off m s) = slot_holds idx op data (set_mem m s)"
  "slot_holds idx op data (set_mem m (slot_step i st off m' s)) = slot_holds idx op data (set_mem m s)"
  by (simp_all add: slot_holds_def)

lemma frag_plan_more:
  "MAX_FS_PKT_BYTE < len - sent \<Longrightarrow>
   frag_plan sent len = (sent, MAX_FS_PKT_BYTE, True) # frag_plan (sent + MAX_FS_PKT_BYTE) len"
  by (subst frag_plan.simps) simp

lemma frag_plan_last:
  "sent < len \<Longrightarrow> \<not> MAX_FS_PKT_BYTE < len - sent \<Longrightarrow> frag_plan sent len = [(sent, len - sent, False)]"
  by (subst frag_plan.simps) (simp add: frag_plan.simps [of len len])

lemma recv_rest:
  assumes "slot_ready idx ch (length payload) s" "length payload < 2 ^ 31" "sent < length payload"
    "slot_state idx s = (FS_BUFF_WAIT, of_nat (sent + 20))" "slot_holds idx op (take sent payload) s"
  shows "\<exists>m. run_state (recv_all (map (frag_packet d0 ch idx op payload) (frag_plan sent (length payload)))) s
      = (map (\<lambda>(_, _, again). (idx, Some (\<not> again))) (frag_plan sent (length payload)),
         slot_step idx FS_BUFF_IDLE 0 m s) \<and> slot_holds idx op payload (set_mem m s)"
  using assms
proof (induction sent "length payload" arbitrary: s rule: frag_plan.induct)
  case (1 sent)
  let ?n = "if MAX_FS_PKT_BYTE < length payload - sent then MAX_FS_PKT_BYTE else length payload - sent"
  let ?p = "take ?n (drop sent payload)"
  let ?m = "mwrite (mem s) (slot_addr idx s + sent + 20) ?p"
  note prems = "1.prems"
  have n: "length ?p = ?n" "sent + ?n \<le> length payload" "?n \<le> MAX_FS_PKT_BYTE" "0 < ?n"
    using prems(3) by auto
  have data: "take (sent + ?n) payload = take sent payload @ ?p" by (rule take_add)
  have held: "mread ?m (slot_addr idx s + 16) (4 + length (take (sent + ?n) payload)) =
      le32 op @ take (sent + ?n) payload"
    using slot_holds_extend [OF prems(5), of sent ?p] prems(3) unfolding data by simp
  note later = recv_later [OF prems(1,4) n prems(2) refl refl, of _ op]
  show ?case
  proof (cases "MAX_FS_PKT_BYTE < length payload - sent")
    case True
    let ?s = "slot_step idx FS_BUFF_WAIT (of_nat (sent + ?n + 20)) ?m s"
    have sn: "sent + ?n < length payload" using True by simp
    have "run_state (recv_packet (frag_packet d0 ch idx op payload (sent, ?n, True))) s = ((idx, Some False), ?s)"
      unfolding frag_packet_def prod.case recv_packet_accepts [OF prems(1) n(3)] Let_def if_True
      by (simp only: later(1) prod.case simp_thms)
    moreover have "\<exists>m. run_state (recv_all (map (frag_packet d0 ch idx op payload)
          (frag_plan (sent + MAX_FS_PKT_BYTE) (length payload)))) ?s
        = (map (\<lambda>(_, _, again). (idx, Some (\<not> again))) (frag_plan (sent + MAX_FS_PKT_BYTE) (length payload)),
           slot_step idx FS_BUFF_IDLE 0 m ?s) \<and> slot_holds idx op payload (set_mem m ?s)"
    proof (rule "1.hyps"(1) [OF prems(3) True])
      show "slot_ready idx ch (length payload) ?s" "length payload < 2 ^ 31" using prems by simp_all
      show "sent + MAX_FS_PKT_BYTE < length payload" using True by simp
      show "slot_state idx ?s = (FS_BUFF_WAIT, of_nat (sent + MAX_FS_PKT_BYTE + 20))"
        using True by (simp only: slot_step_state [OF prems(1)] if_True)
      show "slot_holds idx op (take (sent + MAX_FS_PKT_BYTE) payload) ?s"
        using held True by (simp add: slot_holds_def)
    qed
    ultimately show ?thesis using True by (auto simp: frag_plan_more [OF True])
  next
    case False
    let ?pkt = "frag_packet d0 ch idx op payload (sent, ?n, False)"
    let ?m' = "mwrite ?m (slot_addr idx s) (take 16 ?pkt)"
    have "run_state (recv_packet ?pkt) s = ((idx, Some True), slot_step idx FS_BUFF_IDLE 0 ?m' s)"
      unfolding frag_packet_def prod.case recv_packet_accepts [OF prems(1) n(3)] Let_def if_False
      by (simp only: later(2) prod.case simp_thms)
    moreover have "slot_holds idx op payload (set_mem ?m' s)"
      using held False prems(3) by (simp add: slot_holds_def frag_packet_def mread_skip_header)
    ultimately show ?thesis using False prems(3)
      by (intro exI [of _ ?m']) (simp add: frag_plan_last)
  qed
qed


lemma recv_first_run:
  assumes "slot_ready idx ch len s" "slot_state idx s = (FS_BUFF_IDLE, 0)" "length p = n" "n \<le> len"
    "n \<le> MAX_FS_PKT_BYTE"
    and pkt_def: "pkt = packet (again_flag again d0) (of_nat (n + 20)) ch idx op p"
  shows "run_state (recv_packet pkt) s = ((idx, Some (\<not> again)),
      slot_step idx (if again then FS_BUFF_WAIT else FS_BUFF_IDLE) (if again then of_nat (n + 20) else 0)
        (mwrite (mem s) (slot_addr idx s) pkt) s)"
    and "slot_holds idx op p (set_mem (mwrite (mem s) (slot_addr idx s) pkt) s)"
proof -
  note first = recv_first [OF assms(1-5) refl]
  show "run_state (recv_packet pkt) s = ((idx, Some (\<not> again)),
      slot_step idx (if again then FS_BUFF_WAIT else FS_BUFF_IDLE) (if again then of_nat (n + 20) else 0)
        (mwrite (mem s) (slot_addr idx s) pkt) s)"
    unfolding pkt_def recv_packet_accepts [OF assms(1,5)] Let_def
    by (cases again) (simp_all only: first prod.case simp_thms if_True if_False)
  have "mread (mwrite m a pkt) (a + 16) (4 + length p) = le32 op @ p" for m a
  proof -
    have "drop 16 pkt = le32 op @ p" by (simp add: pkt_def packet_def)
    moreover have "mread (mwrite m a pkt) (a + 16) (4 + length p) = drop 16 pkt"
      by (rule nth_equalityI) (auto simp: pkt_def mwrite_def add.assoc)
    ultimately show ?thesis by simp
  qed
  then show "slot_holds idx op p (set_mem (mwrite (mem s) (slot_addr idx s) pkt) s)"
    by (simp add: slot_holds_def)
qed

lemma reassembly:
  assumes ready: "slot_ready idx ch (length payload) s" and small: "length payload < 2 ^ 31"
    and idle: "slot_state idx s = (FS_BUFF_IDLE, 0)" and ne: "payload \<noteq> []"
  shows "\<exists>m. run_state (recv_all (map (frag_packet d0 ch idx op payload) (frag_plan 0 (length payload)))) s
      = (map (\<lambda>(_, _, again). (idx, Some (\<not> again))) (frag_plan 0 (length payload)),
         slot_step idx FS_BUFF_IDLE 0 m s) \<and> slot_holds idx op payload (set_mem m s)"
proof (cases "MAX_FS_PKT_BYTE < length payload")
  case True
  let ?p = "take MAX_FS_PKT_BYTE payload"
  let ?pkt = "packet (again_flag True d0) (of_nat (MAX_FS_PKT_BYTE + 20)) ch idx op ?p"
  let ?s = "slot_step idx FS_BUFF_WAIT (of_nat (MAX_FS_PKT_BYTE + 20)) (mwrite (mem s) (slot_addr idx s) ?pkt) s"
  have l: "length ?p = MAX_FS_PKT_BYTE" "MAX_FS_PKT_BYTE \<le> length payload" "MAX_FS_PKT_BYTE \<le> MAX_FS_PKT_BYTE"
    using True by simp_all
  note first = recv_first_run [OF ready idle l refl, where again = True and ?d0.0 = d0 and op = op, unfolded if_True]
  have plan: "frag_plan 0 (length payload) = (0, MAX_FS_PKT_BYTE, True) # frag_plan MAX_FS_PKT_BYTE (length payload)"
    using frag_plan_more [of "length payload" 0] True by simp
  have "\<exists>m. run_state (recv_all (map (frag_packet d0 ch idx op payload) (frag_plan MAX_FS_PKT_BYTE (length payload)))) ?s
      = (map (\<lambda>(_, _, again). (idx, Some (\<not> again))) (frag_plan MAX_FS_PKT_BYTE (length payload)),
         slot_step idx FS_BUFF_IDLE 0 m ?s) \<and> slot_holds idx op payload (set_mem m ?s)"
    by (rule recv_rest) (use ready small True first(2) in \<open>simp_all only: slot_step_simps slot_holds_step slot_step_state [OF ready]\<close>)
  moreover have "frag_packet d0 ch idx op payload (0, MAX_FS_PKT_BYTE, True) = ?pkt"
    by (simp add: frag_packet_def)
  ultimately show ?thesis using first(1) by (auto simp: plan)
next
  case False
  let ?n = "length payload"
  let ?pkt = "packet (again_flag False d0) (of_nat (?n + 20)) ch idx op payload"
  have l: "length payload = ?n" "?n \<le> length payload" "?n \<le> MAX_FS_PKT_BYTE" using False by simp_all
  note first = recv_first_run [OF ready idle l refl, where again = False and ?d0.0 = d0 and op = op, unfolded if_False]
  have plan: "frag_plan 0 ?n = [(0, ?n, False)]" using frag_plan_last [of 0 ?n] False ne by simp
  moreover have "frag_packet d0 ch idx op payload (0, ?n, False) = ?pkt"
    by (simp add: frag_packet_def)
  ultimately show ?thesis using first by (intro exI [of _ "mwrite (mem s) (slot_addr idx s) ?pkt"]) simp
qed


section \<open>Sending a response\<close>

lemma le32_rd32: "length bs = 4 \<Longrightarrow> le32 (rd32 bs) = bs"
proof -
  assume "length bs = 4"
  then obtain a b c d where bs: "bs = [a, b, c, d]" by (auto simp: length_Suc_conv eval_nat_numeral)
  have "byte_at bs 0 = a" "byte_at bs 1 = b" "byte_at bs 2 = c" "byte_at bs 3 = d"
    by (simp_all add: bs byte_at_def eval_nat_numeral)
  note v = this
  have e: "ucast (drop_bit k (ucast a OR push_bit 8 (ucast b) OR push_bit 16 (ucast c) OR push_bit 24 (ucast d) :: u32)) = x"
    if "k = 0 \<and> x = a \<or> k = 8 \<and> x = b \<or> k = 16 \<and> x = c \<or> k = 24 \<and> x = d" for k and x :: u8
    by (rule bit_word_eqI) (use that in \<open>auto simp: bit_simps dest: bit_imp_le_length\<close>)
  show "le32 (rd32 bs) = bs"
    unfolding le32_def rd32_def v using e [of 0 a] e [of 8 b] e [of 16 c] e [of 24 d] by (simp add: bs)
qed

lemma mread_word: "le32 (rd32 (mread m a 4)) = mread m a 4"
  by (rule le32_rd32) simp

lemma mread_slot:
  "mread m slot (len + 20) = packet (rd32 (mread m slot 4)) (rd32 (mread m (slot + 4) 4))
     (rd32 (mread m (slot + 8) 4)) (rd32 (mread m (slot + 12) 4)) (rd32 (mread m (slot + 16) 4))
     (mread m (slot + 20) len)"
proof -
  have "mread m slot (4 + (4 + (4 + (4 + (4 + len))))) = mread m slot 4 @ mread m (slot + 4) 4 @
      mread m (slot + 8) 4 @ mread m (slot + 12) 4 @ mread m (slot + 16) 4 @ mread m (slot + 20) len"
    by (simp only: mread_append) (simp add: add.commute)
  then show ?thesis unfolding packet_def mread_word by (simp add: add.commute)
qed

lemma mread_rd32_other:
  "a + 4 \<le> b \<or> b + 4 \<le> a \<Longrightarrow> rd32 (mread (mwrite m b (le32 v)) a 4) = rd32 (mread m a 4)"
  by (simp add: mread_mwrite_disjoint)

lemma write_retry_run:
  assumes os: "writes_ok os"
    and room: "slot + n \<le> buf_size s" and n: "unat DataLength = n"
  shows "run_state (write_retry os (Suc fuel) slot DataLength) s = (Some True,
    s\<lparr>world := snd (os (Sys_write (DeviceFd s) (mread (mem s) slot n)) (world s)),
      trace := trace s @ [Sys_write (DeviceFd s) (mread (mem s) slot n)]\<rparr>)"
proof -
  obtain a w where q: "os (Sys_write (DeviceFd s) (mread (mem s) slot n)) (world s) = (a, w)" by fastforce
  have "r_ret a = of_nat n" using writes_okD [OF os, of "DeviceFd s" "mread (mem s) slot n" "world s"] by (simp add: q)
  then have "r_ret a = DataLength" unfolding n [symmetric] by simp
  then show ?thesis using room by (simp add: q n)
qed

lemma send_stream_run:
  assumes os: "writes_ok os"
    and len: "0 < len" "len < 2 ^ 30" and room: "slot + 20 + len \<le> buf_size s"
    and hdr: "d0 = rd32 (mread (mem s) slot 4)" "ch = rd32 (mread (mem s) (slot + 8) 4)"
      "rs = rd32 (mread (mem s) (slot + 12) 4)" "op = rd32 (mread (mem s) (slot + 16) 4)"
      "payload = mread (mem s) (slot + 20) len"
  shows "\<exists>t. run_state (send_stream os (Suc fuel) slot (of_nat (len + 20))) s = (Some True, t) \<and>
    trace t = trace s @ map (\<lambda>f. Sys_write (DeviceFd s) (frag_packet d0 (ch + 1) rs op payload f)) (frag_plan 0 len)"
proof -
  let ?m = "mwrite (mem s) (slot + 8) (le32 (ch + 1))"
  let ?s = "set_mem ?m s"
  have dl: "(of_nat (len + 20) :: u32) - 20 = of_nat len" by simp
  have le: "of_nat len \<le>s (of_nat MAX_FS_PKT_BYTE :: u32) \<longleftrightarrow> len \<le> MAX_FS_PKT_BYTE"
    using sint_of_nat_small [of len] sint_of_nat_small [of MAX_FS_PKT_BYTE] len(2) by (simp add: word_sle_eq)
  have h: "d0 = rd32 (mread (mem ?s) slot 4)" "ch + 1 = rd32 (mread (mem ?s) (slot + 8) 4)"
      "rs = rd32 (mread (mem ?s) (slot + 12) 4)" "op = rd32 (mread (mem ?s) (slot + 16) 4)"
      "payload = mread (mem ?s) (slot + 20) len"
    by (simp_all add: hdr mread_rd32_other mread_mwrite_disjoint)
  have ul: "unat (of_nat (len + 20) :: u32) = len + 20" "unat (of_nat len :: u32) = len"
    using len(2) by (intro unat_of_nat_small, simp)+
  show ?thesis
  proof (cases "len \<le> MAX_FS_PKT_BYTE")
    case True
    let ?m3 = "mwrite (mwrite ?m slot (le32 (again_flag False d0))) (slot + 4) (le32 (of_nat (len + 20)))"
    have pkt: "mread ?m3 slot (len + 20) = frag_packet d0 (ch + 1) rs op payload (0, len, False)"
      using h by (simp add: mread_slot [of _ slot] frag_packet_def mread_rd32_other mread_mwrite_disjoint)
    have plan: "frag_plan 0 len = [(0, len, False)]" using frag_plan_last [of 0 len] True len by simp
    have "run_state (write_retry os (Suc fuel) slot (of_nat (len + 20))) (set_mem ?m3 s) = (Some True,
      (set_mem ?m3 s)\<lparr>world := snd (os (Sys_write (DeviceFd s) (mread ?m3 slot (len + 20))) (world s)),
        trace := trace s @ [Sys_write (DeviceFd s) (mread ?m3 slot (len + 20))]\<rparr>)"
      using write_retry_run [OF os, of slot "len + 20" "set_mem ?m3 s"] room ul(1) by (simp del: of_nat_add)
    moreover have "d0 AND - 2147483649 = again_flag False d0" by (simp add: again_flag_def)
    moreover have "rd32 (mread ?m slot 4) = d0" using h(1) by simp
    ultimately show ?thesis
      using room True le
      by (simp add: send_stream_def hdr(2) [symmetric] dl plan pkt del: of_nat_add write_retry.simps)
  next
    case False
    have "\<exists>w r'. run_state (send_frags os slot (frag_plan 0 len) 0) ?s = (r', ?s\<lparr>world := w, trace := trace ?s @
        map (\<lambda>f. Sys_write (DeviceFd ?s) (frag_packet d0 (ch + 1) rs op payload f)) (frag_plan 0 len)\<rparr>) \<and> \<not> r' <s 0"
      by (rule send_frags_run [OF os _ _ h]) (use room frag_plan_bounds [of _ _ _ 0 len] in auto)
    then show ?thesis
      using room False le
      by (auto simp: send_stream_def hdr(2) [symmetric] dl ul Let_def simp del: of_nat_add)
  qed
qed


section \<open>The layout of arguments\<close>

definition arg_size :: "u8 list \<Rightarrow> nat" where
  "arg_size x = 4 + 4 * ((length x + 3) div 4)"

primrec args_size :: "u8 list list \<Rightarrow> nat" where
  "args_size [] = 0"
| "args_size (x # xs) = arg_size x + args_size xs"

primrec holds_args :: "memory \<Rightarrow> nat \<Rightarrow> u8 list list \<Rightarrow> bool" where
  "holds_args m a [] = True"
| "holds_args m a (x # xs) \<longleftrightarrow> mread m a 4 = le32 (of_nat (length x)) \<and> mread m (a + 4) (length x) = x \<and>
     holds_args m (a + arg_size x) xs"

lemma arg_size_ge: "length x + 4 \<le> arg_size x"
  by (simp add: arg_size_def)

lemma mread_cong: "(\<And>i. a \<le> i \<Longrightarrow> i < a + n \<Longrightarrow> m i = m' i) \<Longrightarrow> mread m a n = mread m' a n"
  by (rule nth_equalityI) simp_all

lemma holds_args_cong:
  "(\<And>i. a \<le> i \<Longrightarrow> i < a + args_size xs \<Longrightarrow> m i = m' i) \<Longrightarrow> holds_args m a xs = holds_args m' a xs"
proof (induction xs arbitrary: a)
  case (Cons x xs)
  have "mread m a 4 = mread m' a 4" "mread m (a + 4) (length x) = mread m' (a + 4) (length x)"
    using Cons.prems arg_size_ge [of x] by (intro mread_cong; simp)+
  moreover have "holds_args m (a + arg_size x) xs = holds_args m' (a + arg_size x) xs"
    using Cons.prems by (intro Cons.IH) simp
  ultimately show ?case by simp
qed simp

definition local_arg :: "'w fsd \<Rightarrow> FS_PACKET_INFO \<Rightarrow> u8 list \<Rightarrow> bool" where
  "local_arg s p x \<longleftrightarrow> (\<exists>l off. pData p = PLoc l off) \<and> unat (Length p) = length x \<and>
     load (pData p) (length x) s = x"

lemma local_arg_set_mem [simp]: "local_arg (set_mem m s) = local_arg s"
  by (intro ext) (auto simp: local_arg_def load_def set_mem_def)

lemma unat_align4_arg:
  assumes "unat n = length x" "length x < 2 ^ 31"
  shows "4 + unat (align4 n) = arg_size x" "4 + align4 n = of_nat (arg_size x)"
proof -
  show e: "4 + unat (align4 n) = arg_size x" using assms by (simp add: unat_align4 arg_size_def)
  have "of_nat (4 + unat (align4 n)) = (4 + align4 n :: u32)" by simp
  then show "4 + align4 n = of_nat (arg_size x)" by (simp only: e)
qed

lemma word_eq_of_nat: "unat (n :: u32) = k \<Longrightarrow> n = of_nat k"
  by auto

lemma write_args_guard:
  assumes "local_arg s p x" "n + 8 + length x \<le> unat (FS_MAX_BUF_SIZE s)" "unat (FS_MAX_BUF_SIZE s) < 2 ^ 31"
  shows "\<not> FS_MAX_BUF_SIZE s < of_nat n + 8 + Length p"
proof -
  have "Length p = of_nat (length x)" using assms(1) by (auto simp: local_arg_def intro: word_eq_of_nat)
  then have "of_nat n + 8 + Length p = of_nat (n + 8 + length x)" by simp
  then show ?thesis using assms(2,3) unat_of_nat_small [of "n + 8 + length x"]
    by (simp add: word_less_nat_alt)
qed

lemma write_args_one:
  assumes "local_arg s p x" "a + arg_size x \<le> buf_size s" "n + 8 + length x \<le> unat (FS_MAX_BUF_SIZE s)"
    "unat (FS_MAX_BUF_SIZE s) < 2 ^ 31"
  shows "run_state (write_args (p # ps) (of_nat n) a) s =
    run_state (write_args ps (of_nat (n + arg_size x)) (a + arg_size x))
      (set_mem (mwrite (mwrite (mem s) a (le32 (of_nat (length x)))) (a + 4) x) s)"
proof -
  obtain l off where p: "pData p = PLoc l off" "unat (Length p) = length x" "load (pData p) (length x) s = x"
    using assms(1) by (auto simp: local_arg_def)
  let ?s = "set_mem (mwrite (mem s) a (le32 (Length p))) s"
  have "load (pData p) (length x) ?s = x" using p by (simp add: load_def set_mem_def)
  then have c: "run_state (memcpy_buf (a + 4) (pData p) (unat (Length p))) ?s
      = ((), set_mem (mwrite (mwrite (mem s) a (le32 (Length p))) (a + 4) x) s)"
    using arg_size_ge [of x] assms(2) p(1,2) by (simp add: memcpy_buf_def)
  have lx: "length x < 2 ^ 31" using assms(3,4) by simp
  have r: "of_nat n + 4 + align4 (Length p) = of_nat (n + arg_size x)"
    "a + 4 + unat (align4 (Length p)) = a + arg_size x"
    using unat_align4_arg [OF p(2) lx] by (simp_all add: add.assoc)
  show ?thesis
    using write_args_guard [OF assms(1,3,4)] arg_size_ge [of x] assms(2) p(1)
    by (simp add: c [unfolded p(1)] r) (simp add: word_eq_of_nat [OF p(2)])
qed

lemma write_args_run:
  assumes "list_all2 (local_arg s) packs args" "a + args_size args \<le> buf_size s"
    and "n + args_size args + 4 \<le> unat (FS_MAX_BUF_SIZE s)" "unat (FS_MAX_BUF_SIZE s) < 2 ^ 31"
  shows "\<exists>m. run_state (write_args packs (of_nat n) a) s = (Some (of_nat (n + args_size args)), set_mem m s) \<and>
     holds_args m a args \<and> (\<forall>i < a. m i = mem s i)"
  using assms
proof (induction packs arbitrary: args s a n)
  case Nil
  then show ?case by (intro exI [of _ "mem s"]) simp
next
  case (Cons p ps)
  then obtain x xs where args: "args = x # xs" and px: "local_arg s p x" and ps: "list_all2 (local_arg s) ps xs"
    by (auto simp: list_all2_Cons1)
  have x: "length x + 4 \<le> arg_size x" by (rule arg_size_ge)
  let ?m1 = "mwrite (mwrite (mem s) a (le32 (of_nat (length x)))) (a + 4) x"
  have one: "run_state (write_args (p # ps) (of_nat n) a) s =
      run_state (write_args ps (of_nat (n + arg_size x)) (a + arg_size x)) (set_mem ?m1 s)"
    using Cons.prems x by (intro write_args_one [OF px]) (simp_all add: args)
  have "\<exists>m. run_state (write_args ps (of_nat (n + arg_size x)) (a + arg_size x)) (set_mem ?m1 s) =
      (Some (of_nat (n + arg_size x + args_size xs)), set_mem m (set_mem ?m1 s)) \<and>
      holds_args m (a + arg_size x) xs \<and> (\<forall>i < a + arg_size x. m i = mem (set_mem ?m1 s) i)"
    using Cons.prems ps by (intro Cons.IH) (simp_all add: args)
  then obtain m where m: "run_state (write_args ps (of_nat (n + arg_size x)) (a + arg_size x)) (set_mem ?m1 s) =
      (Some (of_nat (n + arg_size x + args_size xs)), set_mem m s)"
    "holds_args m (a + arg_size x) xs" "\<And>i. i < a + arg_size x \<Longrightarrow> m i = ?m1 i" by auto
  have "mread m a 4 = mread ?m1 a 4" "mread m (a + 4) (length x) = mread ?m1 (a + 4) (length x)"
    using x m(3) by (intro mread_cong; simp)+
  moreover have "mread ?m1 a 4 = le32 (of_nat (length x))"
    using mread_mwrite_same [of "mem s" a "le32 (of_nat (length x))"] by (simp add: mread_mwrite_disjoint)
  ultimately have "holds_args m a args" using m(2) by (simp add: args)
  moreover have "\<forall>i < a. m i = mem s i" using m(3) by (auto simp: mwrite_def)
  ultimately show ?case using one m(1) by (auto simp: args add.assoc)
qed

text \<open>Parsing a buffer that holds a list of non-empty arguments finds them again.\<close>

primrec packs_of :: "nat \<Rightarrow> u8 list list \<Rightarrow> FS_PACKET_INFO list" where
  "packs_of a [] = []"
| "packs_of a (x # xs) = \<lparr>Length = of_nat (length x), pData = PBuf (a + 4)\<rparr> # packs_of (a + arg_size x) xs"

lemma length_packs_of [simp]: "length (packs_of a xs) = length xs"
  by (induction xs arbitrary: a) simp_all

lemma pack_loop_run:
  assumes "holds_args (mem s) (base + n) xs" "[] \<notin> set xs" "base + n + args_size xs \<le> buf_size s"
    and "n + args_size xs < 2 ^ 31" "i + length xs \<le> length (PackInfo s)"
  shows "run_state (pack_loop (length xs) i (of_nat n) base) s = (Some (of_nat (n + args_size xs)),
     s\<lparr>PackInfo := take i (PackInfo s) @ packs_of (base + n) xs @ drop (i + length xs) (PackInfo s)\<rparr>)"
  using assms
proof (induction xs arbitrary: s n i)
  case Nil
  then show ?case by simp
next
  case (Cons x xs)
  let ?p = "\<lparr>Length = of_nat (length x), pData = PBuf (base + n + 4)\<rparr>"
  let ?s = "s\<lparr>PackInfo := (PackInfo s)[i := ?p]\<rparr>"
  have x: "length x + 4 \<le> arg_size x" "x \<noteq> []" using arg_size_ge Cons.prems(2) by auto
  have u: "unat (of_nat n :: u32) = n" "unat (of_nat (n + 4) :: u32) = n + 4"
      "unat (of_nat (length x) :: u32) = length x"
    using Cons.prems(4) x by (intro unat_of_nat_small; simp)+
  have lx: "length x < 2 ^ 31" using Cons.prems(4) x(1) by simp
  have nz: "of_nat (length x) \<noteq> (0 :: u32)"
    using u(3) x(2) by (metis length_0_conv unsigned_0)
  have al: "of_nat n + 4 + align4 (of_nat (length x)) = (of_nat (n + arg_size x) :: u32)"
    using unat_align4_arg(2) [OF u(3) lx] by (simp add: add.assoc)
  have "run_state (pack_loop (length xs) (Suc i) (of_nat (n + arg_size x)) base) ?s =
      (Some (of_nat (n + arg_size x + args_size xs)), ?s\<lparr>PackInfo := take (Suc i) (PackInfo ?s) @
        packs_of (base + (n + arg_size x)) xs @ drop (Suc i + length xs) (PackInfo ?s)\<rparr>)"
    using Cons.prems by (intro Cons.IH) (simp_all add: buf_size_def slot_head_def add.assoc)
  moreover have "rd32 (mread (mem s) (base + n) 4) = of_nat (length x)" "base + n + 4 \<le> buf_size s"
    using Cons.prems(1,3) x(1) by simp_all
  moreover have "take (Suc i) ((PackInfo s)[i := ?p]) = take i (PackInfo s) @ [?p]"
    using Cons.prems(5) by (simp add: take_Suc_conv_app_nth)
  ultimately show ?case
    using nz al u(1,2) by (simp add: set_PackInfo_def add.assoc)
qed

lemma nth_packs_of:
  "holds_args m a xs \<Longrightarrow> args_size xs < 2 ^ 31 \<Longrightarrow> k < length xs \<Longrightarrow>
   \<exists>b. packs_of a xs ! k = \<lparr>Length = of_nat (length (xs ! k)), pData = PBuf b\<rparr> \<and>
     mread m b (length (xs ! k)) = xs ! k \<and> b + length (xs ! k) \<le> a + args_size xs \<and> length (xs ! k) < 2 ^ 31"
proof (induction xs arbitrary: a k)
  case (Cons x xs)
  show ?case
  proof (cases k)
    case 0
    then show ?thesis using Cons.prems arg_size_ge [of x] by simp
  next
    case (Suc j)
    then show ?thesis using Cons.prems Cons.IH [of "a + arg_size x" j] by auto
  qed
qed simp


section \<open>From one daemon's buffer to another's\<close>

lemma frag_packet_length:
  "f \<in> set (frag_plan 0 (length payload)) \<Longrightarrow>
   length (frag_packet d0 ch rs op payload f) \<le> MAX_FS_PKT_BYTE + 20"
  using frag_plan_bounds [of "fst f" "fst (snd f)" "snd (snd f)" 0 "length payload"]
  by (cases f) (auto simp: frag_packet_def)

text \<open>Whatever payload a slot holds, a response sent while no write fails goes out as packets of at
  most 3476 bytes, and these packets, received into an idle slot, put the same operation id and
  payload into it and leave it idle: only the last one completes the message.\<close>

lemma transport_round_trip:
  assumes "writes_ok os"
    and "0 < len" "len < 2 ^ 30" "slot + 20 + len \<le> buf_size s"
    and "slot_ready idx (rd32 (mread (mem s) (slot + 8) 4) + 1) len u" "slot_state idx u = (FS_BUFF_IDLE, 0)"
    and "rd32 (mread (mem s) (slot + 12) 4) = idx"
  shows "\<exists>t ps rs m. run_state (send_stream os (Suc fuel) slot (of_nat (len + 20))) s = (Some True, t) \<and>
    trace t = trace s @ map (Sys_write (DeviceFd s)) ps \<and> (\<forall>p \<in> set ps. length p \<le> MAX_FS_PKT_BYTE + 20) \<and>
    run_state (recv_all ps) u = (rs @ [(idx, Some True)], slot_step idx FS_BUFF_IDLE 0 m u) \<and>
    set rs \<subseteq> {(idx, Some False)} \<and>
    slot_holds idx (rd32 (mread (mem s) (slot + 16) 4)) (mread (mem s) (slot + 20) len) (set_mem m u)"
proof -
  let ?pay = "mread (mem s) (slot + 20) len" and ?op = "rd32 (mread (mem s) (slot + 16) 4)"
  let ?fp = "frag_packet (rd32 (mread (mem s) slot 4)) (rd32 (mread (mem s) (slot + 8) 4) + 1) idx ?op ?pay"
  let ?ps = "map ?fp (frag_plan 0 len)"
  obtain t where t: "run_state (send_stream os (Suc fuel) slot (of_nat (len + 20))) s = (Some True, t)"
      "trace t = trace s @ map (\<lambda>f. Sys_write (DeviceFd s) (?fp f)) (frag_plan 0 len)"
    using send_stream_run [OF assms(1-4) refl refl refl refl refl, where fuel = fuel] unfolding assms(7) by blast
  have ne: "length ?pay = len" "?pay \<noteq> []" using assms(2) by (auto simp flip: length_0_conv)
  obtain m where m: "run_state (recv_all ?ps) u = (map (\<lambda>(_, _, again). (idx, Some (\<not> again))) (frag_plan 0 len),
      slot_step idx FS_BUFF_IDLE 0 m u)" "slot_holds idx ?op ?pay (set_mem m u)"
    using reassembly [of idx _ ?pay u] assms(3,5,6) ne by (force simp: ne(1))
  obtain fs n where fs: "frag_plan 0 len = fs @ [(len - n, n, False)]" "\<forall>(o1, n1, again) \<in> set fs. again"
    using frag_plan_again [OF assms(2)] by blast
  have "set (map (\<lambda>(_, _, again). (idx, Some (\<not> again))) fs) \<subseteq> {(idx, Some False)}"
    using fs(2) by (auto split: prod.splits)
  moreover have "\<forall>p \<in> set ?ps. length p \<le> MAX_FS_PKT_BYTE + 20"
    using frag_packet_length [of _ ?pay] ne(1) by auto
  ultimately show ?thesis
    using t m fs(1)
    by (intro exI [of _ t] exI [of _ ?ps] exI [of _ "map (\<lambda>(_, _, again). (idx, Some (\<not> again))) fs"]
        exI [of _ m]) (simp add: comp_def)
qed


lemma holds_args_shift:
  "(\<And>i. i < args_size xs \<Longrightarrow> m (a + i) = m' (b + i)) \<Longrightarrow> holds_args m a xs = holds_args m' b xs"
proof (induction xs arbitrary: a b)
  case (Cons x xs)
  have e: "m (a + i) = m' (b + i)" if "i < arg_size x" for i using Cons.prems that by simp
  have "mread m a 4 = mread m' b 4" "mread m (a + 4) (length x) = mread m' (b + 4) (length x)"
    using e arg_size_ge [of x] by (intro nth_equalityI; simp add: add.assoc)+
  moreover have "holds_args m (a + arg_size x) xs = holds_args m' (b + arg_size x) xs"
    using Cons.prems [of "arg_size x + i" for i] by (intro Cons.IH) (simp add: add.assoc)
  ultimately show ?case by simp
qed simp

lemma mread_eqD: "mread m a n = mread m' b n \<Longrightarrow> i < n \<Longrightarrow> m (a + i) = m' (b + i)"
  by (metis nth_mread)

lemma FS_GetPackInfo_run:
  assumes "mread (mem s) base 4 = le32 (of_nat (length args))" "holds_args (mem s) (base + 4) args"
    "[] \<notin> set args" "length args \<le> unat (FS_MAX_ARG_NUM s)" "length args \<le> length (PackInfo s)"
    "4 + args_size args \<le> unat (FS_MAX_BUF_SIZE s)" "unat (FS_MAX_BUF_SIZE s) < 2 ^ 31"
    "base + 4 + args_size args \<le> buf_size s"
  shows "\<exists>t. run_state (FS_GetPackInfo base) s = (True, t) \<and>
    (\<forall>k < length args. load (pData (PackInfo t ! k)) (unat (Length (PackInfo t ! k))) t = args ! k)"
proof -
  let ?t = "s\<lparr>PackInfo := packs_of (base + 4) args @ drop (length args) (PackInfo s)\<rparr>"
  have u: "unat (of_nat (length args) :: u32) = length args" "unat (of_nat (4 + args_size args) :: u32) = 4 + args_size args"
    using assms(4,6,7) unat_u32_less [of "FS_MAX_ARG_NUM s"] by (intro unat_of_nat_small; simp)+
  have l: "run_state (pack_loop (length args) 0 4 base) s = (Some (of_nat (4 + args_size args)), ?t)"
    using pack_loop_run [of s base 4 args 0] assms by simp
  have g: "\<not> FS_MAX_ARG_NUM s < of_nat (length args)" "\<not> FS_MAX_BUF_SIZE s < of_nat (4 + args_size args)"
    using u assms(4,6) by (simp_all add: word_less_nat_alt del: of_nat_add)
  have "run_state (FS_GetPackInfo base) s = (True, ?t)"
    using assms(1,8) g u(1) by (simp add: FS_GetPackInfo_def l del: of_nat_add)
  moreover have "load (pData (PackInfo ?t ! k)) (unat (Length (PackInfo ?t ! k))) ?t = args ! k"
    if k: "k < length args" for k
  proof -
    obtain b where "packs_of (base + 4) args ! k = \<lparr>Length = of_nat (length (args ! k)), pData = PBuf b\<rparr>"
      "mread (mem s) b (length (args ! k)) = args ! k" "length (args ! k) < 2 ^ 31"
      using nth_packs_of [OF assms(2) _ k] assms(6,7) by auto
    then show ?thesis using k unat_of_nat_small [of "length (args ! k)"] by (simp add: nth_append)
  qed
  ultimately show ?thesis by blast
qed


text \<open>The slot as \<open>FS_WriteToMD\<close> fills it before sending: header untouched, response id, number of
  arguments, arguments.\<close>

lemma FS_WriteToMD_fill:
  assumes "stream_support s" "list_all2 (local_arg s) (take n (PackInfo s)) args" "n = length args"
    "28 + args_size args \<le> unat (FS_MAX_BUF_SIZE s)" "unat (FS_MAX_BUF_SIZE s) < 2 ^ 30"
    "slot = slot_addr idx s" "slot + 24 + args_size args \<le> buf_size s"
  shows "\<exists>m. run_state (FS_WriteToMD os fuel idx n) s =
      run_state (send_stream os fuel slot (of_nat (4 + args_size args + 20))) (set_mem m s) \<and>
    mread m slot 16 = mread (mem s) slot 16 \<and>
    mread m (slot + 16) 4 = le32 (FS_API_RESP_ID OR rd32 (mread (mem s) (slot + 16) 4)) \<and>
    mread m (slot + 20) 4 = le32 (of_nat n) \<and> holds_args m (slot + 24) args"
proof -
  let ?op = "FS_API_RESP_ID OR rd32 (mread (mem s) (slot + 16) 4)"
  let ?m2 = "mwrite (mwrite (mem s) (slot + 16) (le32 ?op)) (slot + 20) (le32 (of_nat n))"
  have h: "slot_head s = 20" using assms(1) by (simp add: slot_head_def)
  have "\<exists>m. run_state (write_args (take n (PackInfo s)) (of_nat 24) (slot + 24)) (set_mem ?m2 s) =
      (Some (of_nat (24 + args_size args)), set_mem m (set_mem ?m2 s)) \<and>
      holds_args m (slot + 24) args \<and> (\<forall>i < slot + 24. m i = mem (set_mem ?m2 s) i)"
    using assms by (intro write_args_run) simp_all
  then obtain m where m: "run_state (write_args (take n (PackInfo s)) 24 (slot + 24)) (set_mem ?m2 s) =
      (Some (of_nat (4 + args_size args + 20)), set_mem m s)" "holds_args m (slot + 24) args"
      "\<And>i. i < slot + 24 \<Longrightarrow> m i = ?m2 i"
    by (auto simp: add.commute)
  have eq: "mread m (slot + k) j = mread ?m2 (slot + k) j" if "k + j \<le> 24" for k j
    using that m(3) by (intro mread_cong) simp
  have "mread m slot 16 = mread (mem s) slot 16"
    using eq [of 0 16] by (simp add: mread_mwrite_disjoint)
  moreover have "mread m (slot + 16) 4 = le32 ?op"
    using eq [of 16 4] mread_mwrite_same [of "mem s" "slot + 16" "le32 ?op"] by (simp add: mread_mwrite_disjoint)
  moreover have "mread m (slot + 20) 4 = le32 (of_nat n)"
    using eq [of 20 4] mread_mwrite_same [of _ "slot + 20" "le32 (of_nat n)"] by simp
  moreover have "run_state (FS_WriteToMD os fuel idx n) s =
      run_state (send_stream os fuel slot (of_nat (4 + args_size args + 20))) (set_mem m s)"
  proof -
    have c: "16 + slot = slot + 16" "24 + slot = slot + 24" by simp_all
    show ?thesis
      using assms(1,7) m(1) by (simp add: FS_WriteToMD_def h c assms(6) [symmetric] del: of_nat_add)
  qed
  ultimately show ?thesis using m(2) by blast
qed

section \<open>Properties\<close>



text \<open>A device that takes every write, and a daemon about to answer on slot 0.\<close>

definition taking :: "'w os" where
  "taking q w = (case q of Sys_write fd bs \<Rightarrow> (res0\<lparr>r_ret := of_nat (length bs)\<rparr>, w) | _ \<Rightarrow> (res0, w))"

definition reply_fsd :: "unit fsd" where
  "reply_fsd = (idle_fsd ())\<lparr>FS_MAX_BUF_SIZE := 16584,
     g_FsInfo := (g_FsInfo (idle_fsd ()))\<lparr>pFsBuf := mwrite (\<lambda>_. 0) 8 (le32 0x0D)\<rparr>,
     PackInfo := replicate 6 \<lparr>Length = 4, pData = PLoc L_RetVal 0\<rparr>,
     locals := (\<lambda>_. [7, 0, 0, 0])\<rparr>"

lemma slot_addr_0: "slot_addr 0 s = 0"
  by (simp add: slot_addr_def)

lemma writes_ok_taking: "writes_ok taking"
  by (simp add: writes_ok_def taking_def res0_def)



text \<open>What a successful parse says about the entries of \<open>PackInfo\<close>.\<close>

lemma read_word_state:
  "run_state (read_word a) s = (v, t) \<Longrightarrow> PackInfo t = PackInfo s \<and> FS_MAX_BUF_SIZE t = FS_MAX_BUF_SIZE s \<and>
     FS_MAX_ARG_NUM t = FS_MAX_ARG_NUM s"
  by (auto simp: read_word_def read_buf_def fault_def split: if_splits)

definition arg_inside :: "'w fsd \<Rightarrow> nat \<Rightarrow> nat \<Rightarrow> nat \<Rightarrow> bool" where
  "arg_inside t lo hi k \<longleftrightarrow> Length (PackInfo t ! k) \<noteq> 0 \<and>
     (\<exists>b. pData (PackInfo t ! k) = PBuf b \<and> lo + 4 \<le> b \<and> b + unat (Length (PackInfo t ! k)) \<le> hi)"

lemma pack_loop_step:
  assumes "run_state (pack_loop (Suc n) i Index base) s = (Some Index', t)"
  obtains len s1 where "len \<noteq> 0" "PackInfo s1 = (PackInfo s)[i := \<lparr>Length = len, pData = PBuf (base + unat (Index + 4))\<rparr>]"
    "FS_MAX_BUF_SIZE s1 = FS_MAX_BUF_SIZE s" "FS_MAX_ARG_NUM s1 = FS_MAX_ARG_NUM s"
    "run_state (pack_loop n (Suc i) (Index + 4 + align4 len) base) s1 = (Some Index', t)"
proof -
  obtain len s0 where rd: "run_state (read_word (base + unat Index)) s = (len, s0)" by fastforce
  show thesis
    using assms read_word_state [OF rd]
    by (intro that [of len "s0\<lparr>PackInfo := (PackInfo s0)[i := \<lparr>Length = len, pData = PBuf (base + unat (Index + 4))\<rparr>]\<rparr>"])
      (auto simp: rd set_PackInfo_def split: if_splits)
qed

lemma pack_loop_keeps:
  "run_state (pack_loop n i Index base) s = (Some Index', t) \<Longrightarrow>
   (\<forall>k < i. PackInfo t ! k = PackInfo s ! k) \<and> FS_MAX_BUF_SIZE t = FS_MAX_BUF_SIZE s"
proof (induction n arbitrary: i Index s)
  case (Suc n)
  from Suc.prems show ?case by (rule pack_loop_step) (use Suc.IH in fastforce)
qed simp

lemma pack_loop_inside:
  assumes "run_state (pack_loop n i Index base) s = (Some Index', t)"
    and "\<forall>k < n. unat (Length (PackInfo t ! (i + k))) < 2 ^ 28"
    and "unat Index + n * (2 ^ 28 + 8) < 2 ^ 32" "i + n \<le> length (PackInfo s)"
  shows "unat Index \<le> unat Index' \<and>
    (\<forall>k < n. arg_inside t (base + unat Index) (base + unat Index') (i + k))"
  using assms
proof (induction n arbitrary: i Index s)
  case 0
  then show ?case by simp
next
  case (Suc n)
  from Suc.prems(1) obtain len s1 where len: "len \<noteq> 0"
    "PackInfo s1 = (PackInfo s)[i := \<lparr>Length = len, pData = PBuf (base + unat (Index + 4))\<rparr>]"
    "run_state (pack_loop n (Suc i) (Index + 4 + align4 len) base) s1 = (Some Index', t)"
    by (rule pack_loop_step)
  have e: "PackInfo t ! i = \<lparr>Length = len, pData = PBuf (base + unat (Index + 4))\<rparr>"
    using pack_loop_keeps [OF len(3)] len(2) Suc.prems(4) by simp
  have l28: "unat len < 2 ^ 28" using Suc.prems(2) e by (metis FS_PACKET_INFO.select_convs(1) add.right_neutral zero_less_Suc)
  have u4: "unat (Index + 4) = unat Index + 4"
    using Suc.prems(3) by (simp add: unat_word_ariths)
  have al: "unat (align4 len) = 4 * ((unat len + 3) div 4)" using l28 by (intro unat_align4) simp
  have u1: "unat (Index + 4 + align4 len) = unat Index + 4 + unat (align4 len)"
    using Suc.prems(3) l28 u4 al by (simp add: unat_word_ariths)
  have IH: "unat (Index + 4 + align4 len) \<le> unat Index' \<and>
    (\<forall>k < n. arg_inside t (base + unat (Index + 4 + align4 len)) (base + unat Index') (Suc i + k))"
    using Suc.prems l28 al u1 len(2) by (intro Suc.IH [OF len(3)]) auto
  have "arg_inside t (base + unat Index) (base + unat Index') i"
    using IH e len(1) u1 u4 al by (auto simp: arg_inside_def)
  moreover have "arg_inside t (base + unat Index) (base + unat Index') (Suc i + k)" if "k < n" for k
    using IH that u1 by (force simp: arg_inside_def)
  ultimately show ?case using IH u1 by (auto simp: less_Suc_eq_0_disj)
qed



definition request_fsd :: "u32 \<Rightarrow> unit fsd" where
  "request_fsd len = (idle_fsd ())\<lparr>FS_MAX_BUF_SIZE := 16584,
     g_FsInfo := (g_FsInfo (idle_fsd ()))\<lparr>pFsBuf := mwrite (\<lambda>_. 0) 20 (le32 1 @ le32 len)\<rparr>,
     PackInfo := replicate 6 \<lparr>Length = 4, pData = PLoc L_RetVal 0\<rparr>\<rparr>"

lemma request_fsd_simps [simp]:
  "rd32 (mread (mem (request_fsd len)) 20 4) = 1" "rd32 (mread (mem (request_fsd len)) 24 4) = len"
  "buf_size (request_fsd len) = 83020" "FS_MAX_BUF_SIZE (request_fsd len) = 16584"
  "FS_MAX_ARG_NUM (request_fsd len) = 6" "length (PackInfo (request_fsd len)) = 6"
  using mread_mwrite_prefix [of 4 "le32 1 @ le32 len" "\<lambda>_. 0" 20]
    mread_mwrite_over [of "mwrite (\<lambda>_. 0) 20 (le32 1)" 24 "le32 len" 0]
  by (simp_all add: request_fsd_def idle_fsd_def buf_size_def slot_head_def mwrite_append)


text \<open>The length check adds up modulo \<open>2 ^ 32\<close>, and rounding a length up to a multiple of four wraps
  as well: a single argument of length \<open>0xFFFFFFFF\<close> is accepted.\<close>

theorem GetPackInfo_accepts_wrapped_length:
  "\<exists>t. run_state (FS_GetPackInfo 20) (request_fsd 0xFFFFFFFF) = (True, t) \<and>
     Length (PackInfo t ! 0) = 0xFFFFFFFF"
  by (simp add: FS_GetPackInfo_def set_PackInfo_def align4_def nth_list_update)

section \<open>The reassembly state machine\<close>

text \<open>Each slot is idle at offset 0 or waiting for more.\<close>

definition recv_ok :: "'w fsd \<Rightarrow> bool" where
  "recv_ok s \<longleftrightarrow> length (fs_buff_state (g_FsInfo s)) = FS_BUFFER_SLOT_NUM \<and>
     length (fs_buff_offset (g_FsInfo s)) = FS_BUFFER_SLOT_NUM \<and>
     (\<forall>i < FS_BUFFER_SLOT_NUM. fs_buff_state (g_FsInfo s) ! i = FS_BUFF_IDLE \<and> fs_buff_offset (g_FsInfo s) ! i = 0 \<or>
        fs_buff_state (g_FsInfo s) ! i = FS_BUFF_WAIT) \<and> \<not> aborted s"

lemma recv_ok_copy [valid_intros]: "keeps recv_ok (copy_pkt dst pkt off n)"
  unfolding copy_pkt_def store_buf_def upd_info_def fault_def
  by (intro valid_intros) (simp_all add: recv_ok_def)

lemma recv_ok_set_slot:
  assumes "recv_ok s" "st = FS_BUFF_IDLE \<and> (\<forall>x. f x = 0) \<or> st = FS_BUFF_WAIT"
  shows "recv_ok (snd (run_state (set_slot idx st f) s))"
  using assms by (cases "unat idx < FS_BUFFER_SLOT_NUM") (auto simp: set_slot_run recv_ok_def nth_list_update)

lemma recv_ok_state:
  "recv_ok s \<Longrightarrow> i < FS_BUFFER_SLOT_NUM \<Longrightarrow>
   fs_buff_state (g_FsInfo s) ! i = FS_BUFF_IDLE \<or> fs_buff_state (g_FsInfo s) ! i = FS_BUFF_WAIT"
  by (auto simp: recv_ok_def)

lemma recv_ok_slot_idle [valid_intros]: "keeps recv_ok (set_slot idx FS_BUFF_IDLE (\<lambda>_. 0))"
  by (rule keepsI) (use recv_ok_set_slot [of _ FS_BUFF_IDLE "\<lambda>_. 0" idx] in fastforce)

lemma recv_ok_slot_wait [valid_intros]: "keeps recv_ok (set_slot idx FS_BUFF_WAIT f)"
  by (rule keepsI) (use recv_ok_set_slot [of _ FS_BUFF_WAIT f idx] in fastforce)

lemma recv_last_ok:
  assumes i: "unat idx < FS_BUFFER_SLOT_NUM" shows "keeps recv_ok (recv_last idx p d1)"
proof (rule keepsI)
  fix s :: "'a fsd" and a t assume ok: "recv_ok s" and run: "run_state (recv_last idx p d1) s = (a, t)"
  let ?copy = "\<lambda>st slot off. if st = FS_BUFF_IDLE then copy_pkt slot p 0 d1
      else do { (if 20 < d1 then copy_pkt (slot + unat off) p 20 (d1 - 20) else ret ()); copy_pkt slot p 0 16 }"
  have k: "keeps recv_ok (do { ?copy st slot off; set_slot idx FS_BUFF_IDLE (\<lambda>_. 0) })" for st slot off
    by (intro valid_intros)
  have "run_state (do { ?copy (fs_buff_state (g_FsInfo s) ! unat idx) (slot_addr idx s) (fs_buff_offset (g_FsInfo s) ! unat idx);
      set_slot idx FS_BUFF_IDLE (\<lambda>_. 0) }) s = (a, t)"
    using run recv_ok_state [OF ok i] by (auto simp: recv_last_def)
  then show "recv_ok t" using ok by (rule keepsD [OF k, rotated])
qed

lemma recv_more_ok:
  assumes i: "unat idx < FS_BUFFER_SLOT_NUM" shows "keeps recv_ok (recv_more idx p d1)"
proof (rule keepsI)
  fix s :: "'a fsd" and a t assume ok: "recv_ok s" and run: "run_state (recv_more idx p d1) s = (a, t)"
  have k: "keeps recv_ok (do { copy_pkt b p k n; set_slot idx FS_BUFF_WAIT f })" for b k n f
    by (intro valid_intros)
  let ?off = "fs_buff_offset (g_FsInfo s) ! unat idx"
  have "run_state (do { copy_pkt (slot_addr idx s) p 0 d1; set_slot idx FS_BUFF_WAIT (\<lambda>o1. o1 + d1) }) s = (a, t) \<or>
      run_state (do { copy_pkt (slot_addr idx s + unat ?off) p 20 (d1 - 20);
        set_slot idx FS_BUFF_WAIT (\<lambda>o1. o1 + (d1 - 20)) }) s = (a, t)"
    using run recv_ok_state [OF ok i] by (auto simp: recv_more_def)
  then show "recv_ok t" using keepsD [OF k ok] by blast
qed

lemma slot_index_bound: "\<not> idx <s 0 \<Longrightarrow> \<not> 5 \<le>s idx \<Longrightarrow> unat (idx :: u32) < 5"
proof -
  assume "\<not> idx <s 0" "\<not> 5 \<le>s idx"
  then have r: "0 \<le> sint idx" "sint idx < 5" by (simp_all add: word_sless_alt word_sle_eq)
  have "idx = word_of_int (int (nat (sint idx)))" using r by simp
  then have "idx = of_nat (nat (sint idx))" by (simp only: of_int_of_nat_eq)
  then have "unat idx = nat (sint idx)" using r unat_of_nat_small [of "nat (sint idx)"] by simp
  then show "unat idx < 5" using r by simp
qed

text \<open>
  C27: The reassembly state machine never reaches its \<open>assert(0)\<close>: whatever packets arrive, every
  slot stays idle at offset 0 or waiting, and the process is not aborted.
\<close>

theorem recv_machine_invariant: "keeps recv_ok (recv_packet pkt)"
  unfolding recv_packet_def Let_def
  by (intro valid_intros recv_last_ok recv_more_ok) (auto intro: slot_index_bound)


section \<open>The retried write\<close>

text \<open>The world after \<open>k\<close> attempts at the same write.\<close>

primrec after_writes :: "'w os \<Rightarrow> sysreq \<Rightarrow> nat \<Rightarrow> 'w \<Rightarrow> 'w" where
  "after_writes os q 0 w = w"
| "after_writes os q (Suc k) w = after_writes os q k (snd (os q w))"

lemma read_buf_bytes:
  "run_state (read_buf a n) s = (bs, t) \<Longrightarrow> bs = mread (mem s) a n \<and> mem t = mem s \<and> world t = world s \<and> DeviceFd t = DeviceFd s"
  by (cases "buf_size s < a + n") (auto simp: read_buf_def fault_def)

text \<open>
  The loop that repeats an interrupted write ends: if among the first \<open>fuel\<close> attempts one is
  not interrupted, the write returns, and it reports success exactly when that attempt took the
  whole packet.
\<close>

theorem write_retry_returns:
  assumes "q = Sys_write (DeviceFd s) (mread (mem s) a (unat DataLength))"
    and "k < fuel" "\<And>j. j < k \<Longrightarrow> r_ret (fst (os q (after_writes os q j (world s)))) \<noteq> DataLength \<and>
      r_errno (fst (os q (after_writes os q j (world s)))) = EINTR"
    and "ans = fst (os q (after_writes os q k (world s)))" "r_ret ans = DataLength \<or> r_errno ans \<noteq> EINTR"
  shows "\<exists>t. run_state (write_retry os fuel a DataLength) s = (Some (r_ret ans = DataLength), t)"
  using assms
proof (induction fuel arbitrary: s k)
  case 0
  then show ?case by simp
next
  case (Suc fuel)
  obtain bs s1 where rd: "run_state (read_buf a (unat DataLength)) s = (bs, s1)" by fastforce
  obtain r w where os: "os q (world s) = (r, w)" by fastforce
  let ?s = "s1\<lparr>world := w, trace := trace s1 @ [q]\<rparr>"
  note rb = read_buf_bytes [OF rd]
  have step: "run_state (write_retry os (Suc fuel) a DataLength) s =
     (if r_ret r = DataLength then (Some True, ?s) else if r_errno r = EINTR
      then run_state (write_retry os fuel a DataLength) ?s else (Some False, ?s))"
    using rb os Suc.prems(1) by (simp add: rd)
  show ?case
  proof (cases k)
    case 0
    then show ?thesis using step Suc.prems(4,5) os by auto
  next
    case (Suc j)
    have "\<exists>t. run_state (write_retry os fuel a DataLength) ?s = (Some (r_ret ans = DataLength), t)"
    proof (rule Suc.IH [of _ j])
      show "q = Sys_write (DeviceFd ?s) (mread (mem ?s) a (unat DataLength))" using Suc.prems(1) rb by simp
      show "r_ret (fst (os q (after_writes os q i (world ?s)))) \<noteq> DataLength \<and>
          r_errno (fst (os q (after_writes os q i (world ?s)))) = EINTR" if "i < j" for i
        using Suc.prems(3) [of "Suc i"] Suc os that by simp
      show "ans = fst (os q (after_writes os q j (world ?s)))" using Suc.prems(4) Suc os by simp
    qed (use Suc.prems(2,5) Suc in simp_all)
    moreover have "r_ret r \<noteq> DataLength \<and> r_errno r = EINTR" using Suc.prems(3) [of 0] Suc os by simp
    ultimately show ?thesis using step by auto
  qed
qed


theorem write_retry_returns_witness:
  "\<exists>t. run_state (write_retry (\<lambda>q n. (res0\<lparr>r_ret := if n = 2 then 24 else - 1, r_errno := EINTR\<rparr>, Suc n)) 3 0 24)
     (idle_fsd 0) = (Some True, t)"
proof -
  let ?os = "\<lambda>q n. (res0\<lparr>r_ret := if n = 2 then 24 else - 1 :: s32, r_errno := EINTR\<rparr>, Suc n)"
  have "after_writes ?os q j n = n + j" for q j n by (induction j arbitrary: n) simp_all
  then show ?thesis
    using write_retry_returns [OF refl, where s = "idle_fsd 0" and k = 2 and fuel = 3 and a = 0 and DataLength = 24 and os = ?os]
    by (simp add: res0_def)
qed

end
