(* ===== verification/Fsd_Platform.thy ===== *)
theory Fsd_Platform
  imports Fsd_Handle
begin

unbundle bit_operations_syntax

text \<open>
  The platform files of the daemon: \<open>fsd_platform.c\<close> (one-time-programmable memory and the modem
  status property) and \<open>power.c\<close> (wake locks).

  The OTP memory is reached through the library \<open>storage_otp\<close> or, when that reports version 0,
  through the driver \<open>/dev/otp\<close>. Both are part of the environment. An answer to an OTP \<open>ioctl\<close>
  carries the driver's \<open>status\<close> (or the return value for the length query) in \<open>r_ret\<close> and what
  the driver stored in \<open>r_data\<close>.
\<close>

section \<open>One-time-programmable memory\<close>

definition OTP_DEVICE :: string where "OTP_DEVICE = ''/dev/otp''"

text \<open>Each modem owns one half: the first modem the lower one, any other the upper one.\<close>

definition otp_start :: "u32 \<Rightarrow> 'w fsd \<Rightarrow> u32" where
  "otp_start Offset s = (if md_id s = 0 then Offset else Offset + otp_offset s)"

definition FS_OTPLock :: "'w os \<Rightarrow> ('w fsd, s32) state" where
  "FS_OTPLock os = do {
     v \<leftarrow> syscall os Sys_otp_get_libversion;
     if r_ret v \<noteq> 0 then do {
       d \<leftarrow> syscall os Sys_otp_open;
       if r_ret d = 0 then ret FS_UNSUPPORTED_DRIVER_FUNCTION
       else do {
         r \<leftarrow> syscall os Sys_otp_lock;
         _ \<leftarrow> syscall os Sys_otp_close;
         ret (if r_ret r \<noteq> 0 then FS_PARAM_ERROR else r_ret r) } }
     else do {
       fd \<leftarrow> syscall os (Sys_open OTP_DEVICE O_RDONLY 0);
       if r_ret fd <s 0 then ret FS_UNSUPPORTED_DRIVER_FUNCTION
       else do { _ \<leftarrow> syscall os (Sys_close (r_ret fd)); ret FS_NO_ERROR } } }"

text \<open>The caller's \<open>Length\<close> is filled unless the device cannot be opened.\<close>

definition FS_OTPQueryLength :: "'w os \<Rightarrow> ('w fsd, s32 \<times> u32 option) state" where
  "FS_OTPQueryLength os = do {
     v \<leftarrow> syscall os Sys_otp_get_libversion;
     if r_ret v \<noteq> 0 then do {
       d \<leftarrow> syscall os Sys_otp_open;
       if r_ret d = 0 then ret (FS_UNSUPPORTED_DRIVER_FUNCTION, None)
       else do {
         len \<leftarrow> syscall os Sys_otp_get_size;
         _ \<leftarrow> syscall os Sys_otp_close;
         ret (FS_NO_ERROR, Some (r_ret len div 2)) } }
     else do {
       fd \<leftarrow> syscall os (Sys_open OTP_DEVICE O_RDONLY 0);
       if r_ret fd <s 0 then ret (FS_UNSUPPORTED_DRIVER_FUNCTION, None)
       else do {
         q \<leftarrow> syscall os (Sys_otp_ioctl_length (r_ret fd));
         _ \<leftarrow> syscall os (Sys_close (r_ret fd));
         ret (r_ret q, Some (rd32 (r_data q) div 2)) } } }"

definition FS_OTPRead :: "'w os \<Rightarrow> u32 \<Rightarrow> nat \<Rightarrow> u32 \<Rightarrow> ('w fsd, s32) state" where
  "FS_OTPRead os Offset BufferPtr len = do {
     v \<leftarrow> syscall os Sys_otp_get_libversion;
     if r_ret v \<noteq> 0 then do {
       d \<leftarrow> syscall os Sys_otp_open;
       if r_ret d = 0 then ret FS_UNSUPPORTED_DRIVER_FUNCTION
       else do {
         start \<leftarrow> gets (otp_start Offset);
         r \<leftarrow> syscall os (Sys_otp_read start len);
         store_buf BufferPtr (r_data r);
         _ \<leftarrow> syscall os Sys_otp_close;
         ret (if r_ret r \<noteq> 0 then FS_ERROR_RESERVED else FS_NO_ERROR) } }
     else do {
       fd \<leftarrow> syscall os (Sys_open OTP_DEVICE O_RDONLY 0);
       if r_ret fd <s 0 then ret FS_UNSUPPORTED_DRIVER_FUNCTION
       else do {
         start \<leftarrow> gets (otp_start Offset);
         r \<leftarrow> syscall os (Sys_otp_ioctl_read (r_ret fd) start len);
         store_buf BufferPtr (r_data r);
         _ \<leftarrow> syscall os (Sys_close (r_ret fd));
         ret (if r_ret r \<noteq> 0 then FS_ERROR_RESERVED else FS_NO_ERROR) } } }"

definition FS_OTPWrite :: "'w os \<Rightarrow> u32 \<Rightarrow> u8 list \<Rightarrow> ('w fsd, s32) state" where
  "FS_OTPWrite os Offset bs = do {
     v \<leftarrow> syscall os Sys_otp_get_libversion;
     if r_ret v \<noteq> 0 then do {
       d \<leftarrow> syscall os Sys_otp_open;
       if r_ret d = 0 then ret FS_UNSUPPORTED_DRIVER_FUNCTION
       else do {
         start \<leftarrow> gets (otp_start Offset);
         r \<leftarrow> syscall os (Sys_otp_write start bs);
         _ \<leftarrow> syscall os Sys_otp_close;
         ret (if r_ret r \<noteq> 0 then FS_ERROR_RESERVED else FS_NO_ERROR) } }
     else do {
       fd \<leftarrow> syscall os (Sys_open OTP_DEVICE O_RDONLY 0);
       if r_ret fd <s 0 then ret (- 1)
       else do {
         start \<leftarrow> gets (otp_start Offset);
         r \<leftarrow> syscall os (Sys_otp_ioctl_write (r_ret fd) start bs);
         _ \<leftarrow> syscall os (Sys_close (r_ret fd));
         ret (if r_ret r \<noteq> 0 then FS_ERROR_RESERVED else FS_NO_ERROR) } } }"

definition FS_OTP_init :: "'w os \<Rightarrow> ('w fsd, s32) state" where
  "FS_OTP_init os = do {
     v \<leftarrow> syscall os Sys_otp_get_libversion;
     if r_ret v \<noteq> 0 then do {
       d \<leftarrow> syscall os Sys_otp_open;
       if r_ret d = 0 then ret FS_UNSUPPORTED_DRIVER_FUNCTION
       else do {
         len \<leftarrow> syscall os Sys_otp_get_size;
         modify (\<lambda>s. s\<lparr>otp_offset := r_ret len div 2\<rparr>);
         _ \<leftarrow> syscall os Sys_otp_close;
         ret FS_NO_ERROR } }
     else do {
       fd \<leftarrow> syscall os (Sys_open OTP_DEVICE O_RDONLY 0);
       if r_ret fd <s 0 then ret FS_NO_ERROR
       else do {
         q \<leftarrow> syscall os (Sys_otp_ioctl_length (r_ret fd));
         modify (\<lambda>s. s\<lparr>otp_offset := rd32 (r_data q) div 2\<rparr>);
         _ \<leftarrow> syscall os (Sys_close (r_ret fd));
         ret FS_NO_ERROR } } }"

section \<open>The modem status\<close>

definition decode_status :: "string \<Rightarrow> s32" where
  "decode_status val =
     (if take 6 val = ''bootup'' then CCCI_MD_STA_BOOT_UP
      else if take 5 val = ''ready'' then CCCI_MD_STA_BOOT_READY
      else if take 4 val = ''init'' then CCCI_MD_STA_INIT
      else if take 5 val = ''reset'' then CCCI_MD_STA_RESET
      else if take 4 val = ''stop'' then CCCI_MD_STA_STOP
      else if take 10 val = ''flightmode'' then CCCI_MD_STA_FLIGHT_MODE
      else if take 9 val = ''exception'' then CCCI_MD_STA_EXCEPTION
      else CCCI_MD_STA_UNDEFINED)"

definition status_property :: "nat \<Rightarrow> string" where
  "status_property md = ''vendor.mtk.md'' @ dec (md + 1) @ ''.status''"

definition get_modem_status :: "'w os \<Rightarrow> ('w fsd, s32) state" where
  "get_modem_status os = do {
     md \<leftarrow> gets (\<lambda>s. unat (md_id s));
     r \<leftarrow> syscall os (Sys_property_get (status_property md));
     ret (if r_ret r \<le>s 0 then CCCI_MD_STA_UNDEFINED
          else case r_name r of None \<Rightarrow> CCCI_MD_STA_UNDEFINED | Some val \<Rightarrow> decode_status val) }"

section \<open>Wake locks\<close>

definition NEW_PATHS :: "string list" where
  "NEW_PATHS = [''/sys/power/wake_lock'', ''/sys/power/wake_unlock'']"

definition OLD_PATHS :: "string list" where
  "OLD_PATHS = [''/sys/android_power/acquire_partial_wake_lock'', ''/sys/android_power/release_wake_lock'']"

primrec open_fds :: "'w os \<Rightarrow> string list \<Rightarrow> nat \<Rightarrow> ('w fsd, s32) state" where
  "open_fds os [] i = do { modify (\<lambda>s. s\<lparr>g_error := 0\<rparr>); ret 0 }"
| "open_fds os (p # ps) i = do {
     r \<leftarrow> syscall os (Sys_open p (O_RDWR OR O_CLOEXEC) 0);
     if r_ret r <s 0 then do { modify (\<lambda>s. s\<lparr>g_error := - r_errno r\<rparr>); ret (- 1) }
     else do {
       modify (\<lambda>s. s\<lparr>g_fds := (g_fds s)[i := r_ret r]\<rparr>);
       open_fds os ps (Suc i) } }"

definition open_file_descriptors :: "'w os \<Rightarrow> string list \<Rightarrow> ('w fsd, s32) state" where
  "open_file_descriptors os paths = open_fds os paths 0"

definition initialize_fds :: "'w os \<Rightarrow> ('w fsd, unit) state" where
  "initialize_fds os = do {
     init \<leftarrow> gets g_initialized;
     if init then ret ()
     else do {
       r \<leftarrow> open_file_descriptors os NEW_PATHS;
       (if r <s 0 then do { _ \<leftarrow> open_file_descriptors os OLD_PATHS; ret () } else ret ());
       modify (\<lambda>s. s\<lparr>g_initialized := True\<rparr>) } }"

abbreviation (input) PARTIAL_WAKE_LOCK :: s32 where "PARTIAL_WAKE_LOCK \<equiv> 1"

definition acquire_wake_lock :: "'w os \<Rightarrow> s32 \<Rightarrow> string \<Rightarrow> ('w fsd, s32) state" where
  "acquire_wake_lock os lock lock_id = do {
     initialize_fds os;
     e \<leftarrow> gets g_error;
     if e \<noteq> 0 then ret e
     else if lock \<noteq> PARTIAL_WAKE_LOCK then ret (- EINVAL)
     else do {
       fd \<leftarrow> gets (\<lambda>s. g_fds s ! 0);
       r \<leftarrow> syscall os (Sys_write fd (bytes lock_id));
       ret (if r_ret r <s 0 then - r_errno r else r_ret r) } }"

definition release_wake_lock :: "'w os \<Rightarrow> string \<Rightarrow> ('w fsd, s32) state" where
  "release_wake_lock os lock_id = do {
     initialize_fds os;
     e \<leftarrow> gets g_error;
     if e \<noteq> 0 then ret e
     else do {
       fd \<leftarrow> gets (\<lambda>s. g_fds s ! 1);
       r \<leftarrow> syscall os (Sys_write fd (bytes lock_id));
       ret (if r_ret r <s 0 then - r_errno r else r_ret r) } }"

definition FS_WAKE_LOCK :: "'w os \<Rightarrow> ('w fsd, unit) state" where
  "FS_WAKE_LOCK os = do { _ \<leftarrow> acquire_wake_lock os PARTIAL_WAKE_LOCK ''ccci_fsd''; ret () }"

definition FS_WAKE_UNLOCK :: "'w os \<Rightarrow> ('w fsd, unit) state" where
  "FS_WAKE_UNLOCK os = do { _ \<leftarrow> release_wake_lock os ''ccci_fsd''; ret () }"

section \<open>Frames\<close>

lemma same_table_open_fds [frame_intros]: "frame same_table (open_fds os ps i)"
proof (induction ps arbitrary: i)
  case Nil
  then show ?case by (auto intro!: frame_intros)
next
  case (Cons p ps)
  then show ?case unfolding open_fds.simps by (intro frame_intros; simp)
qed

lemma same_table_wake [frame_intros]:
  "frame same_table (initialize_fds os)"
  unfolding initialize_fds_def open_file_descriptors_def by (intro frame_intros; simp)

lemma same_table_platform [frame_intros]:
  "frame same_table (acquire_wake_lock os l nm)" "frame same_table (release_wake_lock os nm)"
  "frame same_table (get_modem_status os)" "frame same_table (FS_OTP_init os)"
  "frame same_table (FS_OTPLock os)" "frame same_table (FS_OTPQueryLength os)"
  "frame same_table (FS_OTPRead os off buf n)" "frame same_table (FS_OTPWrite os off bs)"
  unfolding acquire_wake_lock_def release_wake_lock_def get_modem_status_def FS_OTP_init_def
    FS_OTPLock_def FS_OTPQueryLength_def FS_OTPRead_def FS_OTPWrite_def
  by (intro frame_intros; simp)+

lemma same_table_locks [frame_intros]:
  "frame same_table (FS_WAKE_LOCK os)" "frame same_table (FS_WAKE_UNLOCK os)"
  unfolding FS_WAKE_LOCK_def FS_WAKE_UNLOCK_def by (intro frame_intros)+

section \<open>The partition of the OTP memory\<close>

text \<open>The bytes of the OTP memory a request reads or writes.\<close>

definition otp_range :: "sysreq \<Rightarrow> nat set" where
  "otp_range q = (case q of
     Sys_otp_read a n \<Rightarrow> {unat a..<unat a + unat n}
   | Sys_otp_write a bs \<Rightarrow> {unat a..<unat a + length bs}
   | Sys_otp_ioctl_read fd a n \<Rightarrow> {unat a..<unat a + unat n}
   | Sys_otp_ioctl_write fd a bs \<Rightarrow> {unat a..<unat a + length bs}
   | _ \<Rightarrow> {})"

lemma otp_range_simps [simp]:
  "otp_range Sys_otp_get_libversion = {}" "otp_range Sys_otp_open = {}" "otp_range Sys_otp_close = {}"
  "otp_range (Sys_open f fl m) = {}" "otp_range (Sys_close fd) = {}"
  "otp_range (Sys_otp_read a n) = {unat a..<unat a + unat n}"
  "otp_range (Sys_otp_write a bs) = {unat a..<unat a + length bs}"
  "otp_range (Sys_otp_ioctl_read fd a n) = {unat a..<unat a + unat n}"
  "otp_range (Sys_otp_ioctl_write fd a bs) = {unat a..<unat a + length bs}"
  by (simp_all add: otp_range_def)

definition otp_within :: "nat \<Rightarrow> nat \<Rightarrow> sysreq \<Rightarrow> bool" where
  "otp_within a n q \<longleftrightarrow> otp_range q \<subseteq> {a..<a + n}"

definition same_otp :: "nat \<Rightarrow> nat \<Rightarrow> 'w fsd \<Rightarrow> 'w fsd \<Rightarrow> bool" where
  "same_otp a n s t \<longleftrightarrow> md_id t = md_id s \<and> otp_offset t = otp_offset s \<and> issues (otp_within a n) s t"

lemma same_otp_start: "same_otp a n s t \<Longrightarrow> otp_start Offset t = otp_start Offset s"
  by (simp add: same_otp_def otp_start_def)

interpretation same_otp: frame_rel "same_otp a n" for a n
  by unfold_locales (auto simp: same_otp_def intro: issues.R_refl issues.R_trans)

lemma same_otp_syscall: "otp_within a n q \<Longrightarrow> frame (same_otp a n) (syscall os q)"
  by (rule frameI) (auto simp: same_otp_def issues_def split: prod.splits)

lemma same_otp_store: "frame (same_otp a n) (store_buf p bs)"
  unfolding store_buf_def upd_info_def fault_def
  by (intro frame_intros same_otp.bind same_otp.get same_otp.return)
    (auto simp: same_otp_def intro: issues_same_trace)

lemma wp_same_otp:
  assumes "same_otp a n s t" "frame (same_otp a n) m" "\<And>x u. same_otp a n s u \<Longrightarrow> Q x u"
  shows "wp m Q t"
  using assms by (intro wp_frame [OF assms(2)]) (blast intro: same_otp.R_trans)

text \<open>Reading or writing touches only the bytes from the modem's start address on.\<close>

lemma otp_access_within:
  assumes "st = unat (otp_start Offset s)" "same_otp st n s t"
  shows "unat len \<le> n \<Longrightarrow> wp (FS_OTPRead os Offset buf len) (\<lambda>_. same_otp st n s) t"
    and "length bs \<le> n \<Longrightarrow> wp (FS_OTPWrite os Offset bs) (\<lambda>_. same_otp st n s) t"
proof -
  have req: "wp (syscall os q) Q u" if "same_otp st n s u" "otp_within st n q"
    "\<And>x v. same_otp st n s v \<Longrightarrow> Q x v" for q Q u
    using that by (intro wp_same_otp [OF _ same_otp_syscall])
  have buf: "wp (store_buf p xs) Q u" if "same_otp st n s u" "\<And>x v. same_otp st n s v \<Longrightarrow> Q x v" for p xs Q u
    using that by (intro wp_same_otp [OF _ same_otp_store])
  show "unat len \<le> n \<Longrightarrow> wp (FS_OTPRead os Offset buf len) (\<lambda>_. same_otp st n s) t"
    unfolding FS_OTPRead_def using assms(2)
    by (intro wp_intros req buf) (auto simp: otp_within_def assms(1) same_otp_start)
  show "length bs \<le> n \<Longrightarrow> wp (FS_OTPWrite os Offset bs) (\<lambda>_. same_otp st n s) t"
    unfolding FS_OTPWrite_def using assms(2)
    by (intro wp_intros req) (auto simp: otp_within_def assms(1) same_otp_start)
qed

text \<open>An environment whose OTP library is present and reports a memory of \<open>n\<close> bytes.\<close>

definition otp_lib :: "'w os \<Rightarrow> u32 \<Rightarrow> bool" where
  "otp_lib os n \<longleftrightarrow> (\<forall>w. r_ret (fst (os Sys_otp_get_libversion w)) \<noteq> 0 \<and>
     r_ret (fst (os Sys_otp_open w)) \<noteq> 0 \<and> r_ret (fst (os Sys_otp_get_size w)) = n)"

lemma otp_init_offset: "otp_lib os n \<Longrightarrow> wp (FS_OTP_init os) (\<lambda>r t. otp_offset t = n div 2) s"
  unfolding FS_OTP_init_def otp_lib_def
  by (intro wp_intros wp_syscallI) (auto, (metis fst_conv)+)

lemma otp_query: "otp_lib os n \<Longrightarrow> wp (FS_OTPQueryLength os) (\<lambda>r t. r = (0, Some (n div 2))) s"
  unfolding FS_OTPQueryLength_def otp_lib_def
  by (intro wp_intros wp_syscallI) (auto, (metis fst_conv)+)

section \<open>Properties\<close>

text \<open>
  The two modems never touch each other's half of the OTP memory: after \<open>FS_OTP_init\<close>, a read or
  write inside the length that \<open>FS_OTPQueryLength\<close> reports reaches, in the daemon of the first modem,
  only the lower half, and in any other daemon only the upper half.
\<close>

theorem otp_partition:
  assumes lib: "otp_lib os n" and init: "run_state (FS_OTP_init os) s0 = (r0, s)"
    and query: "run_state (FS_OTPQueryLength os) s1 = ((r1, Some L), s2)"
    and inside: "unat Offset + length bs \<le> unat L"
    and op: "op \<in> {FS_OTPRead os Offset buf (of_nat (length bs)), FS_OTPWrite os Offset bs}"
    and run: "run_state op s = (r, t)" and q: "q \<in> set (drop (length (trace s)) (trace t))"
  shows "otp_range q \<subseteq> (if md_id s = 0 then {0..<unat n div 2} else {unat n div 2..<unat n})"
proof -
  have L: "unat L = unat n div 2" using wp_run [OF otp_query [OF lib] query] by (simp add: unat_div)
  have off: "unat (otp_offset s) = unat n div 2"
    using wp_run [OF otp_init_offset [OF lib] init] by (simp add: unat_div)
  let ?st = "unat (otp_start Offset s)"
  have "length bs < 2 ^ 32" using inside unat_u32_less [of L] by simp
  then have "unat (of_nat (length bs) :: u32) = length bs" by (rule unat_of_nat_small)
  then have "wp op (\<lambda>_. same_otp ?st (length bs) s) s"
    using op otp_access_within [of ?st Offset s "length bs" s] by (auto simp: same_otp.R_refl)
  from wp_run [OF this run] have "otp_within ?st (length bs) q"
    using q by (auto simp: same_otp_def issues_def list_all_iff)
  moreover have "?st = (if md_id s = 0 then unat Offset else unat Offset + unat n div 2)"
    using inside L off unat_u32_less [of n] by (auto simp: otp_start_def unat_word_ariths)
  ultimately show ?thesis using inside L by (fastforce simp: otp_within_def split: if_splits)
qed

definition otp_os :: "unit os" where
  "otp_os q w = (res0\<lparr>r_ret := (case q of Sys_otp_get_size \<Rightarrow> 1024 | Sys_otp_read a n \<Rightarrow> 0 | _ \<Rightarrow> 1)\<rparr>, w)"

theorem otp_partition_witness:
  "otp_range (Sys_otp_read 512 16) \<subseteq> {512..<1024}"
proof -
  let ?i = "run_state (FS_OTP_init otp_os) ((idle_fsd ())\<lparr>md_id := 1\<rparr>)"
  let ?q = "run_state (FS_OTPQueryLength otp_os) (idle_fsd ())"
  let ?r = "run_state (FS_OTPRead otp_os 0 0 (of_nat (length (replicate 16 (0 :: u8))))) (snd ?i)"
  have lib: "otp_lib otp_os 1024" by (simp add: otp_lib_def otp_os_def res0_def)
  have q: "?q = ((0, Some 512), snd ?q)"
    by (simp add: FS_OTPQueryLength_def otp_os_def res0_def split: prod.splits)
  have i: "md_id (snd ?i) = 1" "trace (snd ?i) = [Sys_otp_get_libversion, Sys_otp_open, Sys_otp_get_size, Sys_otp_close]"
    "otp_offset (snd ?i) = 512"
    by (simp_all add: FS_OTP_init_def otp_os_def res0_def idle_fsd_def)
  have "Sys_otp_read 512 16 \<in> set (drop (length (trace (snd ?i))) (trace (snd ?r)))"
    by (simp add: FS_OTPRead_def otp_os_def res0_def otp_start_def store_buf_def upd_info_def i fault_def)
  from otp_partition [OF lib surjective_pairing q _ _ surjective_pairing this]
  show ?thesis by (simp add: i)
qed

end
