(* ===== verification/Fsd_Frame.thy ===== *)
theory Fsd_Frame
  imports Fsd_Cmpt Fsd_Packet Fsd_Platform
begin

unbundle bit_operations_syntax

text \<open>
  What no operation of the daemon touches once it is running: the configuration fixed at start-up, the
  reassembly state of the slots (which only the receive loop changes) and the size of the argument
  table. A process that has ended itself stays ended.
\<close>

definition same_setup :: "'w fsd \<Rightarrow> 'w fsd \<Rightarrow> bool" where
  "same_setup s t \<longleftrightarrow> fs_buff_state (g_FsInfo t) = fs_buff_state (g_FsInfo s) \<and>
     fs_buff_offset (g_FsInfo t) = fs_buff_offset (g_FsInfo s) \<and> length (PackInfo t) = length (PackInfo s) \<and>
     FsRootDir t = FsRootDir s \<and> FS_MAX_BUF_SIZE t = FS_MAX_BUF_SIZE s \<and> FS_MAX_ARG_NUM t = FS_MAX_ARG_NUM s \<and>
     stream_support t = stream_support s \<and> DeviceFd t = DeviceFd s \<and> md_id t = md_id s \<and>
     exit_signal t = exit_signal s \<and> (aborted s \<longrightarrow> aborted t)"

interpretation same_setup: env_frame same_setup
  by unfold_locales (auto simp: same_setup_def)

lemma same_setup_simps [simp]:
  "same_setup s (s\<lparr>heap := hp\<rparr>)" "same_setup s (s\<lparr>heap := hp, heap_brk := b\<rparr>)"
  "same_setup s (s\<lparr>slower_100ms := sl\<rparr>)" "same_setup s (s\<lparr>aborted := True\<rparr>)"
  "same_setup s (s\<lparr>locals := lo\<rparr>)" "same_setup s (s\<lparr>hung := hg\<rparr>)"
  "same_setup s (s\<lparr>PackInfo := (PackInfo s)[i := p]\<rparr>)"
  "same_setup s (s\<lparr>g_initialized := b1\<rparr>)" "same_setup s (s\<lparr>g_error := e1\<rparr>)"
  "same_setup s (s\<lparr>g_fds := f1\<rparr>)" "same_setup s (s\<lparr>otp_offset := o1\<rparr>)"
  "same_setup s (s\<lparr>g_FsInfo := (g_FsInfo s)\<lparr>pFsBuf := m\<rparr>\<rparr>)"
  "same_setup s (s\<lparr>g_FsInfo := (g_FsInfo s)\<lparr>FileNum := n\<rparr>\<rparr>)"
  "same_setup s (s\<lparr>g_FsInfo := (g_FsInfo s)\<lparr>hFileHandle := hs\<rparr>\<rparr>)"
  by (simp_all add: same_setup_def)

section \<open>Heap, locals, buffer\<close>

lemma same_setup_state [frame_intros]:
  "frame same_setup hang" "frame same_setup (heap_strdup os str)" "frame same_setup (heap_free p)"
  "frame same_setup (heap_str p)" "frame same_setup (get_handle i)" "frame same_setup (upd_handle i f)"
  "frame same_setup (store_buf a bs)" "frame same_setup (set_local l bs)" "frame same_setup (put_local l off bs)"
  unfolding hang_def heap_strdup_def heap_free_def heap_str_def get_handle_def upd_handle_def upd_info_def
    store_buf_def set_local_def put_local_def
  by (intro frame_intros; simp)+

lemma same_setup_reads [frame_intros]:
  "frame same_setup (log_file_name i)" "frame same_setup (check_handle n)" "frame same_setup FS_GetFreeHandle"
  "frame same_setup (profile el os st)"
  unfolding log_file_name_def check_handle_def FS_GetFreeHandle_def profile_def
  by (intro frame_intros; simp)+

lemma same_setup_FileNum [frame_intros]: "frame same_setup (upd_info (\<lambda>g. g\<lparr>FileNum := f g\<rparr>))"
  "frame same_setup (upd_info (\<lambda>g. g\<lparr>hFileHandle := h g\<rparr>))"
  unfolding upd_info_def by (intro frame_intros; simp)+

section \<open>Open files\<close>

lemma same_setup_dump [frame_intros]:
  "frame same_setup (dump_loop os n head backup new tr)"
  by (induction n arbitrary: backup new tr) (auto intro!: frame_intros)

lemma same_setup_open [frame_intros]:
  "frame same_setup (CCCI_Dump_FS_Path os f)" "frame same_setup (open_path os name i path)"
  unfolding CCCI_Dump_FS_Path_def open_path_def by (intro frame_intros; simp)+

lemma same_setup_open_handle [frame_intros]: "frame same_setup (open_handle os f Flg)"
  unfolding open_handle_def by (intro frame_intros)

lemma same_setup_release [frame_intros]: "frame same_setup (release_handle i)"
  unfolding release_handle_def by (intro frame_intros)

lemma same_setup_close [frame_intros]:
  "frame same_setup (close_search os n h)" "frame same_setup (sync_file os n h)"
  unfolding close_search_def sync_file_def by (intro frame_intros)+

lemma same_setup_close_file [frame_intros]: "frame same_setup (close_file os n h)"
  unfolding close_file_def by (intro frame_intros)

lemma same_setup_close_loop [frame_intros]: "frame same_setup (close_loop os is)"
  by (induction "is") (auto intro!: frame_intros)

lemma same_setup_files [frame_intros]:
  "frame same_setup (FS_CCCI_Open os name Flg)" "frame same_setup (FS_CCCI_Seek os n off wh)"
  "frame same_setup (FS_CCCI_Read os n buf num)" "frame same_setup (FS_CCCI_Write os n bs)"
  "frame same_setup (FS_CCCI_Close os n)" "frame same_setup (FS_CCCI_CloseAll os)"
  "frame same_setup (FS_CCCI_GetFileSize os n)"
  unfolding FS_CCCI_Open_def FS_CCCI_Seek_def FS_CCCI_Read_def FS_CCCI_Write_def FS_CCCI_Close_def
    FS_CCCI_CloseAll_def FS_CCCI_GetFileSize_def Let_def
  by (intro frame_intros)+

lemma same_setup_shutdown [frame_intros]: "frame same_setup (FS_CCCI_ShutDown os)"
  unfolding FS_CCCI_ShutDown_def by (intro frame_intros)

section \<open>Names\<close>

lemma same_setup_with_path [frame_intros]:
  "(\<And>name i path. frame same_setup (k name i path)) \<Longrightarrow> frame same_setup (with_path f k)"
  unfolding with_path_def by (intro frame_intros)

lemma same_setup_attr [frame_intros]:
  "frame same_setup (FS_IsFile os f)" "frame same_setup (FS_IsDIR os f)" "frame same_setup (FS_IsReadOnly os f)"
  "frame same_setup (FS_GetFileDetail os f)" "frame same_setup (FS_CCCI_GetClusterSize os d)"
  unfolding FS_IsFile_def FS_IsDIR_def FS_IsReadOnly_def FS_GetFileDetail_def FS_CCCI_GetClusterSize_def Let_def
  by (intro frame_intros)+

lemma same_setup_attr2 [frame_intros]: "frame same_setup (FS_AttrReconv os f)"
  unfolding FS_AttrReconv_def by (intro frame_intros)

lemma same_setup_entry [frame_intros]:
  "frame same_setup (FS_EntryLinuxToDos os f)" "frame same_setup (store_name d n)"
  unfolding FS_EntryLinuxToDos_def store_name_def Let_def by (intro frame_intros; simp)+

lemma same_setup_found [frame_intros]: "frame same_setup (store_found os d path n)"
  unfolding store_found_def by (intro frame_intros)

lemma same_setup_remove [frame_intros]: "frame same_setup (remove_dir os Flg d)"
  unfolding remove_dir_def by (intro frame_intros)

lemma same_setup_search_loop:
  "(\<And>d. frame same_setup (sub d)) \<Longrightarrow> frame same_setup (search_loop os sub Flg dir p cs width n c)"
  by (induction width arbitrary: n c) (auto intro!: frame_intros)

lemma same_setup_delete_loop:
  "(\<And>d. frame same_setup (sub d)) \<Longrightarrow> frame same_setup (delete_loop os sub Flg dir p width n)"
  by (induction width arbitrary: n) (auto intro!: frame_intros)

lemma same_setup_rec [frame_intros]:
  "frame same_setup (rec_search os width Flg depth dir)" "frame same_setup (rec_delete os width Flg depth dir)"
proof -
  show "frame same_setup (rec_search os width Flg depth dir)"
    by (induction depth arbitrary: dir) (auto intro!: frame_intros same_setup_search_loop)
  show "frame same_setup (rec_delete os width Flg depth dir)"
    by (induction depth arbitrary: dir) (auto intro!: frame_intros same_setup_delete_loop)
qed

lemma same_setup_find_loop [frame_intros]:
  "frame same_setup (find_loop os skip base pat attr amask p width)"
  by (induction width) (auto intro!: frame_intros)

lemma same_setup_copy [frame_intros]:
  "frame same_setup (finish_copy os fd newfd r)"
  unfolding finish_copy_def close_fd_def by (intro frame_intros)

lemma same_setup_names [frame_intros]:
  "frame same_setup (FS_CCCI_CreateDir os name)" "frame same_setup (FS_CCCI_RemoveDir os name)"
  "frame same_setup (FS_CCCI_Rename os name new)" "frame same_setup (FS_CCCI_Delete os name)"
  "frame same_setup (FS_CCCI_GetFolderSize os width name Flg)" "frame same_setup (FS_CCCI_Count os width name Flg)"
  "frame same_setup (FS_CCCI_GetAttributes os name)" "frame same_setup (FS_CCCI_GetFileDetail os name)"
  "frame same_setup (FS_CCCI_XDelete os width name Flg)" "frame same_setup (move_copy os src dst)"
  unfolding FS_CCCI_CreateDir_def FS_CCCI_RemoveDir_def FS_CCCI_Rename_def FS_CCCI_Delete_def
    FS_CCCI_GetFolderSize_def FS_CCCI_Count_def FS_CCCI_GetAttributes_def FS_CCCI_GetFileDetail_def
    FS_CCCI_XDelete_def move_copy_def Let_def FS_RecursiveSearch_def FS_RecursiveDelete_def
  by (intro frame_intros)+

lemma same_setup_move [frame_intros]:
  "frame same_setup (move_overwrite os width dst f r)" "frame same_setup (FS_CCCI_Move os width src dst Flg)"
  unfolding move_overwrite_def FS_CCCI_Move_def by (intro frame_intros)+

section \<open>Searches\<close>

lemma same_setup_find_parts [frame_intros]:
  "frame same_setup (find_names os n pat d path len)" "frame same_setup (find_release i h)"
  "frame same_setup (find_next_found os n old d path len)"
  unfolding find_names_def find_release_def find_next_found_def by (intro frame_intros)+

lemma same_setup_find_install [frame_intros]:
  "frame same_setup (find_install os p attr amask pat d path n)"
  unfolding find_install_def by (intro frame_intros)

lemma same_setup_find [frame_intros]:
  "frame same_setup (FS_CCCI_FindFirst os width pat attr amask n)"
  "frame same_setup (FS_CCCI_FindNext os width h n)" "frame same_setup (FS_CCCI_FindClose os h)"
  unfolding FS_CCCI_FindFirst_def FS_CCCI_FindNext_def FS_CCCI_FindClose_def Let_def
  by (intro frame_intros)+

section \<open>Compound operations\<close>

lemma same_setup_cmpt1 [frame_intros]:
  "frame same_setup (cmpt_fail os h p bm e c)" "frame same_setup (cmptw_fail os h q bm e c)"
  "frame same_setup (cmpt_close os h p bm)" "frame same_setup (cmptw_close os h q bm)"
  unfolding cmpt_fail_def cmptw_fail_def cmpt_close_def cmptw_close_def by (intro frame_intros)+

lemma same_setup_cmpt2 [frame_intros]:
  "frame same_setup (cmpt_read os h p bm)" "frame same_setup (cmptw_write os pb h q bm)"
  unfolding cmpt_read_def cmptw_write_def Let_def by (intro frame_intros)+

lemma same_setup_cmpt3 [frame_intros]:
  "frame same_setup (cmpt_seek os h p bm)" "frame same_setup (cmptw_seek os pb h q bm)"
  unfolding cmpt_seek_def cmptw_seek_def by (intro frame_intros)+

lemma same_setup_cmpt_size [frame_intros]: "frame same_setup (cmpt_size os h p bm)"
  unfolding cmpt_size_def Let_def by (intro frame_intros)

lemma same_setup_cmpt_open [frame_intros]:
  "frame same_setup (cmpt_open os name p)" "frame same_setup (cmptw_open os name pb q)"
  unfolding cmpt_open_def cmptw_open_def by (intro frame_intros)+

lemma same_setup_cmpt [frame_intros]:
  "frame same_setup (FS_CCCI_CMPT_Read os name p)" "frame same_setup (FS_CCCI_CMPT_Write os name q pb)"
  "frame same_setup (FS_CCCI_GetDiskInfo os)" "frame same_setup (FS_CCCI_Restore os name)"
  unfolding FS_CCCI_CMPT_Read_def FS_CCCI_CMPT_Write_def FS_CCCI_GetDiskInfo_def FS_CCCI_Restore_def Let_def
  by (intro frame_intros)+

section \<open>Platform\<close>

lemma same_setup_open_fds [frame_intros]: "frame same_setup (open_fds os ps i)"
proof (induction ps arbitrary: i)
  case Nil
  then show ?case by (auto intro!: frame_intros)
next
  case (Cons p ps)
  then show ?case unfolding open_fds.simps by (intro frame_intros; simp)
qed

lemma same_setup_wake [frame_intros]: "frame same_setup (initialize_fds os)"
  unfolding initialize_fds_def open_file_descriptors_def by (intro frame_intros; simp)

lemma same_setup_platform [frame_intros]:
  "frame same_setup (acquire_wake_lock os l nm)" "frame same_setup (release_wake_lock os nm)"
  "frame same_setup (get_modem_status os)" "frame same_setup (FS_OTP_init os)"
  "frame same_setup (FS_OTPLock os)" "frame same_setup (FS_OTPQueryLength os)"
  "frame same_setup (FS_OTPRead os off buf n)" "frame same_setup (FS_OTPWrite os off bs)"
  unfolding acquire_wake_lock_def release_wake_lock_def get_modem_status_def FS_OTP_init_def
    FS_OTPLock_def FS_OTPQueryLength_def FS_OTPRead_def FS_OTPWrite_def
  by (intro frame_intros; simp)+

lemma same_setup_locks [frame_intros]:
  "frame same_setup (FS_WAKE_LOCK os)" "frame same_setup (FS_WAKE_UNLOCK os)"
  unfolding FS_WAKE_LOCK_def FS_WAKE_UNLOCK_def by (intro frame_intros)+

section \<open>Packets\<close>

text \<open>
  What sending a response changes (the shared buffer, the argument table, the flags that stand for
  an ended or a stuck process) is the same for every relation that ignores those; the interface below
  is met by the handle table's relation and by the one above.
\<close>

lemma frame_pdata [frame_intros]:
  "(\<And>a. p = PBuf a \<Longrightarrow> frame R (m a)) \<Longrightarrow> (\<And>l off. p = PLoc l off \<Longrightarrow> frame R (n l off)) \<Longrightarrow>
   frame R (case p of PBuf a \<Rightarrow> m a | PLoc l off \<Rightarrow> n l off)"
  by (cases p) auto

locale data_frame = env_frame R for R :: "'w fsd \<Rightarrow> 'w fsd \<Rightarrow> bool" +
  assumes R_buffer: "R s (s\<lparr>g_FsInfo := (g_FsInfo s)\<lparr>pFsBuf := m\<rparr>\<rparr>)"
    and R_PackInfo: "R s (s\<lparr>PackInfo := (PackInfo s)[i := p]\<rparr>)"
    and R_abort: "R s (s\<lparr>aborted := True\<rparr>)"
begin

lemma buffer [frame_intros]:
  "frame R (store_buf a bs)" "frame R (read_buf a n)" "frame R (set_PackInfo i len p)"
  unfolding store_buf_def read_buf_def set_PackInfo_def upd_info_def
  by (intro frame_intros R_buffer R_PackInfo)+

lemma words [frame_intros]:
  "frame R (read_word a)" "frame R (FS_PreparePktDone pkt bak)" "frame R (memcpy_buf dst src n)"
  unfolding read_word_def FS_PreparePktDone_def memcpy_buf_def
  by (intro frame_intros)+

lemma pack_loop [frame_intros]: "frame R (pack_loop n i Index base)"
  by (induction n arbitrary: i Index) (auto intro!: frame_intros)

lemma log_packs [frame_intros]: "frame R (log_packs is)"
  by (induction "is") (auto intro!: frame_intros)

lemma prepare [frame_intros]:
  "frame R (FS_GetPackInfo base)" "frame R (FS_PreparePktEx data n src op again)"
  unfolding FS_GetPackInfo_def FS_PreparePktEx_def Let_def by (intro frame_intros R_abort)+

lemma write_args [frame_intros]: "frame R (write_args ps n a)"
  by (induction ps arbitrary: n a) (auto intro!: frame_intros)

lemma write_retry [frame_intros]: "frame R (write_retry os fuel a n)"
  by (induction fuel) (auto intro!: frame_intros)

lemma send_frags [frame_intros]: "frame R (send_frags os slot fs r)"
  by (induction fs arbitrary: r) (auto intro!: frame_intros)

lemma send [frame_intros]:
  "frame R (send_stream os fuel slot n)" "frame R (FS_WriteToMD os fuel idx k)"
  unfolding FS_WriteToMD_def send_stream_def Let_def by (intro frame_intros)+

end

interpretation setup_data: data_frame same_setup
  by unfold_locales simp_all

interpretation table_data: data_frame same_table
  by unfold_locales (simp_all add: same_table_def)

end
