(* ===== verification/Fsd_Main.thy ===== *)
theory Fsd_Main
  imports Fsd_Frame
begin

unbundle bit_operations_syntax

text \<open>
  \<open>main\<close> of \<open>ccci_fsd.c\<close>: start-up, one request served (the \<open>switch\<close> over the operation ids, one
  definition per case), the loop over requests, and the thread that watches the modem status.

  An argument of a request is found through \<open>PackInfo\<close>. A case reads the entries it needs whether
  or not the request has that many arguments, as the code does: an entry that the request did not fill
  is the one that an earlier request or response left there. A file name is read up to its
  terminator, wherever that is; the number of bytes fetched here is what \<open>FS_ConvWcsToCs\<close> can look at.
\<close>

section \<open>Arguments and results\<close>

definition arg_ptr :: "nat \<Rightarrow> ('w fsd, pdata) state" where
  "arg_ptr i = gets (\<lambda>s. pData (PackInfo s ! i))"

definition deref :: "pdata \<Rightarrow> ('w fsd, u32) state" where
  "deref p = (case p of PBuf a \<Rightarrow> read_word a | PLoc l off \<Rightarrow> gets (\<lambda>s. rd32 (load p 4 s)))"

definition arg_word :: "nat \<Rightarrow> ('w fsd, u32) state" where
  "arg_word i = do { p \<leftarrow> arg_ptr i; deref p }"

definition arg_char :: "nat \<Rightarrow> ('w fsd, u8) state" where
  "arg_char i = do { p \<leftarrow> arg_ptr i; gets (\<lambda>s. byte_at (load p 1 s) 0) }"

definition arg_name :: "nat \<Rightarrow> ('w fsd, u8 list) state" where
  "arg_name i = do { p \<leftarrow> arg_ptr i; gets (load p (2 * PATH_MAX + 2)) }"

text \<open>The answer that every case begins with: \<open>RetVal\<close>, and its description in \<open>PackInfo[0]\<close>.\<close>

definition put_RetVal :: "s32 \<Rightarrow> ('w fsd, unit) state" where
  "put_RetVal v = do {
     set_local L_RetVal (le32 v);
     set_PackInfo 0 4 (PLoc L_RetVal 0) }"

definition reply :: "s32 \<Rightarrow> ('w fsd, nat) state" where
  "reply v = do { put_RetVal v; ret 1 }"

section \<open>The cases of the switch\<close>

definition decode_cmpt :: "u8 list \<Rightarrow> nvram_fs_para_cmpt" where
  "decode_cmpt bs = \<lparr>c_opid_map = rd32 bs, c_ret0 = rd32 (drop 4 bs), c_ret1 = rd32 (drop 8 bs),
     c_flag = rd32 (drop 12 bs), c_file_size = rd32 (drop 16 bs), c_offset = rd32 (drop 20 bs),
     c_whence = rd32 (drop 24 bs), c_data_ptr = unat (rd32 (drop 28 bs)), c_length = rd32 (drop 32 bs),
     c_act_read = rd32 (drop 36 bs)\<rparr>"

definition encode_cmpt :: "nvram_fs_para_cmpt \<Rightarrow> u8 list" where
  "encode_cmpt p = le32 (c_opid_map p) @ le32 (c_ret0 p) @ le32 (c_ret1 p) @ le32 (c_flag p) @
     le32 (c_file_size p) @ le32 (c_offset p) @ le32 (c_whence p) @ le32 (of_nat (c_data_ptr p)) @
     le32 (c_length p) @ le32 (c_act_read p)"

definition op_CMPT_READ :: "'w os \<Rightarrow> nat \<Rightarrow> ('w fsd, nat) state" where
  "op_CMPT_READ os buf = do {
     FileName \<leftarrow> arg_name 0;
     p \<leftarrow> arg_ptr 1;
     bs \<leftarrow> gets (load p 40);
     (r, para) \<leftarrow> FS_CCCI_CMPT_Read os FileName ((decode_cmpt bs)\<lparr>c_data_ptr := buf + 36\<rparr>);
     set_local L_cmpt (encode_cmpt para);
     set_local L_RetVal (le32 r);
     set_PackInfo 0 8 (PLoc L_cmpt 4);
     set_PackInfo 1 4 (PLoc L_cmpt 16);
     set_PackInfo 2 4 (PLoc L_cmpt 36);
     set_PackInfo 3 (c_act_read para) (PBuf (c_data_ptr para));
     ret 4 }"

definition decode_cmptw :: "u8 list \<Rightarrow> nvram_fs_para_cmptw" where
  "decode_cmptw bs = \<lparr>w_opid_map = rd32 bs, w_ret0 = rd32 (drop 4 bs), w_ret1 = rd32 (drop 8 bs),
     w_flag = rd32 (drop 12 bs), w_offset = rd32 (drop 16 bs), w_whence = rd32 (drop 20 bs),
     w_data_ptr = rd32 (drop 24 bs), w_length = rd32 (drop 28 bs), w_file_handle = rd32 (drop 32 bs),
     w_file_handle_ptr = rd32 (drop 36 bs), w_act_write_size = rd32 (drop 40 bs)\<rparr>"

definition encode_cmptw :: "nvram_fs_para_cmptw \<Rightarrow> u8 list" where
  "encode_cmptw p = le32 (w_opid_map p) @ le32 (w_ret0 p) @ le32 (w_ret1 p) @ le32 (w_flag p) @
     le32 (w_offset p) @ le32 (w_whence p) @ le32 (w_data_ptr p) @ le32 (w_length p) @
     le32 (w_file_handle p) @ le32 (w_file_handle_ptr p) @ le32 (w_act_write_size p)"

definition op_CMPT_WRITE :: "'w os \<Rightarrow> ('w fsd, nat) state" where
  "op_CMPT_WRITE os = do {
     FileName \<leftarrow> arg_name 0;
     p \<leftarrow> arg_ptr 1;
     bs \<leftarrow> gets (load p 44);
     pBuffer \<leftarrow> arg_ptr 2;
     (r, para) \<leftarrow> FS_CCCI_CMPT_Write os FileName (decode_cmptw bs) pBuffer;
     set_local L_cmptw (encode_cmptw para);
     set_local L_RetVal (le32 r);
     set_PackInfo 0 8 (PLoc L_cmptw 4);
     set_PackInfo 1 4 (PLoc L_cmptw 36);
     set_PackInfo 2 4 (PLoc L_cmptw 40);
     ret 3 }"

definition op_RESTORE :: "'w os \<Rightarrow> ('w fsd, nat) state" where
  "op_RESTORE os = do { FileName \<leftarrow> arg_name 0; r \<leftarrow> FS_CCCI_Restore os FileName; reply r }"

definition op_OPEN :: "'w os \<Rightarrow> ('w fsd, nat) state" where
  "op_OPEN os = do {
     FileName \<leftarrow> arg_name 0; Flg \<leftarrow> arg_word 1;
     r \<leftarrow> FS_CCCI_Open os FileName Flg; reply r }"

definition op_GETFILESIZE :: "'w os \<Rightarrow> ('w fsd, nat) state" where
  "op_GETFILESIZE os = do {
     HandleIndex \<leftarrow> arg_word 0;
     (r, size) \<leftarrow> FS_CCCI_GetFileSize os HandleIndex;
     (case size of None \<Rightarrow> ret () | Some n \<Rightarrow> set_local L_FileSize (le32 n));
     put_RetVal r;
     set_PackInfo 1 4 (PLoc L_FileSize 0);
     ret 2 }"

definition op_SEEK :: "'w os \<Rightarrow> ('w fsd, nat) state" where
  "op_SEEK os = do {
     HandleIndex \<leftarrow> arg_word 0; Offset \<leftarrow> arg_word 1; Whence \<leftarrow> arg_word 2;
     r \<leftarrow> FS_CCCI_Seek os HandleIndex Offset Whence; reply r }"

text \<open>The data of a read goes straight to the place it has in the response.\<close>

definition op_READ :: "'w os \<Rightarrow> nat \<Rightarrow> ('w fsd, nat) state" where
  "op_READ os buf = do {
     HandleIndex \<leftarrow> arg_word 0; NumOfByte \<leftarrow> arg_word 1;
     (r, n) \<leftarrow> FS_CCCI_Read os HandleIndex (buf + 24) NumOfByte;
     (case n of None \<Rightarrow> ret () | Some k \<Rightarrow> set_local L_ReadByte (le32 k));
     put_RetVal r;
     set_PackInfo 1 4 (PLoc L_ReadByte 0);
     ReadByte \<leftarrow> gets (\<lambda>s. rd32 (load (PLoc L_ReadByte 0) 4 s));
     set_PackInfo 2 ReadByte (PBuf (buf + 24));
     ret 3 }"

definition op_WRITE :: "'w os \<Rightarrow> ('w fsd, nat) state" where
  "op_WRITE os = do {
     HandleIndex \<leftarrow> arg_word 0; pBuffer \<leftarrow> arg_ptr 1; NumOfByte \<leftarrow> arg_word 2;
     bs \<leftarrow> gets (load pBuffer (unat NumOfByte));
     (r, n) \<leftarrow> FS_CCCI_Write os HandleIndex bs;
     (case n of None \<Rightarrow> ret () | Some k \<Rightarrow> set_local L_WriteByte (le32 k));
     put_RetVal r;
     set_PackInfo 1 4 (PLoc L_WriteByte 0);
     ret 2 }"

definition op_CLOSE :: "'w os \<Rightarrow> ('w fsd, nat) state" where
  "op_CLOSE os = do { HandleIndex \<leftarrow> arg_word 0; r \<leftarrow> FS_CCCI_Close os HandleIndex; reply r }"

definition op_CLOSEALL :: "'w os \<Rightarrow> ('w fsd, nat) state" where
  "op_CLOSEALL os = do { r \<leftarrow> FS_CCCI_CloseAll os; reply r }"

definition op_CREATEDIR :: "'w os \<Rightarrow> ('w fsd, nat) state" where
  "op_CREATEDIR os = do { DirName \<leftarrow> arg_name 0; r \<leftarrow> FS_CCCI_CreateDir os DirName; reply r }"

definition op_REMOVEDIR :: "'w os \<Rightarrow> ('w fsd, nat) state" where
  "op_REMOVEDIR os = do { DirName \<leftarrow> arg_name 0; r \<leftarrow> FS_CCCI_RemoveDir os DirName; reply r }"

definition op_GETFOLDERSIZE :: "'w os \<Rightarrow> nat \<Rightarrow> ('w fsd, nat) state" where
  "op_GETFOLDERSIZE os width = do {
     DirName \<leftarrow> arg_name 0; Flg \<leftarrow> arg_word 1;
     r \<leftarrow> FS_CCCI_GetFolderSize os width DirName Flg; reply r }"

definition op_RENAME :: "'w os \<Rightarrow> ('w fsd, nat) state" where
  "op_RENAME os = do {
     FileName \<leftarrow> arg_name 0; NewFileName \<leftarrow> arg_name 1;
     r \<leftarrow> FS_CCCI_Rename os FileName NewFileName; reply r }"

definition op_MOVE :: "'w os \<Rightarrow> nat \<Rightarrow> ('w fsd, nat) state" where
  "op_MOVE os width = do {
     SrcFullPath \<leftarrow> arg_name 0; DstFullPath \<leftarrow> arg_name 1; Flg \<leftarrow> arg_word 2;
     r \<leftarrow> FS_CCCI_Move os width SrcFullPath DstFullPath Flg; reply r }"

definition op_COUNT :: "'w os \<Rightarrow> nat \<Rightarrow> ('w fsd, nat) state" where
  "op_COUNT os width = do {
     FullPath \<leftarrow> arg_name 0; Flg \<leftarrow> arg_word 1;
     r \<leftarrow> FS_CCCI_Count os width FullPath Flg; reply r }"

definition op_GETDISKINFO :: "'w os \<Rightarrow> ('w fsd, nat) state" where
  "op_GETDISKINFO os = do {
     r \<leftarrow> FS_CCCI_GetDiskInfo os;
     put_RetVal r;
     set_PackInfo 1 84 (PLoc L_DiskInfo 0);
     ret 2 }"

definition op_DELETE :: "'w os \<Rightarrow> ('w fsd, nat) state" where
  "op_DELETE os = do { FileName \<leftarrow> arg_name 0; r \<leftarrow> FS_CCCI_Delete os FileName; reply r }"

definition op_GETATTRIBUTES :: "'w os \<Rightarrow> ('w fsd, nat) state" where
  "op_GETATTRIBUTES os = do { FileName \<leftarrow> arg_name 0; r \<leftarrow> FS_CCCI_GetAttributes os FileName; reply r }"

definition op_OPENHINT :: "'w os \<Rightarrow> ('w fsd, nat) state" where
  "op_OPENHINT os = do {
     FileName \<leftarrow> arg_name 0; Flg \<leftarrow> arg_word 1;
     r \<leftarrow> FS_CCCI_Open os FileName Flg;
     put_RetVal r;
     hint \<leftarrow> arg_ptr 2;
     set_PackInfo 1 8 hint;
     ret 2 }"

text \<open>The end of both search cases: the entry and the name of the given length.\<close>

definition reply_found :: "s32 \<Rightarrow> u32 \<Rightarrow> ('w fsd, nat) state" where
  "reply_found r max_len = do {
     put_RetVal r;
     set_PackInfo 1 52 (PLoc L_DosDirEntry 0);
     set_PackInfo 2 (if 0 < max_len then (max_len + 1) * 2 else 0) (PLoc L_FileNameTemp 0);
     ret 3 }"

definition op_FINDFIRST :: "'w os \<Rightarrow> nat \<Rightarrow> ('w fsd, nat) state" where
  "op_FINDFIRST os width = do {
     PatternName \<leftarrow> arg_name 0; attr \<leftarrow> arg_char 1; amask \<leftarrow> arg_char 2; max_len \<leftarrow> arg_word 3;
     (r, n) \<leftarrow> FS_CCCI_FindFirst os width PatternName attr amask max_len;
     reply_found r n }"

definition op_FINDNEXT :: "'w os \<Rightarrow> nat \<Rightarrow> ('w fsd, nat) state" where
  "op_FINDNEXT os width = do {
     HandleIndex \<leftarrow> arg_word 0; max_len \<leftarrow> arg_word 1;
     (r, n) \<leftarrow> FS_CCCI_FindNext os width HandleIndex max_len;
     reply_found r n }"

definition op_FINDCLOSE :: "'w os \<Rightarrow> ('w fsd, nat) state" where
  "op_FINDCLOSE os = do { HandleIndex \<leftarrow> arg_word 0; r \<leftarrow> FS_CCCI_FindClose os HandleIndex; reply r }"

definition op_LOCKFAT :: "('w fsd, nat) state" where "op_LOCKFAT = reply FS_NO_ERROR"

definition op_UNLOCKALL :: "('w fsd, nat) state" where "op_UNLOCKALL = reply 1"

definition op_SHUTDOWN :: "'w os \<Rightarrow> ('w fsd, nat) state" where
  "op_SHUTDOWN os = do { FS_CCCI_ShutDown os; ret 0 }"

definition op_XDELETE :: "'w os \<Rightarrow> nat \<Rightarrow> ('w fsd, nat) state" where
  "op_XDELETE os width = do {
     FileName \<leftarrow> arg_name 0; Flg \<leftarrow> arg_word 1;
     r \<leftarrow> FS_CCCI_XDelete os width FileName Flg; reply r }"

definition op_CLEARDISKFLAG :: "('w fsd, nat) state" where "op_CLEARDISKFLAG = reply FS_NO_ERROR"

definition op_GETDRIVE :: "('w fsd, nat) state" where
  "op_GETDRIVE = do {
     Type \<leftarrow> arg_word 0; Serial \<leftarrow> arg_word 1; AltMask \<leftarrow> arg_word 2;
     reply (FS_CCCI_GetDrive Type Serial AltMask) }"

definition op_GETCLUSTERSIZE :: "'w os \<Rightarrow> ('w fsd, nat) state" where
  "op_GETCLUSTERSIZE os = do { DriverIdx \<leftarrow> arg_word 0; r \<leftarrow> FS_CCCI_GetClusterSize os DriverIdx; reply r }"

definition op_SETDISKFLAG :: "('w fsd, nat) state" where "op_SETDISKFLAG = reply FS_NO_ERROR"

definition op_OTP_WRITE :: "'w os \<Rightarrow> ('w fsd, nat) state" where
  "op_OTP_WRITE os = do {
     devtype \<leftarrow> arg_word 0; Offset \<leftarrow> arg_word 1; BufferPtr \<leftarrow> arg_ptr 2; len \<leftarrow> arg_word 3;
     bs \<leftarrow> gets (load BufferPtr (unat len));
     r \<leftarrow> FS_OTPWrite os Offset bs;
     reply r }"

definition op_OTP_READ :: "'w os \<Rightarrow> nat \<Rightarrow> ('w fsd, nat) state" where
  "op_OTP_READ os buf = do {
     devtype \<leftarrow> arg_word 0; Offset \<leftarrow> arg_word 1; len \<leftarrow> arg_word 2;
     r \<leftarrow> FS_OTPRead os Offset (buf + 16) len;
     put_RetVal r;
     set_PackInfo 1 len (PBuf (buf + 16));
     ret 2 }"

definition op_OTP_QUERYLEN :: "'w os \<Rightarrow> ('w fsd, nat) state" where
  "op_OTP_QUERYLEN os = do {
     devtype \<leftarrow> arg_word 0;
     (r, len) \<leftarrow> FS_OTPQueryLength os;
     (case len of None \<Rightarrow> ret () | Some n \<Rightarrow> set_local L_Length (le32 n));
     put_RetVal r;
     set_PackInfo 1 4 (PLoc L_Length 0);
     ret 2 }"

definition op_OTP_LOCK :: "'w os \<Rightarrow> ('w fsd, nat) state" where
  "op_OTP_LOCK os = do { devtype \<leftarrow> arg_word 0; r \<leftarrow> FS_OTPLock os; reply r }"

definition op_BIN_REGION_ACCESS :: "('w fsd, nat) state" where
  "op_BIN_REGION_ACCESS = do { access_type \<leftarrow> arg_word 0; reply (FS_BinRegion_Access access_type) }"

definition op_GETFILEDETAIL :: "'w os \<Rightarrow> ('w fsd, nat) state" where
  "op_GETFILEDETAIL os = do {
     FileName \<leftarrow> arg_name 0;
     r \<leftarrow> FS_CCCI_GetFileDetail os FileName;
     put_RetVal r;
     set_PackInfo 1 24 (PLoc L_FileDetail 0);
     ret 2 }"

text \<open>The operation ids \<open>0x1001\<close> to \<open>0x1025\<close> in their order in \<open>ccci_fsd.h\<close>.\<close>

definition handlers :: "'w os \<Rightarrow> nat \<Rightarrow> nat \<Rightarrow> ('w fsd, nat) state list" where
  "handlers os width buf =
     [op_OPEN os, op_SEEK os, op_READ os buf, op_WRITE os, op_CLOSE os, op_CLOSEALL os, op_CREATEDIR os,
      op_REMOVEDIR os, op_GETFILESIZE os, op_GETFOLDERSIZE os width, op_RENAME os, op_MOVE os width,
      op_COUNT os width, op_GETDISKINFO os, op_DELETE os, op_GETATTRIBUTES os, op_OPENHINT os,
      op_FINDFIRST os width, op_FINDNEXT os width, op_FINDCLOSE os, op_LOCKFAT, op_UNLOCKALL, op_SHUTDOWN os,
      op_XDELETE os width, op_CLEARDISKFLAG, op_GETDRIVE, op_GETCLUSTERSIZE os, op_SETDISKFLAG,
      op_OTP_WRITE os, op_OTP_READ os buf, op_OTP_QUERYLEN os, op_OTP_LOCK os, op_RESTORE os,
      op_CMPT_READ os buf, op_BIN_REGION_ACCESS, op_CMPT_WRITE os, op_GETFILEDETAIL os]"

definition dispatch :: "'w os \<Rightarrow> nat \<Rightarrow> nat \<Rightarrow> u32 \<Rightarrow> ('w fsd, nat) state" where
  "dispatch os width buf OperateID =
     (if 0x1001 \<le> OperateID \<and> OperateID \<le> 0x1025
      then handlers os width buf ! unat (OperateID - 0x1001)
      else reply FS_PARAM_ERROR)"

section \<open>Serving requests\<close>

text \<open>The label \<open>_Next\<close>. \<open>pFsBuf\<close> is a local variable without an initial value: \<open>known\<close> says that an
  earlier request has set it.\<close>

definition finish :: "'w os \<Rightarrow> nat \<Rightarrow> bool \<Rightarrow> u32 \<Rightarrow> nat \<Rightarrow> ('w fsd, unit) state" where
  "finish os fuel known ReqBufIndex PacketNum = do {
     (if ReqBufIndex <s 0 \<or> 5 \<le>s ReqBufIndex then do {
        dev \<leftarrow> gets DeviceFd;
        v \<leftarrow> gets (\<lambda>s. rd32 (load (PLoc L_RetVal 0) 4 s));
        _ \<leftarrow> syscall os (Sys_force_md_assert dev v);
        ret () }
      else do {
        (if known then ret () else fault);
        w \<leftarrow> FS_WriteToMD os fuel ReqBufIndex PacketNum;
        (if w = None then hang else ret ()) });
     FS_WAKE_UNLOCK os }"

definition serve :: "'w os \<Rightarrow> nat \<Rightarrow> nat \<Rightarrow> u32 \<Rightarrow> nat \<Rightarrow> ('w fsd, unit) state" where
  "serve os width fuel ReqBufIndex buf = do {
     ok \<leftarrow> FS_GetPackInfo buf;
     PacketNum \<leftarrow> (if \<not> ok then reply FS_PARAM_ERROR
       else do { OperateID \<leftarrow> read_word (buf - 4); dispatch os width buf OperateID });
     finish os fuel True ReqBufIndex PacketNum }"

definition refuse :: "'w os \<Rightarrow> nat \<Rightarrow> bool \<Rightarrow> u32 \<Rightarrow> ('w fsd, unit) state" where
  "refuse os fuel known ReqBufIndex = do {
     PacketNum \<leftarrow> reply FS_PARAM_ERROR;
     finish os fuel known ReqBufIndex PacketNum }"

text \<open>Packets are read until a request is complete or a header is refused; \<open>fuel\<close> bounds the number of
  reads.\<close>

primrec recv_request :: "'w os \<Rightarrow> nat \<Rightarrow> ('w fsd, (u32 \<times> bool) option) state" where
  "recv_request os 0 = do { hang; ret None }"
| "recv_request os (Suc fuel) = do {
     dev \<leftarrow> gets DeviceFd;
     r \<leftarrow> syscall os (Sys_read dev (of_nat (MAX_FS_PKT_BYTE + 20)));
     if r_ret r \<le>s 0 then recv_request os fuel
     else do {
       FS_WAKE_LOCK os;
       (idx, st) \<leftarrow> recv_packet (r_data r);
       case st of None \<Rightarrow> ret (Some (idx, False))
       | Some complete \<Rightarrow>
           if complete then ret (Some (idx, True))
           else do { FS_WAKE_UNLOCK os; recv_request os fuel } } }"

definition watch_profile :: "'w os \<Rightarrow> ('w fsd, unit) state" where
  "watch_profile os = do {
     mdstatus \<leftarrow> get_modem_status os;
     if mdstatus = CCCI_MD_STA_BOOT_UP then
       modify (\<lambda>s. s\<lparr>slower_100ms := (slower_100ms s)\<lparr>profiling := True\<rparr>\<rparr>)
     else if mdstatus = CCCI_MD_STA_BOOT_READY then
       modify (\<lambda>s. s\<lparr>slower_100ms := \<lparr>profiling = False, slow_count = 0, totaltime = 0\<rparr>\<rparr>)
     else ret () }"

text \<open>One turn of the main loop; the result says whether \<open>pFsBuf\<close> is known afterwards.\<close>

definition main_turn :: "'w os \<Rightarrow> nat \<Rightarrow> nat \<Rightarrow> bool \<Rightarrow> ('w fsd, bool) state" where
  "main_turn os width fuel known = do {
     watch_profile os;
     stream \<leftarrow> gets stream_support;
     if stream then do {
       req \<leftarrow> recv_request os fuel;
       case req of None \<Rightarrow> ret known
       | Some (idx, complete) \<Rightarrow> do {
           slot \<leftarrow> gets (slot_addr idx);
           (if complete then serve os width fuel idx (slot + 20) else refuse os fuel known idx);
           ret (known \<or> complete) } }
     else do {
       dev \<leftarrow> gets DeviceFd;
       r \<leftarrow> syscall os (Sys_fs_ioctl_get_index dev);
       FS_WAKE_LOCK os;
       slot \<leftarrow> gets (slot_addr (r_ret r));
       if r_ret r <s 0 \<or> 5 \<le>s r_ret r then do { refuse os fuel known (r_ret r); ret known }
       else do { serve os width fuel (r_ret r) (slot + 4); ret True } } }"

text \<open>The thread that watches the modem: one event. \<open>event_type\<close> is the word at offset 12.\<close>

definition ccci_status_thread_handle :: "'w os \<Rightarrow> ('w fsd, unit) state" where
  "ccci_status_thread_handle os = do {
     fd \<leftarrow> gets md_status_fd;
     r \<leftarrow> syscall os (Sys_read fd 48);
     if 0 <s r_ret r \<and> rd32 (drop 12 (r_data r)) = MD_STA_EV_STOP then do {
       dev \<leftarrow> gets DeviceFd;
       (if dev <s 0 then ret () else do {
          _ \<leftarrow> syscall os (Sys_close dev);
          modify (\<lambda>s. s\<lparr>DeviceFd := - 1\<rparr>) });
       modify (\<lambda>s. s\<lparr>aborted := True\<rparr>) }
     else ret () }"

definition signal_treatment :: "s32 \<Rightarrow> ('w fsd, unit) state" where
  "signal_treatment param = modify (\<lambda>s. s\<lparr>exit_signal := param\<rparr>)"

section \<open>Starting up\<close>

definition ccci_open_md_status_fd :: "'w os \<Rightarrow> ('w fsd, s32) state" where
  "ccci_open_md_status_fd os = do {
     md \<leftarrow> gets md_id;
     if md \<noteq> 0 \<and> md \<noteq> 2 then ret (- 2)
     else do {
       fd \<leftarrow> syscall os (Sys_open (if md = 0 then ''/dev/ccci_md1_sta'' else ''/dev/ccci_md3_sta'') O_RDWR 0);
       ret (if r_ret fd <s 0 then - 3 else r_ret fd) } }"

primrec ccci_wait_md_status_to_HS1 :: "'w os \<Rightarrow> nat \<Rightarrow> ('w fsd, unit) state" where
  "ccci_wait_md_status_to_HS1 os 0 = hang"
| "ccci_wait_md_status_to_HS1 os (Suc fuel) = do {
     fd \<leftarrow> gets md_status_fd;
     r \<leftarrow> syscall os (Sys_read fd 48);
     if 0 <s r_ret r \<and> rd32 (drop 12 (r_data r)) = MD_STA_EV_HS1 then ret ()
     else ccci_wait_md_status_to_HS1 os fuel }"

text \<open>The device node is tried again while \<open>port_open_retry\<close> lasts.\<close>

primrec open_port :: "'w os \<Rightarrow> string \<Rightarrow> nat \<Rightarrow> ('w fsd, bool) state" where
  "open_port os dev_node 0 = ret False"
| "open_port os dev_node (Suc port_open_retry) = do {
     fd \<leftarrow> syscall os (Sys_open dev_node O_RDWR 0);
     modify (\<lambda>s. s\<lparr>DeviceFd := r_ret fd\<rparr>);
     if r_ret fd <s 0 then
       if 0 < port_open_retry then do {
         _ \<leftarrow> syscall os (Sys_usleep 10000);
         open_port os dev_node port_open_retry }
       else ret False
     else ret True }"

primrec wait_not_init :: "'w os \<Rightarrow> nat \<Rightarrow> ('w fsd, unit) state" where
  "wait_not_init os 0 = hang"
| "wait_not_init os (Suc fuel) = do {
     mdstatus \<leftarrow> get_modem_status os;
     if mdstatus \<noteq> CCCI_MD_STA_INIT then ret ()
     else do { _ \<leftarrow> syscall os (Sys_usleep 100000); wait_not_init os fuel } }"

text \<open>The command line: the modem, its directories and its device node. None is an argument that the
  daemon does not know.\<close>

definition select_modem :: "'w os \<Rightarrow> string option \<Rightarrow> ('w fsd, string option) state" where
  "select_modem os arg = (let setup = (\<lambda>md roots. modify (\<lambda>s. s\<lparr>md_id := md, FsRootDir := roots\<rparr>)) in
     case arg of None \<Rightarrow> do { setup 0 FsRootDir_MD1; ret (Some ''/dev/ccci_fs'') }
     | Some a \<Rightarrow>
         if a = ''0'' then do { n \<leftarrow> ccci_get_node_name os node_row_FS 0; setup 0 FsRootDir_MD1; ret (Some (node_path n)) }
         else if a = ''1'' then do { n \<leftarrow> ccci_get_node_name os node_row_FS 1; setup 1 FsRootDir_MD2; ret (Some (node_path n)) }
         else if a = ''2'' then do { n \<leftarrow> ccci_get_node_name os node_row_FS 2; setup 2 FsRootDir_MD3; ret (Some (node_path n)) }
         else if a = ''4'' then do { n \<leftarrow> ccci_get_node_name os node_row_FS 4; setup 4 FsRootDir_MD5; ret (Some (node_path n)) }
         else ret None)"

definition select_stream :: "'w os \<Rightarrow> ('w fsd, unit) state" where
  "select_stream os = do {
     md \<leftarrow> gets md_id;
     if md = 0 \<or> md = 1 \<or> md = 2 then do {
       v1 \<leftarrow> ccci_get_version os;
       v2 \<leftarrow> (if v1 = 3 then ret v1 else ccci_get_version os);
       v3 \<leftarrow> (if v1 = 3 \<or> v2 = 5 then ret v2 else ccci_get_version os);
       modify (\<lambda>s. s\<lparr>stream_support := (v1 = 3 \<or> v2 = 5 \<or> v3 = 6)\<rparr>) }
     else if md = 4 then modify (\<lambda>s. s\<lparr>stream_support := True\<rparr>)
     else ret () }"

text \<open>The shared buffer and the argument table. In stream mode the buffer is cleared before the null
  pointer is looked for; the result says whether both allocations succeeded.\<close>

definition alloc_buffers :: "'w os \<Rightarrow> ('w fsd, bool) state" where
  "alloc_buffers os = do {
     stream \<leftarrow> gets stream_support;
     p \<leftarrow> (if \<not> stream then do {
         dev \<leftarrow> gets DeviceFd;
         syscall os (Sys_mmap dev (5 * 16388)) }
       else do {
         modify (\<lambda>s. s\<lparr>FS_MAX_BUF_SIZE := 16 + 4 + 4 + 4 * 12 + 0x4000 + 128, FS_MAX_ARG_NUM := 6\<rparr>);
         n \<leftarrow> gets buf_size;
         r \<leftarrow> syscall os (Sys_malloc n);
         (if r_ret r = 0 then fault else upd_info (\<lambda>g. g\<lparr>pFsBuf := (\<lambda>_. 0)\<rparr>));
         ret r });
     nargs \<leftarrow> gets (\<lambda>s. unat (FS_MAX_ARG_NUM s));
     q \<leftarrow> syscall os (Sys_malloc (8 * nargs));
     modify (\<lambda>s. s\<lparr>PackInfo := replicate nargs \<lparr>Length = 0, pData = PLoc L_RetVal 0\<rparr>\<rparr>);
     k \<leftarrow> syscall os (Sys_malloc MAX_FS_BUF_BYTE);
     ret (r_ret q \<noteq> 0 \<and> r_ret k \<noteq> 0 \<and> r_ret p \<noteq> 0) }"

text \<open>From the open device to the loop.\<close>

definition start_service :: "'w os \<Rightarrow> nat \<Rightarrow> ('w fsd, s32 option) state" where
  "start_service os fuel = do {
     t \<leftarrow> syscall os Sys_pthread_create;
     if r_ret t \<noteq> 0 then do { modify (\<lambda>s. s\<lparr>aborted := True\<rparr>); ret (Some 1) }
     else do {
       ok \<leftarrow> alloc_buffers os;
       if \<not> ok then ret (Some (- 1))
       else do {
         wait_not_init os fuel;
         FS_Init os;
         _ \<leftarrow> FS_OTP_init os;
         ret None } } }"

text \<open>\<open>main\<close> up to its loop: Some is the exit code of an early return.\<close>

definition main_start :: "'w os \<Rightarrow> nat \<Rightarrow> string option \<Rightarrow> ('w fsd, s32 option) state" where
  "main_start os fuel arg = do {
     _ \<leftarrow> ccci_get_version os;
     node \<leftarrow> select_modem os arg;
     case node of None \<Rightarrow> ret (Some (- 1))
     | Some dev_node \<Rightarrow> do {
         select_stream os;
         fd \<leftarrow> ccci_open_md_status_fd os;
         modify (\<lambda>s. s\<lparr>md_status_fd := fd\<rparr>);
         if fd <s 0 then ret (Some (- 1))
         else do {
           ccci_wait_md_status_to_HS1 os fuel;
           ok \<leftarrow> open_port os dev_node 600;
           if \<not> ok then ret (Some (- 1)) else start_service os fuel } } }"

text \<open>The memory of a process that has just been loaded: the initial values of the static variables. The
  contents of \<open>main\<close>'s own variables are whatever the stack holds.\<close>

definition loaded :: "'w \<Rightarrow> (flocal \<Rightarrow> u8 list) \<Rightarrow> 'w fsd" where
  "loaded w stack = \<lparr>world = w, trace = [], ub = False,
     g_FsInfo = \<lparr>FileNum = 0, hFileHandle = replicate FS_FILE_MAX \<lparr>fInUse = False, fSearch = False, hFile = 0,
         Flag = 0, Attr = 0, AttrMask = 0, pFsFileName = 0, pFsSearchPattern = 0\<rparr>, pFsBuf = (\<lambda>_. 0),
       fs_buff_state = replicate FS_BUFFER_SLOT_NUM 0, fs_buff_offset = replicate FS_BUFFER_SLOT_NUM 0\<rparr>,
     FsRootDir = replicate FS_MAX_DIR_NUM [], stream_support = False, DeviceFd = 0, FS_MAX_BUF_SIZE = 0x4000,
     FS_MAX_ARG_NUM = 5, md_id = 0, slower_100ms = \<lparr>profiling = False, slow_count = 0, totaltime = 0\<rparr>,
     otp_offset = 0, heap = (\<lambda>_. None), heap_brk = 0, PackInfo = [], locals = stack, aborted = False,
     hung = False, g_initialized = False, g_error = - 1, g_fds = [0, 0], md_status_fd = 0, exit_signal = 0\<rparr>"

text \<open>Leaving the loop.\<close>

definition main_end :: "'w os \<Rightarrow> ('w fsd, unit) state" where
  "main_end os = do {
     dev \<leftarrow> gets DeviceFd;
     _ \<leftarrow> syscall os (Sys_close dev);
     modify (\<lambda>s. s\<lparr>aborted := True\<rparr>) }"

end
