(* ===== verification/Fsd_Run.thy ===== *)
theory Fsd_Run
  imports Fsd_Main
begin

unbundle bit_operations_syntax

text \<open>
  What holds of the daemon as a whole: the invariant that start-up establishes and that every step
  of the running process keeps (a turn of the main loop with any request, an event of the modem
  status thread, a signal, a change of the world), and how requests are answered.
\<close>

section \<open>The cases of the switch keep the invariant\<close>

definition root_tables :: "string list set" where
  "root_tables = {FsRootDir_MD1, FsRootDir_MD2, FsRootDir_MD3, FsRootDir_MD5}"

definition fsd_inv :: "'w fsd \<Rightarrow> bool" where
  "fsd_inv s \<longleftrightarrow> handles_ok s \<and> (aborted s \<or> recv_ok s) \<and>
     5 \<le> length (PackInfo s) \<and> length (PackInfo s) = unat (FS_MAX_ARG_NUM s) \<and>
     FsRootDir s \<in> root_tables"

lemma recv_ok_same_setup: "same_setup s t \<Longrightarrow> aborted s \<or> recv_ok s \<Longrightarrow> aborted t \<or> recv_ok t"
  by (auto simp: same_setup_def recv_ok_def)

lemma fsd_inv_op:
  assumes "keeps handles_ok m" "frame same_setup m" shows "keeps fsd_inv m"
proof (rule keepsI)
  fix s a t assume "fsd_inv s" and r: "run_state m s = (a, t)"
  then show "fsd_inv t"
    using keepsD [OF assms(1) _ r] frameD [OF assms(2) r] recv_ok_same_setup [of s t]
    by (auto simp: fsd_inv_def same_setup_def)
qed

lemma fsd_inv_quiet: "frame same_table m \<Longrightarrow> frame same_setup m \<Longrightarrow> keeps fsd_inv m"
  by (rule fsd_inv_op [OF quiet_handles_ok])

lemmas quiet_both = fsd_inv_quiet [OF same_table.request same_setup.request]

lemma fsd_inv_args [valid_intros]:
  "keeps fsd_inv (arg_ptr i)" "keeps fsd_inv (arg_word i)" "keeps fsd_inv (arg_char i)" "keeps fsd_inv (arg_name i)"
  unfolding arg_ptr_def arg_word_def deref_def arg_char_def arg_name_def
  by (intro fsd_inv_quiet frame_intros)+

lemma fsd_inv_results [valid_intros]:
  "keeps fsd_inv (set_PackInfo i len p)" "keeps fsd_inv (set_local l bs)"
  by (intro fsd_inv_quiet frame_intros)+

lemma fsd_inv_reply [valid_intros]: "keeps fsd_inv (put_RetVal v)" "keeps fsd_inv (reply v)"
  "keeps fsd_inv (reply_found v n)"
  unfolding put_RetVal_def reply_def reply_found_def by (intro valid_intros)+

lemma fsd_inv_files [valid_intros]:
  "keeps fsd_inv (FS_CCCI_Open os name Flg)" "keeps fsd_inv (FS_CCCI_Seek os n off wh)"
  "keeps fsd_inv (FS_CCCI_Read os n buf num)" "keeps fsd_inv (FS_CCCI_Write os n bs)"
  "keeps fsd_inv (FS_CCCI_Close os n)" "keeps fsd_inv (FS_CCCI_CloseAll os)"
  "keeps fsd_inv (FS_CCCI_GetFileSize os n)" "keeps fsd_inv (FS_CCCI_ShutDown os)"
  "keeps fsd_inv (FS_CCCI_FindFirst os width name attr amask k)"
  "keeps fsd_inv (FS_CCCI_FindNext os width n k)" "keeps fsd_inv (FS_CCCI_FindClose os n)"
  by (intro fsd_inv_op valid_intros frame_intros)+

lemma fsd_inv_names [valid_intros]:
  "keeps fsd_inv (FS_CCCI_CreateDir os name)" "keeps fsd_inv (FS_CCCI_RemoveDir os name)"
  "keeps fsd_inv (FS_CCCI_Rename os name new)" "keeps fsd_inv (FS_CCCI_Delete os name)"
  "keeps fsd_inv (FS_CCCI_GetFolderSize os width name Flg)" "keeps fsd_inv (FS_CCCI_Count os width name Flg)"
  "keeps fsd_inv (FS_CCCI_GetAttributes os name)" "keeps fsd_inv (FS_CCCI_GetFileDetail os name)"
  "keeps fsd_inv (FS_CCCI_XDelete os width name Flg)" "keeps fsd_inv (FS_CCCI_Move os width name new Flg)"
  "keeps fsd_inv (FS_CCCI_GetClusterSize os d)"
  by (intro fsd_inv_quiet frame_intros)+

lemma fsd_inv_platform [valid_intros]:
  "keeps fsd_inv (FS_WAKE_LOCK os)" "keeps fsd_inv (FS_WAKE_UNLOCK os)" "keeps fsd_inv (get_modem_status os)"
  "keeps fsd_inv (FS_OTPLock os)" "keeps fsd_inv (FS_OTPQueryLength os)" "keeps fsd_inv (FS_OTP_init os)"
  "keeps fsd_inv (FS_OTPRead os off buf num)" "keeps fsd_inv (FS_OTPWrite os off bs)"
  by (intro fsd_inv_quiet frame_intros)+

lemma fsd_inv_packets [valid_intros]:
  "keeps fsd_inv (FS_GetPackInfo base)" "keeps fsd_inv (FS_WriteToMD os fuel idx n)" "keeps fsd_inv (read_word a)"
  "keeps fsd_inv (syscall os q)" "keeps fsd_inv hang" "keeps fsd_inv fault"
  by (intro fsd_inv_quiet frame_intros)+

lemma CMPT_ok:
  "keeps handles_ok (FS_CCCI_CMPT_Read os name p)" "keeps handles_ok (FS_CCCI_CMPT_Write os name q buf)"
  by (rule keeps_wpI, erule wp_mono [OF CMPT_Read_done], simp add: cmpt_read_done_def case_prod_beta)
    (rule keeps_wpI, erule wp_mono [OF CMPT_Write_done], simp add: cmptw_done_def case_prod_beta)

lemma fsd_inv_cmpt [valid_intros]:
  "keeps fsd_inv (FS_CCCI_CMPT_Read os name p)" "keeps fsd_inv (FS_CCCI_CMPT_Write os name q buf)"
  by (intro fsd_inv_op CMPT_ok frame_intros)+

lemma same_table_put_local [frame_intros]: "frame same_table (put_local l off bs)"
  unfolding put_local_def by (intro frame_intros; simp)

lemma same_table_disk [frame_intros]:
  "frame same_table (FS_CCCI_GetDiskInfo os)" "frame same_table (FS_CCCI_Restore os name)"
  unfolding FS_CCCI_GetDiskInfo_def FS_CCCI_Restore_def by (intro frame_intros)+

lemma fsd_inv_disk [valid_intros]:
  "keeps fsd_inv (FS_CCCI_GetDiskInfo os)" "keeps fsd_inv (FS_CCCI_Restore os name)"
  by (intro fsd_inv_quiet frame_intros)+

lemmas op_defs = op_OPEN_def op_SEEK_def op_READ_def op_WRITE_def op_CLOSE_def op_CLOSEALL_def op_CREATEDIR_def
  op_REMOVEDIR_def op_GETFILESIZE_def op_GETFOLDERSIZE_def op_RENAME_def op_MOVE_def op_COUNT_def
  op_GETDISKINFO_def op_DELETE_def op_GETATTRIBUTES_def op_OPENHINT_def op_FINDFIRST_def op_FINDNEXT_def
  op_FINDCLOSE_def op_LOCKFAT_def op_UNLOCKALL_def op_SHUTDOWN_def op_XDELETE_def op_CLEARDISKFLAG_def
  op_GETDRIVE_def op_GETCLUSTERSIZE_def op_SETDISKFLAG_def op_OTP_WRITE_def op_OTP_READ_def
  op_OTP_QUERYLEN_def op_OTP_LOCK_def op_RESTORE_def op_CMPT_READ_def op_BIN_REGION_ACCESS_def
  op_CMPT_WRITE_def op_GETFILEDETAIL_def

lemma fsd_inv_handlers: "list_all (keeps fsd_inv) (handlers os width buf)"
  unfolding handlers_def list.pred_inject op_defs by (intro conjI list.pred_inject(1) valid_intros)

lemma length_handlers: "length (handlers os width buf) = 37"
  by (simp add: handlers_def)

lemma handler_index:
  assumes "0x1001 \<le> OperateID" "OperateID \<le> 0x1025" shows "unat (OperateID - 0x1001 :: u32) < 37"
proof -
  have "unat (OperateID - 0x1001) = unat OperateID - 0x1001"
    using assms(1) by (simp add: unat_sub word_le_nat_alt)
  then show ?thesis using assms(2) by (simp add: word_le_nat_alt)
qed

lemma fsd_inv_dispatch [valid_intros]: "keeps fsd_inv (dispatch os width buf OperateID)"
  unfolding dispatch_def
  using handler_index [of OperateID] fsd_inv_handlers [of os width buf]
  by (intro valid_intros) (simp add: list_all_length length_handlers)

section \<open>Turns of the loop\<close>

lemma fsd_inv_finish [valid_intros]: "keeps fsd_inv (finish os fuel known idx n)"
  unfolding finish_def by (intro valid_intros)

lemma fsd_inv_serve [valid_intros]:
  "keeps fsd_inv (serve os width fuel idx buf)" "keeps fsd_inv (refuse os fuel known idx)"
  unfolding serve_def refuse_def by (intro valid_intros)+

text \<open>Receiving changes only the buffer and the states of the slots.\<close>

lemma same_table_recv [frame_intros]: "frame same_table (recv_packet pkt)"
  unfolding recv_packet_def recv_last_def recv_more_def copy_pkt_def set_slot_def upd_info_def assert_fail_def Let_def
  by (intro frame_intros) (simp_all add: same_table_def)

definition still_running :: "'w fsd \<Rightarrow> 'w fsd \<Rightarrow> bool" where
  "still_running s t \<longleftrightarrow> (aborted s \<longrightarrow> aborted t) \<and> PackInfo t = PackInfo s \<and>
     FS_MAX_ARG_NUM t = FS_MAX_ARG_NUM s \<and> FsRootDir t = FsRootDir s"

interpretation still_running: env_frame still_running
  by unfold_locales (auto simp: still_running_def)

lemma still_running_recv: "frame still_running (recv_packet pkt)"
  unfolding recv_packet_def recv_last_def recv_more_def copy_pkt_def set_slot_def store_buf_def upd_info_def
    assert_fail_def Let_def
  by (intro frame_intros) (simp_all add: still_running_def)

lemma recv_packet_ok: "keeps recv_ok (recv_packet pkt)"
  unfolding recv_packet_def Let_def
  by (intro valid_intros recv_last_ok recv_more_ok) (auto intro: slot_index_bound)

lemma fsd_inv_recv [valid_intros]: "keeps fsd_inv (recv_packet pkt)"
proof (rule keepsI)
  fix s a t assume "fsd_inv s" and r: "run_state (recv_packet pkt) s = (a, t)"
  then show "fsd_inv t"
    using frameD [OF still_running_recv r] keepsD [OF recv_packet_ok _ r]
      same_table_handles_ok [OF frameD [OF same_table_recv r]]
    by (auto simp: fsd_inv_def still_running_def)
qed

lemma fsd_inv_recv_request [valid_intros]: "keeps fsd_inv (recv_request os fuel)"
  by (induction fuel) (auto intro!: valid_intros)

lemma fsd_inv_profile [simp]: "fsd_inv (s\<lparr>slower_100ms := p\<rparr>) = fsd_inv s"
  by (simp add: fsd_inv_def recv_ok_def)

lemma fsd_inv_watch [valid_intros]: "keeps fsd_inv (watch_profile os)"
  unfolding watch_profile_def by (intro valid_intros) simp_all

lemma fsd_inv_turn: "keeps fsd_inv (main_turn os width fuel known)"
  unfolding main_turn_def by (intro valid_intros)

lemma fsd_inv_status: "keeps fsd_inv (ccci_status_thread_handle os)" "keeps fsd_inv (signal_treatment n)"
  "keeps fsd_inv (main_end os)"
  unfolding ccci_status_thread_handle_def signal_treatment_def main_end_def
  by (intro valid_intros; simp add: fsd_inv_def recv_ok_def handles_ok_def)+

section \<open>Starting up\<close>

text \<open>What start-up keeps until the buffers are allocated; \<open>sel\<close>: a modem has been selected.\<close>

definition starting :: "bool \<Rightarrow> 'w fsd \<Rightarrow> bool" where
  "starting sel s \<longleftrightarrow> length (hFileHandle (g_FsInfo s)) = FS_FILE_MAX \<and> recv_ok s \<and> FS_MAX_ARG_NUM s = 5 \<and>
     (sel \<longrightarrow> FsRootDir s \<in> root_tables)"

lemma starting_simps [simp]:
  "starting sel (s\<lparr>world := w, trace := tr\<rparr>) = starting sel s" "starting sel (s\<lparr>hung := b\<rparr>) = starting sel s"
  "starting sel (s\<lparr>stream_support := b\<rparr>) = starting sel s" "starting sel (s\<lparr>DeviceFd := n\<rparr>) = starting sel s"
  "starting sel (s\<lparr>md_status_fd := n\<rparr>) = starting sel s"
  by (simp_all add: starting_def recv_ok_def)

lemma starting_request [valid_intros]: "keeps (starting sel) (syscall os q)" "keeps (starting sel) hang"
  unfolding hang_def by (intro valid_intros; simp)+

lemma starting_version [valid_intros]: "keeps (starting sel) (ccci_get_version os)"
  unfolding ccci_get_version_def by (intro valid_intros)

lemma starting_node [valid_intros]: "keeps (starting sel) (ccci_get_node_name os row md)"
  unfolding ccci_get_node_name_def by (intro valid_intros)

lemma starting_stream [valid_intros]: "keeps (starting sel) (select_stream os)"
  unfolding select_stream_def by (intro valid_intros; simp)

lemma starting_wait [valid_intros]: "keeps (starting sel) (ccci_wait_md_status_to_HS1 os fuel)"
  by (induction fuel) (auto intro!: valid_intros)

lemma starting_open [valid_intros]:
  "keeps (starting sel) (ccci_open_md_status_fd os)" "keeps (starting sel) (open_port os node n)"
proof -
  show "keeps (starting sel) (ccci_open_md_status_fd os)"
    unfolding ccci_open_md_status_fd_def by (intro valid_intros)
  show "keeps (starting sel) (open_port os node n)"
    by (induction n) (auto intro!: valid_intros)
qed

lemma select_modem_starting:
  "starting False s \<Longrightarrow> wp (select_modem os arg) (\<lambda>r t. starting (r \<noteq> None) t) s"
proof -
  have set: "wp (do { modify (\<lambda>s. s\<lparr>md_id := md, FsRootDir := roots\<rparr>); ret (Some p) }) (\<lambda>r t. starting (r \<noteq> None) t) t"
    if "starting False t" "roots \<in> root_tables" for t :: "'a fsd" and md roots and p :: string
    using that by (simp add: wp_bind wp_modify wp_return starting_def recv_ok_def)
  have node: "wp (do { n \<leftarrow> ccci_get_node_name os node_row_FS k; modify (\<lambda>s. s\<lparr>md_id := md, FsRootDir := roots\<rparr>);
      ret (Some (node_path n)) }) (\<lambda>r t. starting (r \<noteq> None) t) t"
    if "starting False t" "roots \<in> root_tables" for t :: "'a fsd" and k md roots
    by (rule wp_bindI, rule wp_keeps [OF starting_node that(1)], rule set [OF _ that(2)])
  show "wp (select_modem os arg) (\<lambda>r t. starting (r \<noteq> None) t) s" if "starting False s"
    unfolding select_modem_def Let_def
    by (intro wp_optionI wp_ifI set node that wp_returnI) (simp_all add: root_tables_def that)
qed

text \<open>After the buffers are allocated only the handle table is missing.\<close>

definition allocated :: "'w fsd \<Rightarrow> bool" where
  "allocated s \<longleftrightarrow> length (hFileHandle (g_FsInfo s)) = FS_FILE_MAX \<and> recv_ok s \<and> FsRootDir s \<in> root_tables \<and>
     5 \<le> length (PackInfo s) \<and> length (PackInfo s) = unat (FS_MAX_ARG_NUM s)"

lemma allocated_simps [simp]:
  "allocated (s\<lparr>world := w, trace := tr\<rparr>) = allocated s" "allocated (s\<lparr>ub := b\<rparr>) = allocated s"
  "allocated (s\<lparr>hung := b\<rparr>) = allocated s"
  by (simp_all add: allocated_def recv_ok_def)

lemma alloc_buffers_allocated: "starting True s \<Longrightarrow> wp (alloc_buffers os) (\<lambda>_. allocated) s"
  unfolding alloc_buffers_def upd_info_def
  by (auto simp: wp_simps starting_def allocated_def recv_ok_def split: prod.splits)

lemma allocated_wait [valid_intros]: "keeps allocated (wait_not_init os fuel)"
proof -
  have "keeps allocated (get_modem_status os)"
    unfolding get_modem_status_def by (intro valid_intros; simp)
  then show ?thesis
    by (induction fuel) (auto simp: hang_def intro!: valid_intros)
qed

lemma same_setup_init: "frame same_setup (FS_Init os)"
proof -
  have "frame same_setup (check_dirs os ds)" for ds
    by (induction ds) (auto simp: check_dir_def intro!: frame_intros)
  then show ?thesis unfolding FS_Init_def by (intro frame_intros)
qed

lemma FS_Init_inv: "allocated s \<Longrightarrow> wp (FS_Init os) (\<lambda>_ t. fsd_inv t \<and> in_use t = {}) s"
proof (rule wp_intro)
  fix a t assume s: "allocated s" and r: "run_state (FS_Init os) s = (a, t)"
  have "handles_ok t \<and> in_use t = {}"
    using s by (intro wp_run [OF FS_Init_table r]) (simp add: allocated_def)
  then show "fsd_inv t \<and> in_use t = {}"
    using s frameD [OF same_setup_init r] recv_ok_same_setup [of s t]
    by (auto simp: fsd_inv_def allocated_def same_setup_def)
qed

lemma start_service_inv:
  "starting True s \<Longrightarrow> wp (start_service os fuel) (\<lambda>r t. r = None \<longrightarrow> fsd_inv t \<and> in_use t = {}) s"
proof -
  have otp: "wp (FS_OTP_init os) (\<lambda>_ t. fsd_inv t \<and> in_use t = {}) t" if "fsd_inv t \<and> in_use t = {}" for t :: "'a fsd"
    using that keepsD [OF fsd_inv_platform(6)] same_table_in_use [OF frameD [OF same_table_platform(4)]]
    by (intro wp_intro) blast
  have init: "wp (do { FS_Init os; _ \<leftarrow> FS_OTP_init os; ret None })
      (\<lambda>r t. r = None \<longrightarrow> fsd_inv t \<and> in_use t = {}) t" if "allocated t" for t :: "'a fsd"
    by (intro wp_bindI wp_mono [OF FS_Init_inv [OF that]] wp_mono [OF otp] wp_returnI) simp_all
  assume s: "starting True s"
  show "wp (start_service os fuel) (\<lambda>r t. r = None \<longrightarrow> fsd_inv t \<and> in_use t = {}) s"
    unfolding start_service_def
    by (intro wp_bindI wp_syscallI wp_ifI wp_modifyI wp_returnI wp_mono [OF alloc_buffers_allocated]
        wp_keeps [OF allocated_wait] init) (simp_all add: s)
qed

lemma main_start_inv:
  assumes "starting False s"
  shows "wp (main_start os fuel arg) (\<lambda>r t. r = None \<longrightarrow> fsd_inv t \<and> in_use t = {}) s"
  unfolding main_start_def
  by (intro wp_bindI wp_keeps [OF starting_version assms] wp_mono [OF select_modem_starting] wp_optionI
      wp_keeps [OF starting_stream] wp_keeps [OF starting_open(1)] wp_modifyI wp_ifI wp_returnI
      wp_keeps [OF starting_wait] wp_keeps [OF starting_open(2)] start_service_inv; simp)

lemma starting_loaded: "starting False (loaded w stack)"
  by (simp add: starting_def recv_ok_def loaded_def)

section \<open>Answers\<close>

text \<open>What parsing a request changes: the argument table, and the flag of a bad access.\<close>

definition only_args :: "'w fsd \<Rightarrow> 'w fsd \<Rightarrow> bool" where
  "only_args s t \<longleftrightarrow> t\<lparr>PackInfo := [], ub := False\<rparr> = s\<lparr>PackInfo := [], ub := False\<rparr> \<and>
     length (PackInfo t) = length (PackInfo s)"

interpretation only_args: frame_rel only_args
  by unfold_locales (auto simp: only_args_def)

lemma only_args_simps [simp]:
  "only_args s (s\<lparr>ub := u\<rparr>)" "only_args s (s\<lparr>PackInfo := (PackInfo s)[i := p]\<rparr>)"
  by (simp_all add: only_args_def)

lemma only_args_reads [frame_intros]:
  "frame only_args fault" "frame only_args (read_buf a n)" "frame only_args (read_word a)"
  "frame only_args (set_PackInfo i len p)"
  unfolding fault_def read_buf_def read_word_def set_PackInfo_def by (intro frame_intros; simp)+

lemma only_args_loops [frame_intros]:
  "frame only_args (pack_loop n i Index base)" "frame only_args (log_packs is)"
proof -
  show "frame only_args (pack_loop n i Index base)"
    by (induction n arbitrary: i Index) (auto intro!: frame_intros)
  show "frame only_args (log_packs is)"
    by (induction "is") (auto intro!: frame_intros)
qed

lemma only_args_parse: "frame only_args (FS_GetPackInfo base)"
  unfolding FS_GetPackInfo_def by (intro frame_intros)

lemma only_argsD:
  assumes "only_args s t"
  shows "g_FsInfo t = g_FsInfo s" "trace t = trace s" "stream_support t = stream_support s"
    "FS_MAX_BUF_SIZE t = FS_MAX_BUF_SIZE s" "DeviceFd t = DeviceFd s" "length (PackInfo t) = length (PackInfo s)"
proof -
  have e: "t\<lparr>PackInfo := [], ub := False\<rparr> = s\<lparr>PackInfo := [], ub := False\<rparr>" using assms by (simp add: only_args_def)
  show "g_FsInfo t = g_FsInfo s" using arg_cong [OF e, of g_FsInfo] by simp
  show "trace t = trace s" using arg_cong [OF e, of trace] by simp
  show "stream_support t = stream_support s" using arg_cong [OF e, of stream_support] by simp
  show "FS_MAX_BUF_SIZE t = FS_MAX_BUF_SIZE s" using arg_cong [OF e, of FS_MAX_BUF_SIZE] by simp
  show "DeviceFd t = DeviceFd s" using arg_cong [OF e, of DeviceFd] by simp
  show "length (PackInfo t) = length (PackInfo s)" using assms by (simp add: only_args_def)
qed

text \<open>A response with the single argument \<open>RetVal\<close> leaves in one packet of 32 bytes.\<close>

definition short_answer :: "'w fsd \<Rightarrow> nat \<Rightarrow> s32 \<Rightarrow> u8 list" where
  "short_answer s slot v = packet (rd32 (mread (mem s) slot 4) AND NOT CCCI_FS_REQ_SEND_AGAIN) 32
     (rd32 (mread (mem s) (slot + 8) 4) + 1) (rd32 (mread (mem s) (slot + 12) 4))
     (FS_API_RESP_ID OR rd32 (mread (mem s) (slot + 16) 4)) (le32 1 @ le32 4 @ le32 v)"

lemma load_le32: "locals s l = le32 v \<Longrightarrow> load (PLoc l 0) 4 s = le32 v"
  by (simp add: load_def byte_at_def le32_def upt_rec)

lemma short_answer_run:
  assumes os: "writes_ok os" and stream: "stream_support s" and slot: "slot = slot_addr idx s"
    and fits: "36 \<le> unat (FS_MAX_BUF_SIZE s)" "unat (FS_MAX_BUF_SIZE s) < 2 ^ 30" "slot + 32 \<le> buf_size s"
    and arg: "PackInfo s \<noteq> []" "PackInfo s ! 0 = \<lparr>Length = 4, pData = PLoc L_RetVal 0\<rparr>"
      "locals s L_RetVal = le32 v"
  shows "\<exists>t. run_state (FS_WriteToMD os (Suc fuel) idx 1) s = (Some True, t) \<and>
    trace t = trace s @ [Sys_write (DeviceFd s) (short_answer s slot v)]"
proof -
  have "take 1 (PackInfo s) = [\<lparr>Length = 4, pData = PLoc L_RetVal 0\<rparr>]"
    using arg(1,2) by (cases "PackInfo s") simp_all
  then have a: "list_all2 (local_arg s) (take 1 (PackInfo s)) [le32 v]"
    using load_le32 [OF arg(3)] by (simp add: local_arg_def)
  obtain m where m: "run_state (FS_WriteToMD os (Suc fuel) idx 1) s =
      run_state (send_stream os (Suc fuel) slot (of_nat (12 + 20))) (set_mem m s)"
    "mread m slot 16 = mread (mem s) slot 16"
    "mread m (slot + 16) 4 = le32 (FS_API_RESP_ID OR rd32 (mread (mem s) (slot + 16) 4))"
    "mread m (slot + 20) 4 = le32 1" "holds_args m (slot + 24) [le32 v]"
    using FS_WriteToMD_fill [OF stream a, of slot idx os "Suc fuel"] slot fits by (auto simp: arg_size_def)
  have w: "mread m (slot + k) 4 = mread (mem s) (slot + k) 4" if "k + 4 \<le> 16" for k
    using mread_mread [OF that, of m slot] mread_mread [OF that, of "mem s" slot] m(2) by simp
  have pay: "mread m (slot + 20) 12 = le32 1 @ le32 4 @ le32 v"
    using m(4,5) mread_append [of m "slot + 20" 4 8] mread_append [of m "slot + 24" 4 4]
    by (simp add: add.commute)
  have plan: "frag_plan 0 12 = [(0, 12, False)]" by (simp add: frag_plan.simps)
  obtain t where "run_state (send_stream os (Suc fuel) slot (of_nat (12 + 20))) (set_mem m s) = (Some True, t)"
    "trace t = trace s @ [Sys_write (DeviceFd s) (frag_packet (rd32 (mread m slot 4))
       (rd32 (mread m (slot + 8) 4) + 1) (rd32 (mread m (slot + 12) 4)) (rd32 (mread m (slot + 16) 4))
       (mread m (slot + 20) 12) (0, 12, False))]"
    using send_stream_run [OF os, of 12 slot "set_mem m s", OF _ _ _ refl refl refl refl refl] fits(3)
    by (auto simp: plan)
  then show ?thesis
    using m(1) w [of 0] w [of 8] w [of 12] m(3) pay
    by (simp add: short_answer_def frag_packet_def again_flag_def)
qed

text \<open>The requests that taking or releasing the wake lock makes.\<close>

definition wake_request :: "sysreq \<Rightarrow> bool" where
  "wake_request q \<longleftrightarrow> (\<exists>fd. q = Sys_write fd (bytes ''ccci_fsd'')) \<or>
     (\<exists>p \<in> set (NEW_PATHS @ OLD_PATHS). q = Sys_open p (O_RDWR OR O_CLOEXEC) 0)"

lemma wake_modify [frame_intros]: "(\<And>s. trace (f s) = trace s) \<Longrightarrow> frame (issues P) (modify f)"
  by (rule frame_modify) (simp add: issues_same_trace)

lemma wake_open_fds:
  "set ps \<subseteq> set (NEW_PATHS @ OLD_PATHS) \<Longrightarrow> frame (issues wake_request) (open_fds os ps i)"
  by (induction ps arbitrary: i) (auto simp: wake_request_def intro!: frame_intros)

lemma wake_unlock_issues: "frame (issues wake_request) (FS_WAKE_UNLOCK os)"
  unfolding FS_WAKE_UNLOCK_def release_wake_lock_def initialize_fds_def open_file_descriptors_def
  by (intro frame_intros wake_open_fds) (auto simp: wake_request_def)

lemma serve_short:
  assumes os: "writes_ok os" and stream: "stream_support s" and slot: "slot = slot_addr idx s"
    and fits: "36 \<le> unat (FS_MAX_BUF_SIZE s)" "unat (FS_MAX_BUF_SIZE s) < 2 ^ 30" "slot + 32 \<le> buf_size s"
    and arg: "PackInfo s \<noteq> []" and idx: "\<not> idx <s 0" "\<not> 5 \<le>s idx"
  shows "\<exists>t qs. run_state (do { n \<leftarrow> reply v; finish os (Suc fuel) True idx n }) s = ((), t) \<and>
    trace t = trace s @ Sys_write (DeviceFd s) (short_answer s slot v) # qs \<and> list_all wake_request qs"
proof -
  let ?s = "s\<lparr>locals := (locals s)(L_RetVal := le32 v),
    PackInfo := (PackInfo s)[0 := \<lparr>Length = 4, pData = PLoc L_RetVal 0\<rparr>]\<rparr>"
  have same: "slot_addr idx ?s = slot_addr idx s" "buf_size ?s = buf_size s" "short_answer ?s slot v = short_answer s slot v"
    by (simp_all add: slot_addr_def buf_size_def slot_head_def short_answer_def)
  have r: "run_state (reply v) s = (1, ?s)"
    by (simp add: reply_def put_RetVal_def set_local_def set_PackInfo_def)
  obtain t where t: "run_state (FS_WriteToMD os (Suc fuel) idx 1) ?s = (Some True, t)"
      "trace t = trace s @ [Sys_write (DeviceFd s) (short_answer s slot v)]"
    using short_answer_run [OF os, of ?s slot idx v fuel] stream slot fits arg same by auto
  have "issues wake_request t (snd (run_state (FS_WAKE_UNLOCK os) t))"
    using wake_unlock_issues [of os] by (simp add: frame_def)
  then obtain qs where "trace (snd (run_state (FS_WAKE_UNLOCK os) t)) = trace t @ qs" "list_all wake_request qs"
    by (auto simp: issues_def)
  moreover have "run_state (do { n \<leftarrow> reply v; finish os (Suc fuel) True idx n }) s = run_state (FS_WAKE_UNLOCK os) t"
    using t(1) idx by (simp add: r finish_def)
  ultimately show ?thesis using t(2) by (cases "run_state (FS_WAKE_UNLOCK os) t") auto
qed

lemma serve_unfold_short:
  assumes "\<And>ok t. run_state (FS_GetPackInfo buf) s = (ok, t) \<Longrightarrow> ok \<Longrightarrow>
      dispatch os width buf (rd32 (mread (mem s) (buf - 4) 4)) = reply v"
    and "run_state (FS_GetPackInfo buf) s = (ok, t)" "4 \<le> buf" "buf \<le> buf_size s"
    and "\<not> ok \<Longrightarrow> v = FS_PARAM_ERROR"
  shows "run_state (serve os width fuel idx buf) s = run_state (do { n \<leftarrow> reply v; finish os fuel True idx n }) t"
proof -
  have "buf_size t = buf_size s" "mem t = mem s"
    using only_argsD [OF frameD [OF only_args_parse assms(2)]] by (simp_all add: buf_size_def slot_head_def)
  then have "run_state (read_word (buf - 4)) t = (rd32 (mread (mem s) (buf - 4) 4), t)"
    using read_word_run [of "buf - 4" t] assms(3,4) by simp
  then show ?thesis using assms(1) [OF assms(2)] assms(2,5) by (simp add: serve_def)
qed

section \<open>The running process\<close>

text \<open>
  The steps of the process: a turn of the loop while no signal has arrived, an event read by the status
  thread, a signal, the end of the loop, and a change in the world outside. The status thread is taken
  to act between turns.
\<close>

inductive fsd_step :: "'w os \<Rightarrow> nat \<Rightarrow> nat \<Rightarrow> 'w fsd \<times> bool \<Rightarrow> 'w fsd \<times> bool \<Rightarrow> bool"
  for os width fuel where
  turn: "\<lbrakk>\<not> aborted s; exit_signal s = 0; run_state (main_turn os width fuel known) s = (known', t)\<rbrakk>
     \<Longrightarrow> fsd_step os width fuel (s, known) (t, known')"
| status: "\<lbrakk>\<not> aborted s; run_state (ccci_status_thread_handle os) s = ((), t)\<rbrakk>
     \<Longrightarrow> fsd_step os width fuel (s, known) (t, known)"
| signal: "\<lbrakk>\<not> aborted s; run_state (signal_treatment n) s = ((), t)\<rbrakk>
     \<Longrightarrow> fsd_step os width fuel (s, known) (t, known)"
| leave: "\<lbrakk>\<not> aborted s; exit_signal s \<noteq> 0; run_state (main_end os) s = ((), t)\<rbrakk>
     \<Longrightarrow> fsd_step os width fuel (s, known) (t, known)"
| outside: "fsd_step os width fuel (s, known) (s\<lparr>world := w\<rparr>, known)"

inductive fsd_reach :: "'w os \<Rightarrow> nat \<Rightarrow> nat \<Rightarrow> string option \<Rightarrow> 'w fsd \<times> bool \<Rightarrow> bool"
  for os width fuel arg where
  start: "run_state (main_start os fuel arg) (loaded w stack) = (None, t) \<Longrightarrow> fsd_reach os width fuel arg (t, False)"
| step: "\<lbrakk>fsd_reach os width fuel arg x; fsd_step os width fuel x y\<rbrakk> \<Longrightarrow> fsd_reach os width fuel arg y"

inductive_cases fsd_step_cases: "fsd_step os width fuel x y"

lemma fsd_inv_world [simp]: "fsd_inv (s\<lparr>world := w\<rparr>) = fsd_inv s"
  by (simp add: fsd_inv_def recv_ok_def handles_ok_def)

lemma fsd_step_inv: "fsd_step os width fuel x y \<Longrightarrow> fsd_inv (fst x) \<Longrightarrow> fsd_inv (fst y)"
  by (erule fsd_step_cases) (auto dest: keepsD [OF fsd_inv_turn] keepsD [OF fsd_inv_status(1)]
      keepsD [OF fsd_inv_status(2)] keepsD [OF fsd_inv_status(3)])

text \<open>A turn that read no request within its bound is marked as stuck.\<close>

lemma recv_request_None: "run_state (recv_request os fuel) s = (None, t) \<Longrightarrow> hung t"
proof (induction fuel arbitrary: s)
  case 0
  then show ?case by (auto simp: hang_def)
next
  case (Suc fuel)
  then show ?case
    by (auto split: prod.splits if_splits option.splits)
qed

definition lock_released :: "'w fsd \<Rightarrow> bool" where
  "lock_released t \<longleftrightarrow> (g_error t = 0 \<longrightarrow> trace t \<noteq> [] \<and> last (trace t) = Sys_write (g_fds t ! 1) (bytes ''ccci_fsd''))"

lemma wp_tail: "(\<And>a t. wp (f a) Q t) \<Longrightarrow> wp (State_Monad.bind m f) Q s"
  by (simp add: wp_bind) (simp add: wp_def case_prod_beta)

lemma unlock_releases: "wp (FS_WAKE_UNLOCK os) (\<lambda>_. lock_released) s"
proof -
  have "wp (do { e \<leftarrow> gets g_error; if e \<noteq> 0 then ret e else do {
       fd \<leftarrow> gets (\<lambda>s. g_fds s ! 1);
       r \<leftarrow> syscall os (Sys_write fd (bytes ''ccci_fsd''));
       ret (if r_ret r <s 0 then - r_errno r else r_ret r) } }) (\<lambda>_. lock_released) u" for u :: "'a fsd"
    by (simp add: wp_simps lock_released_def split: prod.splits)
  then have rel: "wp (release_wake_lock os ''ccci_fsd'') (\<lambda>_. lock_released) s"
    unfolding release_wake_lock_def by (rule wp_tail)
  show ?thesis unfolding FS_WAKE_UNLOCK_def by (intro wp_bindI wp_mono [OF rel] wp_returnI)
qed

lemma finish_releases: "wp (finish os fuel known idx n) (\<lambda>_. lock_released) s"
  unfolding finish_def by (rule wp_tail, rule unlock_releases)

lemma serve_releases:
  "wp (serve os width fuel idx buf) (\<lambda>_. lock_released) s" "wp (refuse os fuel known idx) (\<lambda>_. lock_released) s"
  unfolding serve_def refuse_def by (intro wp_tail finish_releases)+

lemma main_turn_releases: "wp (main_turn os width fuel known) (\<lambda>_ t. hung t \<or> lock_released t) s"
proof -
  let ?Q = "\<lambda>_ t. hung t \<or> lock_released t"
  have after: "wp (do { m; ret k }) ?Q t" if "wp m (\<lambda>_. lock_released) t" for m k and t :: "'a fsd"
    using that by (simp add: wp_bind wp_return wp_def case_prod_beta)
  have stream: "wp (do { req \<leftarrow> recv_request os fuel;
       case req of None \<Rightarrow> ret known
       | Some (idx, complete) \<Rightarrow> do {
           slot \<leftarrow> gets (slot_addr idx);
           (if complete then serve os width fuel idx (slot + 20) else refuse os fuel known idx);
           ret (known \<or> complete) } }) ?Q t" for t
  proof (rule wp_bindI, rule wp_intro)
    fix req u assume r: "run_state (recv_request os fuel) t = (req, u)"
    show "wp (case req of None \<Rightarrow> ret known | Some (idx, complete) \<Rightarrow> do {
        slot \<leftarrow> gets (slot_addr idx);
        (if complete then serve os width fuel idx (slot + 20) else refuse os fuel known idx);
        ret (known \<or> complete) }) ?Q u"
      using recv_request_None [of os fuel t u] r
      by (intro wp_optionI wp_returnI wp_prodI wp_bindI [of "gets _"] wp_getsI after wp_ifI serve_releases) auto
  qed
  show ?thesis
    unfolding main_turn_def
    by (rule wp_tail, rule wp_bindI, rule wp_getsI, rule wp_ifI, rule stream)
      (intro wp_tail wp_ifI after serve_releases)
qed

section \<open>The device node\<close>

definition is_open :: "sysreq \<Rightarrow> bool" where
  "is_open q \<longleftrightarrow> (\<exists>p fl m. q = Sys_open p fl m)"

lemma is_open_simps [simp]: "is_open (Sys_open p fl m)" "\<not> is_open (Sys_usleep n)"
  by (simp_all add: is_open_def)

lemma open_port_opens:
  "run_state (open_port os node n) s = (ok, t) \<Longrightarrow>
   \<exists>qs. trace t = trace s @ qs \<and> length (filter is_open qs) \<le> n \<and> (\<not> ok \<longrightarrow> length (filter is_open qs) = n) \<and>
     (ok \<longrightarrow> \<not> DeviceFd t <s 0)"
proof (induction n arbitrary: s)
  case (Suc n)
  obtain r w where o: "os (Sys_open node O_RDWR 0) (world s) = (r, w)" by fastforce
  let ?u = "s\<lparr>world := w, trace := trace s @ [Sys_open node O_RDWR 0], DeviceFd := r_ret r\<rparr>"
  consider (opened) "\<not> r_ret r <s 0" | (last) "r_ret r <s 0" "n = 0" | (again) "r_ret r <s 0" "0 < n" by blast
  then show ?case
  proof cases
    case again
    obtain r2 w2 where z: "os (Sys_usleep 10000) w = (r2, w2)" by fastforce
    have "run_state (open_port os node n) (?u\<lparr>world := w2, trace := trace ?u @ [Sys_usleep 10000]\<rparr>) = (ok, t)"
      using Suc.prems again o z by simp
    then obtain qs where "trace t = trace ?u @ [Sys_usleep 10000] @ qs" "length (filter is_open qs) \<le> n"
        "\<not> ok \<longrightarrow> length (filter is_open qs) = n" "ok \<longrightarrow> \<not> DeviceFd t <s 0"
      using Suc.IH by fastforce
    then show ?thesis
      by (intro exI [of _ "Sys_open node O_RDWR 0 # Sys_usleep 10000 # qs"]) simp
  qed (use Suc.prems o in auto)
qed simp

section \<open>Modems without a status device\<close>

lemma md_id_version [valid_intros]: "keeps (\<lambda>s. P (md_id s)) (ccci_get_version os)"
  unfolding ccci_get_version_def by (intro valid_intros) simp_all

lemma md_id_stream [valid_intros]: "keeps (\<lambda>s. P (md_id s)) (select_stream os)"
  unfolding select_stream_def by (intro valid_intros) simp_all

lemma select_other:
  "wp (select_modem os (Some ''1'')) (\<lambda>r t. r \<noteq> None \<and> md_id t \<notin> {0, 2}) s"
  "wp (select_modem os (Some ''4'')) (\<lambda>r t. r \<noteq> None \<and> md_id t \<notin> {0, 2}) s"
proof -
  have "wp (do { n \<leftarrow> m; modify (\<lambda>s. s\<lparr>md_id := md, FsRootDir := roots\<rparr>); ret (Some (node_path n)) })
      (\<lambda>r t. r \<noteq> None \<and> md_id t \<notin> {0, 2}) s" if "md \<notin> {0, 2}" for m md roots and s :: "'a fsd"
    by (rule wp_tail) (use that in \<open>simp add: wp_simps\<close>)
  then show "wp (select_modem os (Some ''1'')) (\<lambda>r t. r \<noteq> None \<and> md_id t \<notin> {0, 2}) s"
    "wp (select_modem os (Some ''4'')) (\<lambda>r t. r \<noteq> None \<and> md_id t \<notin> {0, 2}) s"
    unfolding select_modem_def Let_def by simp_all
qed

lemma main_start_unknown:
  assumes "\<And>s. wp (select_modem os arg) (\<lambda>r t. r \<noteq> None \<and> md_id t \<notin> {0, 2}) s"
  shows "wp (main_start os fuel arg) (\<lambda>r _. r = Some (- 1)) s"
proof -
  have fail: "wp (do { fd \<leftarrow> ccci_open_md_status_fd os; modify (\<lambda>s. s\<lparr>md_status_fd := fd\<rparr>);
      if fd <s 0 then ret (Some (- 1)) else f fd }) (\<lambda>r _. r = Some (- 1)) t" if "md_id t \<notin> {0, 2}" for f t
    using that by (simp add: ccci_open_md_status_fd_def wp_simps word_sless_alt)
  have "wp (select_stream os) (\<lambda>_ t. md_id t \<notin> {0, 2}) t" if "md_id t \<notin> {0, 2}" for t
    using md_id_stream [of "\<lambda>m. m \<notin> {0, 2}"] that by (rule wp_keeps)
  note stream = wp_mono [OF this]
  show ?thesis
    unfolding main_start_def
    by (rule wp_tail, rule wp_bindI, rule wp_mono [OF assms])
      (auto intro!: wp_bindI [of "select_stream os"] stream fail)
qed

section \<open>Properties\<close>

text \<open>
  C1: In every state the daemon can reach, from any start that gets as far as the main loop, through any
  sequence of requests, status events, signals and changes outside, the handle table satisfies its
  invariant, every slot of the receive buffer is idle or waiting unless the process has ended itself, the
  argument table has its full size and the drive table is one of the four modems' own.
\<close>

theorem fsd_reachable_inv: "fsd_reach os width fuel arg x \<Longrightarrow> fsd_inv (fst x)"
proof (induction rule: fsd_reach.induct)
  case (start w stack t)
  then show ?case using wp_run [OF main_start_inv [OF starting_loaded] start] by simp
next
  case (step x y)
  then show ?case using fsd_step_inv by blast
qed

text \<open>A kernel and a driver that answer every request, for the example: version 3 (stream mode), event HS1.\<close>

definition boot_os :: "unit os" where
  "boot_os q w = (res0\<lparr>r_ret := (if q = Sys_pthread_create then 0 else 1), r_name := Some ''ready'',
     r_data := [51, 0, 0, 0, 0, 0, 0, 0, 0, 0, 0, 0] @ le32 9\<rparr>, w)"

lemma boot_os_simps [simp]:
  "r_ret (fst (boot_os q w)) = (if q = Sys_pthread_create then 0 else 1)" "r_name (fst (boot_os q w)) = Some ''ready''"
  "byte_at (r_data (fst (boot_os q w))) 0 = 51" "rd32 (drop 12 (r_data (fst (boot_os q w)))) = 9"
  by (simp_all add: boot_os_def res0_def byte_at_def)

lemma boot_version:
  "run_state (ccci_get_version boot_os) s = (3, s\<lparr>trace := trace s @
     [Sys_open ''/sys/kernel/ccci/version'' 0 0, Sys_read 1 2, Sys_close 1]\<rparr>)"
  by (simp add: ccci_get_version_def case_prod_beta word_sless_alt)

lemma boot_results:
  "fst (run_state (select_modem boot_os (Some ''0'')) s) = Some ''/dev/ccci_fs''"
  "md_id (snd (run_state (select_modem boot_os (Some ''0'')) s)) = 0"
  "md_id (snd (run_state (select_stream boot_os) s)) = md_id s"
  "md_id s = 0 \<Longrightarrow> fst (run_state (ccci_open_md_status_fd boot_os) s) = 1"
  "fst (run_state (open_port boot_os node (Suc n)) s)"
  "fst (run_state (alloc_buffers boot_os) s)"
  by (simp_all add: select_modem_def ccci_get_node_name_def node_row_FS_def node_path_def boot_version
      select_stream_def ccci_open_md_status_fd_def alloc_buffers_def word_sless_alt case_prod_beta)

lemma boot_start: "fst (run_state (start_service boot_os fuel) s) = None"
  using boot_results(6) by (simp add: start_service_def case_prod_beta)

lemma boot_main: "fst (run_state (main_start boot_os fuel (Some ''0'')) s) = None"
proof -
  have "wp (main_start boot_os fuel (Some ''0'')) (\<lambda>r _. r = None) s"
    unfolding main_start_def
    using boot_results(5) [of _ 599] boot_start
    by (auto simp: wp_def case_prod_beta boot_version boot_results word_sless_alt)
  then show ?thesis by (simp add: wp_def case_prod_beta)
qed

theorem fsd_reachable_inv_witness:
  "\<exists>t. run_state (main_start boot_os 5 (Some ''0'')) (loaded () (\<lambda>_. [])) = (None, t) \<and>
     fsd_reach boot_os 9 5 (Some ''0'') (t\<lparr>world := ()\<rparr>, False) \<and> fsd_inv (t\<lparr>world := ()\<rparr>)"
proof -
  obtain t where t: "run_state (main_start boot_os 5 (Some ''0'')) (loaded () (\<lambda>_. [])) = (None, t)"
    using boot_main [of 5 "loaded () (\<lambda>_. [])"] by (metis prod.collapse)
  have r: "fsd_reach boot_os 9 5 (Some ''0'') (t\<lparr>world := ()\<rparr>, False)" by (rule step [OF start [OF t] outside])
  with fsd_reachable_inv [OF r] t show ?thesis by auto
qed

text \<open>
  C32: A request whose operation id the daemon does not know is answered, and with the parameter
  error: in stream mode, when the device takes every write, exactly one packet goes to the device, on
  the channel of the request plus one, for the same slot, marked as the response to that id and carrying the
  error as its only argument, whatever the rest of the request holds; then only the wake lock is
  dealt with.
\<close>

theorem unknown_op_answered:
  assumes "writes_ok os" "stream_support s" "slot = slot_addr idx s"
    and "36 \<le> unat (FS_MAX_BUF_SIZE s)" "unat (FS_MAX_BUF_SIZE s) < 2 ^ 30" "slot + 32 \<le> buf_size s"
    and "PackInfo s \<noteq> []" "\<not> idx <s 0" "\<not> 5 \<le>s idx"
    and op: "rd32 (mread (mem s) (slot + 16) 4) < 0x1001 \<or> 0x1025 < rd32 (mread (mem s) (slot + 16) 4)"
  shows "\<exists>t qs. run_state (serve os width (Suc fuel) idx (slot + 20)) s = ((), t) \<and>
    trace t = trace s @ Sys_write (DeviceFd s) (short_answer s slot FS_PARAM_ERROR) # qs \<and>
    list_all wake_request qs"
proof -
  obtain ok u where p: "run_state (FS_GetPackInfo (slot + 20)) s = (ok, u)" by fastforce
  note same = only_argsD [OF frameD [OF only_args_parse p]]
  have "dispatch os width (slot + 20) (rd32 (mread (mem s) (slot + 20 - 4) 4)) = reply FS_PARAM_ERROR"
    using op by (auto simp: dispatch_def add.commute)
  then have run: "run_state (serve os width (Suc fuel) idx (slot + 20)) s =
      run_state (do { n \<leftarrow> reply FS_PARAM_ERROR; finish os (Suc fuel) True idx n }) u"
    using assms(6) p by (intro serve_unfold_short) simp_all
  have answer: "short_answer u slot v = short_answer s slot v" for v
    by (simp add: short_answer_def same)
  have "slot_addr idx u = slot_addr idx s" "buf_size u = buf_size s" "PackInfo u \<noteq> []"
    using assms(7) same(6) by (auto simp: slot_addr_def buf_size_def slot_head_def same(3,4))
  then have "\<exists>t qs. run_state (do { n \<leftarrow> reply FS_PARAM_ERROR; finish os (Suc fuel) True idx n }) u = ((), t) \<and>
      trace t = trace u @ Sys_write (DeviceFd u) (short_answer u slot FS_PARAM_ERROR) # qs \<and> list_all wake_request qs"
    using assms same(3,4) by (intro serve_short) simp_all
  then show ?thesis by (simp only: run answer same(2,5))
qed

definition unknown_fsd :: "unit fsd" where
  "unknown_fsd = reply_fsd\<lparr>g_FsInfo := (g_FsInfo reply_fsd)\<lparr>pFsBuf := mwrite (mem reply_fsd) 16 (le32 0x2000)\<rparr>\<rparr>"

theorem unknown_op_answered_witness:
  "\<exists>t qs. run_state (serve taking 3 1 0 20) unknown_fsd = ((), t) \<and>
    trace t = Sys_write 3 (short_answer unknown_fsd 0 (- 2)) # qs \<and> list_all wake_request qs \<and>
    short_answer unknown_fsd 0 (- 2) = packet 0 32 0x0E 0 0xFFFF2000 (le32 1 @ le32 4 @ le32 (- 2))"
proof -
  have m: "mem unknown_fsd = mwrite (mwrite (\<lambda>_. 0) 8 (le32 0x0D)) 16 (le32 0x2000)"
    by (simp add: unknown_fsd_def reply_fsd_def)
  have s: "stream_support unknown_fsd" "slot_addr 0 unknown_fsd = 0" "buf_size unknown_fsd = 83020"
      "FS_MAX_BUF_SIZE unknown_fsd = 16584" "DeviceFd unknown_fsd = 3" "trace unknown_fsd = []" "PackInfo unknown_fsd \<noteq> []"
    by (simp_all add: unknown_fsd_def reply_fsd_def idle_fsd_def slot_addr_def buf_size_def slot_head_def)
  have w: "mread (mem unknown_fsd) 0 4 = le32 0" "mread (mem unknown_fsd) 8 4 = le32 0x0D"
      "mread (mem unknown_fsd) 12 4 = le32 0" "mread (mem unknown_fsd) 16 4 = le32 0x2000"
    unfolding m by (simp_all add: mread_def mwrite_def le32_def upt_rec)
  have "short_answer unknown_fsd 0 (- 2) = packet 0 32 0x0E 0 0xFFFF2000 (le32 1 @ le32 4 @ le32 (- 2))"
    by (simp add: short_answer_def w)
  then show ?thesis
    using unknown_op_answered [OF writes_ok_taking, of unknown_fsd 0 0 3 0] s w(4)
    by (auto simp: word_sless_alt word_sle_eq)
qed

text \<open>
  C33: A turn of the main loop that does not get stuck leaves with the wake lock released: the last request
  of the turn writes the lock's name to the unlock file, whatever the request was and however it ended
  (unless the lock files could not be opened at all).
\<close>

theorem turn_releases_wake_lock:
  assumes "run_state (main_turn os width fuel known) s = (known', t)" "\<not> hung t" "g_error t = 0"
  shows "trace t \<noteq> [] \<and> last (trace t) = Sys_write (g_fds t ! 1) (bytes ''ccci_fsd'')"
  using wp_run [OF main_turn_releases assms(1)] assms(2,3) by (simp add: lock_released_def)

theorem turn_releases_wake_lock_witness:
  "\<exists>known t. run_state (main_turn (answering 7) 3 2 False) ((idle_fsd ())\<lparr>stream_support := False\<rparr>) = (known, t) \<and>
     last (trace t) = Sys_write 7 (bytes ''ccci_fsd'')"
proof -
  let ?r = "run_state (main_turn (answering 7) 3 2 False) ((idle_fsd ())\<lparr>stream_support := False\<rparr>)"
  have "\<not> hung (snd ?r) \<and> g_error (snd ?r) = 0 \<and> g_fds (snd ?r) ! 1 = 7" by code_simp
  then show ?thesis
    using turn_releases_wake_lock [OF surjective_pairing, of "answering 7" 3 2 False "(idle_fsd ())\<lparr>stream_support := False\<rparr>"]
    by (metis surjective_pairing)
qed

text \<open>
  The daemon of modem 2 or 5 never starts: with argument 1 or 4 \<open>main\<close> returns -1 before it
  opens the device, because \<open>ccci_open_md_status_fd\<close> knows modems 1 and 3 only.
\<close>

theorem modems_2_and_5_never_start:
  "fst (run_state (main_start os fuel (Some ''1'')) s) = Some (- 1) \<and>
   fst (run_state (main_start os fuel (Some ''4'')) s) = Some (- 1)"
  using main_start_unknown [OF select_other(1), of os fuel s] main_start_unknown [OF select_other(2), of os fuel s]
  by (simp add: wp_def case_prod_beta)

text \<open>
  The device node is opened at most 600 times: a start that gives up has tried exactly that often,
  and one that succeeds holds a valid descriptor.
\<close>

theorem open_port_bounded:
  assumes "run_state (open_port os node n) s = (ok, t)"
  shows "\<exists>qs. trace t = trace s @ qs \<and> length (filter is_open qs) \<le> n \<and>
    (\<not> ok \<longrightarrow> length (filter is_open qs) = n) \<and> (ok \<longrightarrow> \<not> DeviceFd t <s 0)"
  by (rule open_port_opens [OF assms])

theorem open_port_bounded_witness:
  "\<exists>t. run_state (open_port (answering (- 1)) ''/dev/ccci_fs'' 2) (idle_fsd ()) = (False, t) \<and>
     length (filter is_open (trace t)) = 2"
proof -
  let ?r = "run_state (open_port (answering (- 1)) ''/dev/ccci_fs'' 2) (idle_fsd ())"
  have "\<not> fst ?r" by code_simp
  then show ?thesis
    using open_port_bounded [OF surjective_pairing, of "answering (- 1)" "''/dev/ccci_fs''" 2 "idle_fsd ()"]
    by (intro exI [of _ "snd ?r"]) (auto simp: prod_eq_iff)
qed

text \<open>
  The parameter blocks of the compound operations survive the copy between the request, the daemon's
  variable and the response: decoding the 40 (or 44) bytes of an encoded block gives the block back.
\<close>

theorem cmpt_block_round_trip:
  "c_data_ptr p < 2 ^ 32 \<Longrightarrow> decode_cmpt (encode_cmpt p) = p \<and> length (encode_cmpt p) = 40 \<and>
   decode_cmptw (encode_cmptw q) = q \<and> length (encode_cmptw q) = 44"
  by (simp add: decode_cmpt_def encode_cmpt_def decode_cmptw_def encode_cmptw_def unat_of_nat)

theorem cmpt_block_round_trip_witness:
  "decode_cmpt (encode_cmpt (cmpt_args 0x25)) = cmpt_args 0x25 \<and>
   decode_cmptw (encode_cmptw (cmptw_args 0x35 (- 1))) = cmptw_args 0x35 (- 1)"
  using cmpt_block_round_trip [of "cmpt_args 0x25" "cmptw_args 0x35 (- 1)"] by (simp add: cmpt_args_def)

end
