(* ===== verification/Otp_Storage.thy ===== *)
theory Otp_Storage
  imports Ccci_Env
begin

unbundle bit_operations_syntax

text \<open>
  The library \<open>libstorage_otp\<close>, through which the file-system daemon reaches one-time-programmable memory:
  \<open>storage_otp.c\<close> and its two back ends \<open>emmc.cpp\<close> and \<open>ufs.cpp\<close>. The OTP partition is divided into regions,
  one per user.

  The library runs in the caller's process; its requests to the kernel and the C library are a type of
  their own, \<open>devreq\<close>. Sizes and offsets are 64-bit words, and results that the code keeps in an \<open>int\<close> are
  truncated where it does so. \<open>unsigned long\<close> has 64 bits. The function pointers of \<open>struct otp\<close> are
  represented by the back end they belong to; \<open>read\<close> and \<open>write\<close> are null in both, so the code for devices
  that have them is never entered.
\<close>

section \<open>The environment\<close>

text \<open>\<open>Dev_mmc_cmd\<close> is the \<open>ioctl\<close> \<open>MMC_IOC_CMD\<close>: opcode, argument, size of the answer.\<close>

datatype devreq =
    Dev_open string u32
  | Dev_close s32
  | Dev_lseek s32 u64
  | Dev_read s32 u64
  | Dev_write s32 "u8 list"
  | Dev_mmc_cmd s32 u32 u32 nat
  | Dev_readlink string
  | Dev_fopen string
  | Dev_fgets
  | Dev_fclose
  | Dev_malloc u64
  | Dev_uname

text \<open>The result as the 64 bits of a \<open>ssize_t\<close>, \<open>errno\<close>, the bytes delivered and a line or name.\<close>

record devres =
  d_ret :: u64
  d_errno :: s32
  d_data :: "u8 list"
  d_name :: "string option"

type_synonym 'w dev_os = "devreq \<Rightarrow> 'w \<Rightarrow> devres \<times> 'w"

type_synonym 'w otpenv = "(devreq, 'w) env"

definition int_ret :: "devres \<Rightarrow> s32" where
  "int_ret r = ucast (d_ret r)"

text \<open>A block of memory from \<open>malloc\<close>: what it holds comes from the environment.\<close>

definition fresh_buffer :: "u64 \<Rightarrow> devres \<Rightarrow> u8 list" where
  "fresh_buffer n r = take (unat n) (d_data r @ replicate (unat n) 0)"

text \<open>The prefix of a buffer is overwritten.\<close>

definition overwrite :: "u8 list \<Rightarrow> u8 list \<Rightarrow> u8 list" where
  "overwrite buf bs = bs @ drop (length bs) buf"

section \<open>The device\<close>

abbreviation (input) MAX_USER_NUM :: nat where "MAX_USER_NUM \<equiv> 4"
abbreviation (input) WP_TEMPORARY :: u32 where "WP_TEMPORARY \<equiv> 0"
abbreviation (input) WP_POWER_ON :: u32 where "WP_POWER_ON \<equiv> 1"
abbreviation (input) WP_PERMANENT :: u32 where "WP_PERMANENT \<equiv> 2"
abbreviation (input) WP_DISABLE :: u32 where "WP_DISABLE \<equiv> 3"

record otp_region =
  user_id :: u32
  start :: u64
  size_of :: u64

datatype otp_ops = NULL_ops | EMMC_ops | UFS_ops

record otp =
  ops :: otp_ops
  otp_blk_path :: string
  blk_sz :: u64
  wp_grp_size :: u64
  otp_begin :: u64
  otp_size :: u64
  partition_start :: u64
  current_user_id :: u32
  region :: "otp_region list"
  max_user_num :: u32

text \<open>The device as \<open>otp_open\<close> clears it.\<close>

definition otp_zero :: otp where
  "otp_zero = \<lparr>ops = NULL_ops, otp_blk_path = [], blk_sz = 0, wp_grp_size = 0, otp_begin = 0, otp_size = 0,
     partition_start = 0, current_user_id = 0,
     region = replicate MAX_USER_NUM \<lparr>user_id = 0, start = 0, size_of = 0\<rparr>, max_user_num = 0\<rparr>"

section \<open>Block access\<close>

definition OTP_BLOCK_PATH :: string where
  "OTP_BLOCK_PATH = ''/dev/block/platform/bootdevice/by-name/otp''"

definition emmc_block_read :: "'w dev_os \<Rightarrow> otp \<Rightarrow> u8 list \<Rightarrow> u64 \<Rightarrow> u64 \<Rightarrow> ('w otpenv, s32 \<times> u8 list) state" where
  "emmc_block_read os d buffer blk_offset blknr = do {
     fd \<leftarrow> syscall os (Dev_open OTP_BLOCK_PATH O_RDONLY);
     let blksz = ucast (ucast (blk_sz d) :: u32);
     if int_ret fd <s 0 then ret (- 1, buffer)
     else do {
       k \<leftarrow> syscall os (Dev_lseek (int_ret fd) (blk_offset * blksz));
       if int_ret k <s 0 then do { _ \<leftarrow> syscall os (Dev_close (int_ret fd)); ret (d_errno k, buffer) }
       else do {
         r \<leftarrow> syscall os (Dev_read (int_ret fd) (blknr * blksz));
         _ \<leftarrow> syscall os (Dev_close (int_ret fd));
         ret (if int_ret r <s 0 then (d_errno r, buffer) else (0, overwrite buffer (d_data r))) } } }"

definition emmc_block_write :: "'w dev_os \<Rightarrow> otp \<Rightarrow> u8 list \<Rightarrow> u64 \<Rightarrow> u64 \<Rightarrow> ('w otpenv, s32) state" where
  "emmc_block_write os d buffer blk_offset blknr = do {
     fd \<leftarrow> syscall os (Dev_open OTP_BLOCK_PATH O_WRONLY);
     let blksz = ucast (ucast (blk_sz d) :: u32);
     if int_ret fd <s 0 then ret (d_errno fd)
     else do {
       k \<leftarrow> syscall os (Dev_lseek (int_ret fd) (blk_offset * blksz));
       if int_ret k <s 0 then do { _ \<leftarrow> syscall os (Dev_close (int_ret fd)); ret (d_errno k) }
       else do {
         r \<leftarrow> syscall os (Dev_write (int_ret fd) (take (unat (blknr * blksz)) buffer));
         _ \<leftarrow> syscall os (Dev_close (int_ret fd));
         ret (if int_ret r \<noteq> ucast blknr * 512 then d_errno r else 0) } } }"

abbreviation (input) UFS_BLOCK_SIZE :: u64 where "UFS_BLOCK_SIZE \<equiv> 4096"
abbreviation (input) UFS_OTP_REGION_SIZE_BYTE :: u64 where "UFS_OTP_REGION_SIZE_BYTE \<equiv> 0x100000"
abbreviation (input) DEVICE_BLOCK_UNIT_SIZE :: u64 where "DEVICE_BLOCK_UNIT_SIZE \<equiv> 512"

text \<open>The common part: the descriptor is moved only when the block is not the first; \<open>Inl\<close> is \<open>errno\<close>.\<close>

definition ufs_seek :: "'w dev_os \<Rightarrow> u32 \<Rightarrow> u64 \<Rightarrow> ('w otpenv, s32 + s32) state" where
  "ufs_seek os flags start_blk = do {
     fd \<leftarrow> syscall os (Dev_open OTP_BLOCK_PATH flags);
     if int_ret fd <s 0 then ret (Inl (d_errno fd))
     else if start_blk = 0 then ret (Inr (int_ret fd))
     else do {
       k \<leftarrow> syscall os (Dev_lseek (int_ret fd) (start_blk * UFS_BLOCK_SIZE));
       if d_ret k <s 0 then do { _ \<leftarrow> syscall os (Dev_close (int_ret fd)); ret (Inl (d_errno k)) }
       else ret (Inr (int_ret fd)) } }"

definition ufs_block_read :: "'w dev_os \<Rightarrow> otp \<Rightarrow> u8 list \<Rightarrow> u64 \<Rightarrow> u64 \<Rightarrow> ('w otpenv, s32 \<times> u8 list) state" where
  "ufs_block_read os d buffer start_blk blknr = do {
     k \<leftarrow> ufs_seek os O_RDONLY start_blk;
     case k of Inl e \<Rightarrow> ret (e, buffer)
     | Inr fd \<Rightarrow> do {
         r \<leftarrow> syscall os (Dev_read fd (blknr * UFS_BLOCK_SIZE));
         _ \<leftarrow> syscall os (Dev_close fd);
         ret (if int_ret r <s 0 then (int_ret r, buffer) else (0, overwrite buffer (d_data r))) } }"

definition ufs_block_write :: "'w dev_os \<Rightarrow> otp \<Rightarrow> u8 list \<Rightarrow> u64 \<Rightarrow> u64 \<Rightarrow> ('w otpenv, s32) state" where
  "ufs_block_write os d buffer start_blk blknr = do {
     k \<leftarrow> ufs_seek os O_RDWR start_blk;
     case k of Inl e \<Rightarrow> ret e
     | Inr fd \<Rightarrow> do {
         r \<leftarrow> syscall os (Dev_write fd (take (unat (blknr * UFS_BLOCK_SIZE)) buffer));
         _ \<leftarrow> syscall os (Dev_close fd);
         ret (if int_ret r <s 0 then int_ret r else 0) } }"

section \<open>Write protection\<close>

definition mmc_command :: "'w dev_os \<Rightarrow> u32 \<Rightarrow> u32 \<Rightarrow> nat \<Rightarrow> ('w otpenv, s32 + devres) state" where
  "mmc_command os opcode arg n = do {
     fd \<leftarrow> syscall os (Dev_open OTP_BLOCK_PATH O_RDWR);
     if int_ret fd <s 0 then ret (Inl (d_errno fd))
     else do {
       r \<leftarrow> syscall os (Dev_mmc_cmd (int_ret fd) opcode arg n);
       _ \<leftarrow> syscall os (Dev_close (int_ret fd));
       ret (Inr r) } }"

text \<open>The commands without an answer return what the \<open>ioctl\<close> does.\<close>

definition mmc_plain :: "'w dev_os \<Rightarrow> u32 \<Rightarrow> u32 \<Rightarrow> ('w otpenv, s32) state" where
  "mmc_plain os opcode arg = do {
     r \<leftarrow> mmc_command os opcode arg 0;
     ret (case r of Inl e \<Rightarrow> e | Inr a \<Rightarrow> int_ret a) }"

abbreviation (input) MMC_SWITCH :: u32 where "MMC_SWITCH \<equiv> 6"
abbreviation (input) MMC_SET_WRITE_PROT :: u32 where "MMC_SET_WRITE_PROT \<equiv> 28"
abbreviation (input) MMC_CLR_WRITE_PROT :: u32 where "MMC_CLR_WRITE_PROT \<equiv> 29"
abbreviation (input) MMC_SEND_WRITE_PROT :: u32 where "MMC_SEND_WRITE_PROT \<equiv> 30"
abbreviation (input) MMC_SEND_WRITE_PROT_TYPE :: u32 where "MMC_SEND_WRITE_PROT_TYPE \<equiv> 31"
abbreviation (input) EXT_CSD_USR_WP :: u32 where "EXT_CSD_USR_WP \<equiv> 171"
abbreviation (input) EXT_CSD_USR_WP_EN_PERM_WP :: u32 where "EXT_CSD_USR_WP_EN_PERM_WP \<equiv> 4"
abbreviation (input) EXT_CSD_USR_WP_EN_PWR_WP :: u32 where "EXT_CSD_USR_WP_EN_PWR_WP \<equiv> 1"

definition emmc_set_usr_wp :: "'w dev_os \<Rightarrow> u32 \<Rightarrow> ('w otpenv, s32) state" where
  "emmc_set_usr_wp os prot = mmc_plain os MMC_SWITCH
     (push_bit 24 1 OR push_bit 16 EXT_CSD_USR_WP OR push_bit 8 prot OR 1)"

definition emmc_clr_usr_wp :: "'w dev_os \<Rightarrow> ('w otpenv, s32) state" where
  "emmc_clr_usr_wp os = mmc_plain os MMC_SWITCH
     (push_bit 24 2 OR push_bit 16 EXT_CSD_USR_WP OR
      push_bit 8 (EXT_CSD_USR_WP_EN_PERM_WP OR EXT_CSD_USR_WP_EN_PWR_WP) OR 1)"

definition emmc_set_write_protect :: "'w dev_os \<Rightarrow> u32 \<Rightarrow> ('w otpenv, s32) state" where
  "emmc_set_write_protect os blknr = mmc_plain os MMC_SET_WRITE_PROT blknr"

definition emmc_clear_write_protect :: "'w dev_os \<Rightarrow> u32 \<Rightarrow> ('w otpenv, s32) state" where
  "emmc_clear_write_protect os blknr = mmc_plain os MMC_CLR_WRITE_PROT blknr"

text \<open>The result, and what is stored when it is 0.\<close>

definition emmc_get_write_protect_status :: "'w dev_os \<Rightarrow> u32 \<Rightarrow> ('w otpenv, s32 \<times> u32) state" where
  "emmc_get_write_protect_status os blknr = do {
     r \<leftarrow> mmc_command os MMC_SEND_WRITE_PROT blknr 4;
     ret (case r of Inl e \<Rightarrow> (e, 0)
       | Inr a \<Rightarrow> if int_ret a \<noteq> 0 then (- 1, 0) else (0, drop_bit 24 (rd32 (d_data a)) AND 1)) }"

definition emmc_get_write_protect_type :: "'w dev_os \<Rightarrow> u32 \<Rightarrow> ('w otpenv, s32 \<times> u32) state" where
  "emmc_get_write_protect_type os blknr = do {
     r \<leftarrow> mmc_command os MMC_SEND_WRITE_PROT_TYPE blknr 8;
     ret (case r of Inl e \<Rightarrow> (e, 0)
       | Inr a \<Rightarrow> if int_ret a \<noteq> 0 then (- 1, 0)
           else let t = drop_bit 24 (rd32 (drop 4 (d_data a))) AND 3 in
             (0, if t = 1 then WP_TEMPORARY else if t = 2 then WP_POWER_ON
                 else if t = 3 then WP_PERMANENT else WP_DISABLE)) }"

text \<open>The groups of a region, one command each.\<close>

primrec group_loop :: "(u32 \<Rightarrow> ('w otpenv, s32) state) \<Rightarrow> u64 \<Rightarrow> u64 \<Rightarrow> nat list \<Rightarrow> ('w otpenv, s32) state" where
  "group_loop cmd start_block grp [] = ret 0"
| "group_loop cmd start_block grp (i # is) = do {
     r \<leftarrow> cmd (ucast (start_block + of_nat i * grp));
     if r \<noteq> 0 then ret (- EINVAL) else group_loop cmd start_block grp is }"

definition emmc_otp_lock :: "'w dev_os \<Rightarrow> u32 \<Rightarrow> u64 \<Rightarrow> u64 \<Rightarrow> u64 \<Rightarrow> ('w otpenv, s32) state" where
  "emmc_otp_lock os ty start_block group_count grp = do {
     c \<leftarrow> emmc_clr_usr_wp os;
     if c \<noteq> 0 then ret (- EINVAL)
     else do {
       p \<leftarrow> (if ty = WP_POWER_ON then emmc_set_usr_wp os EXT_CSD_USR_WP_EN_PWR_WP else ret 0);
       if p \<noteq> 0 then ret (- EINVAL)
       else do {
         g \<leftarrow> group_loop (emmc_set_write_protect os) start_block grp [0..<unat group_count];
         if g \<noteq> 0 then ret g
         else do {
           e \<leftarrow> emmc_clr_usr_wp os;
           ret (if e \<noteq> 0 then - EINVAL else 0) } } } }"

definition emmc_otp_unlock :: "'w dev_os \<Rightarrow> u64 \<Rightarrow> u64 \<Rightarrow> u64 \<Rightarrow> ('w otpenv, s32) state" where
  "emmc_otp_unlock os start_block group_count grp =
     group_loop (emmc_clear_write_protect os) start_block grp [0..<unat group_count]"

text \<open>The last two components are the caller's \<open>status\<close> and \<open>type\<close>.\<close>

definition emmc_otp_get_status ::
  "'w dev_os \<Rightarrow> u64 \<Rightarrow> u64 \<Rightarrow> u32 \<times> u32 \<Rightarrow> ('w otpenv, s32 \<times> u32 \<times> u32) state" where
  "emmc_otp_get_status os start_block group_count st =
     (if 32 < group_count then ret (- EINVAL, st)
      else do {
        (r, wp_status) \<leftarrow> emmc_get_write_protect_status os (ucast start_block);
        if r \<noteq> 0 then ret (- EINVAL, st)
        else do {
          (q, wp_type) \<leftarrow> emmc_get_write_protect_type os (ucast start_block);
          if q \<noteq> 0 then ret (- EINVAL, st)
          else ret (0, wp_status, if wp_type = WP_TEMPORARY then WP_PERMANENT else wp_type) } })"

definition ufs_set_wp :: "'w dev_os \<Rightarrow> u32 \<Rightarrow> ('w otpenv, s32) state" where
  "ufs_set_wp os ty = do {
     fd \<leftarrow> syscall os (Dev_open OTP_BLOCK_PATH O_RDWR);
     if int_ret fd <s 0 then ret (d_errno fd)
     else if ty \<noteq> WP_PERMANENT then do { _ \<leftarrow> syscall os (Dev_close (int_ret fd)); ret (- EINVAL) }
     else do {
       k \<leftarrow> syscall os (Dev_lseek (int_ret fd) (UFS_OTP_REGION_SIZE_BYTE div UFS_BLOCK_SIZE * 4 * UFS_BLOCK_SIZE));
       if d_ret k <s 0 then do { _ \<leftarrow> syscall os (Dev_close (int_ret fd)); ret (d_errno k) }
       else do {
         r \<leftarrow> syscall os (Dev_write (int_ret fd) (bytes ''LOCK'' @ replicate 4092 0));
         _ \<leftarrow> syscall os (Dev_close (int_ret fd));
         ret (if int_ret r <s 0 then int_ret r else 0) } } }"

definition ufs_otp_lock :: "'w dev_os \<Rightarrow> u32 \<Rightarrow> ('w otpenv, s32) state" where
  "ufs_otp_lock os ty =
     (if ty = WP_PERMANENT then do { r \<leftarrow> ufs_set_wp os ty; ret (if r \<noteq> 0 then - EINVAL else 0) } else ret 0)"

text \<open>Neither unlocks nor looks for the mark that \<open>ufs_set_wp\<close> leaves.\<close>

definition ufs_otp_unlock :: "('w otpenv, s32) state" where
  "ufs_otp_unlock = ret 0"

definition ufs_otp_get_status :: "u32 \<times> u32 \<Rightarrow> ('w otpenv, s32 \<times> u32 \<times> u32) state" where
  "ufs_otp_get_status st = ret (0, st)"

section \<open>The geometry of the partition\<close>

text \<open>The first line of a file of \<open>sysfs\<close> as a number; \<open>Inl\<close> is \<open>errno\<close>.\<close>

definition read_number_line :: "'w dev_os \<Rightarrow> string \<Rightarrow> ('w otpenv, s32 + u64) state" where
  "read_number_line os path = do {
     fp \<leftarrow> syscall os (Dev_fopen path);
     if d_ret fp = 0 then ret (Inl (d_errno fp))
     else do {
       l \<leftarrow> syscall os Dev_fgets;
       _ \<leftarrow> syscall os Dev_fclose;
       ret (case d_name l of None \<Rightarrow> Inl (d_errno l) | Some str \<Rightarrow> Inr (strtoul0 str)) } }"

definition get_wp_grp_size :: "'w dev_os \<Rightarrow> ('w otpenv, u64) state" where
  "get_wp_grp_size os = do {
     n \<leftarrow> read_number_line os ''/sys/class/mmc_host/mmc0/mmc0:0001/wp_grp_size'';
     ret (case n of Inl e \<Rightarrow> 0 | Inr v \<Rightarrow> v div 512) }"

text \<open>\<open>sscanf\<close> with \<open>/dev/block/%s\<close>.\<close>

definition block_name :: "string \<Rightarrow> string" where
  "block_name path = (if take 11 path = ''/dev/block/'' then
     takeWhile (\<lambda>c. \<not> c_space c) (dropWhile c_space (drop 11 path)) else [])"

text \<open>
  The start and size of the partition, in units of 512 bytes: \<open>disk\<close> is the directory of the device in
  \<open>sysfs\<close>. The name must fit into an array of 129 bytes.
\<close>

definition partition_range :: "'w dev_os \<Rightarrow> string \<Rightarrow> string \<Rightarrow> ('w otpenv, s32 + u64 \<times> u64) state" where
  "partition_range os sysdir path = do {
     m \<leftarrow> syscall os (Dev_malloc 4096);
     if d_ret m = 0 then ret (Inl (- EINVAL))
     else do {
       let name = block_name path;
       (if 128 < length name then fault else ret ());
       let base = take 4095 (sysdir @ name);
       m1 \<leftarrow> syscall os (Dev_malloc (of_nat (length base + 8)));
       m2 \<leftarrow> syscall os (Dev_malloc (of_nat (length base + 8)));
       if d_ret m1 = 0 \<or> d_ret m2 = 0 then ret (Inl (- EINVAL))
       else do {
         a \<leftarrow> read_number_line os (base @ ''/start'');
         case a of Inl e \<Rightarrow> ret (Inl e)
         | Inr first \<Rightarrow> do {
             z \<leftarrow> read_number_line os (base @ ''/size'');
             ret (case z of Inl e \<Rightarrow> Inl e | Inr len \<Rightarrow> Inr (first, len)) } } } }"

text \<open>The geometry on eMMC, from the group size, the start and the size in blocks.\<close>

definition emmc_geometry :: "u64 \<Rightarrow> u64 \<Rightarrow> u64 \<Rightarrow> otp \<Rightarrow> s32 \<times> otp" where
  "emmc_geometry grp first len d =
     (let d1 = d\<lparr>wp_grp_size := grp, otp_begin := (if first mod grp \<noteq> 0 then grp - first mod grp else 0),
                 otp_size := len, partition_start := 0\<rparr>
      in if first mod grp \<noteq> 0 \<and> first + len < otp_begin d1 then (- EINVAL, d1)
         else (0, d1\<lparr>blk_sz := 512, wp_grp_size := grp * 512, otp_begin := otp_begin d1 * 512,
                   otp_size := len * 512\<rparr>))"

text \<open>
  When \<open>fgets\<close> fails without setting \<open>errno\<close>, the result is 0 although the geometry is not known.
\<close>

definition emmc_storage_init :: "'w dev_os \<Rightarrow> otp \<Rightarrow> ('w otpenv, s32 \<times> otp) state" where
  "emmc_storage_init os d = do {
     let d0 = d\<lparr>ops := EMMC_ops\<rparr>;
     l \<leftarrow> syscall os (Dev_readlink OTP_BLOCK_PATH);
     if int_ret l <s 0 then ret (- ENOENT, d0)
     else do {
       let d1 = d0\<lparr>otp_blk_path := (case d_name l of None \<Rightarrow> [] | Some p \<Rightarrow> p)\<rparr>;
       grp \<leftarrow> get_wp_grp_size os;
       if grp = 0 then ret (- EINVAL, d1)
       else do {
         r \<leftarrow> partition_range os ''/sys/block/mmcblk0/'' (otp_blk_path d1);
         ret (case r of Inl e \<Rightarrow> (e, d1) | Inr (first, len) \<Rightarrow> emmc_geometry grp first len d1) } } }"

text \<open>The geometry on UFS: one region at the end is kept for the mark when the regions fill the partition.\<close>

definition ufs_geometry :: "u64 \<Rightarrow> u64 \<Rightarrow> otp \<Rightarrow> s32 \<times> otp" where
  "ufs_geometry first len d =
     (let start_byte = first * DEVICE_BLOCK_UNIT_SIZE; total_byte = len * DEVICE_BLOCK_UNIT_SIZE;
          skew = (if start_byte mod UFS_BLOCK_SIZE \<noteq> 0 then UFS_BLOCK_SIZE - start_byte mod UFS_BLOCK_SIZE else 0);
          d1 = d\<lparr>blk_sz := UFS_BLOCK_SIZE, otp_begin := skew, partition_start := 0, otp_size := total_byte\<rparr>
      in if skew \<noteq> 0 \<and> total_byte < skew then (- ENOSPC, d1)
         else let usable = total_byte - skew; cnt = (ucast (usable div wp_grp_size d) :: s32) in
           if usable mod wp_grp_size d = 0 then
             if cnt \<le>s 1 then (- ENOSPC, d1\<lparr>otp_size := usable\<rparr>)
             else (0, d1\<lparr>otp_size := scast (cnt - 1) * wp_grp_size d\<rparr>)
           else (0, d1\<lparr>otp_size := usable\<rparr>))"

definition ufs_storage_init :: "'w dev_os \<Rightarrow> otp \<Rightarrow> ('w otpenv, s32 \<times> otp) state" where
  "ufs_storage_init os d = do {
     let d0 = d\<lparr>ops := UFS_ops\<rparr>;
     l \<leftarrow> syscall os (Dev_readlink OTP_BLOCK_PATH);
     if int_ret l <s 0 then ret (d_errno l, d0)
     else do {
       let d1 = d0\<lparr>otp_blk_path := (case d_name l of None \<Rightarrow> [] | Some p \<Rightarrow> p),
                   wp_grp_size := UFS_OTP_REGION_SIZE_BYTE\<rparr>;
       r \<leftarrow> partition_range os ''/sys/block/sdc/'' (otp_blk_path d1);
       ret (case r of Inl e \<Rightarrow> (e, d1) | Inr (first, len) \<Rightarrow> ufs_geometry first len d1) } }"

section \<open>Opening the device\<close>

abbreviation (input) BOOTDEV_UFS :: s32 where "BOOTDEV_UFS \<equiv> 2"

definition get_boot_type :: "'w dev_os \<Rightarrow> ('w otpenv, s32) state" where
  "get_boot_type os = do {
     fd \<leftarrow> syscall os (Dev_open ''/sys/class/BOOT/BOOT/boot/boot_type'' O_RDONLY);
     if int_ret fd <s 0 then ret (- 1)
     else do {
       r \<leftarrow> syscall os (Dev_read (int_ret fd) 3);
       _ \<leftarrow> syscall os (Dev_close (int_ret fd));
       ret (if d_ret r \<le>s 0 then - 1
            else atoi (cstr (map char_of_byte (take (unat (d_ret r)) (d_data r))))) } }"

text \<open>The regions follow each other from the first group boundary on, one group each.\<close>

definition make_regions :: "otp \<Rightarrow> otp_region list" where
  "make_regions d = map (\<lambda>i. \<lparr>user_id = of_nat i, start = otp_begin d + of_nat i * wp_grp_size d,
     size_of = wp_grp_size d\<rparr>) [0..<MAX_USER_NUM]"

definition otp_init :: "'w dev_os \<Rightarrow> otp \<Rightarrow> u32 \<Rightarrow> ('w otpenv, s32 \<times> otp) state" where
  "otp_init os d uid = do {
     mt_boot_type \<leftarrow> get_boot_type os;
     (r, d1) \<leftarrow> (if mt_boot_type = BOOTDEV_UFS then ufs_storage_init os d else emmc_storage_init os d);
     if r \<noteq> 0 then ret (- EINVAL, d1)
     else do {
       (if wp_grp_size d1 = 0 then fault else ret ());
       let n = (ucast (otp_size d1 div wp_grp_size d1) :: u32);
       if n < 4 then ret (- EINVAL, d1\<lparr>max_user_num := n\<rparr>)
       else if 4 \<le> uid then ret (- EINVAL, d1\<lparr>max_user_num := 4\<rparr>)
       else ret (0, d1\<lparr>max_user_num := 4, region := make_regions d1, current_user_id := uid\<rparr>) } }"

definition otp_open :: "'w dev_os \<Rightarrow> u32 \<Rightarrow> ('w otpenv, otp option) state" where
  "otp_open os uid = do {
     m \<leftarrow> syscall os (Dev_malloc 4312);
     if d_ret m = 0 then ret None
     else do {
       (r, d) \<leftarrow> otp_init os otp_zero uid;
       ret (if r <s 0 then None else Some d) } }"

text \<open>The caller's region. The result of \<open>otp_get_region\<close> is never looked at, so its error is a fault.\<close>

definition otp_get_region :: "otp \<Rightarrow> (u64 \<times> u64) option" where
  "otp_get_region d = (case find (\<lambda>r. current_user_id d = user_id r) (region d) of
       None \<Rightarrow> None | Some r \<Rightarrow> Some (start r, size_of r))"

definition the_region :: "otp \<Rightarrow> ('w otpenv, u64 \<times> u64) state" where
  "the_region d = (case otp_get_region d of None \<Rightarrow> do { fault; ret (0, 0) } | Some r \<Rightarrow> ret r)"

section \<open>Reading and writing\<close>

definition otp_block_read :: "'w dev_os \<Rightarrow> otp \<Rightarrow> u8 list \<Rightarrow> u64 \<Rightarrow> u64 \<Rightarrow> ('w otpenv, s32 \<times> u8 list) state" where
  "otp_block_read os d = (if ops d = UFS_ops then ufs_block_read os d else emmc_block_read os d)"

definition otp_block_write :: "'w dev_os \<Rightarrow> otp \<Rightarrow> u8 list \<Rightarrow> u64 \<Rightarrow> u64 \<Rightarrow> ('w otpenv, s32) state" where
  "otp_block_write os d = (if ops d = UFS_ops then ufs_block_write os d else emmc_block_write os d)"

text \<open>A write replaces part of the blocks it touches, which are read before unless it covers them all.\<close>

definition blocks_write ::
  "(u8 list \<Rightarrow> u64 \<Rightarrow> u64 \<Rightarrow> ('w otpenv, s32 \<times> u8 list) state) \<Rightarrow> (u8 list \<Rightarrow> u64 \<Rightarrow> u64 \<Rightarrow> ('w otpenv, s32) state)
   \<Rightarrow> u64 \<Rightarrow> u8 list \<Rightarrow> u64 \<Rightarrow> u64 \<Rightarrow> u8 list \<Rightarrow> u64 \<Rightarrow> u64 \<Rightarrow> ('w otpenv, s32) state" where
  "blocks_write bread bwrite blk buffer_tmp first num buffer offset count = do {
     (_, tmp) \<leftarrow> (if offset mod blk \<noteq> 0 \<or> count mod blk \<noteq> 0 then bread buffer_tmp first num else ret (0, buffer_tmp));
     let at = unat (offset mod blk);
     bwrite (take at tmp @ take (unat count) buffer @ drop (at + unat count) tmp) first num }"

definition blocks_read ::
  "(u8 list \<Rightarrow> u64 \<Rightarrow> u64 \<Rightarrow> ('w otpenv, s32 \<times> u8 list) state)
   \<Rightarrow> u64 \<Rightarrow> u8 list \<Rightarrow> u64 \<Rightarrow> u64 \<Rightarrow> u8 list \<Rightarrow> u64 \<Rightarrow> u64 \<Rightarrow> ('w otpenv, s32 \<times> u8 list) state" where
  "blocks_read bread blk buffer_tmp first num buffer offset count = do {
     (r, tmp) \<leftarrow> bread buffer_tmp first num;
     ret (r, overwrite buffer (take (unat count) (drop (unat (offset mod blk)) tmp))) }"

text \<open>
  The range of blocks around a range of bytes: offset and size rounded to blocks. The number of the first
  block and the count are kept in 32 bits.
\<close>

definition round_size :: "u64 \<Rightarrow> u64 \<Rightarrow> u64 \<Rightarrow> u64" where
  "round_size blk offset count = (let n = count + offset mod blk in if n mod blk \<noteq> 0 then n + (blk - n mod blk) else n)"

definition otp_ops_read_write ::
  "'w dev_os \<Rightarrow> u32 \<Rightarrow> otp \<Rightarrow> u8 list \<Rightarrow> u64 \<Rightarrow> u64 \<Rightarrow> ('w otpenv, s32 \<times> u8 list) state" where
  "otp_ops_read_write os ty d buffer offset count =
     (if ops d = NULL_ops then ret (- EINVAL, buffer)
      else do {
        let blk = blk_sz d;
        (if blk = 0 then fault else ret ());
        let offset_tmp = offset - offset mod blk;
        let size_tmp = round_size blk offset count;
        if size_tmp mod blk \<noteq> 0 \<or> offset_tmp mod blk \<noteq> 0 then ret (- 1, buffer)
        else do {
          m \<leftarrow> syscall os (Dev_malloc size_tmp);
          let offset_block = (ucast (offset_tmp div blk) :: u32);
          let block_number = (ucast (size_tmp div blk) :: u32);
          (rstart, rsize) \<leftarrow> the_region d;
          if rstart div blk \<noteq> 0 \<and> rsize div blk \<le> ucast (offset_block + block_number) then ret (- EINVAL, buffer)
          else do {
            (if d_ret m = 0 then fault else ret ());
            let tmp = fresh_buffer size_tmp m;
            let first = rstart div blk + ucast offset_block;
            let num = ucast block_number;
            if ty = 0 then do {
              r \<leftarrow> blocks_write (otp_block_read os d) (otp_block_write os d) blk tmp first num buffer offset count;
              ret (r, buffer) }
            else blocks_read (otp_block_read os d) blk tmp first num buffer offset count } } })"

section \<open>The interface\<close>

text \<open>A null device is \<open>None\<close>.\<close>

definition group_count_of :: "otp \<Rightarrow> u64 \<Rightarrow> u64" where
  "group_count_of d rsize = ucast (ucast (rsize div blk_sz d div (wp_grp_size d div 512)) :: u32)"

definition otp_get_status :: "'w dev_os \<Rightarrow> otp option \<Rightarrow> u32 \<times> u32 \<Rightarrow> ('w otpenv, s32 \<times> u32 \<times> u32) state" where
  "otp_get_status os dev st = (case dev of None \<Rightarrow> ret (- EINVAL, st)
     | Some d \<Rightarrow> do {
         (rstart, rsize) \<leftarrow> the_region d;
         if ops d = NULL_ops then ret (- EINVAL, st)
         else if ops d = UFS_ops then ufs_otp_get_status st
         else emmc_otp_get_status os (rstart div blk_sz d) (group_count_of d rsize) st })"

definition otp_read :: "'w dev_os \<Rightarrow> otp option \<Rightarrow> u8 list \<Rightarrow> u64 \<Rightarrow> u64 \<Rightarrow> ('w otpenv, s32 \<times> u8 list) state" where
  "otp_read os dev buffer offset count = (case dev of None \<Rightarrow> ret (- EINVAL, buffer)
     | Some d \<Rightarrow> otp_ops_read_write os 1 d buffer offset count)"

definition otp_write :: "'w dev_os \<Rightarrow> otp option \<Rightarrow> u8 list \<Rightarrow> u64 \<Rightarrow> u64 \<Rightarrow> ('w otpenv, s32) state" where
  "otp_write os dev buffer offset count = (case dev of None \<Rightarrow> ret (- EINVAL)
     | Some d \<Rightarrow> do {
         (_, status, ty) \<leftarrow> otp_get_status os dev (0, 0);
         if status \<noteq> 0 then ret (- EINVAL)
         else do {
           (r, _) \<leftarrow> otp_ops_read_write os 0 d buffer offset count;
           ret r } })"

definition otp_lock :: "'w dev_os \<Rightarrow> otp option \<Rightarrow> u32 \<Rightarrow> ('w otpenv, s32) state" where
  "otp_lock os dev ty = (case dev of None \<Rightarrow> ret (- EINVAL)
     | Some d \<Rightarrow>
         if ty = WP_TEMPORARY then ret (- EINVAL)
         else do {
           (rstart, rsize) \<leftarrow> the_region d;
           if ops d = NULL_ops then ret (- EINVAL)
           else if ops d = UFS_ops then ufs_otp_lock os ty
           else emmc_otp_lock os ty (rstart div blk_sz d) (group_count_of d rsize) (wp_grp_size d) })"

definition otp_unlock :: "'w dev_os \<Rightarrow> otp option \<Rightarrow> ('w otpenv, s32) state" where
  "otp_unlock os dev = (case dev of None \<Rightarrow> ret (- EINVAL)
     | Some d \<Rightarrow> do {
         (rstart, rsize) \<leftarrow> the_region d;
         if ops d = NULL_ops then ret (- EINVAL)
         else if ops d = UFS_ops then ufs_otp_unlock
         else emmc_otp_unlock os (rstart div blk_sz d) (group_count_of d rsize) (wp_grp_size d) })"

definition otp_get_size :: "otp option \<Rightarrow> ('w otpenv, u64) state" where
  "otp_get_size dev = (case dev of None \<Rightarrow> ret (- 22)
     | Some d \<Rightarrow> do { (rstart, rsize) \<leftarrow> the_region d; ret rsize })"

definition otp_get_libversion_if_legacy :: "'w dev_os \<Rightarrow> ('w otpenv, u32) state" where
  "otp_get_libversion_if_legacy os = do {
     fp \<leftarrow> syscall os (Dev_fopen ''/dev/otp'');
     if d_ret fp \<noteq> 0 then do { _ \<leftarrow> syscall os Dev_fclose; ret 1 } else ret 0 }"

definition otp_get_libversion :: "'w dev_os \<Rightarrow> ('w otpenv, u32) state" where
  "otp_get_libversion os = do {
     u \<leftarrow> syscall os Dev_uname;
     case d_name u of None \<Rightarrow> do { fault; ret 0 }
     | Some release \<Rightarrow>
         if release = [] \<or> (of_char (hd release) :: nat) < 52 then ret 0
         else do {
           l \<leftarrow> otp_get_libversion_if_legacy os;
           ret (if l \<noteq> 0 then 0 else 1) } }"

end
