(* ===== verification/Otp_Device.thy ===== *)
theory Otp_Device
  imports Otp_Storage
begin

unbundle bit_operations_syntax

text \<open>
  What \<open>libstorage_otp\<close> does to the OTP partition. The partition is seen as an array of bytes, and both
  back ends give block access to it; the byte-wise interface is then correct for each of them.
\<close>

section \<open>The partition\<close>

text \<open>
  A block device of \<open>n\<close> bytes: \<open>disk\<close> is its contents and \<open>pos\<close> the position of the descriptor opened
  last. Reads and writes inside the device are complete, and memory is available. These are the kernel's
  documented guarantees for a working device.
\<close>

definition block_device :: "'w dev_os \<Rightarrow> ('w \<Rightarrow> memory) \<Rightarrow> ('w \<Rightarrow> nat) \<Rightarrow> nat \<Rightarrow> bool" where
  "block_device os disk pos n \<longleftrightarrow> n < 2 ^ 31 \<and>
     (\<forall>w fl. \<not> int_ret (fst (os (Dev_open OTP_BLOCK_PATH fl) w)) <s 0 \<and>
        pos (snd (os (Dev_open OTP_BLOCK_PATH fl) w)) = 0 \<and> disk (snd (os (Dev_open OTP_BLOCK_PATH fl) w)) = disk w) \<and>
     (\<forall>w fd k. d_ret (fst (os (Dev_lseek fd k) w)) = k \<and> pos (snd (os (Dev_lseek fd k) w)) = unat k \<and>
        disk (snd (os (Dev_lseek fd k) w)) = disk w) \<and>
     (\<forall>w fd k. pos w + unat k \<le> n \<longrightarrow> d_ret (fst (os (Dev_read fd k) w)) = k \<and>
        d_data (fst (os (Dev_read fd k) w)) = mread (disk w) (pos w) (unat k) \<and>
        disk (snd (os (Dev_read fd k) w)) = disk w) \<and>
     (\<forall>w fd bs. pos w + length bs \<le> n \<longrightarrow> d_ret (fst (os (Dev_write fd bs) w)) = of_nat (length bs) \<and>
        disk (snd (os (Dev_write fd bs) w)) = mwrite (disk w) (pos w) bs) \<and>
     (\<forall>w fd. disk (snd (os (Dev_close fd) w)) = disk w) \<and>
     (\<forall>w k. d_ret (fst (os (Dev_malloc k) w)) \<noteq> 0 \<and> disk (snd (os (Dev_malloc k) w)) = disk w) \<and>
     (\<forall>w fd c a k. disk (snd (os (Dev_mmc_cmd fd c a k) w)) = disk w)"

lemma dev_laws:
  assumes "block_device os disk pos n"
  shows "n < 2 ^ 31"
    and "\<not> int_ret (fst (os (Dev_open OTP_BLOCK_PATH fl) w)) <s 0" "pos (snd (os (Dev_open OTP_BLOCK_PATH fl) w)) = 0"
      "disk (snd (os (Dev_open OTP_BLOCK_PATH fl) w)) = disk w"
    and "d_ret (fst (os (Dev_lseek fd k) w)) = k" "pos (snd (os (Dev_lseek fd k) w)) = unat k"
      "disk (snd (os (Dev_lseek fd k) w)) = disk w"
    and "pos w + unat k \<le> n \<Longrightarrow> d_ret (fst (os (Dev_read fd k) w)) = k"
      "pos w + unat k \<le> n \<Longrightarrow> d_data (fst (os (Dev_read fd k) w)) = mread (disk w) (pos w) (unat k)"
      "pos w + unat k \<le> n \<Longrightarrow> disk (snd (os (Dev_read fd k) w)) = disk w"
    and "pos w + length bs \<le> n \<Longrightarrow> d_ret (fst (os (Dev_write fd bs) w)) = of_nat (length bs)"
      "pos w + length bs \<le> n \<Longrightarrow> disk (snd (os (Dev_write fd bs) w)) = mwrite (disk w) (pos w) bs"
    and "disk (snd (os (Dev_close fd) w)) = disk w"
    and "d_ret (fst (os (Dev_malloc k) w)) \<noteq> 0" "disk (snd (os (Dev_malloc k) w)) = disk w"
    and "disk (snd (os (Dev_mmc_cmd fd c a m) w)) = disk w"
  using assms unfolding block_device_def by simp_all

text \<open>Stepping over one request: the answer and the next state.\<close>

lemma wp_request: "Q (fst (os q (world s))) (s\<lparr>world := snd (os q (world s)), trace := trace s @ [q]\<rparr>) \<Longrightarrow> wp (syscall os q) Q s"
  by (simp add: wp_syscall case_prod_beta)

section \<open>Block access\<close>

text \<open>
  The interface between the byte-wise operations and a back end: blocks of \<open>unit\<close> bytes are read and
  written completely, and nothing else changes.
\<close>

locale otp_backend =
  fixes bread :: "'w dev_os \<Rightarrow> otp \<Rightarrow> u8 list \<Rightarrow> u64 \<Rightarrow> u64 \<Rightarrow> ('w otpenv, s32 \<times> u8 list) state"
    and bwrite :: "'w dev_os \<Rightarrow> otp \<Rightarrow> u8 list \<Rightarrow> u64 \<Rightarrow> u64 \<Rightarrow> ('w otpenv, s32) state"
    and unit :: nat
  assumes unit_size: "512 \<le> unit" "unit < 2 ^ 31"
    and bread: "block_device os disk pos n \<Longrightarrow> blk_sz d = of_nat unit \<Longrightarrow> (unat b + unat k) * unit \<le> n \<Longrightarrow>
      length buf = unat k * unit \<Longrightarrow>
      wp (bread os d buf b k) (\<lambda>(r, c) t. r = 0 \<and> c = mread (disk (world s)) (unat b * unit) (unat k * unit) \<and>
        disk (world t) = disk (world s) \<and> ub t = ub s) s"
    and bwrite: "block_device os disk pos n \<Longrightarrow> blk_sz d = of_nat unit \<Longrightarrow> (unat b + unat k) * unit \<le> n \<Longrightarrow>
      length buf = unat k * unit \<Longrightarrow>
      wp (bwrite os d buf b k) (\<lambda>r t. r = 0 \<and> disk (world t) = mwrite (disk (world s)) (unat b * unit) buf \<and> ub t = ub s) s"

lemma unat_blocks:
  assumes "(unat (b :: u64) + unat (k :: u64)) * u \<le> n" "n < 2 ^ 31" "unat (z :: u64) = u"
  shows "unat (b * z) = unat b * u" "unat (k * z) = unat k * u"
proof -
  have "unat b * u < 2 ^ 64" "unat k * u < 2 ^ 64" using assms(1,2) by (simp_all add: distrib_right)
  then show "unat (b * z) = unat b * u" "unat (k * z) = unat k * u"
    by (simp_all add: unat_word_ariths assms(3))
qed

lemma int_small: "unat (x :: u64) < 2 ^ 31 \<Longrightarrow> unat (ucast x :: s32) = unat x"
  by (simp add: unsigned_ucast_eq take_bit_nat_eq_self)

lemma int_small_nonneg:
  assumes "unat (x :: u64) < 2 ^ 31"
  shows "\<not> (ucast x :: s32) <s 0"
proof -
  have "(ucast x :: s32) = of_nat (unat x)" by (simp add: int_small [OF assms, symmetric])
  then show ?thesis using of_nat_nonneg [OF assms] by simp
qed

lemma sint64_of_nat: "m < 2 ^ 31 \<Longrightarrow> sint (of_nat m :: u64) = int m"
  by (simp add: sint_uint signed_take_bit_int_eq_self unsigned_of_nat take_bit_nat_eq_self)

lemma u64_small_nonneg:
  assumes "unat (x :: u64) < 2 ^ 31"
  shows "\<not> x <s 0"
  using sint64_of_nat [OF assms] by (simp add: word_sless_alt)

lemma int_ret_nonneg: "unat (d_ret r) < 2 ^ 31 \<Longrightarrow> \<not> int_ret r <s 0"
  unfolding int_ret_def by (rule int_small_nonneg)

lemma emmc_read_law:
  assumes dev: "block_device os disk pos n" and z: "blk_sz d = 512"
    and b: "(unat b + unat k) * 512 \<le> n" and l: "length buf = unat k * 512"
  shows "wp (emmc_block_read os d buf b k) (\<lambda>(r, c) t. r = 0 \<and> c = mread (disk (world s)) (unat b * 512) (unat k * 512) \<and>
     disk (world t) = disk (world s) \<and> ub t = ub s) s"
proof -
  have n: "n < 2 ^ 31" using dev_laws(1) [OF dev] .
  note u = unat_blocks [OF b n, of 512, simplified]
  have le: "unat b * 512 < 2 ^ 31" "unat k * 512 < 2 ^ 31" "unat b * 512 + unat k * 512 \<le> n"
    using b n by (simp_all add: distrib_right)
  show ?thesis
    using le u l z
    by (simp add: emmc_block_read_def wp_simps Let_def case_prod_beta dev_laws [OF dev] int_ret_nonneg
        overwrite_def)
qed

lemma ucast_mult: "(ucast ((x :: u64) * y) :: s32) = ucast x * ucast y"
proof -
  have d: "(2 :: int) ^ 32 dvd 2 ^ 64" by (simp add: le_imp_power_dvd)
  have m: "(i mod 2 ^ 64) * (j mod 2 ^ 64) mod 2 ^ 32 = i * j mod 2 ^ 32" for i j :: int
    by (metis d mod_mod_cancel mod_mult_eq)
  have LEN: "LENGTH(64) = 64" "LENGTH(32) = 32" by simp_all
  show ?thesis by transfer (simp only: take_bit_eq_mod LEN m mod_mod_cancel [OF d])
qed

lemma emmc_write_law:
  assumes dev: "block_device os disk pos n" and z: "blk_sz d = 512"
    and b: "(unat b + unat k) * 512 \<le> n" and l: "length buf = unat k * 512"
  shows "wp (emmc_block_write os d buf b k) (\<lambda>r t. r = 0 \<and> disk (world t) = mwrite (disk (world s)) (unat b * 512) buf \<and> ub t = ub s) s"
proof -
  have n: "n < 2 ^ 31" using dev_laws(1) [OF dev] .
  note u = unat_blocks [OF b n, of 512, simplified]
  have le: "unat b * 512 < 2 ^ 31" "unat k * 512 < 2 ^ 31" "unat b * 512 + unat k * 512 \<le> n"
    using b n by (simp_all add: distrib_right)
  have "(ucast (k * 512) :: s32) = ucast k * 512" using ucast_mult [of k 512] by simp
  then have "int_ret r = ucast k * 512" if "d_ret r = of_nat (unat k * 512)" for r
    using that by (simp add: int_ret_def)
  then show ?thesis
    using le u l z
    by (simp add: emmc_block_write_def wp_simps Let_def case_prod_beta dev_laws [OF dev] int_ret_nonneg)
qed

lemma ufs_seek_law:
  assumes dev: "block_device os disk pos n" and b: "unat b * 4096 \<le> n"
  shows "wp (ufs_seek os fl b) (\<lambda>r t. \<not> isl r \<and> pos (world t) = unat b * 4096 \<and> disk (world t) = disk (world s) \<and> ub t = ub s) s"
proof -
  have n: "n < 2 ^ 31" using dev_laws(1) [OF dev] .
  have "unat (b * 4096) = unat b * 4096" using unat_blocks(1) [of b 0 4096 n 4096] b n by simp
  then show ?thesis
    using b n
    by (simp add: ufs_seek_def wp_simps case_prod_beta dev_laws [OF dev] u64_small_nonneg)
qed

lemma ufs_read_law:
  assumes dev: "block_device os disk pos n" and b: "(unat b + unat k) * 4096 \<le> n" and l: "length buf = unat k * 4096"
  shows "wp (ufs_block_read os d buf b k) (\<lambda>(r, c) t. r = 0 \<and> c = mread (disk (world s)) (unat b * 4096) (unat k * 4096) \<and>
     disk (world t) = disk (world s) \<and> ub t = ub s) s"
proof -
  have n: "n < 2 ^ 31" using dev_laws(1) [OF dev] .
  note u = unat_blocks [OF b n, of 4096, simplified]
  have le: "unat b * 4096 \<le> n" "unat k * 4096 < 2 ^ 31" "unat b * 4096 + unat k * 4096 \<le> n"
    using b n by (simp_all add: distrib_right)
  show ?thesis
    unfolding ufs_block_read_def
    apply (rule wp_bindI, rule wp_mono [OF ufs_seek_law [OF dev le(1)]])
    apply (erule conjE, case_tac a)
    using le u l
    by (simp_all add: wp_simps case_prod_beta dev_laws [OF dev] int_ret_nonneg overwrite_def)
qed

lemma ufs_write_law:
  assumes dev: "block_device os disk pos n" and b: "(unat b + unat k) * 4096 \<le> n" and l: "length buf = unat k * 4096"
  shows "wp (ufs_block_write os d buf b k) (\<lambda>r t. r = 0 \<and> disk (world t) = mwrite (disk (world s)) (unat b * 4096) buf \<and> ub t = ub s) s"
proof -
  have n: "n < 2 ^ 31" using dev_laws(1) [OF dev] .
  note u = unat_blocks [OF b n, of 4096, simplified]
  have le: "unat b * 4096 \<le> n" "unat k * 4096 < 2 ^ 31" "unat b * 4096 + unat k * 4096 \<le> n"
    using b n by (simp_all add: distrib_right)
  have "\<not> int_ret r <s 0" if "d_ret r = of_nat (unat k * 4096)" for r
    using that le(2) u(2) by (intro int_ret_nonneg) (simp add: unat_of_nat)
  then show ?thesis
    unfolding ufs_block_write_def
    apply (intro wp_bindI, intro wp_mono [OF ufs_seek_law [OF dev le(1)]])
    apply (erule conjE, case_tac a)
    using le u l
    by (simp_all add: wp_simps case_prod_beta dev_laws [OF dev])
qed

interpretation emmc: otp_backend emmc_block_read emmc_block_write 512
  by unfold_locales (simp_all add: emmc_read_law emmc_write_law)

interpretation ufs: otp_backend ufs_block_read ufs_block_write 4096
  by unfold_locales (simp_all add: ufs_read_law ufs_write_law)

section \<open>Ranges of bytes\<close>

lemma mwrite_splice:
  assumes "a + length bs \<le> k"
  shows "mwrite m f (take a (mread m f k) @ bs @ drop (a + length bs) (mread m f k)) = mwrite m (f + a) bs"
  by (rule ext) (use assms in \<open>auto simp: mwrite_def mread_def nth_append\<close>)

lemma mread_part: "a + c \<le> k \<Longrightarrow> take c (drop a (mread m f k)) = mread m (f + a) c"
  by (rule nth_equalityI) (simp_all add: mread_def add.assoc)

lemma round_size_nat:
  assumes u: "unat blk = u" "0 < u" and small: "unat offset + unat count + u < 2 ^ 40"
  shows "unat (round_size blk offset count) mod u = 0"
    and "unat count + unat offset mod u \<le> unat (round_size blk offset count)"
    and "unat (round_size blk offset count) < unat count + unat offset mod u + u"
    and "unat offset mod u = 0 \<Longrightarrow> unat count mod u = 0 \<Longrightarrow> unat (round_size blk offset count) = unat count"
proof -
  let ?k = "unat count + unat offset mod u"
  have om: "unat (offset mod blk) = unat offset mod u" by (simp add: unat_mod u)
  have "unat offset mod u \<le> unat offset" by simp
  then have kb: "?k < 2 ^ 40" using small by linarith
  then have n: "unat (count + offset mod blk) = ?k" by (simp add: unat_word_ariths(1) om)
  have nm: "unat ((count + offset mod blk) mod blk) = ?k mod u" by (simp add: unat_mod n u)
  have lt: "?k mod u < u" using u(2) by simp
  have sub: "unat (blk - (count + offset mod blk) mod blk) = u - ?k mod u"
    using lt nm u(1) by (simp add: unat_sub word_le_nat_alt)
  have "?k + (u - ?k mod u) < 2 ^ 40 + 2 ^ 40" using kb small by linarith
  then have "?k + (u - ?k mod u) < 2 ^ 64" by simp
  then have up: "unat ((count + offset mod blk) + (blk - (count + offset mod blk) mod blk)) = ?k + (u - ?k mod u)"
    by (subst unat_word_ariths(1)) (simp add: n sub)
  have zero: "(count + offset mod blk) mod blk = 0 \<longleftrightarrow> ?k mod u = 0"
    using nm by (metis unat_0 unat_eq_zero)
  have r: "unat (round_size blk offset count) = (if ?k mod u = 0 then ?k else ?k + (u - ?k mod u))"
    using zero up n by (simp add: round_size_def Let_def)
  have "(?k + (u - ?k mod u)) mod u = 0"
    using lt by (metis mod_add_left_eq le_add_diff_inverse less_imp_le mod_self)
  then show "unat (round_size blk offset count) mod u = 0" using r by simp
  show "?k \<le> unat (round_size blk offset count)" using r by simp
  show "unat (round_size blk offset count) < ?k + u" using r u(2) by auto
  show "unat offset mod u = 0 \<Longrightarrow> unat count mod u = 0 \<Longrightarrow> unat (round_size blk offset count) = unat count"
    using r by simp
qed

lemma block_count:
  assumes "512 \<le> u" "a < 2 ^ 40"
  shows "a div u < (2 :: nat) ^ 31"
proof -
  have "a div u \<le> a div 512" using assms(1) by (simp add: div_le_mono2)
  also have "\<dots> < 2 ^ 31" using assms(2) by (simp add: less_mult_imp_div_less)
  finally show ?thesis .
qed

lemma block_plan:
  assumes u: "unat blk = u" "512 \<le> u" and small: "unat offset + unat count + u < 2 ^ 40"
  shows "(offset - offset mod blk) mod blk = 0" "round_size blk offset count mod blk = 0"
    and "unat (ucast ((offset - offset mod blk) div blk) :: u32) * u = unat offset - unat offset mod u"
    and "unat (ucast (round_size blk offset count div blk) :: u32) * u = unat (round_size blk offset count)"
proof -
  have pos: "0 < u" using u(2) by linarith
  note rnd = round_size_nat [OF u(1) pos small]
  have om: "unat (offset mod blk) = unat offset mod u" by (simp add: unat_mod u)
  have d: "unat (offset - offset mod blk) = unat offset - unat offset mod u"
    using om by (simp add: unat_sub word_le_nat_alt)
  have "u dvd unat offset - unat offset mod u" by (simp add: minus_mod_eq_mult_div)
  then have dm: "(unat offset - unat offset mod u) mod u = 0" "(unat offset - unat offset mod u) div u * u = unat offset - unat offset mod u"
    by simp_all
  then show "(offset - offset mod blk) mod blk = 0" by (metis d u(1) unat_eq_zero unat_mod)
  show "round_size blk offset count mod blk = 0"
    using rnd(1) by (metis u(1) unat_eq_zero unat_mod)
  have q: "unat ((offset - offset mod blk) div blk) = (unat offset - unat offset mod u) div u" by (simp add: unat_div d u)
  have "unat offset - unat offset mod u < 2 ^ 40" using small by linarith
  then have "unat ((offset - offset mod blk) div blk) < 2 ^ 31" unfolding q by (rule block_count [OF u(2)])
  then have "unat (ucast ((offset - offset mod blk) div blk) :: u32) = unat ((offset - offset mod blk) div blk)"
    by (rule int_small)
  then show "unat (ucast ((offset - offset mod blk) div blk) :: u32) * u = unat offset - unat offset mod u"
    using q dm(2) by simp
  have p: "unat (round_size blk offset count div blk) = unat (round_size blk offset count) div u" by (simp add: unat_div u)
  have "unat offset mod u \<le> unat offset" by simp
  then have "unat (round_size blk offset count) < 2 ^ 40" using rnd(3) small by linarith
  then have "unat (round_size blk offset count div blk) < 2 ^ 31" unfolding p by (rule block_count [OF u(2)])
  then have "unat (ucast (round_size blk offset count div blk) :: u32) = unat (round_size blk offset count) div u"
    using int_small p by simp
  then show "unat (ucast (round_size blk offset count div blk) :: u32) * u = unat (round_size blk offset count)"
    using rnd(1) by (simp add: mod_eq_0_iff_dvd)
qed

context otp_backend
begin

lemma unit_pos: "0 < unit"
  using unit_size(1) by linarith

lemma unat_unit: "unat (of_nat unit :: u64) = unit"
  using unit_size(2) by (simp add: unat_of_nat)

lemma write_bytes:
  assumes dev: "block_device os disk pos n" and z: "blk_sz d = of_nat unit"
    and tmp: "length tmp = unat num * unit" and buf: "length buffer = unat count"
    and inside: "unat offset mod unit + unat count \<le> unat num * unit" "(unat first + unat num) * unit \<le> n"
    and whole: "unat offset mod unit = 0 \<Longrightarrow> unat count mod unit = 0 \<Longrightarrow> unat num * unit = unat count"
  shows "wp (blocks_write (bread os d) (bwrite os d) (of_nat unit) tmp first num buffer offset count)
     (\<lambda>r t. r = 0 \<and> disk (world t) = mwrite (disk (world s)) (unat first * unit + unat offset mod unit) buffer \<and> ub t = ub s) s"
proof -
  let ?at = "unat offset mod unit" and ?old = "mread (disk (world s)) (unat first * unit) (unat num * unit)"
  have at: "unat (offset mod of_nat unit) = ?at" "unat (count mod of_nat unit) = unat count mod unit"
    by (simp_all add: unat_mod unat_unit)
  have zero: "offset mod of_nat unit = 0 \<longleftrightarrow> ?at = 0" "count mod of_nat unit = 0 \<longleftrightarrow> unat count mod unit = 0"
    using at by (metis unat_eq_zero)+
  have put: "wp (bwrite os d (take ?at b @ take (unat count) buffer @ drop (?at + unat count) b) first num)
      (\<lambda>r t. r = 0 \<and> disk (world t) = mwrite (disk (world s)) (unat first * unit + ?at) buffer \<and> ub t = ub s) u"
    if "length b = unat num * unit" "disk (world u) = disk (world s) \<and> ub u = ub s" "b = ?old \<or> ?at = 0 \<and> unat num * unit = unat count" for b u
  proof (rule wp_mono [OF bwrite [OF dev z inside(2)]])
    show "length (take ?at b @ take (unat count) buffer @ drop (?at + unat count) b) = unat num * unit"
      using that(1) buf inside(1) by simp
    show "r = 0 \<and> disk (world t) = mwrite (disk (world s)) (unat first * unit + ?at) buffer \<and> ub t = ub s"
      if "r = 0 \<and> disk (world t) = mwrite (disk (world u)) (unat first * unit)
        (take ?at b @ take (unat count) buffer @ drop (?at + unat count) b) \<and> ub t = ub u" for r t
      using that \<open>b = ?old \<or> _\<close> \<open>disk (world u) = _ \<and> _\<close> \<open>length b = _\<close> buf inside(1)
        mwrite_splice [of ?at buffer "unat num * unit" "disk (world s)" "unat first * unit"] by auto
  qed
  show ?thesis
    unfolding blocks_write_def Let_def
    apply (rule wp_bindI, rule wp_ifI)
     apply (rule wp_mono [OF bread [OF dev z inside(2) tmp]])
     apply (auto simp: at wp_case_prod split: prod.splits intro!: put)[1]
    apply (use put [of tmp s] zero whole tmp buf in \<open>simp add: at wp_simps\<close>)
    done
qed

lemma read_bytes:
  assumes dev: "block_device os disk pos n" and z: "blk_sz d = of_nat unit"
    and tmp: "length tmp = unat num * unit"
    and inside: "unat offset mod unit + unat count \<le> unat num * unit" "(unat first + unat num) * unit \<le> n"
  shows "wp (blocks_read (bread os d) (of_nat unit) tmp first num buffer offset count)
     (\<lambda>(r, b) t. r = 0 \<and> b = overwrite buffer (mread (disk (world s)) (unat first * unit + unat offset mod unit) (unat count)) \<and>
        disk (world t) = disk (world s) \<and> ub t = ub s) s"
proof -
  have at: "unat (offset mod of_nat unit) = unat offset mod unit" by (simp add: unat_mod unat_unit)
  show ?thesis
    unfolding blocks_read_def
    apply (rule wp_bindI, rule wp_mono [OF bread [OF dev z inside(2) tmp]])
    using mread_part [OF inside(1)] by (auto simp: at wp_simps split: prod.splits)
qed

end

text \<open>
  A range of bytes of the region of a user: the region starts at a block, the blocks around the range lie
  on the device, and, unless the region starts at block 0, one block is left before the end of the region.
\<close>

definition range_ok :: "otp \<Rightarrow> u64 \<Rightarrow> u64 \<Rightarrow> u64 \<Rightarrow> u64 \<Rightarrow> nat \<Rightarrow> bool" where
  "range_ok d rs rz offset count n \<longleftrightarrow> otp_get_region d = Some (rs, rz) \<and> unat (blk_sz d) dvd unat rs \<and>
     unat rs + unat offset + unat count + unat (blk_sz d) \<le> n \<and>
     (rs = 0 \<or> unat offset + unat count + 2 * unat (blk_sz d) \<le> unat rz)"

lemma length_fresh_buffer [simp]: "length (fresh_buffer k r) = unat k"
  by (simp add: fresh_buffer_def)

lemma unat_u32_u64: "unat (ucast (x :: u32) :: u64) = unat x"
proof -
  have "unat x < 2 ^ 64" using unat_u32_less [of x] by simp
  then show ?thesis by (simp add: unsigned_ucast_eq take_bit_nat_eq_self)
qed

lemma block_offset: "r + a - a mod u + a mod u = r + a" for r a u :: nat
  using mod_less_eq_dividend [of a u] by linarith

text \<open>The blocks of a range, as \<open>otp_ops_read_write\<close> numbers them: nothing wraps.\<close>

lemma block_numbers:
  assumes u: "unat blk = u" "512 \<le> u" and small: "unat offset + unat count + u < 2 ^ 40" and dvd: "u dvd unat rs"
  defines "ob \<equiv> (ucast ((offset - offset mod blk) div blk) :: u32)" and "bn \<equiv> (ucast (round_size blk offset count div blk) :: u32)"
  shows "unat (rs div blk + ucast ob) * u = unat rs + unat offset - unat offset mod u"
    and "(unat (rs div blk + ucast ob) + unat (ucast bn :: u64)) * u = unat rs + unat (ucast (ob + bn) :: u64) * u"
    and "unat offset + unat count \<le> unat (ucast (ob + bn) :: u64) * u"
    and "unat (ucast (ob + bn) :: u64) * u < unat offset + unat count + u"
proof -
  have pos: "0 < u" using u(2) by linarith
  note plan = block_plan [OF u small] and rnd = round_size_nat [OF u(1) pos small]
  have o: "unat ob * u = unat offset - unat offset mod u" and k: "unat bn * u = unat (round_size blk offset count)"
    using plan(3,4) by (simp_all add: ob_def bn_def)
  have r: "unat (rs div blk) * u = unat rs" using dvd by (simp add: unat_div u)
  have om: "unat offset mod u \<le> unat offset" by simp
  have "unat (rs div blk) \<le> unat rs div 512" using u by (simp add: unat_div div_le_mono2)
  moreover have "unat rs < 18446744073709551616" using unsigned_less [of rs, where ?'a = nat] by simp
  then have "unat rs div 512 < 2 ^ 55" by (simp add: less_mult_imp_div_less)
  ultimately have "unat (rs div blk) + unat ob < 2 ^ 64" using unat_u32_less [of ob] by simp
  then have f: "unat (rs div blk + ucast ob) = unat (rs div blk) + unat ob"
    by (subst unat_word_ariths(1)) (simp add: unat_u32_u64)
  then show first: "unat (rs div blk + ucast ob) * u = unat rs + unat offset - unat offset mod u"
    unfolding f add_mult_distrib using r o om by linarith
  have sum: "(unat ob + unat bn) * u < unat offset + unat count + u" "unat offset + unat count \<le> (unat ob + unat bn) * u"
    unfolding add_mult_distrib using o k rnd(2,3) om by linarith+
  have "(unat ob + unat bn) * 512 \<le> (unat ob + unat bn) * u" using u(2) by (rule mult_le_mono2)
  then have "unat ob + unat bn < 2 ^ 32" using sum(1) small by simp
  then have ub: "unat (ucast (ob + bn) :: u64) = unat ob + unat bn"
    by (subst unat_u32_u64, subst unat_word_ariths(1)) simp
  show "(unat (rs div blk + ucast ob) + unat (ucast bn :: u64)) * u = unat rs + unat (ucast (ob + bn) :: u64) * u"
    unfolding ub f add_mult_distrib using r by (simp add: unat_u32_u64)
  show "unat offset + unat count \<le> unat (ucast (ob + bn) :: u64) * u"
    "unat (ucast (ob + bn) :: u64) * u < unat offset + unat count + u"
    unfolding ub by (rule sum)+
qed

lemma range_blocks:
  assumes u: "unat (blk_sz d) = u" "512 \<le> u" and n: "n < 2 ^ 31" and ok: "range_ok d rs rz offset count n"
  defines "ob \<equiv> (ucast ((offset - offset mod blk_sz d) div blk_sz d) :: u32)"
    and "bn \<equiv> (ucast (round_size (blk_sz d) offset count div blk_sz d) :: u32)"
  shows "unat (rs div blk_sz d + ucast ob) * u = unat rs + unat offset - unat offset mod u"
    and "(unat (rs div blk_sz d + ucast ob) + unat (ucast bn :: u64)) * u \<le> n"
    and "\<not> (rs div blk_sz d \<noteq> 0 \<and> rz div blk_sz d \<le> ucast (ob + bn))"
proof -
  have b: "unat rs + unat offset + unat count + u \<le> n" and dvd: "u dvd unat rs"
    using ok u by (simp_all add: range_ok_def)
  have "unat offset + unat count + u < 2 ^ 31" using b n by linarith
  then have small: "unat offset + unat count + u < 2 ^ 40" by simp
  note num = block_numbers [OF u small dvd, folded ob_def bn_def]
  show "unat (rs div blk_sz d + ucast ob) * u = unat rs + unat offset - unat offset mod u" by (rule num(1))
  show "(unat (rs div blk_sz d + ucast ob) + unat (ucast bn :: u64)) * u \<le> n"
    unfolding num(2) using num(4) b by linarith
  have "unat (ucast (ob + bn) :: u64) < unat rz div u" if "unat offset + unat count + 2 * u \<le> unat rz"
    using num(4) that u(2) by (simp add: less_eq_div_iff_mult_less_eq Suc_le_eq [symmetric])
  then show "\<not> (rs div blk_sz d \<noteq> 0 \<and> rz div blk_sz d \<le> ucast (ob + bn))"
    using ok u by (auto simp: range_ok_def word_le_nat_alt unat_div)
qed

context otp_backend
begin

text \<open>
  Both branches of \<open>otp_ops_read_write\<close> reach the block operations with the blocks around the range.
\<close>

lemma range_facts:
  assumes dev: "block_device os disk pos n" and z: "blk_sz d = of_nat unit" and ok: "range_ok d rs rz offset count n"
  defines "rs' \<equiv> round_size (blk_sz d) offset count"
  shows "unat offset mod unit + unat count \<le> unat rs'"
    and "unat (ucast (ucast (rs' div blk_sz d) :: u32) :: u64) * unit = unat rs'"
    and "unat offset mod unit = 0 \<Longrightarrow> unat count mod unit = 0 \<Longrightarrow> unat rs' = unat count"
    and "rs' mod blk_sz d = 0" "(offset - offset mod blk_sz d) mod blk_sz d = 0" "blk_sz d \<noteq> 0"
proof -
  have u: "unat (blk_sz d) = unit" by (simp add: z unat_unit)
  have "unat offset + unat count + unit < 2 ^ 31" using ok dev_laws(1) [OF dev] by (auto simp: range_ok_def u)
  then have small: "unat offset + unat count + unit < 2 ^ 40" by simp
  note rnd = round_size_nat [OF u unit_pos small] and plan = block_plan [OF u unit_size(1) small]
  show "unat offset mod unit + unat count \<le> unat rs'" using rnd(2) by (simp add: rs'_def)
  show "unat (ucast (ucast (rs' div blk_sz d) :: u32) :: u64) * unit = unat rs'"
    unfolding rs'_def unat_u32_u64 by (rule plan(4))
  show "unat offset mod unit = 0 \<Longrightarrow> unat count mod unit = 0 \<Longrightarrow> unat rs' = unat count"
    unfolding rs'_def by (rule rnd(4))
  show "rs' mod blk_sz d = 0" "(offset - offset mod blk_sz d) mod blk_sz d = 0"
    using plan(1,2) by (simp_all add: rs'_def)
  show "blk_sz d \<noteq> 0" using u unit_pos by auto
qed

lemma ops_write:
  assumes dev: "block_device os disk pos n" and z: "blk_sz d = of_nat unit" and o: "ops d \<noteq> NULL_ops"
    and be: "otp_block_read os d = bread os d" "otp_block_write os d = bwrite os d"
    and ok: "range_ok d rs rz offset count n" and buf: "length buffer = unat count"
  shows "wp (otp_ops_read_write os 0 d buffer offset count)
     (\<lambda>(r, b) t. r = 0 \<and> disk (world t) = mwrite (disk (world s)) (unat rs + unat offset) buffer \<and> ub t = ub s) s"
proof -
  have u: "unat (blk_sz d) = unit" by (simp add: z unat_unit)
  note facts = range_facts [OF dev z ok] and blks = range_blocks [OF u unit_size(1) dev_laws(1) [OF dev] ok]
  have reg: "the_region d = ret (rs, rz)" using ok by (simp add: the_region_def range_ok_def)
  note W = write_bytes [OF dev z _ buf _ blks(2), unfolded blks(1) z [symmetric], where tmp = "fresh_buffer t m" for t m]
  show ?thesis
    unfolding otp_ops_read_write_def be Let_def reg
    using o facts(4,5,6) blks(3)
    apply (simp add: wp_simps case_prod_beta dev_laws [OF dev])
    apply (rule wp_mono [OF W])
    using facts by (simp_all add: dev_laws [OF dev] wp_simps block_offset)
qed

lemma ops_read:
  assumes dev: "block_device os disk pos n" and z: "blk_sz d = of_nat unit" and o: "ops d \<noteq> NULL_ops"
    and be: "otp_block_read os d = bread os d"
    and ok: "range_ok d rs rz offset count n"
  shows "wp (otp_ops_read_write os 1 d buffer offset count)
     (\<lambda>(r, b) t. r = 0 \<and> b = overwrite buffer (mread (disk (world s)) (unat rs + unat offset) (unat count)) \<and>
        disk (world t) = disk (world s) \<and> ub t = ub s) s"
proof -
  have u: "unat (blk_sz d) = unit" by (simp add: z unat_unit)
  note facts = range_facts [OF dev z ok] and blks = range_blocks [OF u unit_size(1) dev_laws(1) [OF dev] ok]
  have reg: "the_region d = ret (rs, rz)" using ok by (simp add: the_region_def range_ok_def)
  note R = read_bytes [OF dev z _ _ blks(2), unfolded blks(1) z [symmetric], where tmp = "fresh_buffer t m" for t m]
  show ?thesis
    unfolding otp_ops_read_write_def be Let_def reg
    using o facts(4,5,6) blks(3)
    apply (simp add: wp_simps case_prod_beta dev_laws [OF dev])
    apply (rule wp_mono [OF R])
    using facts by (auto simp: dev_laws [OF dev] block_offset)
qed

text \<open>A range that the check accepts lies in the region, when that does not start at block 0.\<close>

lemma ops_confined:
  assumes dev: "block_device os disk pos n" and z: "blk_sz d = of_nat unit" and o: "ops d \<noteq> NULL_ops"
    and be: "otp_block_read os d = bread os d" "otp_block_write os d = bwrite os d"
    and reg: "otp_get_region d = Some (rs, rz)" "unit dvd unat rs" "rs \<noteq> 0" "unat rs + unat rz \<le> n"
    and small: "unat offset + unat count + unit < 2 ^ 40" and buf: "length buffer = unat count"
  shows "wp (otp_ops_read_write os 0 d buffer offset count)
     (\<lambda>(r, b) t. (\<forall>a. a \<notin> {unat rs..<unat rs + unat rz} \<longrightarrow> disk (world t) a = disk (world s) a) \<and> ub t = ub s) s"
proof -
  have u: "unat (blk_sz d) = unit" by (simp add: z unat_unit)
  note rnd = round_size_nat [OF u unit_pos small] and plan = block_plan [OF u unit_size(1) small]
    and num = block_numbers [OF u unit_size(1) small reg(2)]
  let ?ob = "(ucast ((offset - offset mod blk_sz d) div blk_sz d) :: u32)"
    and ?bn = "(ucast (round_size (blk_sz d) offset count div blk_sz d) :: u32)"
  have r: "the_region d = ret (rs, rz)" by (simp add: the_region_def reg)
  have "unat (rs div blk_sz d) \<noteq> 0" using reg(2,3) u unit_pos by (auto simp: unat_div dvd_div_eq_0_iff unat_eq_zero)
  then have nz: "rs div blk_sz d \<noteq> 0" "blk_sz d \<noteq> 0" using u unit_pos by auto
  show ?thesis
  proof (cases "rz div blk_sz d \<le> ucast (?ob + ?bn)")
    case True
    then show ?thesis
      using o nz plan(1,2) u unit_pos
      by (auto simp: otp_ops_read_write_def r wp_simps case_prod_beta dev_laws [OF dev] Let_def)
  next
    case False
    then have "unat (ucast (?ob + ?bn) :: u64) < unat rz div unit" by (simp add: word_le_nat_alt unat_div u)
    then have "Suc (unat (ucast (?ob + ?bn) :: u64)) * unit \<le> unat rz"
      using unit_pos by (simp add: less_eq_div_iff_mult_less_eq Suc_le_eq [symmetric])
    then have "unat (ucast (?ob + ?bn) :: u64) * unit < unat rz" using unit_pos by simp
    then have inside: "unat offset + unat count < unat rz" "unat rs + unat (ucast (?ob + ?bn) :: u64) * unit \<le> n"
      using num(3) reg(4) by linarith+
    note W = write_bytes [OF dev z _ buf _ inside(2) [folded num(2)], unfolded num(1) z [symmetric], where tmp = "fresh_buffer t m" for t m]
    have out: "mwrite m (unat rs + unat offset) buffer a = m a" if "a \<notin> {unat rs..<unat rs + unat rz}" for m a
      using that inside(1) buf by (auto simp: mwrite_def)
    show ?thesis
      unfolding otp_ops_read_write_def be Let_def r
      using o plan(1,2) False nz(2)
      apply (simp add: wp_simps case_prod_beta dev_laws [OF dev])
      apply (rule wp_mono [OF W])
      using plan(4) rnd(2,4) by (simp_all add: unat_u32_u64 dev_laws [OF dev] wp_simps block_offset out)
  qed
qed

end

section \<open>The opened device\<close>

text \<open>The block size is that of the back end.\<close>

definition backed :: "otp \<Rightarrow> bool" where
  "backed d \<longleftrightarrow> ops d = EMMC_ops \<and> blk_sz d = 512 \<or> ops d = UFS_ops \<and> blk_sz d = 4096"

text \<open>The device as \<open>otp_open\<close> leaves it: four regions of one group each fit into the partition.\<close>

definition otp_ok :: "otp \<Rightarrow> bool" where
  "otp_ok d \<longleftrightarrow> backed d \<and> wp_grp_size d \<noteq> 0 \<and> unat (blk_sz d) dvd unat (wp_grp_size d) \<and>
     unat (current_user_id d) < 4 \<and> max_user_num d = 4 \<and> region d = make_regions d \<and>
     4 * unat (wp_grp_size d) \<le> unat (otp_size d)"

lemma mult_512_dvd: "512 dvd unat (x * 512 :: u64)"
proof -
  have "unat (x * 512) = unat x * 512 mod (512 * 2 ^ 55)" by (simp add: unat_word_ariths)
  then show ?thesis by (simp add: dvd_mod_iff)
qed

text \<open>A geometry that was read successfully: the result of the two \<open>storage_init\<close> functions.\<close>

definition geometry_ok :: "otp \<Rightarrow> bool" where
  "geometry_ok d \<longleftrightarrow> wp_grp_size d \<noteq> 0 \<longrightarrow> otp_size d \<noteq> 0 \<longrightarrow> backed d \<and> unat (blk_sz d) dvd unat (wp_grp_size d)"

lemma emmc_geometry_ok:
  assumes "emmc_geometry grp first len (otp_zero\<lparr>ops := EMMC_ops, otp_blk_path := p\<rparr>) = (0, d)"
  shows "geometry_ok d"
  using assms mult_512_dvd [of grp]
  by (auto simp: emmc_geometry_def geometry_ok_def backed_def Let_def split: if_splits)

lemma ufs_geometry_ok:
  assumes "ufs_geometry first len (otp_zero\<lparr>ops := UFS_ops, otp_blk_path := p, wp_grp_size := 0x100000\<rparr>) = (0, d)"
  shows "geometry_ok d"
  using assms by (auto simp: ufs_geometry_def geometry_ok_def backed_def Let_def split: if_splits)

lemma unread_geometry: "geometry_ok (otp_zero\<lparr>ops := b\<rparr>)" "geometry_ok (otp_zero\<lparr>ops := b, otp_blk_path := p\<rparr>)"
  "geometry_ok (otp_zero\<lparr>ops := b, otp_blk_path := p, wp_grp_size := g\<rparr>)"
  by (simp_all add: geometry_ok_def otp_zero_def)

lemmas opaque_steps = wp_intro [where m = "syscall os q" for os q] wp_intro [where m = "get_wp_grp_size os" for os]
  wp_intro [where m = "partition_range os a b" for os a b] wp_intro [where m = "get_boot_type os" for os]

lemma emmc_init_ok: "wp (emmc_storage_init os otp_zero) (\<lambda>(r, d) t. r = 0 \<longrightarrow> geometry_ok d) s"
  unfolding emmc_storage_init_def Let_def
  by (intro wp_bindI wp_ifI wp_returnI opaque_steps)
    (auto intro: emmc_geometry_ok simp: unread_geometry split: sum.splits prod.splits)

lemma ufs_init_ok: "wp (ufs_storage_init os otp_zero) (\<lambda>(r, d) t. r = 0 \<longrightarrow> geometry_ok d) s"
  unfolding ufs_storage_init_def Let_def
  by (intro wp_bindI wp_ifI wp_returnI opaque_steps)
    (auto intro: ufs_geometry_ok simp: unread_geometry split: sum.splits prod.splits)

lemma init_ok:
  "wp (otp_init os otp_zero uid) (\<lambda>(r, d) t. r \<noteq> 0 \<and> r <s 0 \<or> ub t \<or> otp_ok d \<and> current_user_id d = uid) s"
proof -
  have ok: "otp_ok (d\<lparr>max_user_num := 4, region := make_regions d, current_user_id := uid\<rparr>)"
    if g: "geometry_ok d" "wp_grp_size d \<noteq> 0" and n: "\<not> (ucast (otp_size d div wp_grp_size d) :: u32) < 4" and uid: "\<not> 4 \<le> uid" for d
  proof -
    have "4 \<le> unat (ucast (otp_size d div wp_grp_size d) :: u32)" using n by (simp add: word_less_nat_alt)
    also have "\<dots> \<le> unat (otp_size d) div unat (wp_grp_size d)"
      by (simp add: unsigned_ucast_eq take_bit_eq_mod unat_div)
    finally have q: "4 * unat (wp_grp_size d) \<le> unat (otp_size d)"
      using g(2) by (simp add: less_eq_div_iff_mult_less_eq unat_gt_0)
    then have "otp_size d \<noteq> 0" using g(2) by (metis le_zero_eq mult_is_0 unat_0 unat_eq_zero zero_neq_numeral)
    then have "backed d" "unat (blk_sz d) dvd unat (wp_grp_size d)" using g by (simp_all add: geometry_ok_def)
    then show ?thesis
      using q uid g(2) by (simp add: otp_ok_def backed_def make_regions_def word_le_nat_alt)
  qed
  have neg: "(- 22 :: s32) <s 0" by code_simp
  show ?thesis
    unfolding otp_init_def
    apply (intro wp_bindI opaque_steps)
    apply (rule wp_mono [where Q = "\<lambda>(r, d) t. r = 0 \<longrightarrow> geometry_ok d"])
     apply (simp add: wp_if emmc_init_ok ufs_init_ok)
    apply (auto simp: wp_simps Let_def ok neg)
    done
qed

lemma open_ok:
  "wp (otp_open os uid) (\<lambda>r t. case r of None \<Rightarrow> True | Some d \<Rightarrow> ub t \<or> otp_ok d \<and> current_user_id d = uid) s"
  unfolding otp_open_def
  by (intro wp_bindI opaque_steps wp_ifI wp_returnI) (auto simp: wp_simps intro!: wp_mono [OF init_ok])

lemma region_of:
  assumes "otp_ok d"
  shows "otp_get_region d = Some (otp_begin d + ucast (current_user_id d) * wp_grp_size d, wp_grp_size d)"
proof -
  obtain i where i: "unat (current_user_id d) = i" "i < 4" using assms by (auto simp: otp_ok_def)
  have c: "current_user_id d = of_nat i" by (simp add: i(1) [symmetric])
  have "i = 0 \<or> i = 1 \<or> i = 2 \<or> i = 3" using i(2) by linarith
  then show ?thesis
    using assms c by (auto simp: otp_get_region_def otp_ok_def make_regions_def upt_rec)
qed

section \<open>The interface\<close>

text \<open>An eMMC whose answers report no write protection.\<close>

definition unprotected :: "'w dev_os \<Rightarrow> bool" where
  "unprotected os \<longleftrightarrow> (\<forall>w fd b k.
     drop_bit 24 (rd32 (d_data (fst (os (Dev_mmc_cmd fd MMC_SEND_WRITE_PROT b k) w)))) AND 1 = 0)"

lemma status_law:
  assumes dev: "block_device os disk pos n" and reg: "otp_get_region d = Some (rs, rz)"
  shows "wp (otp_get_status os (Some d) (0, ty)) (\<lambda>(r, st, _) t. (unprotected os \<longrightarrow> st = 0) \<and>
     disk (world t) = disk (world s) \<and> ub t = ub s) s"
  by (auto simp: otp_get_status_def the_region_def reg ufs_otp_get_status_def emmc_otp_get_status_def
      emmc_get_write_protect_status_def emmc_get_write_protect_type_def mmc_command_def unprotected_def
      wp_simps case_prod_beta Let_def dev_laws [OF dev])

lemma rw_write:
  assumes dev: "block_device os disk pos n" and b: "backed d" and ok: "range_ok d rs rz offset count n"
    and l: "length buffer = unat count"
  shows "wp (otp_ops_read_write os 0 d buffer offset count)
     (\<lambda>(r, b) t. r = 0 \<and> disk (world t) = mwrite (disk (world s)) (unat rs + unat offset) buffer \<and> ub t = ub s) s"
  using b emmc.ops_write [OF dev _ _ _ _ ok l, of s] ufs.ops_write [OF dev _ _ _ _ ok l, of s]
  by (auto simp: backed_def otp_block_read_def otp_block_write_def)

lemma rw_read:
  assumes dev: "block_device os disk pos n" and b: "backed d" and ok: "range_ok d rs rz offset count n"
  shows "wp (otp_ops_read_write os 1 d buffer offset count)
     (\<lambda>(r, b) t. r = 0 \<and> b = overwrite buffer (mread (disk (world s)) (unat rs + unat offset) (unat count)) \<and>
        disk (world t) = disk (world s) \<and> ub t = ub s) s"
  using b emmc.ops_read [OF dev _ _ _ ok, of buffer s] ufs.ops_read [OF dev _ _ _ ok, of buffer s]
  by (auto simp: backed_def otp_block_read_def)

lemma rw_confined:
  assumes dev: "block_device os disk pos n" and b: "backed d"
    and reg: "otp_get_region d = Some (rs, rz)" "unat (blk_sz d) dvd unat rs" "rs \<noteq> 0" "unat rs + unat rz \<le> n"
    and small: "unat offset + unat count < 2 ^ 39" and l: "length buffer = unat count"
  shows "wp (otp_ops_read_write os 0 d buffer offset count)
     (\<lambda>(r, b) t. (\<forall>a. a \<notin> {unat rs..<unat rs + unat rz} \<longrightarrow> disk (world t) a = disk (world s) a) \<and> ub t = ub s) s"
  using b emmc.ops_confined [OF dev _ _ _ _ reg(1) _ reg(3,4) _ l, of offset s] ufs.ops_confined [OF dev _ _ _ _ reg(1) _ reg(3,4) _ l, of offset s]
    reg(2) small
  by (auto simp: backed_def otp_block_read_def otp_block_write_def)

lemma write_law:
  assumes dev: "block_device os disk pos n" and d: "backed d" and clear: "unprotected os"
    and ok: "range_ok d rs rz offset count n" and l: "length buffer = unat count"
  shows "wp (otp_write os (Some d) buffer offset count) (\<lambda>r t. r = 0 \<and>
      disk (world t) = mwrite (disk (world s)) (unat rs + unat offset) buffer \<and> ub t = ub s) s"
proof -
  have reg: "otp_get_region d = Some (rs, rz)" using ok by (simp add: range_ok_def)
  show ?thesis
    unfolding otp_write_def option.case
    by (intro wp_bindI, rule wp_mono [OF status_law [OF dev reg]])
      (use clear in \<open>auto simp: wp_simps intro!: wp_mono [OF rw_write [OF dev d ok l]]\<close>)
qed

lemma read_law:
  assumes dev: "block_device os disk pos n" and d: "backed d" and ok: "range_ok d rs rz offset count n"
  shows "wp (otp_read os (Some d) buf offset count) (\<lambda>(q, b) t. q = 0 \<and>
      b = overwrite buf (mread (disk (world s)) (unat rs + unat offset) (unat count)) \<and>
      disk (world t) = disk (world s) \<and> ub t = ub s) s"
  unfolding otp_read_def option.case by (rule rw_read [OF dev d ok])

section \<open>The limits of the check\<close>

text \<open>
  A region that starts at block 0 is not checked at all: a write behind its end succeeds and changes the
  region of the next user.
\<close>

lemma first_region_unconfined:
  assumes dev: "block_device os disk pos n" and d: "backed d" and clear: "unprotected os"
    and reg: "otp_get_region d = Some (0, rz)" "unat rz \<le> unat offset"
    and fits: "unat offset + unat count + unat (blk_sz d) \<le> n" and l: "length buffer = unat count"
  shows "wp (otp_write os (Some d) buffer offset count)
    (\<lambda>r t. r = 0 \<and> disk (world t) = mwrite (disk (world s)) (unat offset) buffer) s"
proof -
  have "range_ok d 0 rz offset count n" using reg fits by (simp add: range_ok_def)
  from wp_mono [OF write_law [OF dev d clear this l]] show ?thesis by auto
qed

text \<open>In every other region the last block is refused: a write of the whole region fails.\<close>

lemma whole_region_refused:
  assumes d: "backed d" and reg: "otp_get_region d = Some (rs, rz)" "blk_sz d \<le> rs" and small: "unat rz < 2 ^ 39"
    and dvd: "unat (blk_sz d) dvd unat rz"
  shows "wp (otp_ops_read_write os ty d buffer 0 rz) (\<lambda>(r, b) t. r = - EINVAL) s"
proof -
  have u: "unat (blk_sz d) = 512 \<or> unat (blk_sz d) = 4096" using d by (auto simp: backed_def)
  have m: "rz mod blk_sz d = 0" using dvd by (metis dvd_imp_mod_0 unat_eq_zero unat_mod)
  then have rnd: "round_size (blk_sz d) 0 rz = rz" by (simp add: round_size_def)
  have "unat (rz div blk_sz d) < 2 ^ 31" unfolding unat_div by (rule block_count) (use u small in auto)
  then have n: "(ucast (ucast (rz div blk_sz d) :: u32) :: u64) = rz div blk_sz d"
    by (metis int_small unat_u32_u64 word_unat_eq_iff)
  have "unat (rs div blk_sz d) \<noteq> 0" using u reg(2) by (auto simp: unat_div div_eq_0_iff word_le_nat_alt)
  then have "rs div blk_sz d \<noteq> 0" by auto
  then show ?thesis
    using d m by (auto simp: backed_def otp_ops_read_write_def the_region_def reg rnd n wp_simps Let_def case_prod_beta)
qed

section \<open>An example: a phone with UFS\<close>

text \<open>
  The partition has five megabytes, so that four regions of one megabyte and the one for the mark fit. The
  world is the contents, the position and the file opened last; other files lie outside the partition.
\<close>

definition dev_ok :: "u64 \<Rightarrow> devres" where
  "dev_ok v = \<lparr>d_ret = v, d_errno = 0, d_data = [], d_name = None\<rparr>"

fun ufs_phone :: "(memory \<times> nat \<times> string) dev_os" where
  "ufs_phone (Dev_open path fl) (m, p, f) = (dev_ok 3, m, if path = OTP_BLOCK_PATH then 0 else 5242880, f)"
| "ufs_phone (Dev_lseek fd k) (m, p, f) = (dev_ok k, m, unat k, f)"
| "ufs_phone (Dev_read fd k) (m, p, f) =
     (if p + unat k \<le> 5242880 then ((dev_ok k)\<lparr>d_data := mread m p (unat k)\<rparr>, m, p + unat k, f)
      else ((dev_ok 1)\<lparr>d_data := bytes ''2''\<rparr>, m, p, f))"
| "ufs_phone (Dev_write fd bs) (m, p, f) = (dev_ok (of_nat (length bs)), mwrite m p bs, p + length bs, f)"
| "ufs_phone (Dev_readlink path) w = ((dev_ok 15)\<lparr>d_name := Some ''/dev/block/sdc9''\<rparr>, w)"
| "ufs_phone (Dev_fopen path) (m, p, f) = (dev_ok (if path = ''/dev/otp'' then 0 else 1), m, p, path)"
| "ufs_phone Dev_fgets (m, p, f) =
     ((dev_ok 1)\<lparr>d_name := Some (if f = ''/sys/block/sdc/sdc9/start'' then ''0'' else ''10240'')\<rparr>, m, p, f)"
| "ufs_phone (Dev_malloc k) w = (dev_ok 4096, w)"
| "ufs_phone Dev_uname w = ((dev_ok 0)\<lparr>d_name := Some ''4.9.117''\<rparr>, w)"
| "ufs_phone (Dev_close fd) w = (dev_ok 0, w)"
| "ufs_phone (Dev_mmc_cmd fd opcode arg k) w = (dev_ok 0, w)"
| "ufs_phone Dev_fclose w = (dev_ok 0, w)"

definition ufs_otp :: "u32 \<Rightarrow> otp" where
  "ufs_otp uid = (let d = otp_zero\<lparr>ops := UFS_ops, otp_blk_path := ''/dev/block/sdc9'', blk_sz := 4096,
       wp_grp_size := 0x100000, otp_size := 0x400000, max_user_num := 4\<rparr>
     in d\<lparr>region := make_regions d, current_user_id := uid\<rparr>)"

lemma ufs_numbers: "strtoul0 ''0'' = 0" "strtoul0 ''10240'' = 10240" "atoi ''2'' = 2"
  "block_name ''/dev/block/sdc9'' = ''sdc9''"
  by code_simp+

lemma small_ints: "\<not> (3 :: s32) <s 0" "\<not> (15 :: s32) <s 0" "\<not> (0 :: s32) <s 0" "\<not> (1 :: u64) \<le>s 0" "\<not> (5 :: s32) \<le>s 1"
  by code_simp+

lemma ufs_phone_device: "block_device ufs_phone fst (fst \<circ> snd) 5242880"
  by (auto simp: block_device_def dev_ok_def int_ret_def small_ints)

lemma ufs_phone_unprotected: "unprotected ufs_phone"
  by (simp add: unprotected_def dev_ok_def rd32_def byte_at_def)

lemma ufs_phone_boot: "wp (get_boot_type ufs_phone) (\<lambda>r t. r = 2 \<and> fst (world t) = fst (world s) \<and> ub t = ub s) s"
  by (cases "world s") (simp add: get_boot_type_def wp_simps case_prod_beta Let_def dev_ok_def int_ret_def small_ints
      ufs_numbers OTP_BLOCK_PATH_def bytes_def cstr_def)

lemma ufs_phone_line:
  "wp (read_number_line ufs_phone path) (\<lambda>r t. r = (if path = ''/dev/otp'' then Inl 0 else
      Inr (if path = ''/sys/block/sdc/sdc9/start'' then 0 else 10240)) \<and> fst (world t) = fst (world s) \<and> ub t = ub s) s"
  by (cases "world s") (simp add: read_number_line_def wp_simps case_prod_beta Let_def dev_ok_def ufs_numbers)

lemma ufs_phone_range:
  "wp (partition_range ufs_phone ''/sys/block/sdc/'' ''/dev/block/sdc9'')
     (\<lambda>r t. r = Inr (0, 10240) \<and> fst (world t) = fst (world s) \<and> ub t = ub s) s"
  apply (cases "world s")
  apply (simp add: partition_range_def wp_simps case_prod_beta Let_def dev_ok_def ufs_numbers)
  apply (rule wp_mono [OF ufs_phone_line])
  apply (simp add: wp_simps)
  apply (rule wp_mono [OF ufs_phone_line])
  apply (simp add: wp_simps)
  done

lemma ufs_phone_opens:
  assumes "uid < 4"
  shows "wp (otp_open ufs_phone uid) (\<lambda>r t. r = Some (ufs_otp uid) \<and> fst (world t) = fst (world s) \<and> ub t = ub s) s"
proof -
  have g: "ufs_geometry 0 10240 (otp_zero\<lparr>ops := UFS_ops, otp_blk_path := ''/dev/block/sdc9'', wp_grp_size := 0x100000\<rparr>)
    = (0, otp_zero\<lparr>ops := UFS_ops, otp_blk_path := ''/dev/block/sdc9'', wp_grp_size := 0x100000, blk_sz := 4096, otp_begin := 0,
       partition_start := 0, otp_size := 0x400000\<rparr>)"
    by (simp add: ufs_geometry_def Let_def small_ints)
  have init: "wp (ufs_storage_init ufs_phone otp_zero) (\<lambda>r t. r = (0, otp_zero\<lparr>ops := UFS_ops, otp_blk_path := ''/dev/block/sdc9'',
      wp_grp_size := 0x100000, blk_sz := 4096, otp_begin := 0, partition_start := 0, otp_size := 0x400000\<rparr>)
      \<and> fst (world t) = fst (world s) \<and> ub t = ub s) s" for s
    apply (cases "world s")
    apply (simp add: ufs_storage_init_def wp_simps dev_ok_def int_ret_def small_ints Let_def)
    apply (rule wp_mono [OF ufs_phone_range])
    using g apply (simp add: wp_simps)
    done
  show ?thesis
    using assms
    apply (cases "world s")
    apply (simp add: otp_open_def otp_init_def wp_simps dev_ok_def)
    apply (rule wp_mono [OF ufs_phone_boot])
    apply (simp add: wp_simps)
    apply (rule wp_mono [OF init])
    apply (simp add: wp_simps Let_def ufs_otp_def make_regions_def otp_zero_def)
    done
qed

lemma ufs_otp_simps [simp]:
  "ops (ufs_otp uid) = UFS_ops" "blk_sz (ufs_otp uid) = 4096" "backed (ufs_otp uid)"
  by (simp_all add: ufs_otp_def backed_def Let_def)

lemma ufs_otp_region: "unat uid < 4 \<Longrightarrow> otp_get_region (ufs_otp uid) = Some (ucast uid * 0x100000, 0x100000)"
  using region_of [of "ufs_otp uid"]
  by (simp add: otp_ok_def backed_def ufs_otp_def otp_zero_def Let_def make_regions_def)

section \<open>Properties\<close>

text \<open>
  C22: What \<open>otp_open\<close> hands out is well formed, whatever the kernel answers: the block size is that of the
  back end that was chosen, the user's number is one of the four, the group size is a positive multiple
  of the block size, the four regions are consecutive groups from the first boundary on, and the
  partition has room for four groups. (The case left out is a division by a group size of 0.)
\<close>

theorem otp_open_wellformed:
  assumes "run_state (otp_open os uid) s = (Some d, t)" "\<not> ub t"
  shows "otp_ok d \<and> current_user_id d = uid \<and>
    otp_get_region d = Some (otp_begin d + ucast uid * wp_grp_size d, wp_grp_size d)"
proof -
  have "otp_ok d" "current_user_id d = uid" using wp_run [OF open_ok assms(1)] assms(2) by auto
  then show ?thesis using region_of by blast
qed

theorem otp_open_wellformed_witness:
  "fst (run_state (otp_open ufs_phone 1) \<lparr>world = (\<lambda>_. 0, 0, []), trace = [], ub = False\<rparr>) = Some (ufs_otp 1) \<and>
   otp_ok (ufs_otp 1) \<and> otp_get_region (ufs_otp 1) = Some (0x100000, 0x100000)"
proof -
  let ?s = "\<lparr>world = (\<lambda>_. 0, 0, []), trace = [], ub = False\<rparr> :: (memory \<times> nat \<times> string) otpenv"
  obtain r t where run: "run_state (otp_open ufs_phone 1) ?s = (r, t)" by fastforce
  have "r = Some (ufs_otp 1)" "\<not> ub t" using wp_run [OF ufs_phone_opens [of 1] run] by simp_all
  then show ?thesis
    using otp_open_wellformed [of ufs_phone 1 ?s "ufs_otp 1" t] run by (simp add: ufs_otp_region)
qed

text \<open>
  C21: A range inside the caller's region is written and read back: \<open>otp_write\<close> on an unprotected device
  returns 0 and changes exactly the bytes of the range on the partition (the rest of the blocks it rewrites
  included), and \<open>otp_read\<close> then returns 0 and delivers what was written. This holds on eMMC and UFS, for
  every alignment of the range.
\<close>

theorem otp_write_read:
  assumes dev: "block_device os disk pos n" and d: "backed d" and clear: "unprotected os"
    and ok: "range_ok d rs rz offset count n" and l: "length buffer = unat count" "length buf = unat count"
  shows "wp (do { r \<leftarrow> otp_write os (Some d) buffer offset count;
                 (q, b) \<leftarrow> otp_read os (Some d) buf offset count;
                 ret (r, q, b) })
     (\<lambda>(r, q, b) t. r = 0 \<and> q = 0 \<and> b = buffer \<and>
        disk (world t) = mwrite (disk (world s)) (unat rs + unat offset) buffer \<and> ub t = ub s) s"
  by (rule wp_bindI, rule wp_mono [OF write_law [OF dev d clear ok l(1)]], rule wp_bindI, rule wp_mono [OF read_law [OF dev d ok]])
    (use l in \<open>auto simp: wp_simps overwrite_def mread_mwrite_prefix\<close>)

theorem otp_write_read_witness:
  "wp (do { r \<leftarrow> otp_write ufs_phone (Some (ufs_otp 1)) [1, 2, 3, 4, 5] 4094 5;
           (q, b) \<leftarrow> otp_read ufs_phone (Some (ufs_otp 1)) [0, 0, 0, 0, 0] 4094 5;
           ret (r, q, b) })
     (\<lambda>(r, q, b) t. r = 0 \<and> q = 0 \<and> b = [1, 2, 3, 4, 5] \<and>
        fst (world t) = mwrite (\<lambda>_. 0) 1052670 [1, 2, 3, 4, 5] \<and> \<not> ub t)
     \<lparr>world = (\<lambda>_. 0, 0, []), trace = [], ub = False\<rparr>"
  using otp_write_read [OF ufs_phone_device _ ufs_phone_unprotected, where d = "ufs_otp 1" and rs = "0x100000" and rz = "0x100000"
      and offset = 4094 and count = 5 and buffer = "[1, 2, 3, 4, 5]" and buf = "[0, 0, 0, 0, 0]" and s = "\<lparr>world = (\<lambda>_. 0, 0, []), trace = [], ub = False\<rparr>"]
  by (simp add: range_ok_def ufs_otp_region)

text \<open>
  C13: A write never leaves the caller's region, unless that starts at block 0: for every offset and size of
  less than half a terabyte in all, accepted or refused, protected or not, every byte of the partition outside the region
  keeps its value.
\<close>

theorem otp_write_confined:
  assumes dev: "block_device os disk pos n" and d: "backed d"
    and reg: "otp_get_region d = Some (rs, rz)" "unat (blk_sz d) dvd unat rs" "rs \<noteq> 0" "unat rs + unat rz \<le> n"
    and small: "unat offset + unat count < 2 ^ 39" and l: "length buffer = unat count"
    and out: "a \<notin> {unat rs..<unat rs + unat rz}"
  shows "wp (otp_write os (Some d) buffer offset count) (\<lambda>r t. disk (world t) a = disk (world s) a \<and> ub t = ub s) s"
  unfolding otp_write_def option.case
  by (intro wp_bindI, rule wp_mono [OF status_law [OF dev reg(1)]])
    (use out in \<open>auto simp: wp_simps intro!: wp_mono [OF rw_confined [OF dev d reg small l]]\<close>)

theorem otp_write_confined_witness:
  "wp (otp_write ufs_phone (Some (ufs_otp 1)) [1, 2, 3] 70000 3)
     (\<lambda>r t. fst (world t) 0 = 7 \<and> \<not> ub t) \<lparr>world = (\<lambda>_. 7, 0, []), trace = [], ub = False\<rparr>"
  using otp_write_confined [OF ufs_phone_device, where d = "ufs_otp 1" and rs = "0x100000" and rz = "0x100000"
      and offset = 70000 and count = 3 and buffer = "[1, 2, 3]" and a = 0 and s = "\<lparr>world = (\<lambda>_. 7, 0, []), trace = [], ub = False\<rparr>"]
  by (simp add: ufs_otp_region)

end
