(* ===== verification/Fsd_Otp.thy ===== *)
theory Fsd_Otp
  imports Fsd_Packet Fsd_Platform Otp_Device
begin

unbundle bit_operations_syntax

text \<open>
  The daemon's OTP operations (\<open>fsd_platform.c\<close>) on the library they are linked with (\<open>libstorage_otp\<close>): the
  requests \<open>Sys_otp_open\<close>, \<open>Sys_otp_read\<close> and so on, which are parameters of the daemon's model, are
  answered by running the library's model.
\<close>

section \<open>The library in the daemon's process\<close>

text \<open>
  The world of the daemon is then the device, the handle the library has allocated, and whether the
  library has done something undefined.
\<close>

record 'w otplib =
  kernel :: 'w
  handle :: "otp option"
  lib_ub :: bool

definition lib_run :: "('w otpenv, 'a) state \<Rightarrow> 'w otplib \<Rightarrow> 'a \<times> 'w otplib" where
  "lib_run m l = (case run_state m \<lparr>world = kernel l, trace = [], ub = lib_ub l\<rparr> of
     (a, t) \<Rightarrow> (a, l\<lparr>kernel := world t, lib_ub := ub t\<rparr>))"

abbreviation (input) USER_CCCI :: u32 where "USER_CCCI \<equiv> 0"

definition call_otp_open :: "'w dev_os \<Rightarrow> 'w otplib \<Rightarrow> sysres \<times> 'w otplib" where
  "call_otp_open dev l = (case lib_run (otp_open dev USER_CCCI) l of
     (d, l') \<Rightarrow> (res0\<lparr>r_ret := (if d = None then 0 else 1)\<rparr>, l'\<lparr>handle := d\<rparr>))"

text \<open>\<open>otp_read\<close> stores into the daemon's buffer; the answer carries what it stores.\<close>

definition with_otp :: "'w dev_os \<Rightarrow> 'w otplib os \<Rightarrow> 'w otplib os" where
  "with_otp dev rest q l = (case q of
     Sys_otp_get_libversion \<Rightarrow> (case lib_run (otp_get_libversion dev) l of (v, l') \<Rightarrow> (res0\<lparr>r_ret := v\<rparr>, l'))
   | Sys_otp_open \<Rightarrow> call_otp_open dev l
   | Sys_otp_close \<Rightarrow> (res0, l\<lparr>handle := None\<rparr>)
   | Sys_otp_lock \<Rightarrow> (case lib_run (otp_lock dev (handle l) WP_TEMPORARY) l of (r, l') \<Rightarrow> (res0\<lparr>r_ret := r\<rparr>, l'))
   | Sys_otp_get_size \<Rightarrow> (case lib_run (otp_get_size (handle l)) l of (n, l') \<Rightarrow> (res0\<lparr>r_ret := ucast n\<rparr>, l'))
   | Sys_otp_read a n \<Rightarrow> (case lib_run (otp_read dev (handle l) [] (ucast a) (ucast n)) l of
        ((r, bs), l') \<Rightarrow> (res0\<lparr>r_ret := r, r_data := bs\<rparr>, l'))
   | Sys_otp_write a bs \<Rightarrow> (case lib_run (otp_write dev (handle l) bs (ucast a) (of_nat (length bs))) l of
        (r, l') \<Rightarrow> (res0\<lparr>r_ret := r\<rparr>, l'))
   | _ \<Rightarrow> rest q l)"

text \<open>From a law of the library to the answer the daemon gets.\<close>

lemma lib_run_law:
  assumes "\<And>s. wp m (\<lambda>a t. P (world s) a (world t) \<and> ub t = ub s) s"
  shows "P (kernel l) (fst (lib_run m l)) (kernel (snd (lib_run m l)))"
    "lib_ub (snd (lib_run m l)) = lib_ub l" "handle (snd (lib_run m l)) = handle l"
  using assms [of "\<lparr>world = kernel l, trace = [], ub = lib_ub l\<rparr>"]
  by (simp_all add: lib_run_def wp_def split: prod.splits)

section \<open>Locking\<close>

text \<open>
  The library refuses the kind of lock that the daemon asks for, so that a lock request of the modem always
  fails when the library is used: nothing is ever locked.
\<close>

lemma lock_refused:
  assumes v: "r_ret (fst (with_otp dev rest Sys_otp_get_libversion (world s))) \<noteq> 0"
  shows "wp (FS_OTPLock (with_otp dev rest)) (\<lambda>r t. r = FS_PARAM_ERROR \<or> r = FS_UNSUPPORTED_DRIVER_FUNCTION) s"
proof -
  have "r_ret (fst (with_otp dev rest Sys_otp_lock l)) = - EINVAL" for l
    by (simp add: with_otp_def lib_run_def otp_lock_def res0_def split: option.splits)
  then show ?thesis
    using v by (simp add: FS_OTPLock_def wp_simps case_prod_beta)
qed

section \<open>Reading and writing\<close>

text \<open>A device that the library can open for the daemon.\<close>

definition otp_ready :: "'w dev_os \<Rightarrow> ('w \<Rightarrow> memory) \<Rightarrow> otp \<Rightarrow> bool" where
  "otp_ready dev disk d \<longleftrightarrow>
     (\<forall>s. wp (otp_open dev USER_CCCI) (\<lambda>r t. (r = Some d \<and> disk (world t) = disk (world s)) \<and> ub t = ub s) s) \<and>
     (\<forall>s. wp (otp_get_libversion dev) (\<lambda>v t. (v \<noteq> 0 \<and> disk (world t) = disk (world s)) \<and> ub t = ub s) s)"

lemma ready_backed: "otp_ready dev disk d \<Longrightarrow> backed d"
proof -
  assume r: "otp_ready dev disk d"
  obtain w where "w = (undefined :: 'a)" by blast
  let ?s = "\<lparr>world = w, trace = [], ub = False\<rparr>"
  obtain x t where run: "run_state (otp_open dev 0) ?s = (x, t)" by fastforce
  have "x = Some d" "\<not> ub t"
    using r wp_run [OF _ run] unfolding otp_ready_def by fastforce+
  then show "backed d" using wp_run [OF open_ok run] by (simp add: otp_ok_def)
qed

lemma ready_calls:
  assumes "otp_ready dev disk d"
  shows "r_ret (fst (with_otp dev rest Sys_otp_get_libversion l)) \<noteq> 0"
    and "disk (kernel (snd (with_otp dev rest Sys_otp_get_libversion l))) = disk (kernel l)"
    and "lib_ub (snd (with_otp dev rest Sys_otp_get_libversion l)) = lib_ub l"
    and "r_ret (fst (with_otp dev rest Sys_otp_open l)) = 1"
    and "handle (snd (with_otp dev rest Sys_otp_open l)) = Some d"
    and "disk (kernel (snd (with_otp dev rest Sys_otp_open l))) = disk (kernel l)"
    and "lib_ub (snd (with_otp dev rest Sys_otp_open l)) = lib_ub l"
proof -
  have o: "wp (otp_open dev 0) (\<lambda>r t. (r = Some d \<and> disk (world t) = disk (world s)) \<and> ub t = ub s) s"
    and v: "wp (otp_get_libversion dev) (\<lambda>v t. (v \<noteq> 0 \<and> disk (world t) = disk (world s)) \<and> ub t = ub s) s" for s
    using assms by (simp_all add: otp_ready_def)
  note O = lib_run_law [where P = "\<lambda>w r v. r = Some d \<and> disk v = disk w", OF o, of l]
    and V = lib_run_law [where P = "\<lambda>w r v. r \<noteq> 0 \<and> disk v = disk w", OF v, of l]
  show "r_ret (fst (with_otp dev rest Sys_otp_get_libversion l)) \<noteq> 0"
    "disk (kernel (snd (with_otp dev rest Sys_otp_get_libversion l))) = disk (kernel l)"
    "lib_ub (snd (with_otp dev rest Sys_otp_get_libversion l)) = lib_ub l"
    using V by (simp_all add: with_otp_def case_prod_beta)
  show "r_ret (fst (with_otp dev rest Sys_otp_open l)) = 1"
    "handle (snd (with_otp dev rest Sys_otp_open l)) = Some d"
    "disk (kernel (snd (with_otp dev rest Sys_otp_open l))) = disk (kernel l)"
    "lib_ub (snd (with_otp dev rest Sys_otp_open l)) = lib_ub l"
    using O by (simp_all add: with_otp_def call_otp_open_def case_prod_beta)
qed

lemma range_calls:
  assumes dev: "block_device dev disk pos n" and d: "backed d" and h: "handle l = Some d"
    and ok: "range_ok d rs rz (ucast a) (of_nat (length bs)) n" and small: "length bs < 2 ^ 32"
  shows "unprotected dev \<Longrightarrow> r_ret (fst (with_otp dev rest (Sys_otp_write a bs) l)) = 0"
    and "unprotected dev \<Longrightarrow>
      disk (kernel (snd (with_otp dev rest (Sys_otp_write a bs) l))) = mwrite (disk (kernel l)) (unat rs + unat a) bs"
    and "unprotected dev \<Longrightarrow> lib_ub (snd (with_otp dev rest (Sys_otp_write a bs) l)) = lib_ub l"
    and "r_ret (fst (with_otp dev rest (Sys_otp_read a (of_nat (length bs))) l)) = 0"
    and "r_data (fst (with_otp dev rest (Sys_otp_read a (of_nat (length bs))) l)) =
      mread (disk (kernel l)) (unat rs + unat a) (length bs)"
    and "disk (kernel (snd (with_otp dev rest (Sys_otp_read a (of_nat (length bs))) l))) = disk (kernel l)"
    and "lib_ub (snd (with_otp dev rest (Sys_otp_read a (of_nat (length bs))) l)) = lib_ub l"
proof -
  have l: "length bs = unat (of_nat (length bs) :: u64)" using small by (simp add: unat_of_nat)
  have n: "ucast (of_nat (length bs) :: u32) = (of_nat (length bs) :: u64)"
    using l unat_of_nat_small [OF small] by (metis unat_u32_u64 word_unat_eq_iff)
  have w: "wp (otp_write dev (Some d) bs (ucast a) (of_nat (length bs))) (\<lambda>r t. (r = 0 \<and>
      disk (world t) = mwrite (disk (world s)) (unat rs + unat a) bs) \<and> ub t = ub s) s" if "unprotected dev" for s
    using write_law [OF dev d that ok l, of s] by (simp add: unat_u32_u64 conj_assoc)
  have r: "wp (otp_read dev (Some d) [] (ucast a) (of_nat (length bs))) (\<lambda>q t. (q = (0,
      mread (disk (world s)) (unat rs + unat a) (length bs)) \<and> disk (world t) = disk (world s)) \<and> ub t = ub s) s" for s
    using read_law [OF dev d ok, of "[]" s] l
    by (auto simp: unat_u32_u64 overwrite_def case_prod_beta prod_eq_iff elim!: wp_mono)
  note W = lib_run_law [where P = "\<lambda>w r v. r = 0 \<and> disk v = mwrite (disk w) (unat rs + unat a) bs", OF w, of l]
  note R = lib_run_law [where P = "\<lambda>w q v. q = (0, mread (disk w) (unat rs + unat a) (length bs)) \<and> disk v = disk w", OF r, of l]
  show "unprotected dev \<Longrightarrow> r_ret (fst (with_otp dev rest (Sys_otp_write a bs) l)) = 0"
    "unprotected dev \<Longrightarrow>
      disk (kernel (snd (with_otp dev rest (Sys_otp_write a bs) l))) = mwrite (disk (kernel l)) (unat rs + unat a) bs"
    "unprotected dev \<Longrightarrow> lib_ub (snd (with_otp dev rest (Sys_otp_write a bs) l)) = lib_ub l"
    using W h by (simp_all add: with_otp_def case_prod_beta)
  show "r_ret (fst (with_otp dev rest (Sys_otp_read a (of_nat (length bs))) l)) = 0"
    "r_data (fst (with_otp dev rest (Sys_otp_read a (of_nat (length bs))) l)) = mread (disk (kernel l)) (unat rs + unat a) (length bs)"
    "disk (kernel (snd (with_otp dev rest (Sys_otp_read a (of_nat (length bs))) l))) = disk (kernel l)"
    "lib_ub (snd (with_otp dev rest (Sys_otp_read a (of_nat (length bs))) l)) = lib_ub l"
    using R h n by (simp_all add: with_otp_def case_prod_beta)
qed

lemma close_call:
  "disk (kernel (snd (with_otp dev rest Sys_otp_close l))) = disk (kernel l)"
  "lib_ub (snd (with_otp dev rest Sys_otp_close l)) = lib_ub l"
  by (simp_all add: with_otp_def)

lemma otp_start_world [simp]: "otp_start Offset (s\<lparr>world := w, trace := q\<rparr>) = otp_start Offset s"
  by (simp add: otp_start_def)

lemma fsd_write:
  assumes dev: "block_device dev disk pos n" and clear: "unprotected dev" and ready: "otp_ready dev disk d"
    and ok: "range_ok d rs rz (ucast (otp_start Offset s)) (of_nat (length bs)) n" and small: "length bs < 2 ^ 32"
  shows "wp (FS_OTPWrite (with_otp dev rest) Offset bs) (\<lambda>r t. r = FS_NO_ERROR \<and>
     disk (kernel (world t)) = mwrite (disk (kernel (world s))) (unat rs + unat (otp_start Offset s)) bs \<and>
     lib_ub (world t) = lib_ub (world s) \<and> ub t = ub s \<and> g_FsInfo t = g_FsInfo s \<and> buf_size t = buf_size s \<and>
     otp_start Offset t = otp_start Offset s) s"
  using range_calls [OF dev ready_backed [OF ready] _ ok small] clear
  by (simp add: FS_OTPWrite_def wp_simps case_prod_beta ready_calls [OF ready] close_call)

lemma fsd_read:
  assumes dev: "block_device dev disk pos n" and ready: "otp_ready dev disk d"
    and ok: "range_ok d rs rz (ucast (otp_start Offset s)) (of_nat k) n" and small: "k < 2 ^ 32"
    and room: "buf + k \<le> buf_size s"
  shows "wp (FS_OTPRead (with_otp dev rest) Offset buf (of_nat k)) (\<lambda>r t. r = FS_NO_ERROR \<and>
     mem t = mwrite (mem s) buf (mread (disk (kernel (world s))) (unat rs + unat (otp_start Offset s)) k) \<and>
     disk (kernel (world t)) = disk (kernel (world s)) \<and> lib_ub (world t) = lib_ub (world s) \<and> ub t = ub s) s"
proof -
  have st: "wp (store_buf a xs) Q u" if "a + length xs \<le> buf_size u" "Q () (set_mem (mwrite (mem u) a xs) u)" for a xs Q u
    using that by (simp add: wp_def)
  show ?thesis
    using range_calls [OF dev ready_backed [OF ready], where bs = "replicate k 0" and a = "otp_start Offset s" and rs = rs and rz = rz]
      ok small room
    apply (simp add: FS_OTPRead_def wp_simps case_prod_beta ready_calls [OF ready] close_call)
    apply (rule st)
    apply (simp_all add: wp_simps case_prod_beta ready_calls [OF ready] close_call)
    done
qed

lemma ufs_phone_version:
  "wp (otp_get_libversion ufs_phone) (\<lambda>v t. (v \<noteq> 0 \<and> fst (world t) = fst (world s)) \<and> ub t = ub s) s"
  by (cases "world s") (simp add: otp_get_libversion_def otp_get_libversion_if_legacy_def wp_simps dev_ok_def of_char_def)

lemma ufs_phone_ready: "otp_ready ufs_phone fst (ufs_otp 0)"
  using ufs_phone_opens [of 0] ufs_phone_version by (auto simp: otp_ready_def conj_assoc)

section \<open>Properties\<close>

text \<open>
  C8: What a modem writes into one-time-programmable memory it reads back. The daemon's \<open>FS_OTPWrite\<close>, linked
  with \<open>libstorage_otp\<close> on a working device that is not write protected, succeeds and changes exactly the bytes from the modem's
  own start address on the partition; \<open>FS_OTPRead\<close> of the same range then succeeds and leaves these bytes in the
  daemon's packet buffer. Neither the daemon nor the library does anything undefined on the way.
\<close>

theorem fsd_otp_round_trip:
  assumes dev: "block_device dev disk pos n" and clear: "unprotected dev" and ready: "otp_ready dev disk d"
    and ok: "range_ok d rs rz (ucast (otp_start Offset s)) (of_nat (length bs)) n" and small: "length bs < 2 ^ 32"
    and room: "buf + length bs \<le> buf_size s"
  shows "wp (do { r \<leftarrow> FS_OTPWrite (with_otp dev rest) Offset bs;
                 q \<leftarrow> FS_OTPRead (with_otp dev rest) Offset buf (of_nat (length bs));
                 ret (r, q) })
     (\<lambda>(r, q) t. r = FS_NO_ERROR \<and> q = FS_NO_ERROR \<and> mread (mem t) buf (length bs) = bs \<and>
        disk (kernel (world t)) = mwrite (disk (kernel (world s))) (unat rs + unat (otp_start Offset s)) bs \<and>
        lib_ub (world t) = lib_ub (world s) \<and> ub t = ub s) s"
  apply (rule wp_bindI, rule wp_mono [OF fsd_write [OF dev clear ready ok small]])
  apply (rule wp_bindI, rule wp_mono [OF fsd_read [OF dev ready _ small, where rs = rs and rz = rz]])
  using ok room by (auto simp: wp_simps)

definition ufs_fsd :: "(memory \<times> nat \<times> string) otplib fsd" where
  "ufs_fsd = (idle_fsd \<lparr>kernel = (\<lambda>_. 0, 0, []), handle = None, lib_ub = False\<rparr>)\<lparr>FS_MAX_BUF_SIZE := 4096\<rparr>"

theorem fsd_otp_round_trip_witness:
  "wp (do { r \<leftarrow> FS_OTPWrite (with_otp ufs_phone (\<lambda>q w. (res0, w))) 4094 [1, 2, 3, 4, 5];
           q \<leftarrow> FS_OTPRead (with_otp ufs_phone (\<lambda>q w. (res0, w))) 4094 64 (of_nat (length [1 :: u8, 2, 3, 4, 5]));
           ret (r, q) })
     (\<lambda>(r, q) t. r = 0 \<and> q = 0 \<and> mread (mem t) 64 (length [1 :: u8, 2, 3, 4, 5]) = [1, 2, 3, 4, 5] \<and>
        fst (kernel (world t)) = mwrite (\<lambda>_. 0) 4094 [1, 2, 3, 4, 5] \<and> \<not> lib_ub (world t) \<and> \<not> ub t) ufs_fsd"
proof -
  have "otp_start 4094 ufs_fsd = 4094" "buf_size ufs_fsd \<ge> 4096" "\<not> ub ufs_fsd" "\<not> lib_ub (world ufs_fsd)" "fst (kernel (world ufs_fsd)) = (\<lambda>_. 0)"
    by (simp_all add: ufs_fsd_def idle_fsd_def otp_start_def buf_size_def)
  then show ?thesis
    using fsd_otp_round_trip [OF ufs_phone_device ufs_phone_unprotected ufs_phone_ready, where rs = 0 and rz = "0x100000"
      and Offset = 4094 and s = ufs_fsd and bs = "[1, 2, 3, 4, 5]" and buf = 64 and rest = "\<lambda>q w. (res0, w)"]
    by (simp add: range_ok_def ufs_otp_region)
qed

end
