(* ===== verification/Ccb_Ring.thy ===== *)
theory Ccb_Ring
  imports Ccci_Env
begin

unbundle bit_operations_syntax

text \<open>
  The shared-memory rings between the application processor and the modem: the CCB functions of
  \<open>hardware/ccci/ccci_lib.c\<close>.

  Two regions are shared. \<open>ctrl\<close> holds an array of \<open>buffer_header\<close>s, two per buffer (downlink, then
  uplink); a header pointer is an index into it. \<open>shm\<close> holds the pages, as bytes; a page pointer is an
  offset into it, and a page is two words (status, valid length) followed by its data. An access outside
  a region sets \<open>ub\<close>. The modem changes the same memory; an operation here is one step.
\<close>

section \<open>Data\<close>

abbreviation (input) PAGE_STATUS_ALLOC :: u32 where "PAGE_STATUS_ALLOC \<equiv> 0x11111111"
abbreviation (input) PAGE_STATUS_WRITE_DONE :: u32 where "PAGE_STATUS_WRITE_DONE \<equiv> 0x22222222"
abbreviation (input) HEADER_MAGIC_AFTER :: u32 where "HEADER_MAGIC_AFTER \<equiv> 0xDDBBCCAA"
abbreviation (input) TAIL_MAGIC_BEFORE :: u32 where "TAIL_MAGIC_BEFORE \<equiv> 0xEEFF0011"
abbreviation (input) TAIL_MAGIC_AFTER :: u32 where "TAIL_MAGIC_AFTER \<equiv> 0x1100FFEE"
abbreviation (input) CCB_USER_OK :: u32 where "CCB_USER_OK \<equiv> 1"
abbreviation (input) CCB_START_INDEX :: u32 where "CCB_START_INDEX \<equiv> 57"

record buffer_header =
  guard_band :: u32
  allocate_index :: u32
  free_index :: u32
  read_index :: u32
  write_index :: u32
  page_size :: u32
  data_buffer_size :: u32
  guard_band_e :: u32

record ccci_ccb_config =
  cfg_user_id :: u32
  core_id :: u8
  dl_page_size :: u32
  ul_page_size :: u32
  dl_buff_size :: u32
  ul_buff_size :: u32

record ccb_ctrl_info =
  ctrl_user_id :: u32
  ctrl_offset :: u32
  ctrl_addr :: u32
  ctrl_length :: u32

record ccci_ccb_control_buff =
  dl_page_num :: u32
  ul_page_num :: u32
  dl_header :: "nat option"
  ul_header :: "nat option"
  dl_pages :: nat
  ul_pages :: nat

record ccci_ccb_control_user =
  user_id :: u32
  ctrl_info :: ccb_ctrl_info
  buffer_num :: u32
  total_length :: u32
  user_fd :: s32
  ctrl_fd :: s32
  buffers :: "ccci_ccb_control_buff list option"

record 'w ccb = "(sysreq, 'w) env" +
  ccci_ccb_ports :: "ccci_ccb_config list"
  ccb_info_len :: u32
  user :: "ccci_ccb_control_user option"
  ctrl :: "buffer_header list"
  shm :: memory
  ccb_hung :: bool

section \<open>Access to the shared memory\<close>

definition header0 :: buffer_header where
  "header0 = \<lparr>guard_band = 0, allocate_index = 0, free_index = 0, read_index = 0, write_index = 0,
     page_size = 0, data_buffer_size = 0, guard_band_e = 0\<rparr>"

definition buff0 :: ccci_ccb_control_buff where
  "buff0 = \<lparr>dl_page_num = 0, ul_page_num = 0, dl_header = None, ul_header = None, dl_pages = 0, ul_pages = 0\<rparr>"

definition get_header :: "nat option \<Rightarrow> ('w ccb, buffer_header) state" where
  "get_header p = do {
     hs \<leftarrow> gets ctrl;
     case p of None \<Rightarrow> do { fault; ret header0 }
     | Some k \<Rightarrow> if k < length hs then ret (hs ! k) else do { fault; ret header0 } }"

definition upd_header :: "nat option \<Rightarrow> (buffer_header \<Rightarrow> buffer_header) \<Rightarrow> ('w ccb, unit) state" where
  "upd_header p f = do {
     hs \<leftarrow> gets ctrl;
     case p of None \<Rightarrow> fault
     | Some k \<Rightarrow> if k < length hs then modify (\<lambda>s. s\<lparr>ctrl := hs[k := f (hs ! k)]\<rparr>) else fault }"

definition get_buff :: "ccci_ccb_control_user \<Rightarrow> u32 \<Rightarrow> ('w ccb, ccci_ccb_control_buff) state" where
  "get_buff u buffer_id = (case buffers u of
       Some bs \<Rightarrow> if unat buffer_id < length bs then ret (bs ! unat buffer_id) else do { fault; ret buff0 }
     | None \<Rightarrow> do { fault; ret buff0 })"

definition read32 :: "ccci_ccb_control_user \<Rightarrow> nat \<Rightarrow> ('w ccb, u32) state" where
  "read32 u a = do {
     (if unat (total_length u) < a + 4 then fault else ret ());
     gets (\<lambda>s. rd32 (mread (shm s) a 4)) }"

definition write32 :: "ccci_ccb_control_user \<Rightarrow> nat \<Rightarrow> u32 \<Rightarrow> ('w ccb, unit) state" where
  "write32 u a v = do {
     (if unat (total_length u) < a + 4 then fault else ret ());
     modify (\<lambda>s. s\<lparr>shm := mwrite (shm s) a (le32 v)\<rparr>) }"

definition ccci_ccb_get_page :: "buffer_header \<Rightarrow> nat \<Rightarrow> u32 \<Rightarrow> nat" where
  "ccci_ccb_get_page buff_h pages index = pages + unat (page_size buff_h * index)"

text \<open>Stepping an index: \<open>if (i + 1 >= n) i = 0; else i++;\<close>\<close>

definition ring_next :: "u32 \<Rightarrow> u32 \<Rightarrow> u32" where
  "ring_next n i = (if n \<le> i + 1 then 0 else i + 1)"

section \<open>Writing\<close>

definition write_room :: "u32 \<Rightarrow> buffer_header \<Rightarrow> u32" where
  "write_room tot h =
     (if allocate_index h = free_index h then tot - 1
      else if free_index h < allocate_index h then tot - allocate_index h + free_index h - 1
      else free_index h - allocate_index h - 1)"

definition ccci_ccb_write_alloc :: "u32 \<Rightarrow> ('w ccb, nat option) state" where
  "ccci_ccb_write_alloc buffer_id = do {
     usr \<leftarrow> gets user;
     case usr of None \<Rightarrow> ret None
     | Some u \<Rightarrow>
         if buffer_num u < buffer_id then ret None
         else do {
           buff \<leftarrow> get_buff u buffer_id;
           h \<leftarrow> get_header (ul_header buff);
           if guard_band h \<noteq> HEADER_MAGIC_AFTER \<or> guard_band_e h \<noteq> TAIL_MAGIC_AFTER then ret None
           else if write_room (ul_page_num buff) h = 0 then ret None
           else do {
             let page = ccci_ccb_get_page h (ul_pages buff) (allocate_index h);
             write32 u page PAGE_STATUS_ALLOC;
             upd_header (ul_header buff)
               (\<lambda>h. h\<lparr>allocate_index := ring_next (ul_page_num buff) (allocate_index h)\<rparr>);
             ret (Some (page + 8)) } } }"

text \<open>The search for the page of an address: the first of the pages \<open>i\<close>, \<open>i + 1\<close>, ... whose data starts there.\<close>

primrec find_page :: "buffer_header \<Rightarrow> nat \<Rightarrow> nat \<Rightarrow> nat \<Rightarrow> u32 \<Rightarrow> u32 option" where
  "find_page h pages address 0 i = None"
| "find_page h pages address (Suc n) i =
     (if ccci_ccb_get_page h pages i + 8 = address then Some i else find_page h pages address n (i + 1))"

text \<open>
  The loop that makes finished pages visible. The statuses do not change in it, so that more steps than
  there are pages mean that it never ends: \<open>ccb_hung\<close>.
\<close>

primrec publish :: "ccci_ccb_control_user \<Rightarrow> ccci_ccb_control_buff \<Rightarrow> nat \<Rightarrow> u32 \<Rightarrow> ('w ccb, unit) state" where
  "publish u buff 0 i = modify (\<lambda>s. s\<lparr>ccb_hung := True\<rparr>)"
| "publish u buff (Suc fuel) i = do {
     h \<leftarrow> get_header (ul_header buff);
     if i = allocate_index h then ret ()
     else do {
       status \<leftarrow> read32 u (ccci_ccb_get_page h (ul_pages buff) i);
       if status = PAGE_STATUS_WRITE_DONE then do {
         upd_header (ul_header buff) (\<lambda>h. h\<lparr>write_index := ring_next (ul_page_num buff) (write_index h)\<rparr>);
         publish u buff fuel (ring_next (ul_page_num buff) i) }
       else ret () } }"

definition ccci_ccb_query_config :: "'w ccb \<Rightarrow> u32 \<Rightarrow> u32 \<Rightarrow> ccci_ccb_config option" where
  "ccci_ccb_query_config s uid buffer_id =
     (let mine = filter (\<lambda>c. cfg_user_id c = uid - CCB_START_INDEX) (take (unat (ccb_info_len s)) (ccci_ccb_ports s))
      in if unat buffer_id < length mine then Some (mine ! unat buffer_id) else None)"

definition tx_notify :: "'w os \<Rightarrow> ccci_ccb_control_user \<Rightarrow> u32 \<Rightarrow> ('w ccb, s32) state" where
  "tx_notify os u buffer_id = do {
     config \<leftarrow> gets (\<lambda>s. ccci_ccb_query_config s (user_id u) buffer_id);
     core \<leftarrow> (case config of None \<Rightarrow> do { fault; ret 0 } | Some c \<Rightarrow> ret (core_id c));
     r \<leftarrow> syscall os (Sys_ioctl (user_fd u) ''CCCI_IOC_SMEM_TX_NOTIFY'' (le32 (ucast core)));
     ret (r_ret r) }"

definition write_page :: "'w os \<Rightarrow> ccci_ccb_control_user \<Rightarrow> ccci_ccb_control_buff \<Rightarrow> u32 \<Rightarrow> nat \<Rightarrow> u32 \<Rightarrow> ('w ccb, s32) state" where
  "write_page os u buff buffer_id page len = do {
     status \<leftarrow> read32 u page;
     if status \<noteq> PAGE_STATUS_ALLOC then ret (- EINVAL)
     else do {
       write32 u page PAGE_STATUS_WRITE_DONE;
       write32 u (page + 4) len;
       h \<leftarrow> get_header (ul_header buff);
       publish u buff (unat (ul_page_num buff) + 1) (write_index h);
       tx_notify os u buffer_id } }"

definition ccci_ccb_write_done :: "'w os \<Rightarrow> u32 \<Rightarrow> nat \<Rightarrow> u32 \<Rightarrow> ('w ccb, s32) state" where
  "ccci_ccb_write_done os buffer_id address len = do {
     usr \<leftarrow> gets user;
     case usr of None \<Rightarrow> ret (- EFAULT)
     | Some u \<Rightarrow>
         if buffer_num u < buffer_id then ret (- EINVAL)
         else do {
           buff \<leftarrow> get_buff u buffer_id;
           h \<leftarrow> get_header (ul_header buff);
           if guard_band h \<noteq> HEADER_MAGIC_AFTER \<or> guard_band_e h \<noteq> TAIL_MAGIC_AFTER then ret (- EINVAL)
           else if page_size h < len then ret (- EINVAL)
           else case find_page h (ul_pages buff) address (unat (ul_page_num buff)) 0 of
             None \<Rightarrow> ret (- EINVAL)
           | Some i \<Rightarrow> write_page os u buff buffer_id (ccci_ccb_get_page h (ul_pages buff) i) len } }"

section \<open>Reading\<close>

definition ccci_ccb_read_available :: "u32 \<Rightarrow> buffer_header \<Rightarrow> u32" where
  "ccci_ccb_read_available page_num h = (let available = write_index h - read_index h in
     if available <s 0 then available + page_num else available)"

primrec poll_scan :: "ccci_ccb_control_user \<Rightarrow> u32 \<Rightarrow> nat \<Rightarrow> nat \<Rightarrow> u32 \<Rightarrow> ('w ccb, u32) state" where
  "poll_scan u bitmask 0 i available = ret available"
| "poll_scan u bitmask (Suc n) i available =
     (if bit bitmask i then do {
        buff \<leftarrow> get_buff u (of_nat i);
        h \<leftarrow> get_header (dl_header buff);
        poll_scan u bitmask n (Suc i)
          (if ccci_ccb_read_available (dl_page_num buff) h \<noteq> 0 then available OR push_bit i 1 else available) }
      else poll_scan u bitmask n (Suc i) available)"

text \<open>The driver's poll blocks; \<open>fuel\<close> bounds how often it wakes the caller without data. None: it did so more often.\<close>

primrec ccci_ccb_poll :: "'w os \<Rightarrow> nat \<Rightarrow> u32 \<Rightarrow> ('w ccb, s32 option) state" where
  "ccci_ccb_poll os 0 bitmask = ret None"
| "ccci_ccb_poll os (Suc fuel) bitmask = do {
     usr \<leftarrow> gets user;
     case usr of None \<Rightarrow> ret (Some (- EFAULT))
     | Some u \<Rightarrow> do {
         available \<leftarrow> poll_scan u bitmask (unat (buffer_num u)) 0 0;
         if available \<noteq> 0 then ret (Some available)
         else do {
           r \<leftarrow> syscall os (Sys_ioctl (user_fd u) ''CCCI_IOC_SMEM_RX_POLL'' (le32 bitmask));
           if r_ret r <s 0 then ret (Some (if r_errno r = ENODEV then - 2 else r_ret r))
           else ccci_ccb_poll os fuel bitmask } } }"

text \<open>Result, address and length; no address: \<open>*address\<close> is left as it is.\<close>

definition ccci_ccb_read_get :: "u32 \<Rightarrow> ('w ccb, s32 \<times> (nat option \<times> u32) option) state" where
  "ccci_ccb_read_get buffer_id = do {
     usr \<leftarrow> gets user;
     case usr of None \<Rightarrow> ret (- EFAULT, None)
     | Some u \<Rightarrow>
         if buffer_num u < buffer_id then ret (- EINVAL, None)
         else do {
           buff \<leftarrow> get_buff u buffer_id;
           h \<leftarrow> get_header (dl_header buff);
           if guard_band_e h \<noteq> TAIL_MAGIC_AFTER then ret (- EINVAL, None)
           else if ccci_ccb_read_available (dl_page_num buff) h = 0 then ret (- EAGAIN, Some (None, 0))
           else do {
             let page = ccci_ccb_get_page h (dl_pages buff) (read_index h);
             status \<leftarrow> read32 u page;
             if status \<noteq> PAGE_STATUS_WRITE_DONE then ret (- EFAULT, None)
             else do {
               len \<leftarrow> read32 u (page + 4);
               upd_header (dl_header buff) (\<lambda>h. h\<lparr>read_index := ring_next (dl_page_num buff) (read_index h)\<rparr>);
               ret (0, Some (Some (page + 8), len)) } } } }"

definition ccci_ccb_read_done :: "u32 \<Rightarrow> ('w ccb, s32) state" where
  "ccci_ccb_read_done buffer_id = do {
     usr \<leftarrow> gets user;
     case usr of None \<Rightarrow> ret (- EFAULT)
     | Some u \<Rightarrow>
         if buffer_num u < buffer_id then ret (- EINVAL)
         else do {
           buff \<leftarrow> get_buff u buffer_id;
           h \<leftarrow> get_header (dl_header buff);
           if guard_band_e h \<noteq> TAIL_MAGIC_AFTER then ret (- EINVAL)
           else do {
             let free_index_tobe = ring_next (dl_page_num buff) (free_index h);
             if read_index h \<noteq> free_index_tobe then ret (- EFAULT)
             else do {
               upd_header (dl_header buff) (\<lambda>h. h\<lparr>free_index := free_index_tobe\<rparr>);
               ret 0 } } } }"

definition ccci_ccb_read_flush :: "u32 \<Rightarrow> ('w ccb, s32) state" where
  "ccci_ccb_read_flush buffer_id = do {
     usr \<leftarrow> gets user;
     case usr of None \<Rightarrow> do { fault; ret 0 }
     | Some u \<Rightarrow> do {
         buff \<leftarrow> get_buff u buffer_id;
         upd_header (dl_header buff) (\<lambda>h. h\<lparr>read_index := write_index h, free_index := write_index h\<rparr>);
         ret 0 } }"

section \<open>Mapping the regions\<close>

definition decode_config :: "u8 list \<Rightarrow> ccci_ccb_config" where
  "decode_config bs = \<lparr>cfg_user_id = rd32 bs, core_id = byte_at bs 4, dl_page_size = rd32 (drop 8 bs),
     ul_page_size = rd32 (drop 12 bs), dl_buff_size = rd32 (drop 16 bs), ul_buff_size = rd32 (drop 20 bs)\<rparr>"

definition decode_ctrl_info :: "u8 list \<Rightarrow> ccb_ctrl_info" where
  "decode_ctrl_info bs = \<lparr>ctrl_user_id = rd32 bs, ctrl_offset = rd32 (drop 4 bs), ctrl_addr = rd32 (drop 8 bs),
     ctrl_length = rd32 (drop 12 bs)\<rparr>"

text \<open>The configurations are asked for one by one; the argument of a query is the index, the rest of the
  structure is whatever the allocated memory holds.\<close>

primrec read_configs :: "'w os \<Rightarrow> s32 \<Rightarrow> u32 list \<Rightarrow> ('w ccb, unit) state" where
  "read_configs os fd [] = ret ()"
| "read_configs os fd (i # is) = do {
     r \<leftarrow> syscall os (Sys_ioctl fd ''CCCI_IOC_GET_CCB_CONFIG'' (le32 i));
     modify (\<lambda>s. s\<lparr>ccci_ccb_ports := (ccci_ccb_ports s)[unat i := decode_config (r_data r)]\<rparr>);
     read_configs os fd is }"

text \<open>Result and the control information the driver gave; \<open>ctrl_user\<close> is the user it is asked for.\<close>

definition ccci_ccb_ctrl_get :: "'w os \<Rightarrow> ccb_ctrl_info \<Rightarrow> ('w ccb, s32 \<times> ccb_ctrl_info) state" where
  "ccci_ccb_ctrl_get os info = do {
     o1 \<leftarrow> syscall os (Sys_open ''/dev/ccci_ccb_ctrl'' O_RDWR 0);
     let fd = r_ret o1;
     if fd <s 0 then ret (- ENODEV, info)
     else do {
       r \<leftarrow> syscall os (Sys_ioctl fd ''CCCI_IOC_GET_CCB_CONFIG_LENGTH'' []);
       (if r_ret r = 0 then modify (\<lambda>s. s\<lparr>ccb_info_len := rd32 (r_data r)\<rparr>) else ret ());
       n \<leftarrow> gets ccb_info_len;
       if r_ret r \<noteq> 0 \<or> n = 0 then do { _ \<leftarrow> syscall os (Sys_close fd); ret (r_ret r, info) }
       else do {
         m \<leftarrow> syscall os (Sys_malloc (24 * unat n));
         (if r_ret m = 0 then fault else ret ());
         modify (\<lambda>s. s\<lparr>ccci_ccb_ports := replicate (unat n) (decode_config [])\<rparr>);
         read_configs os fd (map of_nat [0..<unat n]);
         c \<leftarrow> syscall os (Sys_ioctl fd ''CCCI_IOC_CCB_CTRL_INFO'' (le32 (ctrl_user_id info)));
         if r_ret c \<noteq> 0 then do { _ \<leftarrow> syscall os (Sys_close fd); ret (r_ret c, info) }
         else do {
           let info1 = decode_ctrl_info (r_data c);
           mm \<leftarrow> syscall os (Sys_mmap fd (unat (ctrl_length info1)));
           if r_ret mm = - 1 then do { _ \<leftarrow> syscall os (Sys_close fd); ret (- EFAULT, info1) }
           else ret (fd, info1) } } } }"

text \<open>Result and length of the data region.\<close>

definition ccci_smem_get :: "'w os \<Rightarrow> u32 \<Rightarrow> u32 \<Rightarrow> ('w ccb, s32 \<times> u32) state" where
  "ccci_smem_get os md_id uid = do {
     (if length ccci_node_list \<le> unat uid then fault else ret ());
     name \<leftarrow> ccci_get_node_name os (ccci_node_list ! unat uid) md_id;
     o1 \<leftarrow> syscall os (Sys_open (node_path name) O_RDWR 0);
     let fd = r_ret o1;
     if fd <s 0 then ret (- ENODEV, 0)
     else do {
       b \<leftarrow> syscall os (Sys_ioctl fd ''CCCI_IOC_SMEM_BASE'' (le32 0));
       if r_ret b \<noteq> 0 then do { _ \<leftarrow> syscall os (Sys_close fd); ret (r_ret b, 0) }
       else do {
         l \<leftarrow> syscall os (Sys_ioctl fd ''CCCI_IOC_SMEM_LEN'' (le32 0));
         if r_ret l \<noteq> 0 then do { _ \<leftarrow> syscall os (Sys_close fd); ret (r_ret l, 0) }
         else do {
           let len = rd32 (r_data l);
           mm \<leftarrow> syscall os (Sys_mmap fd (unat len));
           if r_ret mm = - 1 then do { _ \<leftarrow> syscall os (Sys_close fd); ret (- EFAULT, len) }
           else ret (fd, len) } } } }"

definition ccci_smem_put :: "'w os \<Rightarrow> s32 \<Rightarrow> u32 \<Rightarrow> ('w ccb, s32) state" where
  "ccci_smem_put os fd len = (if fd <s 0 then ret (- EINVAL) else do {
     _ \<leftarrow> syscall os (Sys_close fd);
     r \<leftarrow> syscall os (Sys_munmap (unat len));
     ret (r_ret r) })"

definition ccci_ccb_ctrl_put :: "'w os \<Rightarrow> s32 \<Rightarrow> u32 \<Rightarrow> ('w ccb, s32) state" where
  "ccci_ccb_ctrl_put os fd len = (if fd <s 0 then ret (- EINVAL) else do {
     _ \<leftarrow> syscall os (Sys_close fd);
     r \<leftarrow> syscall os (Sys_munmap (unat len));
     ret (r_ret r) })"

text \<open>Result and the five fields of \<open>ccci_ccb_size\<close>.\<close>

definition ccci_ccb_get_config :: "'w ccb \<Rightarrow> u32 \<Rightarrow> u32 \<Rightarrow> u32 \<Rightarrow> s32 \<times> (u32 \<times> u32 \<times> u32 \<times> u32 \<times> u32) option" where
  "ccci_ccb_get_config s md_id uid buffer_id =
     (if md_id \<noteq> 0 then (- EINVAL, None)
      else case ccci_ccb_query_config s uid buffer_id of None \<Rightarrow> (- EFAULT, None)
        | Some c \<Rightarrow> (0, Some (8, dl_page_size c, ul_page_size c, dl_buff_size c, ul_buff_size c)))"

section \<open>Preparing the headers\<close>

text \<open>\<open>ccci_ccb_init_user\<close>: the headers of the user's buffers are written one after the other, from the
  user's offset on.\<close>

definition fresh_header :: "u32 \<Rightarrow> u32 \<Rightarrow> buffer_header" where
  "fresh_header psize bsize = header0\<lparr>page_size := psize, data_buffer_size := bsize, guard_band_e := TAIL_MAGIC_BEFORE\<rparr>"

primrec init_headers :: "u32 \<Rightarrow> ccci_ccb_config list \<Rightarrow> nat \<Rightarrow> ('w ccb, unit) state" where
  "init_headers cid [] k = ret ()"
| "init_headers cid (c # cs) k =
     (if cfg_user_id c \<noteq> cid then init_headers cid cs k
      else do {
        upd_header (Some k) (\<lambda>_. fresh_header (dl_page_size c) (dl_buff_size c));
        upd_header (Some (k + 1)) (\<lambda>_. fresh_header (ul_page_size c) (ul_buff_size c));
        init_headers cid cs (k + 2) })"

definition ccci_ccb_init_user :: "'w os \<Rightarrow> u32 \<Rightarrow> u32 \<Rightarrow> ('w ccb, s32) state" where
  "ccci_ccb_init_user os md_id uid =
     (if md_id \<noteq> 0 then ret (- EINVAL)
      else do {
        (fd, info) \<leftarrow> ccci_ccb_ctrl_get os \<lparr>ctrl_user_id = uid - CCB_START_INDEX, ctrl_offset = 0, ctrl_addr = 0, ctrl_length = 0\<rparr>;
        if fd <s 0 then do { _ \<leftarrow> ccci_ccb_ctrl_put os fd (ctrl_length info); ret (- ENODEV) }
        else do {
          cs \<leftarrow> gets (\<lambda>s. take (unat (ccb_info_len s)) (ccci_ccb_ports s));
          init_headers (uid - CCB_START_INDEX) cs (2 * unat (ctrl_offset info));
          _ \<leftarrow> ccci_ccb_ctrl_put os fd (ctrl_length info);
          ret 0 } })"

definition ccci_ccb_init_users :: "'w os \<Rightarrow> u32 \<Rightarrow> ('w ccb, s32) state" where
  "ccci_ccb_init_users os md_id = do {
     _ \<leftarrow> ccci_ccb_init_user os md_id CCB_START_INDEX;
     _ \<leftarrow> ccci_ccb_init_user os md_id (CCB_START_INDEX + 1);
     _ \<leftarrow> ccci_ccb_init_user os md_id (CCB_START_INDEX + 2);
     ret 0 }"

section \<open>Registering a user\<close>

text \<open>Both tail patterns of every buffer are reset, up to the first one without headers.\<close>

primrec unmark :: "ccci_ccb_control_buff list \<Rightarrow> ('w ccb, unit) state" where
  "unmark [] = ret ()"
| "unmark (b # bs) =
     (if dl_header b \<noteq> None \<and> ul_header b \<noteq> None then do {
        upd_header (dl_header b) (\<lambda>h. h\<lparr>guard_band_e := TAIL_MAGIC_BEFORE\<rparr>);
        upd_header (ul_header b) (\<lambda>h. h\<lparr>guard_band_e := TAIL_MAGIC_BEFORE\<rparr>);
        unmark bs }
      else ret ())"

definition ccci_ccb_unregister :: "'w os \<Rightarrow> ('w ccb, s32) state" where
  "ccci_ccb_unregister os = do {
     usr \<leftarrow> gets user;
     case usr of None \<Rightarrow> ret (- EFAULT)
     | Some u \<Rightarrow> do {
         (case buffers u of None \<Rightarrow> ret () | Some bs \<Rightarrow> unmark (take (unat (buffer_num u)) bs));
         r \<leftarrow> (if user_fd u <s 0 then ret 0 else ccci_smem_put os (user_fd u) (total_length u));
         (if ctrl_fd u <s 0 then ret ()
          else do { _ \<leftarrow> ccci_ccb_ctrl_put os (ctrl_fd u) (ctrl_length (ctrl_info u)); ret () });
         modify (\<lambda>s. s\<lparr>user := None\<rparr>);
         ret r } }"

definition upd_user :: "(ccci_ccb_control_user \<Rightarrow> ccci_ccb_control_user) \<Rightarrow> ('w ccb, unit) state" where
  "upd_user f = modify (\<lambda>s. s\<lparr>user := map_option f (user s)\<rparr>)"

definition upd_buff :: "nat \<Rightarrow> (ccci_ccb_control_buff \<Rightarrow> ccci_ccb_control_buff) \<Rightarrow> ('w ccb, unit) state" where
  "upd_buff i f = upd_user (\<lambda>u. u\<lparr>buffers := map_option (\<lambda>bs. bs[i := f (bs ! i)]) (buffers u)\<rparr>)"

definition page_count :: "buffer_header \<Rightarrow> ('w ccb, u32) state" where
  "page_count h = do {
     (if page_size h = 0 then fault else ret ());
     ret (data_buffer_size h div page_size h) }"

text \<open>One buffer is set up; None when a pattern is wrong, else where the next buffer's pages start. \<open>k\<close> is the
  downlink header, the uplink header follows it.\<close>

definition register_buffer :: "nat \<Rightarrow> nat \<Rightarrow> nat \<Rightarrow> ('w ccb, nat option) state" where
  "register_buffer i k data_buf = do {
     upd_buff i (\<lambda>b. b\<lparr>ul_header := None, dl_header := Some k\<rparr>);
     _ \<leftarrow> ccci_ccb_read_flush (of_nat i);
     upd_header (Some k) (\<lambda>h. h\<lparr>free_index := read_index h\<rparr>);
     dl \<leftarrow> get_header (Some k);
     if guard_band dl = 0 then ret None
     else do {
       dn \<leftarrow> page_count dl;
       upd_header (Some k) (\<lambda>h. h\<lparr>guard_band_e := TAIL_MAGIC_AFTER\<rparr>);
       upd_buff i (\<lambda>b. b\<lparr>dl_page_num := dn, dl_pages := data_buf, ul_header := Some (k + 1)\<rparr>);
       upd_header (Some (k + 1)) (\<lambda>h. h\<lparr>allocate_index := write_index h\<rparr>);
       ul \<leftarrow> get_header (Some (k + 1));
       if guard_band ul = 0 then ret None
       else do {
         un \<leftarrow> page_count ul;
         upd_header (Some (k + 1)) (\<lambda>h. h\<lparr>guard_band_e := TAIL_MAGIC_AFTER\<rparr>);
         let ul_data = data_buf + unat (data_buffer_size dl);
         upd_buff i (\<lambda>b. b\<lparr>ul_page_num := un, ul_pages := ul_data\<rparr>);
         ret (Some (ul_data + unat (data_buffer_size ul))) } } }"

primrec register_loop :: "'w os \<Rightarrow> nat \<Rightarrow> nat \<Rightarrow> nat \<Rightarrow> nat \<Rightarrow> ('w ccb, bool) state" where
  "register_loop os 0 i k data_buf = ret True"
| "register_loop os (Suc n) i k data_buf = do {
     r \<leftarrow> register_buffer i k data_buf;
     case r of None \<Rightarrow> do { _ \<leftarrow> ccci_ccb_unregister os; ret False }
     | Some next_data \<Rightarrow> register_loop os n (Suc i) (k + 2) next_data }"

text \<open>From the mapped regions to the registered user.\<close>

definition register_buffers :: "'w os \<Rightarrow> u32 \<Rightarrow> ccb_ctrl_info \<Rightarrow> ('w ccb, s32) state" where
  "register_buffers os uid info = do {
     mine \<leftarrow> gets (\<lambda>s. filter (\<lambda>c. cfg_user_id c = uid - CCB_START_INDEX)
        (take (unat (ccb_info_len s)) (ccci_ccb_ports s)));
     let n = length mine;
     upd_user (\<lambda>u. u\<lparr>buffer_num := of_nat n\<rparr>);
     if n = 0 then do { _ \<leftarrow> ccci_ccb_unregister os; ret (- EINVAL) }
     else do {
       m \<leftarrow> syscall os (Sys_malloc (24 * n));
       if r_ret m = 0 then do { _ \<leftarrow> ccci_ccb_unregister os; ret (- EFAULT) }
       else do {
         upd_user (\<lambda>u. u\<lparr>buffers := Some (replicate n buff0), user_id := uid\<rparr>);
         ok \<leftarrow> register_loop os n 0 (2 * unat (ctrl_offset info)) 0;
         ret (if ok then of_nat n else - EFAULT) } } }"

definition new_user :: ccci_ccb_control_user where
  "new_user = \<lparr>user_id = 0, ctrl_info = \<lparr>ctrl_user_id = 0, ctrl_offset = 0, ctrl_addr = 0, ctrl_length = 0\<rparr>,
     buffer_num = 0, total_length = 0, user_fd = - 1, ctrl_fd = - 1, buffers = None\<rparr>"

definition ccci_ccb_register :: "'w os \<Rightarrow> u32 \<Rightarrow> u32 \<Rightarrow> ('w ccb, s32) state" where
  "ccci_ccb_register os md_id uid =
     (if md_id \<noteq> 0 then ret (- EINVAL)
      else do {
        _ \<leftarrow> ccci_ccb_unregister os;
        m \<leftarrow> syscall os (Sys_malloc 48);
        if r_ret m = 0 then ret (- EFAULT)
        else do {
          modify (\<lambda>s. s\<lparr>user := Some new_user\<rparr>);
          (fd, len) \<leftarrow> ccci_smem_get os md_id uid;
          if fd <s 0 then do { modify (\<lambda>s. s\<lparr>user := None\<rparr>); ret (- ENODEV) }
          else do {
            upd_user (\<lambda>u. u\<lparr>user_fd := fd, total_length := len\<rparr>);
            st \<leftarrow> syscall os (Sys_ioctl fd ''CCCI_IOC_SMEM_GET_STATE'' (le32 0xFF));
            if rd32 (r_data st) \<noteq> CCB_USER_OK then do { _ \<leftarrow> ccci_ccb_unregister os; ret (- EINVAL) }
            else do {
              (cfd, info) \<leftarrow> ccci_ccb_ctrl_get os ((ctrl_info new_user)\<lparr>ctrl_user_id := uid - CCB_START_INDEX\<rparr>);
              upd_user (\<lambda>u. u\<lparr>ctrl_fd := cfd, ctrl_info := info\<rparr>);
              if cfd <s 0 then do { _ \<leftarrow> ccci_ccb_unregister os; ret (- ENODEV) }
              else register_buffers os uid info } } } })"

primrec query_loop :: "ccci_ccb_control_user \<Rightarrow> nat \<Rightarrow> nat \<Rightarrow> ('w ccb, bool) state" where
  "query_loop u 0 i = ret True"
| "query_loop u (Suc n) i = do {
     buff \<leftarrow> get_buff u (of_nat i);
     dl \<leftarrow> get_header (dl_header buff);
     if guard_band dl \<noteq> HEADER_MAGIC_AFTER then ret False
     else do {
       ul \<leftarrow> get_header (ul_header buff);
       if guard_band ul \<noteq> HEADER_MAGIC_AFTER then ret False else query_loop u n (Suc i) } }"

definition ccci_ccb_query_status :: "('w ccb, s32) state" where
  "ccci_ccb_query_status = do {
     usr \<leftarrow> gets user;
     case usr of None \<Rightarrow> ret (- EFAULT)
     | Some u \<Rightarrow> do {
         ok \<leftarrow> query_loop u (unat (buffer_num u)) 0;
         ret (if ok then 0 else - EAGAIN) } }"

definition ccci_ccb_get_fd :: "'w ccb \<Rightarrow> s32" where
  "ccci_ccb_get_fd s = (case user s of None \<Rightarrow> - 1 | Some u \<Rightarrow> user_fd u)"

definition ccci_get_ccb_support :: "'w os \<Rightarrow> u32 \<Rightarrow> u32 \<Rightarrow> ('w ccb, s32) state" where
  "ccci_get_ccb_support os usr_id md_id =
     (if md_id \<noteq> 0 then ret 0
      else do {
        (if length ccci_node_list \<le> unat usr_id then fault else ret ());
        name \<leftarrow> ccci_get_node_name os (ccci_node_list ! unat usr_id) md_id;
        if usr_id = CCB_START_INDEX \<or> usr_id = CCB_START_INDEX + 1 \<or> usr_id = CCB_START_INDEX + 2 then do {
          r \<leftarrow> syscall os (Sys_stat (node_path name));
          ret (if r_ret r <s 0 then 0 else usr_id - CCB_START_INDEX + 1) }
        else ret 0 })"

end
