(* ===== verification/Ccb_Queue.thy ===== *)
theory Ccb_Queue
  imports Ccb_Ring
begin

unbundle bit_operations_syntax

text \<open>
  The rings of \<open>Ccb_Ring\<close> as queues. The indices of a header run around the pages; the pages between two
  of them form a list (\<open>span\<close>), and the operations on a header are operations on these lists: allocating
  appends to the pages being written, finishing a page moves the finished front of that list to the pages
  the reader may see, reading takes the first of those. The two ends put together are a first-in
  first-out queue of byte strings.
\<close>

section \<open>Indices around a ring\<close>

definition rdist :: "nat \<Rightarrow> nat \<Rightarrow> nat \<Rightarrow> nat" where
  "rdist n a b = (if a \<le> b then b - a else b + n - a)"

definition span :: "nat \<Rightarrow> nat \<Rightarrow> nat \<Rightarrow> nat list" where
  "span n a b = map (\<lambda>k. (a + k) mod n) [0..<rdist n a b]"

lemma length_span [simp]: "length (span n a b) = rdist n a b"
  by (simp add: span_def)

lemma rdist_self [simp]: "rdist n a a = 0"
  by (simp add: rdist_def)

lemma rdist_less: "a < n \<Longrightarrow> b < n \<Longrightarrow> rdist n a b < n"
  by (auto simp: rdist_def)

lemma rdist_0_iff: "a < n \<Longrightarrow> b < n \<Longrightarrow> rdist n a b = 0 \<longleftrightarrow> a = b"
  by (auto simp: rdist_def)

lemma step_cases: "i < n \<Longrightarrow> (i + 1) mod n = (if i + 1 = n then 0 else i + 1)" for n :: nat
  by auto

lemma rdist_step:
  assumes "a < n" "b < n"
  shows "rdist n a b + 1 < n \<Longrightarrow> rdist n a ((b + 1) mod n) = rdist n a b + 1"
    and "a \<noteq> b \<Longrightarrow> rdist n ((a + 1) mod n) b + 1 = rdist n a b"
  using assms unfolding step_cases [OF assms(1)] step_cases [OF assms(2)] rdist_def by (auto split: if_splits)

lemma add_mod_cases: "a < n \<Longrightarrow> k < n \<Longrightarrow> (a + k) mod n = (if a + k < n then a + k else a + k - n)" for n :: nat
  by (simp add: mod_if)

lemma rdist_add:
  assumes "a < n" "b < n" "rdist n a b + m < n"
  shows "rdist n a ((b + m) mod n) = rdist n a b + m"
proof -
  have "(b + m) mod n = (if b + m < n then b + m else b + m - n)" using assms by (intro add_mod_cases) auto
  then show ?thesis using assms by (auto simp: rdist_def split: if_splits)
qed

text \<open>Walking along a span.\<close>

lemma rdist_walk:
  assumes "a < n" "b < n" "m \<le> rdist n a b"
  shows "rdist n a ((a + m) mod n) = m" "rdist n ((a + m) mod n) b = rdist n a b - m"
proof -
  have "m < n" using assms rdist_less [OF assms(1,2)] by simp
  then have e: "(a + m) mod n = (if a + m < n then a + m else a + m - n)" using add_mod_cases assms(1) by blast
  show "rdist n a ((a + m) mod n) = m" using \<open>m < n\<close> assms(1) by (auto simp: rdist_def e)
  show "rdist n ((a + m) mod n) b = rdist n a b - m"
    using assms \<open>m < n\<close> by (auto simp: rdist_def e split: if_splits)
qed

lemma span_walk:
  assumes "a < n" "b < n" "m \<le> rdist n a b"
  shows "span n a ((a + m) mod n) = take m (span n a b)" "span n ((a + m) mod n) b = drop m (span n a b)"
  using rdist_walk [OF assms] assms(3)
  by (auto intro!: nth_equalityI simp: span_def min_def mod_simps add.assoc)

lemma span_self [simp]: "span n a a = []"
  by (simp add: span_def)

lemma span_Cons: "a < n \<Longrightarrow> b < n \<Longrightarrow> a \<noteq> b \<Longrightarrow> span n a b = a # span n ((a + 1) mod n) b"
proof -
  assume a: "a < n" "b < n" "a \<noteq> b"
  then have "1 \<le> rdist n a b" using rdist_0_iff [of a n b] by simp
  from span_walk(2) [OF a(1,2) this] have "span n ((a + 1) mod n) b = drop 1 (span n a b)" .
  moreover have "span n a b \<noteq> []" using \<open>1 \<le> rdist n a b\<close> by (auto simp flip: length_0_conv)
  moreover have "hd (span n a b) = a" using \<open>1 \<le> rdist n a b\<close> a(1) by (simp add: span_def hd_map upt_rec)
  ultimately show ?thesis by (metis One_nat_def drop_0 drop_Suc hd_Cons_tl)
qed

lemma span_snoc: "a < n \<Longrightarrow> b < n \<Longrightarrow> rdist n a b + 1 < n \<Longrightarrow> span n a ((b + 1) mod n) = span n a b @ [b]"
proof -
  assume a: "a < n" "b < n" "rdist n a b + 1 < n"
  have "(a + rdist n a b) mod n = b" using a by (auto simp: rdist_def mod_if)
  then show ?thesis using rdist_step(1) [OF a] by (simp add: span_def)
qed

lemma span_bound: "a < n \<Longrightarrow> x \<in> set (span n a b) \<Longrightarrow> x < n"
  by (auto simp: span_def)

lemma distinct_span: "a < n \<Longrightarrow> b < n \<Longrightarrow> distinct (span n a b)"
proof -
  assume a: "a < n" "b < n"
  have "inj_on (\<lambda>k. (a + k) mod n) {0..<rdist n a b}"
    using rdist_less [OF a] a by (intro inj_onI) (auto simp: add_mod_cases split: if_splits)
  then show ?thesis by (simp add: span_def distinct_map)
qed

lemma not_in_span: "a < n \<Longrightarrow> b < n \<Longrightarrow> b \<notin> set (span n a b)"
proof
  assume a: "a < n" "b < n" and "b \<in> set (span n a b)"
  then obtain k where "k < rdist n a b" "(a + k) mod n = b" by (auto simp: span_def)
  then show False using rdist_less [OF a] a by (auto simp: rdist_def add_mod_cases split: if_splits)
qed

lemma span_append:
  assumes "a < n" "b < n" "c < n" "rdist n a b + rdist n b c = rdist n a c"
  shows "span n a c = span n a b @ span n b c"
proof -
  have m: "rdist n a b \<le> rdist n a c" using assms(4) by simp
  have "(a + rdist n a b) mod n = b" using assms(1,2) by (auto simp: rdist_def mod_if)
  then show ?thesis using span_walk [OF assms(1,3) m] by (metis append_take_drop_id)
qed

text \<open>The interface of the step that the library takes, and its law on the modelled one.\<close>

locale ring_step =
  fixes nxt :: "u32 \<Rightarrow> u32 \<Rightarrow> u32"
  assumes nxt_law: "unat i < unat n \<Longrightarrow> unat (nxt n i) = (unat i + 1) mod unat n"
begin

lemma bound: "unat i < unat n \<Longrightarrow> unat (nxt n i) < unat n"
  using nxt_law by simp

lemma taken:
  "unat a < unat n \<Longrightarrow> unat b < unat n \<Longrightarrow> a \<noteq> b \<Longrightarrow>
   span (unat n) (unat a) (unat b) = unat a # span (unat n) (unat (nxt n a)) (unat b)"
  by (simp add: nxt_law span_Cons word_unat_eq_iff)

lemma added:
  "unat a < unat n \<Longrightarrow> unat b < unat n \<Longrightarrow> rdist (unat n) (unat a) (unat b) + 1 < unat n \<Longrightarrow>
   span (unat n) (unat a) (unat (nxt n b)) = span (unat n) (unat a) (unat b) @ [unat b] \<and>
   rdist (unat n) (unat a) (unat (nxt n b)) = rdist (unat n) (unat a) (unat b) + 1"
  using rdist_step(1) span_snoc by (simp add: nxt_law)

end

interpretation ccb: ring_step ring_next
proof
  fix i n :: u32 assume i: "unat i < unat n"
  then have "unat (i + 1) = unat i + 1"
    using unat_u32_less [of n] by (simp add: unat_word_ariths)
  then show "unat (ring_next n i) = (unat i + 1) mod unat n"
    using i step_cases [OF i] by (auto simp: ring_next_def word_le_nat_alt)
qed

section \<open>Headers and pages\<close>

text \<open>A header whose indices follow each other around its pages, and pages that lie in the mapped region.\<close>

definition ring_ok :: "u32 \<Rightarrow> nat \<Rightarrow> ccci_ccb_control_user \<Rightarrow> buffer_header \<Rightarrow> bool" where
  "ring_ok n base u h \<longleftrightarrow> 8 \<le> unat (page_size h) \<and> base + unat (page_size h) * unat n \<le> unat (total_length u) \<and>
     unat (free_index h) < unat n \<and> unat (read_index h) < unat n \<and> unat (write_index h) < unat n \<and>
     unat (allocate_index h) < unat n \<and>
     rdist (unat n) (unat (free_index h)) (unat (read_index h)) + rdist (unat n) (unat (read_index h)) (unat (write_index h)) +
       rdist (unat n) (unat (write_index h)) (unat (allocate_index h)) =
       rdist (unat n) (unat (free_index h)) (unat (allocate_index h))"

definition pg :: "nat \<Rightarrow> buffer_header \<Rightarrow> nat \<Rightarrow> nat" where
  "pg base h i = base + unat (page_size h) * i"

definition page_status :: "memory \<Rightarrow> nat \<Rightarrow> u32" where
  "page_status m a = rd32 (mread m a 4)"

definition valid_length :: "memory \<Rightarrow> nat \<Rightarrow> u32" where
  "valid_length m a = rd32 (mread m (a + 4) 4)"

lemma pg_simps [simp]:
  "pg base (h\<lparr>allocate_index := x\<rparr>) = pg base h" "pg base (h\<lparr>write_index := x\<rparr>) = pg base h"
  "pg base (h\<lparr>read_index := x\<rparr>) = pg base h" "pg base (h\<lparr>free_index := x\<rparr>) = pg base h"
  by (simp_all add: pg_def fun_eq_iff)

lemma ring_ok_page:
  assumes "ring_ok n base u h" "unat i < unat n"
  shows "ccci_ccb_get_page h base i = pg base h (unat i)" "pg base h (unat i) + unat (page_size h) \<le> unat (total_length u)"
proof -
  let ?p = "unat (page_size h)"
  have b: "base + ?p * unat n \<le> unat (total_length u)" using assms(1) by (simp add: ring_ok_def)
  have "?p * (unat i + 1) \<le> ?p * unat n" using assms(2) by (intro mult_le_mono2) simp
  then have le: "?p * unat i + ?p \<le> ?p * unat n" by simp
  then have "?p * unat i < 2 ^ 32" using b unat_u32_less [of "total_length u"] by simp
  then show "ccci_ccb_get_page h base i = pg base h (unat i)"
    by (simp add: ccci_ccb_get_page_def pg_def unat_word_ariths)
  show "pg base h (unat i) + ?p \<le> unat (total_length u)" using b le by (simp add: pg_def)
qed

lemma pg_apart:
  assumes "8 \<le> unat (page_size h)" "i \<noteq> j"
  shows "pg base h i + unat (page_size h) \<le> pg base h j \<or> pg base h j + unat (page_size h) \<le> pg base h i"
proof -
  have "unat (page_size h) * Suc i \<le> unat (page_size h) * j \<or> unat (page_size h) * Suc j \<le> unat (page_size h) * i"
    using assms(2) by (metis Suc_leI linorder_neqE_nat mult_le_mono2)
  then show ?thesis by (simp add: pg_def algebra_simps)
qed

lemma pg_inj: "8 \<le> unat (page_size h) \<Longrightarrow> pg base h i = pg base h j \<longleftrightarrow> i = j"
  by (auto simp: pg_def)

lemma status_after:
  assumes "8 \<le> unat (page_size h)"
  shows "page_status (mwrite m (pg base h i) (le32 v)) (pg base h j) = (if j = i then v else page_status m (pg base h j))"
    and "page_status (mwrite m (pg base h i + 4) (le32 v)) (pg base h j) = page_status m (pg base h j)"
    and "valid_length (mwrite m (pg base h i) (le32 v)) (pg base h j) = valid_length m (pg base h j)"
    and "valid_length (mwrite m (pg base h i + 4) (le32 v)) (pg base h j) = (if j = i then v else valid_length m (pg base h j))"
proof -
  have sep: "pg base h j + 8 \<le> pg base h i \<or> pg base h i + 8 \<le> pg base h j" if "j \<noteq> i"
    using pg_apart [OF assms that, of base] assms by linarith
  show "page_status (mwrite m (pg base h i) (le32 v)) (pg base h j) = (if j = i then v else page_status m (pg base h j))"
    "page_status (mwrite m (pg base h i + 4) (le32 v)) (pg base h j) = page_status m (pg base h j)"
    "valid_length (mwrite m (pg base h i) (le32 v)) (pg base h j) = valid_length m (pg base h j)"
    "valid_length (mwrite m (pg base h i + 4) (le32 v)) (pg base h j) = (if j = i then v else valid_length m (pg base h j))"
    using sep mread_mwrite_same [of m _ "le32 v"]
    by (cases "j = i"; force simp: page_status_def valid_length_def mread_mwrite_disjoint)+
qed

text \<open>The room the code computes is one less than the pages that are not taken.\<close>

lemma write_room_unat:
  assumes "ring_ok n base u h"
  shows "unat (write_room n h) + rdist (unat n) (unat (free_index h)) (unat (allocate_index h)) + 1 = unat n"
proof -
  have b: "unat (free_index h) < unat n" "unat (allocate_index h) < unat n" using assms by (auto simp: ring_ok_def)
  consider "allocate_index h = free_index h" | "unat (free_index h) < unat (allocate_index h)"
    | "unat (allocate_index h) < unat (free_index h)"
    by (metis linorder_neqE_nat word_unat_eq_iff)
  then show ?thesis
  proof cases
    case 1
    then show ?thesis using b by (simp add: write_room_def unat_sub word_le_nat_alt)
  next
    case 2
    then have "unat (n - allocate_index h) = unat n - unat (allocate_index h)"
      using b by (simp add: unat_sub word_le_nat_alt)
    moreover from this have "unat (n - allocate_index h + free_index h) = unat n - unat (allocate_index h) + unat (free_index h)"
      using b 2 unat_u32_less [of n] by (simp add: unat_word_ariths)
    ultimately show ?thesis using b 2
      by (auto simp: write_room_def rdist_def word_less_nat_alt unat_sub word_le_nat_alt)
  next
    case 3
    then have "unat (free_index h - allocate_index h) = unat (free_index h) - unat (allocate_index h)"
      by (simp add: unat_sub word_le_nat_alt)
    then show ?thesis using b 3
      by (auto simp: write_room_def rdist_def word_less_nat_alt unat_sub word_le_nat_alt)
  qed
qed

section \<open>Writing\<close>

definition attached :: "'w ccb \<Rightarrow> ccci_ccb_control_user \<Rightarrow> u32 \<Rightarrow> ccci_ccb_control_buff \<Rightarrow> bool" where
  "attached s u bid b \<longleftrightarrow> user s = Some u \<and> bid \<le> buffer_num u \<and>
     (\<exists>bs. buffers u = Some bs \<and> unat bid < length bs \<and> bs ! unat bid = b)"

definition ul_ready :: "'w ccb \<Rightarrow> ccci_ccb_control_user \<Rightarrow> u32 \<Rightarrow> ccci_ccb_control_buff \<Rightarrow> nat \<Rightarrow> buffer_header \<Rightarrow> bool" where
  "ul_ready s u bid b k h \<longleftrightarrow> attached s u bid b \<and> ul_header b = Some k \<and> k < length (ctrl s) \<and> ctrl s ! k = h \<and>
     guard_band h = HEADER_MAGIC_AFTER \<and> guard_band_e h = TAIL_MAGIC_AFTER \<and> ring_ok (ul_page_num b) (ul_pages b) u h"

lemma attached_buff: "attached s u bid b \<Longrightarrow> run_state (get_buff u bid) t = (b, t)" for s t :: "'w ccb"
  by (auto simp: attached_def get_buff_def)

lemma header_runs:
  assumes "k < length (ctrl t)"
  shows "run_state (get_header (Some k)) t = (ctrl t ! k, t)"
    and "run_state (upd_header (Some k) f) t = ((), t\<lparr>ctrl := (ctrl t)[k := f (ctrl t ! k)]\<rparr>)"
  using assms by (simp_all add: get_header_def upd_header_def)

lemma word_runs:
  assumes "a + 4 \<le> unat (total_length u)"
  shows "run_state (read32 u a) t = (rd32 (mread (shm t) a 4), t)"
    and "run_state (write32 u a v) t = ((), t\<lparr>shm := mwrite (shm t) a (le32 v)\<rparr>)"
  using assms by (simp_all add: read32_def write32_def)

definition after_alloc :: "'w ccb \<Rightarrow> ccci_ccb_control_buff \<Rightarrow> nat \<Rightarrow> buffer_header \<Rightarrow> 'w ccb" where
  "after_alloc s b k h = s\<lparr>shm := mwrite (shm s) (pg (ul_pages b) h (unat (allocate_index h))) (le32 PAGE_STATUS_ALLOC),
     ctrl := (ctrl s)[k := h\<lparr>allocate_index := ring_next (ul_page_num b) (allocate_index h)\<rparr>]\<rparr>"

lemma write_alloc_run:
  assumes r: "ul_ready s u bid b k h"
  shows "run_state (ccci_ccb_write_alloc bid) s =
    (if rdist (unat (ul_page_num b)) (unat (free_index h)) (unat (allocate_index h)) + 1 = unat (ul_page_num b)
     then (None, s) else (Some (pg (ul_pages b) h (unat (allocate_index h)) + 8), after_alloc s b k h))"
proof -
  have h: "user s = Some u" "\<not> buffer_num u < bid" "ul_header b = Some k" "k < length (ctrl s)" "ctrl s ! k = h"
      "guard_band h = HEADER_MAGIC_AFTER" "guard_band_e h = TAIL_MAGIC_AFTER" "ring_ok (ul_page_num b) (ul_pages b) u h"
      "unat (allocate_index h) < unat (ul_page_num b)" "8 \<le> unat (page_size h)"
    using r by (auto simp: ul_ready_def attached_def ring_ok_def)
  have "write_room (ul_page_num b) h = 0 \<longleftrightarrow>
      rdist (unat (ul_page_num b)) (unat (free_index h)) (unat (allocate_index h)) + 1 = unat (ul_page_num b)"
    using write_room_unat [OF h(8)] by (simp add: word_unat_eq_iff) linarith
  moreover have "run_state (get_buff u bid) s = (b, s)" using r attached_buff [of s u bid b s] by (simp add: ul_ready_def)
  moreover have "pg (ul_pages b) h (unat (allocate_index h)) + 4 \<le> unat (total_length u)"
    using ring_ok_page(2) [OF h(8,9)] h(10) by simp
  ultimately show ?thesis
    using h ring_ok_page(1) [OF h(8,9)]
    by (simp add: ccci_ccb_write_alloc_def header_runs word_runs after_alloc_def Let_def)
qed

lemma ring_ok_alloc:
  assumes "ring_ok n base u h" "rdist (unat n) (unat (free_index h)) (unat (allocate_index h)) + 1 \<noteq> unat n"
  shows "ring_ok n base u (h\<lparr>allocate_index := ring_next n (allocate_index h)\<rparr>)"
proof -
  let ?d = "rdist (unat n)"
  have b: "unat (free_index h) < unat n" "unat (write_index h) < unat n" "unat (allocate_index h) < unat n"
    using assms(1) by (auto simp: ring_ok_def)
  have sum: "?d (unat (free_index h)) (unat (read_index h)) + ?d (unat (read_index h)) (unat (write_index h)) +
      ?d (unat (write_index h)) (unat (allocate_index h)) = ?d (unat (free_index h)) (unat (allocate_index h))"
    using assms(1) by (simp add: ring_ok_def)
  have "?d (unat (free_index h)) (unat (allocate_index h)) + 1 < unat n"
    using rdist_less [OF b(1,3)] assms(2) by linarith
  then have "?d (unat (free_index h)) (unat (ring_next n (allocate_index h))) = ?d (unat (free_index h)) (unat (allocate_index h)) + 1"
    "?d (unat (write_index h)) (unat (ring_next n (allocate_index h))) = ?d (unat (write_index h)) (unat (allocate_index h)) + 1"
    using ccb.added [OF b(1,3)] ccb.added [OF b(2,3)] sum by simp_all
  then show ?thesis using assms(1) sum ccb.bound [OF b(3)] by (auto simp: ring_ok_def)
qed

lemma find_page_run:
  assumes "ring_ok n base u h" "unat i + m = unat n" "unat i \<le> j" "j < unat n"
  shows "find_page h base (pg base h j + 8) m i = Some (of_nat j)"
  using assms(2,3)
proof (induction m arbitrary: i)
  case 0
  then show ?case using assms(4) by simp
next
  case (Suc m)
  then have i: "unat i < unat n" by simp
  have p: "8 \<le> unat (page_size h)" using assms(1) by (simp add: ring_ok_def)
  have "unat (i + 1) = unat i + 1" using i unat_u32_less [of n] by (simp add: unat_word_ariths)
  moreover have "of_nat j = i" if "j = unat i" using that by simp
  ultimately show ?case
    using Suc ring_ok_page(1) [OF assms(1) i] pg_inj [OF p, of base] by (cases "j = unat i") auto
qed

text \<open>The loop that publishes: it moves the write index over the finished pages at the front, and ends within
  as many steps as there are pages.\<close>

definition done_pages :: "memory \<Rightarrow> nat \<Rightarrow> buffer_header \<Rightarrow> nat \<Rightarrow> bool" where
  "done_pages m base h i \<longleftrightarrow> page_status m (pg base h i) = PAGE_STATUS_WRITE_DONE"

lemma done_pages_simps [simp]: "done_pages m base (h\<lparr>write_index := x\<rparr>) = done_pages m base h"
  by (simp add: done_pages_def fun_eq_iff)

lemma write_index_same: "ctrl s ! k = h \<Longrightarrow> s\<lparr>ctrl := (ctrl s)[k := h\<lparr>write_index := write_index h\<rparr>]\<rparr> = s"
proof -
  assume e: "ctrl s ! k = h"
  have "h\<lparr>write_index := write_index h\<rparr> = h" by (cases h) simp
  then show ?thesis by (simp flip: e)
qed

lemma publish_run:
  assumes "ul_header b = Some k" "k < length (ctrl s)" "ctrl s ! k = h" "n = unat (ul_page_num b)"
    and "8 \<le> unat (page_size h)" "ul_pages b + unat (page_size h) * n \<le> unat (total_length u)"
    and "unat (write_index h) < n" "unat (allocate_index h) < n"
    and "rdist n (unat (write_index h)) (unat (allocate_index h)) < fuel"
  shows "\<exists>w'. run_state (publish u b fuel (write_index h)) s = ((), s\<lparr>ctrl := (ctrl s)[k := h\<lparr>write_index := w'\<rparr>]\<rparr>) \<and>
    unat w' = (unat (write_index h) + length (takeWhile (done_pages (shm s) (ul_pages b) h)
      (span n (unat (write_index h)) (unat (allocate_index h))))) mod n"
  using assms
proof (induction fuel arbitrary: s h)
  case 0
  then show ?case by (simp only: not_less_zero)
next
  case (Suc fuel)
  let ?w = "write_index h" and ?a = "allocate_index h"
  have ring: "ring_ok (ul_page_num b) (ul_pages b) u (h\<lparr>free_index := ?w, read_index := ?w\<rparr>)"
    using Suc.prems by (simp add: ring_ok_def)
  have page: "ccci_ccb_get_page h (ul_pages b) ?w = pg (ul_pages b) h (unat ?w)"
      "pg (ul_pages b) h (unat ?w) + 4 \<le> unat (total_length u)"
    using ring_ok_page [OF ring, of ?w] Suc.prems by (simp_all add: ccci_ccb_get_page_def pg_def)
  show ?case
  proof (cases "?w = ?a")
    case True
    then have "run_state (publish u b (Suc fuel) ?w) s = ((), s)" using Suc.prems by (simp add: header_runs)
    then show ?thesis
      using write_index_same [OF Suc.prems(3)] True Suc.prems(7) by (intro exI [of _ ?w]) simp
  next
    case False
    let ?w1 = "ring_next (ul_page_num b) ?w"
    have sp: "span n (unat ?w) (unat ?a) = unat ?w # span n (unat ?w1) (unat ?a)"
      using ccb.taken [of ?w "ul_page_num b" ?a] Suc.prems False by simp
    have w1: "unat ?w1 = (unat ?w + 1) mod n" using ccb.nxt_law Suc.prems by simp
    show ?thesis
    proof (cases "done_pages (shm s) (ul_pages b) h (unat ?w)")
      case fin: True
      let ?h = "h\<lparr>write_index := ?w1\<rparr>"
      let ?s = "s\<lparr>ctrl := (ctrl s)[k := ?h]\<rparr>"
      have "unat ?w1 < n" using ccb.bound Suc.prems by simp
      moreover have "rdist n (unat ?w1) (unat ?a) < fuel"
        using rdist_step(2) [of "unat ?w" n "unat ?a"] Suc.prems False by (simp add: w1 word_unat_eq_iff)
      ultimately obtain w' where "run_state (publish u b fuel ?w1) ?s = ((), ?s\<lparr>ctrl := (ctrl ?s)[k := ?h\<lparr>write_index := w'\<rparr>]\<rparr>)"
        "unat w' = (unat ?w1 + length (takeWhile (done_pages (shm s) (ul_pages b) h) (span n (unat ?w1) (unat ?a)))) mod n"
        using Suc.IH [of ?s ?h] Suc.prems by auto
      moreover have "run_state (publish u b (Suc fuel) ?w) s = run_state (publish u b fuel ?w1) ?s"
        using fin False Suc.prems page by (simp add: header_runs word_runs done_pages_def page_status_def)
      ultimately show ?thesis using fin by (auto simp: sp w1 mod_simps)
    next
      case False2: False
      then have "run_state (publish u b (Suc fuel) ?w) s = ((), s)"
        using False Suc.prems page by (simp add: header_runs word_runs done_pages_def page_status_def)
      then show ?thesis
        using write_index_same [OF Suc.prems(3)] False2 Suc.prems(7) by (intro exI [of _ ?w]) (simp add: sp)
    qed
  qed
qed

text \<open>What finishing page \<open>j\<close> leaves.\<close>

definition finished :: "memory \<Rightarrow> nat \<Rightarrow> u32 \<Rightarrow> memory" where
  "finished m page len = mwrite (mwrite m page (le32 PAGE_STATUS_WRITE_DONE)) (page + 4) (le32 len)"

lemma finished_views:
  assumes "8 \<le> unat (page_size h)"
  shows "page_status (finished m (pg base h j) len) (pg base h i) = (if i = j then PAGE_STATUS_WRITE_DONE else page_status m (pg base h i))"
    "valid_length (finished m (pg base h j) len) (pg base h i) = (if i = j then len else valid_length m (pg base h i))"
  using status_after [OF assms] by (simp_all add: finished_def)

lemma write_done_run:
  assumes r: "ul_ready s u bid b k h" and n: "n = unat (ul_page_num b)" and j: "j < n"
    and len: "unat len \<le> unat (page_size h)" and st: "page_status (shm s) (pg (ul_pages b) h j) = PAGE_STATUS_ALLOC"
  shows "\<exists>w' rr t. run_state (ccci_ccb_write_done os bid (pg (ul_pages b) h j + 8) len) s = (rr, t) \<and>
    shm t = finished (shm s) (pg (ul_pages b) h j) len \<and> ctrl t = (ctrl s)[k := h\<lparr>write_index := w'\<rparr>] \<and>
    user t = user s \<and> ccb_hung t = ccb_hung s \<and>
    unat w' = (unat (write_index h) + length (takeWhile (done_pages (shm t) (ul_pages b) h)
      (span n (unat (write_index h)) (unat (allocate_index h))))) mod n"
proof -
  let ?page = "pg (ul_pages b) h j"
  have h: "user s = Some u" "\<not> buffer_num u < bid" "ul_header b = Some k" "k < length (ctrl s)" "ctrl s ! k = h"
      "guard_band h = HEADER_MAGIC_AFTER" "guard_band_e h = TAIL_MAGIC_AFTER"
    and ring: "ring_ok (ul_page_num b) (ul_pages b) u h"
    and at: "attached s u bid b"
    using r by (auto simp: ul_ready_def attached_def)
  have l: "\<not> page_size h < len" using len by (simp add: word_less_nat_alt)
  have fp: "find_page h (ul_pages b) (?page + 8) (unat (ul_page_num b)) 0 = Some (of_nat j)"
    using find_page_run [OF ring, of 0 "unat (ul_page_num b)" j] j n by simp
  have jw: "unat (of_nat j :: u32) = j" using j n unat_u32_less [of "ul_page_num b"] by (intro unat_of_nat_small) simp
  have page: "ccci_ccb_get_page h (ul_pages b) (of_nat j) = ?page" "?page + 8 \<le> unat (total_length u)"
    using ring_ok_page [OF ring, of "of_nat j"] j n jw ring by (auto simp: ring_ok_def)
  let ?s = "s\<lparr>shm := finished (shm s) ?page len\<rparr>"
  have "\<exists>w'. run_state (publish u b (n + 1) (write_index h)) ?s = ((), ?s\<lparr>ctrl := (ctrl ?s)[k := h\<lparr>write_index := w'\<rparr>]\<rparr>) \<and>
    unat w' = (unat (write_index h) + length (takeWhile (done_pages (shm ?s) (ul_pages b) h)
      (span n (unat (write_index h)) (unat (allocate_index h))))) mod n"
    using ring h n rdist_less [of "unat (write_index h)" n "unat (allocate_index h)"]
    by (intro publish_run) (auto simp: ring_ok_def)
  then obtain w' where w: "run_state (publish u b (n + 1) (write_index h)) ?s = ((), ?s\<lparr>ctrl := (ctrl s)[k := h\<lparr>write_index := w'\<rparr>]\<rparr>)"
    "unat w' = (unat (write_index h) + length (takeWhile (done_pages (finished (shm s) ?page len) (ul_pages b) h)
      (span n (unat (write_index h)) (unat (allocate_index h))))) mod n" by auto
  let ?u = "?s\<lparr>ctrl := (ctrl s)[k := h\<lparr>write_index := w'\<rparr>]\<rparr>"
  have "run_state (write_page os u b bid ?page len) s = run_state (tx_notify os u bid) ?u"
    using st page(2) h w(1) by (simp add: write_page_def word_runs header_runs page_status_def n finished_def)
  then have run: "run_state (ccci_ccb_write_done os bid (?page + 8) len) s = run_state (tx_notify os u bid) ?u"
    using h l fp page(1) attached_buff [OF at, of s] by (simp add: ccci_ccb_write_done_def header_runs)
  have "shm t = shm ?u \<and> ctrl t = ctrl ?u \<and> user t = user ?u \<and> ccb_hung t = ccb_hung ?u"
    if "run_state (tx_notify os u bid) ?u = (rr, t)" for rr t
    using that by (auto simp: tx_notify_def fault_def split: prod.splits option.splits)
  then show ?thesis using w(2) run by (cases "run_state (tx_notify os u bid) ?u") fastforce
qed

section \<open>Reading\<close>

definition dl_ready :: "'w ccb \<Rightarrow> ccci_ccb_control_user \<Rightarrow> u32 \<Rightarrow> ccci_ccb_control_buff \<Rightarrow> nat \<Rightarrow> buffer_header \<Rightarrow> bool" where
  "dl_ready s u bid b k h \<longleftrightarrow> attached s u bid b \<and> dl_header b = Some k \<and> k < length (ctrl s) \<and> ctrl s ! k = h \<and>
     guard_band_e h = TAIL_MAGIC_AFTER \<and> ring_ok (dl_page_num b) (dl_pages b) u h"

lemma sint_neg_small: "k < 2 ^ 31 \<Longrightarrow> sint (- of_nat k :: s32) = - int k"
proof -
  assume k: "k < 2 ^ 31"
  have e: "- of_nat k = (of_int (- int k) :: s32)" by simp
  have "sint (of_int (- int k) :: s32) = signed_take_bit 31 (- int k)" by (simp only: signed_of_int) simp
  then show ?thesis using k unfolding e by (simp add: signed_take_bit_int_eq_self)
qed

lemma read_available_unat:
  assumes "ring_ok n base u h"
  shows "unat (ccci_ccb_read_available n h) = rdist (unat n) (unat (read_index h)) (unat (write_index h))"
proof -
  let ?r = "unat (read_index h)" and ?w = "unat (write_index h)"
  have b: "?r < unat n" "?w < unat n" using assms by (auto simp: ring_ok_def)
  have "8 * unat n \<le> unat (page_size h) * unat n" using assms by (intro mult_le_mono1) (simp add: ring_ok_def)
  moreover have "base + unat (page_size h) * unat n \<le> unat (total_length u)" using assms by (simp add: ring_ok_def)
  ultimately have "8 * unat n < 4294967296" using unat_u32_less [of "total_length u"] by linarith
  then have n: "unat n < 2 ^ 31" by simp
  show ?thesis
  proof (cases "?r \<le> ?w")
    case True
    then have d: "unat (write_index h - read_index h) = ?w - ?r" by (simp add: unat_sub word_le_nat_alt)
    have "write_index h - read_index h = of_nat (?w - ?r)" unfolding d [symmetric] by simp
    then have "\<not> write_index h - read_index h <s 0" using of_nat_nonneg [of "?w - ?r"] b n by simp
    then show ?thesis using True d by (simp add: ccci_ccb_read_available_def rdist_def)
  next
    case False
    then have d: "unat (read_index h - write_index h) = ?r - ?w" by (simp add: unat_sub word_le_nat_alt)
    have "read_index h - write_index h = of_nat (?r - ?w)" unfolding d [symmetric] by simp
    then have e: "write_index h - read_index h = - of_nat (?r - ?w)" by (metis minus_diff_eq)
    have "sint (- of_nat (?r - ?w) :: s32) = - int (?r - ?w)" using b n by (intro sint_neg_small) simp
    then have "sint (write_index h - read_index h) < 0" using False unfolding e by linarith
    then have neg: "write_index h - read_index h <s 0" by (simp only: word_sless_alt sint_0)
    have f: "write_index h - read_index h + n = of_nat (?w + unat n - ?r)"
      using b by (simp add: of_nat_diff)
    have "?w + unat n - ?r < 2 ^ 32" using False b n by simp
    then have "unat (write_index h - read_index h + n) = ?w + unat n - ?r"
      unfolding f by (rule unat_of_nat_small)
    then show ?thesis using neg False by (simp add: ccci_ccb_read_available_def rdist_def)
  qed
qed

lemma read_get_run:
  assumes r: "dl_ready s u bid b k h"
  defines "page \<equiv> pg (dl_pages b) h (unat (read_index h))"
  shows "run_state (ccci_ccb_read_get bid) s =
    (if read_index h = write_index h then ((- EAGAIN, Some (None, 0)), s)
     else if page_status (shm s) page \<noteq> PAGE_STATUS_WRITE_DONE then ((- EFAULT, None), s)
     else ((0, Some (Some (page + 8), valid_length (shm s) page)),
       s\<lparr>ctrl := (ctrl s)[k := h\<lparr>read_index := ring_next (dl_page_num b) (read_index h)\<rparr>]\<rparr>))"
proof -
  have h: "user s = Some u" "\<not> buffer_num u < bid" "dl_header b = Some k" "k < length (ctrl s)" "ctrl s ! k = h"
      "guard_band_e h = TAIL_MAGIC_AFTER"
    and ring: "ring_ok (dl_page_num b) (dl_pages b) u h" and at: "attached s u bid b"
    and idx: "unat (read_index h) < unat (dl_page_num b)" "unat (write_index h) < unat (dl_page_num b)"
    using r by (auto simp: dl_ready_def attached_def ring_ok_def)
  have av: "ccci_ccb_read_available (dl_page_num b) h = 0 \<longleftrightarrow> read_index h = write_index h"
    using read_available_unat [OF ring] rdist_0_iff [OF idx] by (simp add: word_unat_eq_iff)
  have page: "ccci_ccb_get_page h (dl_pages b) (read_index h) = page" "page + 8 \<le> unat (total_length u)"
    using ring_ok_page [OF ring idx(1)] ring by (auto simp: page_def ring_ok_def)
  then show ?thesis
    using h av attached_buff [OF at, of s]
    by (simp add: ccci_ccb_read_get_def header_runs word_runs page_status_def valid_length_def Let_def)
qed

lemma read_done_run:
  assumes r: "dl_ready s u bid b k h"
  shows "run_state (ccci_ccb_read_done bid) s =
    (if read_index h \<noteq> ring_next (dl_page_num b) (free_index h) then (- EFAULT, s)
     else (0, s\<lparr>ctrl := (ctrl s)[k := h\<lparr>free_index := read_index h\<rparr>]\<rparr>))"
  using r attached_buff [of s u bid b s]
  by (auto simp: dl_ready_def attached_def ccci_ccb_read_done_def header_runs Let_def)

lemma ring_ok_get:
  assumes "ring_ok n base u h" "read_index h \<noteq> write_index h"
  shows "ring_ok n base u (h\<lparr>read_index := ring_next n (read_index h)\<rparr>)"
proof -
  have b: "unat (free_index h) < unat n" "unat (read_index h) < unat n" "unat (write_index h) < unat n" "unat (allocate_index h) < unat n"
    using assms(1) by (auto simp: ring_ok_def)
  let ?d = "rdist (unat n)"
  have sum: "?d (unat (free_index h)) (unat (read_index h)) + ?d (unat (read_index h)) (unat (write_index h)) +
      ?d (unat (write_index h)) (unat (allocate_index h)) = ?d (unat (free_index h)) (unat (allocate_index h))"
    using assms(1) by (simp add: ring_ok_def)
  have pos: "?d (unat (read_index h)) (unat (write_index h)) \<noteq> 0"
    using rdist_0_iff [OF b(2,3)] assms(2) by (simp add: word_unat_eq_iff)
  have "?d (unat (free_index h)) (unat (read_index h)) + 1 < unat n"
    using rdist_less [OF b(1,4)] sum pos by linarith
  then have "?d (unat (free_index h)) (unat (ring_next n (read_index h))) = ?d (unat (free_index h)) (unat (read_index h)) + 1"
    using ccb.added [OF b(1,2)] by simp
  moreover have "?d (unat (ring_next n (read_index h))) (unat (write_index h)) + 1 = ?d (unat (read_index h)) (unat (write_index h))"
    using rdist_step(2) [OF b(2,3)] ccb.nxt_law [OF b(2)] assms(2) by (simp add: word_unat_eq_iff)
  ultimately show ?thesis using assms(1) sum ccb.bound [OF b(2)] by (auto simp: ring_ok_def)
qed

lemma ring_ok_free:
  assumes "ring_ok n base u h" "free_index h \<noteq> read_index h"
  shows "ring_ok n base u (h\<lparr>free_index := ring_next n (free_index h)\<rparr>)"
proof -
  have b: "unat (free_index h) < unat n" "unat (read_index h) < unat n" "unat (allocate_index h) < unat n"
    using assms(1) by (auto simp: ring_ok_def)
  let ?d = "rdist (unat n)"
  have sum: "?d (unat (free_index h)) (unat (read_index h)) + ?d (unat (read_index h)) (unat (write_index h)) +
      ?d (unat (write_index h)) (unat (allocate_index h)) = ?d (unat (free_index h)) (unat (allocate_index h))"
    using assms(1) by (simp add: ring_ok_def)
  have fr: "?d (unat (ring_next n (free_index h))) (unat (read_index h)) + 1 = ?d (unat (free_index h)) (unat (read_index h))"
    using rdist_step(2) [OF b(1,2)] ccb.nxt_law [OF b(1)] assms(2) by (simp add: word_unat_eq_iff)
  then have "unat (free_index h) \<noteq> unat (allocate_index h)" using sum by auto
  then have "?d (unat (ring_next n (free_index h))) (unat (allocate_index h)) + 1 = ?d (unat (free_index h)) (unat (allocate_index h))"
    using rdist_step(2) [OF b(1,3)] ccb.nxt_law [OF b(1)] by simp
  with fr show ?thesis using assms(1) sum ccb.bound [OF b(1)] by (auto simp: ring_ok_def)
qed

section \<open>A queue\<close>

text \<open>What a queue promises, and what follows for any sequence of operations on it.\<close>

datatype 'a queue_op = Put 'a | Get

text \<open>Running a sequence: what was accepted and what came out.\<close>

primrec run_ops :: "('a \<Rightarrow> ('s, bool) state) \<Rightarrow> ('s, 'a option) state \<Rightarrow> 'a queue_op list \<Rightarrow> ('s, 'a list \<times> 'a list) state" where
  "run_ops put get [] = ret ([], [])"
| "run_ops put get (p # ps) = (case p of
      Put x \<Rightarrow> do { ok \<leftarrow> put x; (ins, outs) \<leftarrow> run_ops put get ps; ret (if ok then x # ins else ins, outs) }
    | Get \<Rightarrow> do { r \<leftarrow> get; (ins, outs) \<leftarrow> run_ops put get ps;
        ret (ins, case r of None \<Rightarrow> outs | Some x \<Rightarrow> x # outs) })"

locale fifo =
  fixes inv :: "'s \<Rightarrow> bool" and cont :: "'s \<Rightarrow> 'a list" and fits :: "'a \<Rightarrow> bool" and full :: "'s \<Rightarrow> bool"
    and put :: "'a \<Rightarrow> ('s, bool) state" and get :: "('s, 'a option) state"
  assumes put_law: "inv s \<Longrightarrow> fits x \<Longrightarrow> run_state (put x) s = (ok, t) \<Longrightarrow>
      inv t \<and> ok = (\<not> full s) \<and> cont t = (if ok then cont s @ [x] else cont s)"
    and get_law: "inv s \<Longrightarrow> run_state get s = (r, t) \<Longrightarrow>
      inv t \<and> (case r of None \<Rightarrow> cont s = [] \<and> cont t = [] | Some x \<Rightarrow> cont s = x # cont t)"
begin

lemma in_order:
  assumes "inv s" "\<forall>x. Put x \<in> set ps \<longrightarrow> fits x" "run_state (run_ops put get ps) s = ((ins, outs), t)"
  shows "inv t \<and> cont s @ ins = outs @ cont t"
  using assms
proof (induction ps arbitrary: s ins outs t)
  case Nil
  then show ?case by simp
next
  case (Cons p ps)
  show ?case
  proof (cases p)
    case (Put x)
    obtain ok u where p: "run_state (put x) s = (ok, u)" by fastforce
    obtain is' os' v where r: "run_state (run_ops put get ps) u = ((is', os'), v)" by (metis surj_pair)
    note law = put_law [OF Cons.prems(1) _ p]
    have "inv u" "cont u = (if ok then cont s @ [x] else cont s)" using law Cons.prems(2) Put by auto
    moreover have "inv v \<and> cont u @ is' = os' @ cont v"
      using Cons.IH [OF \<open>inv u\<close> _ r] Cons.prems(2) by simp
    ultimately show ?thesis using Cons.prems(3) Put p r by (auto split: if_splits)
  next
    case Get
    obtain g u where p: "run_state get s = (g, u)" by fastforce
    obtain is' os' v where r: "run_state (run_ops put get ps) u = ((is', os'), v)" by (metis surj_pair)
    have law: "inv u" "case g of None \<Rightarrow> cont s = [] \<and> cont u = [] | Some x \<Rightarrow> cont s = x # cont u"
      using get_law [OF Cons.prems(1) p] by auto
    moreover have "inv v \<and> cont u @ is' = os' @ cont v"
      using Cons.IH [OF law(1) _ r] Cons.prems(2) by simp
    ultimately show ?thesis using Cons.prems(3) Get p r by (cases g) auto
  qed
qed

end

text \<open>The client's side of the library: a page is allocated, filled and finished; a page is fetched, copied and
  released.\<close>

definition ccb_put :: "'w os \<Rightarrow> u32 \<Rightarrow> u8 list \<Rightarrow> ('w ccb, bool) state" where
  "ccb_put os bid x = do {
     p \<leftarrow> ccci_ccb_write_alloc bid;
     case p of None \<Rightarrow> ret False
     | Some a \<Rightarrow> do {
         modify (\<lambda>s. s\<lparr>shm := mwrite (shm s) a x\<rparr>);
         _ \<leftarrow> ccci_ccb_write_done os bid a (of_nat (length x));
         ret True } }"

definition ccb_get :: "u32 \<Rightarrow> ('w ccb, u8 list option) state" where
  "ccb_get bid = do {
     (r, x) \<leftarrow> ccci_ccb_read_get bid;
     case x of Some (Some a, len) \<Rightarrow> do {
         bs \<leftarrow> gets (\<lambda>s. mread (shm s) a (unat len));
         _ \<leftarrow> ccci_ccb_read_done bid;
         ret (Some bs) }
     | _ \<Rightarrow> ret None }"

text \<open>Both ends on one ring: the header that one end writes to is the one the other end reads from.\<close>

definition page_bytes :: "memory \<Rightarrow> nat \<Rightarrow> u8 list" where
  "page_bytes m page = mread m (page + 8) (unat (valid_length m page))"

definition contents :: "ccci_ccb_control_buff \<Rightarrow> nat \<Rightarrow> 'w ccb \<Rightarrow> u8 list list" where
  "contents b k s = (let h = ctrl s ! k in map (\<lambda>i. page_bytes (shm s) (pg (ul_pages b) h i))
     (span (unat (ul_page_num b)) (unat (read_index h)) (unat (write_index h))))"

definition page_ready :: "memory \<Rightarrow> nat \<Rightarrow> buffer_header \<Rightarrow> nat \<Rightarrow> bool" where
  "page_ready m base h i \<longleftrightarrow> page_status m (pg base h i) = PAGE_STATUS_WRITE_DONE \<and>
     unat (valid_length m (pg base h i)) + 8 \<le> unat (page_size h)"

definition loop_ok :: "ccci_ccb_control_user \<Rightarrow> u32 \<Rightarrow> ccci_ccb_control_buff \<Rightarrow> nat \<Rightarrow> u32 \<Rightarrow> 'w ccb \<Rightarrow> bool" where
  "loop_ok u bid b k psize s \<longleftrightarrow> (let h = ctrl s ! k in ul_ready s u bid b k h \<and> dl_header b = Some k \<and>
     dl_pages b = ul_pages b \<and> dl_page_num b = ul_page_num b \<and> page_size h = psize \<and>
     write_index h = allocate_index h \<and> free_index h = read_index h \<and>
     (\<forall>i \<in> set (span (unat (ul_page_num b)) (unat (read_index h)) (unat (write_index h))). page_ready (shm s) (ul_pages b) h i))"

definition ring_full :: "ccci_ccb_control_buff \<Rightarrow> nat \<Rightarrow> 'w ccb \<Rightarrow> bool" where
  "ring_full b k s \<longleftrightarrow> length (contents b k s) + 1 = unat (ul_page_num b)"

text \<open>What writing a page does to the memory.\<close>

definition filled_page :: "memory \<Rightarrow> nat \<Rightarrow> u8 list \<Rightarrow> memory" where
  "filled_page m page x = finished (mwrite (mwrite m page (le32 PAGE_STATUS_ALLOC)) (page + 8) x) page (of_nat (length x))"

lemma filled_page_outside: "i < page \<or> page + 8 + length x \<le> i \<Longrightarrow> filled_page m page x i = m i"
  by (auto simp: filled_page_def finished_def mwrite_def)

lemma mread_filled:
  "a + n \<le> page \<or> page + 8 + length x \<le> a \<Longrightarrow> mread (filled_page m page x) a n = mread m a n"
  by (rule nth_equalityI) (auto simp: mread_def filled_page_outside)

lemma filled_page_views:
  assumes "length x < 2 ^ 32"
  shows "page_status (filled_page m page x) page = PAGE_STATUS_WRITE_DONE"
    "unat (valid_length (filled_page m page x) page) = length x" "page_bytes (filled_page m page x) page = x"
proof -
  let ?m = "mwrite (mwrite m page (le32 PAGE_STATUS_ALLOC)) (page + 8) x"
  let ?l = "le32 (of_nat (length x))"
  have "mread (filled_page m page x) page 4 = le32 PAGE_STATUS_WRITE_DONE"
    using mread_mwrite_same [of ?m page "le32 PAGE_STATUS_WRITE_DONE"]
    by (simp add: filled_page_def finished_def mread_mwrite_disjoint)
  then show "page_status (filled_page m page x) page = PAGE_STATUS_WRITE_DONE" by (simp add: page_status_def)
  have "mread (filled_page m page x) (page + 4) 4 = ?l"
    using mread_mwrite_same [of _ "page + 4" ?l] by (simp add: filled_page_def finished_def)
  then show l: "unat (valid_length (filled_page m page x) page) = length x"
    using unat_of_nat_small [OF assms] by (simp add: valid_length_def)
  show "page_bytes (filled_page m page x) page = x"
    unfolding page_bytes_def l
    by (simp add: filled_page_def finished_def mread_mwrite_disjoint)
qed

lemma loop_okD:
  assumes "loop_ok u bid b k psize s" "h = ctrl s ! k"
  shows "ul_ready s u bid b k h" "dl_ready s u bid b k h" "ring_ok (ul_page_num b) (ul_pages b) u h" "k < length (ctrl s)"
    "write_index h = allocate_index h" "free_index h = read_index h" "page_size h = psize" "8 \<le> unat psize"
    "unat (read_index h) < unat (ul_page_num b)" "unat (write_index h) < unat (ul_page_num b)"
    "dl_header b = Some k" "dl_pages b = ul_pages b" "dl_page_num b = ul_page_num b" "attached s u bid b"
  using assms by (auto simp: loop_ok_def ul_ready_def dl_ready_def ring_ok_def Let_def)

lemma page_ready_filled:
  assumes "8 \<le> unat (page_size h)" "length x + 8 \<le> unat (page_size h)" "i \<noteq> a" "page_ready m base h i"
  shows "page_ready (filled_page m (pg base h a) x) base h i"
    "page_bytes (filled_page m (pg base h a) x) (pg base h i) = page_bytes m (pg base h i)"
proof -
  let ?m = "filled_page m (pg base h a) x" and ?l = "unat (valid_length m (pg base h i))"
  have sep: "pg base h i + unat (page_size h) \<le> pg base h a \<or> pg base h a + unat (page_size h) \<le> pg base h i"
    by (rule pg_apart [OF assms(1,3)])
  have same: "mread ?m (pg base h i + j) n = mread m (pg base h i + j) n" if "j + n \<le> unat (page_size h)" for j n
    using sep that assms(2) by (intro mread_filled) linarith
  have st: "page_status ?m (pg base h i) = page_status m (pg base h i)"
    "valid_length ?m (pg base h i) = valid_length m (pg base h i)"
    using same [of 0 4] same [of 4 4] assms(1) by (simp_all add: page_status_def valid_length_def)
  then show "page_ready ?m base h i" using assms(4) by (simp add: page_ready_def)
  show "page_bytes ?m (pg base h i) = page_bytes m (pg base h i)"
    using same [of 8 ?l] st assms(4) by (simp add: page_bytes_def page_ready_def)
qed

text \<open>The three steps of a put, on a ring that is not full.\<close>

lemma put_run:
  assumes ok: "loop_ok u bid b k psize s" and fits: "length x + 8 \<le> unat psize" and room: "\<not> ring_full b k s"
    and h: "h = ctrl s ! k" and a: "a = allocate_index h"
  shows "\<exists>t. run_state (ccb_put os bid x) s = (True, t) \<and> user t = user s \<and>
    shm t = filled_page (shm s) (pg (ul_pages b) h (unat a)) x \<and>
    ctrl t = (ctrl s)[k := h\<lparr>allocate_index := ring_next (ul_page_num b) a, write_index := ring_next (ul_page_num b) a\<rparr>]"
proof -
  note f = loop_okD [OF ok h]
  let ?n = "ul_page_num b" and ?base = "ul_pages b"
  let ?p = "pg ?base h (unat a)" and ?a1 = "ring_next ?n a" and ?h1 = "h\<lparr>allocate_index := ring_next ?n a\<rparr>"
  have ps: "8 \<le> unat (page_size h)" using f(7,8) by simp
  have nf: "rdist (unat ?n) (unat (free_index h)) (unat a) + 1 \<noteq> unat ?n"
    using room f(5,6) by (simp add: ring_full_def contents_def h a Let_def)
  have an: "unat a < unat ?n" using f(5,10) a by simp
  let ?s2 = "s\<lparr>ctrl := (ctrl s)[k := ?h1], shm := mwrite (mwrite (shm s) ?p (le32 PAGE_STATUS_ALLOC)) (?p + 8) x\<rparr>"
  have alloc: "run_state (ccci_ccb_write_alloc bid) s = (Some (?p + 8), after_alloc s b k h)"
    using write_alloc_run [OF f(1)] nf a by simp
  have r2: "ul_ready ?s2 u bid b k ?h1"
    using f(1,4) ring_ok_alloc [OF f(3)] nf a by (auto simp: ul_ready_def attached_def)
  have st2: "page_status (shm ?s2) (pg ?base ?h1 (unat a)) = PAGE_STATUS_ALLOC"
    using mread_mwrite_same [of "shm s" ?p "le32 PAGE_STATUS_ALLOC"]
    by (simp add: page_status_def mread_mwrite_disjoint)
  have lx: "length x < 2 ^ 32" "unat (of_nat (length x) :: u32) \<le> unat (page_size ?h1)"
    using fits f(7) unat_u32_less [of psize] unat_of_nat_small [of "length x"] by auto
  obtain w' rr t where t: "run_state (ccci_ccb_write_done os bid (pg ?base ?h1 (unat a) + 8) (of_nat (length x))) ?s2 = (rr, t)"
    "shm t = finished (shm ?s2) (pg ?base ?h1 (unat a)) (of_nat (length x))" "ctrl t = (ctrl ?s2)[k := ?h1\<lparr>write_index := w'\<rparr>]"
    "user t = user ?s2"
    "unat w' = (unat (write_index ?h1) + length (takeWhile (done_pages (shm t) ?base ?h1)
      (span (unat ?n) (unat (write_index ?h1)) (unat (allocate_index ?h1))))) mod unat ?n"
    using write_done_run [OF r2 refl an lx(2) st2, of os] by blast
  have n2: "rdist (unat ?n) (unat a) (unat a) + 1 < unat ?n"
    using nf rdist_less [of "unat (free_index h)" "unat ?n" "unat a"] f(6,9) an by auto
  have "span (unat ?n) (unat a) (unat ?a1) = [unat a]" using ccb.added [OF an an n2] by simp
  moreover have "done_pages (shm t) ?base ?h1 (unat a)"
    using finished_views(1) [of ?h1 _ ?base "unat a" _ "unat a"] ps by (simp add: done_pages_def t(2))
  ultimately have "unat w' = (unat a + 1) mod unat ?n" using t(5) f(5) a by simp
  then have w: "w' = ?a1" using ccb.nxt_law [OF an] by (simp add: word_unat_eq_iff)
  have "run_state (ccb_put os bid x) s = (True, t)"
    using alloc t(1) by (simp add: ccb_put_def after_alloc_def a)
  moreover have "shm t = filled_page (shm s) ?p x" using t(2) by (simp add: filled_page_def)
  ultimately show ?thesis using t(3,4) w by (intro exI [of _ t]) simp
qed

lemma put_full:
  assumes ok: "loop_ok u bid b k psize s" and "ring_full b k s"
  shows "run_state (ccb_put os bid x) s = (False, s)"
proof -
  note f = loop_okD [OF ok refl]
  have "run_state (ccci_ccb_write_alloc bid) s = (None, s)"
    using write_alloc_run [OF f(1)] assms(2) f(5,6) by (simp add: ring_full_def contents_def Let_def)
  then show ?thesis by (simp add: ccb_put_def)
qed

lemma put_law:
  assumes ok: "loop_ok u bid b k psize s" and fits: "length x + 8 \<le> unat psize"
    and run: "run_state (ccb_put os bid x) s = (r, t)"
  shows "loop_ok u bid b k psize t \<and> r = (\<not> ring_full b k s) \<and> contents b k t = (if r then contents b k s @ [x] else contents b k s)"
proof (cases "ring_full b k s")
  case True
  then show ?thesis using put_full [OF ok True] run ok by auto
next
  case False
  define h where "h = ctrl s ! k"
  note f = loop_okD [OF ok h_def]
  let ?n = "ul_page_num b" and ?base = "ul_pages b" and ?a = "allocate_index h"
  let ?a1 = "ring_next ?n ?a" and ?p = "pg ?base h (unat ?a)"
  let ?h = "h\<lparr>allocate_index := ?a1, write_index := ?a1\<rparr>"
  have t: "r" "user t = user s" "shm t = filled_page (shm s) ?p x" "ctrl t = (ctrl s)[k := ?h]"
    using put_run [OF ok fits False h_def refl, of os] run by auto
  have hk: "ctrl t ! k = ?h" using t(4) f(4) by simp
  have ps: "8 \<le> unat (page_size h)" "length x + 8 \<le> unat (page_size h)" using f(7,8) fits by simp_all
  have an: "unat ?a < unat ?n" using f(5,10) by simp
  have nf: "rdist (unat ?n) (unat (read_index h)) (unat ?a) + 1 \<noteq> unat ?n"
    using False f(5) by (simp add: ring_full_def contents_def h_def Let_def)
  then have nl: "rdist (unat ?n) (unat (read_index h)) (unat ?a) + 1 < unat ?n"
    using rdist_less [OF f(9) an] by linarith
  have sp: "span (unat ?n) (unat (read_index h)) (unat ?a1) = span (unat ?n) (unat (read_index h)) (unat ?a) @ [unat ?a]"
    using ccb.added [OF f(9) an nl] by simp
  have old: "page_ready (shm s) ?base h i \<and> i \<noteq> unat ?a" if "i \<in> set (span (unat ?n) (unat (read_index h)) (unat ?a))" for i
    using ok that not_in_span [OF f(9) an] f(5) by (auto simp: loop_ok_def h_def Let_def)
  have new: "page_ready (shm t) ?base h (unat ?a)" "page_bytes (shm t) ?p = x"
    using filled_page_views [of x "shm s" ?p] ps unat_u32_less [of "page_size h"] by (simp_all add: t(3) page_ready_def)
  have kept: "page_ready (shm t) ?base h i \<and> page_bytes (shm t) (pg ?base h i) = page_bytes (shm s) (pg ?base h i)"
    if "i \<in> set (span (unat ?n) (unat (read_index h)) (unat ?a))" for i
    using page_ready_filled [OF ps, of i "unat ?a" "shm s" ?base] old [OF that] by (simp add: t(3))
  have pr: "page_ready m base ?h = page_ready m base h" for m base by (simp add: page_ready_def fun_eq_iff)
  have ring: "ring_ok ?n ?base u ?h"
    using ring_ok_alloc [OF f(3)] nf f(5,6) ccb.added [OF f(9) an nl] by (simp add: ring_ok_def)
  have "loop_ok u bid b k psize t"
    using ok ring t(2) kept new(1) sp f(4,7) t(4)
    by (auto simp: loop_ok_def hk pr ul_ready_def attached_def h_def [symmetric] Let_def)
  moreover have "contents b k t = contents b k s @ [x]"
    using kept new(2) f(5) by (simp add: contents_def hk h_def [symmetric] Let_def sp)
  ultimately show ?thesis using t(1) False by simp
qed

lemma get_law:
  assumes ok: "loop_ok u bid b k psize s" and run: "run_state (ccb_get bid) s = (r, t)"
  shows "loop_ok u bid b k psize t \<and>
    (case r of None \<Rightarrow> contents b k s = [] \<and> contents b k t = [] | Some x \<Rightarrow> contents b k s = x # contents b k t)"
proof -
  define h where "h = ctrl s ! k"
  note f = loop_okD [OF ok h_def]
  let ?n = "ul_page_num b" and ?base = "ul_pages b" and ?r = "read_index h"
  let ?r1 = "ring_next ?n ?r" and ?p = "pg ?base h (unat ?r)"
  show ?thesis
  proof (cases "?r = write_index h")
    case True
    then have "r = None \<and> t = s"
      using run read_get_run [OF f(2)] by (simp add: ccb_get_def)
    moreover have "contents b k s = []" using True by (simp add: contents_def h_def [symmetric] Let_def)
    ultimately show ?thesis using ok by simp
  next
    case False
    have sp: "span (unat ?n) (unat ?r) (unat (write_index h)) = unat ?r # span (unat ?n) (unat ?r1) (unat (write_index h))"
      using ccb.taken [OF f(9,10) False] .
    have pr: "\<forall>i \<in> set (span (unat ?n) (unat ?r) (unat (write_index h))). page_ready (shm s) ?base h i"
      using ok by (simp add: loop_ok_def h_def Let_def)
    then have ready: "page_ready (shm s) ?base h (unat ?r)" by (simp add: sp)
    let ?h1 = "h\<lparr>read_index := ?r1\<rparr>" and ?h2 = "h\<lparr>read_index := ?r1, free_index := ?r1\<rparr>"
    let ?s1 = "s\<lparr>ctrl := (ctrl s)[k := ?h1]\<rparr>"
    have g: "run_state (ccci_ccb_read_get bid) s = ((0, Some (Some (?p + 8), valid_length (shm s) ?p)), ?s1)"
      using read_get_run [OF f(2)] False ready f(12,13) by (simp add: page_ready_def)
    have ring1: "ring_ok ?n ?base u ?h1" by (rule ring_ok_get [OF f(3) False])
    have r1: "dl_ready ?s1 u bid b k ?h1"
      using f(2,4) ring1 f(12,13) by (auto simp: dl_ready_def attached_def)
    have d: "run_state (ccci_ccb_read_done bid) ?s1 = (0, s\<lparr>ctrl := (ctrl s)[k := ?h2]\<rparr>)"
      using read_done_run [OF r1] f(6,13) by simp
    have "free_index ?h1 \<noteq> read_index ?h1"
    proof
      assume "free_index ?h1 = read_index ?h1"
      then have "unat ?r = unat ?r1" using f(6) by simp
      then have "unat ?n = 1" using ccb.nxt_law [OF f(9)] step_cases [OF f(9)] f(9) by (auto split: if_splits)
      then show False using f(9,10) False by (simp add: word_unat_eq_iff)
    qed
    then have "ring_ok ?n ?base u ?h2" using ring_ok_free [OF ring1] f(6) by simp
    then have ok': "loop_ok u bid b k psize (s\<lparr>ctrl := (ctrl s)[k := ?h2]\<rparr>)"
      using ok f(4) pr sp by (auto simp: loop_ok_def ul_ready_def attached_def h_def [symmetric] page_ready_def Let_def)
    moreover have "r = Some (page_bytes (shm s) ?p)" "t = s\<lparr>ctrl := (ctrl s)[k := ?h2]\<rparr>"
      using run g d by (auto simp: ccb_get_def page_bytes_def)
    moreover have "contents b k s = page_bytes (shm s) ?p # contents b k (s\<lparr>ctrl := (ctrl s)[k := ?h2]\<rparr>)"
      using f(4) by (simp add: contents_def h_def [symmetric] sp Let_def)
    ultimately show ?thesis by simp
  qed
qed

interpretation ccb_fifo: fifo "loop_ok u bid b k psize" "contents b k" "\<lambda>x. length x + 8 \<le> unat psize" "ring_full b k"
  "ccb_put os bid" "ccb_get bid" for u bid b k psize os
  by unfold_locales (rule put_law, assumption+, rule get_law, assumption+)

section \<open>Properties\<close>


text \<open>A registered user with one ring of three pages of 16 bytes.\<close>

definition demo_buff :: ccci_ccb_control_buff where
  "demo_buff = \<lparr>dl_page_num = 3, ul_page_num = 3, dl_header = Some 0, ul_header = Some 0, dl_pages = 0, ul_pages = 0\<rparr>"

definition demo_user :: ccci_ccb_control_user where
  "demo_user = new_user\<lparr>user_id := 57, buffer_num := 1, total_length := 48, user_fd := 5, buffers := Some [demo_buff]\<rparr>"

definition demo_ccb :: "unit ccb" where
  "demo_ccb = \<lparr>world = (), trace = [], ub = False,
     ccci_ccb_ports = [\<lparr>cfg_user_id = 0, core_id = 0, dl_page_size = 16, ul_page_size = 16, dl_buff_size = 48, ul_buff_size = 48\<rparr>],
     ccb_info_len = 1, user = Some demo_user, ctrl = [header0\<lparr>guard_band := HEADER_MAGIC_AFTER, page_size := 16,
       data_buffer_size := 48, guard_band_e := TAIL_MAGIC_AFTER\<rparr>], shm = (\<lambda>_. 0), ccb_hung = False\<rparr>"

definition demo_os :: "unit os" where
  "demo_os q w = (res0, w)"

lemma demo_loop_ok: "loop_ok demo_user 0 demo_buff 0 16 demo_ccb"
  by (simp add: loop_ok_def ul_ready_def attached_def ring_ok_def demo_ccb_def demo_user_def demo_buff_def header0_def)

lemma demo_contents: "contents demo_buff 0 demo_ccb = []"
  by (simp add: contents_def demo_ccb_def header0_def)

lemma demo_run:
  "\<exists>t. run_state (run_ops (ccb_put demo_os 0) (ccb_get 0) [Put [1, 2], Get, Put [3]]) demo_ccb = (([[1, 2], [3]], [[1, 2]]), t)"
proof -
  have n: "unat (ul_page_num demo_buff) = 3" by (simp add: demo_buff_def)
  obtain r1 t1 where p1: "run_state (ccb_put demo_os 0 [1, 2]) demo_ccb = (r1, t1)" by fastforce
  have 1: "loop_ok demo_user 0 demo_buff 0 16 t1" "r1" "contents demo_buff 0 t1 = [[1, 2]]"
    using put_law [OF demo_loop_ok _ p1] by (simp_all add: demo_contents ring_full_def n)
  obtain r2 t2 where p2: "run_state (ccb_get 0) t1 = (r2, t2)" by fastforce
  have 2: "loop_ok demo_user 0 demo_buff 0 16 t2" "r2 = Some [1, 2]" "contents demo_buff 0 t2 = []"
    using get_law [OF 1(1) p2] by (simp_all add: 1(3) split: option.splits)
  obtain r3 t3 where p3: "run_state (ccb_put demo_os 0 [3]) t2 = (r3, t3)" by fastforce
  have "r3" using put_law [OF 2(1) _ p3] by (simp add: 2(3) ring_full_def n)
  then show ?thesis using p1 p2 p3 1(2) 2(2) by simp
qed


text \<open>
  C12: Allocation never hands out a page that is still in use. It fails exactly when all pages but one are
  taken; otherwise the page it returns is none of those between the free and the allocate index, every byte
  outside that page's status word is left alone, and the page joins the end of the pages being written.
\<close>

theorem write_alloc_exclusive:
  assumes "ul_ready s u bid b k h" "run_state (ccci_ccb_write_alloc bid) s = (r, t)"
    and "n = unat (ul_page_num b)" "taken = span n (unat (free_index h)) (unat (allocate_index h))"
  shows "(r = None \<longleftrightarrow> length taken + 1 = n) \<and> (r = None \<longrightarrow> t = s) \<and>
    (\<forall>p. r = Some p \<longrightarrow> p = pg (ul_pages b) h (unat (allocate_index h)) + 8 \<and> unat (allocate_index h) \<notin> set taken \<and>
       (\<forall>a. a + 8 < p \<or> p \<le> a + 4 \<longrightarrow> shm t a = shm s a) \<and>
       (\<exists>h'. ul_ready t u bid b k h' \<and>
          span n (unat (write_index h')) (unat (allocate_index h')) =
          span n (unat (write_index h)) (unat (allocate_index h)) @ [unat (allocate_index h)]))"
proof -
  have ring: "ring_ok (ul_page_num b) (ul_pages b) u h" and k: "k < length (ctrl s)"
    using assms(1) by (auto simp: ul_ready_def)
  then have idx: "unat (free_index h) < n" "unat (allocate_index h) < n" "unat (write_index h) < n"
    using assms(3) by (auto simp: ring_ok_def)
  have fresh: "unat (allocate_index h) \<notin> set taken" unfolding assms(4) by (rule not_in_span [OF idx(1,2)])
  let ?h = "h\<lparr>allocate_index := ring_next (ul_page_num b) (allocate_index h)\<rparr>"
  show ?thesis
  proof (cases "length taken + 1 = n")
    case True
    then show ?thesis using write_alloc_run [OF assms(1)] assms(2-4) by simp
  next
    case False
    then have d: "rdist n (unat (free_index h)) (unat (allocate_index h)) + 1 \<noteq> n" using assms(4) by simp
    have t: "r = Some (pg (ul_pages b) h (unat (allocate_index h)) + 8)" "t = after_alloc s b k h"
      using write_alloc_run [OF assms(1)] assms(2,3) d by simp_all
    have "ring_ok (ul_page_num b) (ul_pages b) u ?h" using ring_ok_alloc [OF ring] d assms(3) by simp
    then have "ul_ready t u bid b k ?h" using assms(1) k by (auto simp: t(2) after_alloc_def ul_ready_def attached_def)
    moreover have "rdist n (unat (write_index h)) (unat (allocate_index h)) + 1 < n"
      using ring d rdist_less [OF idx(1,2)] assms(3) by (simp add: ring_ok_def)
    then have "span n (unat (write_index h)) (unat (allocate_index ?h)) =
        span n (unat (write_index h)) (unat (allocate_index h)) @ [unat (allocate_index h)]"
      using ccb.added [of "write_index h" "ul_page_num b" "allocate_index h"] idx assms(3) by simp
    moreover have "shm t a = shm s a" if "a + 8 < pg (ul_pages b) h (unat (allocate_index h)) + 8 \<or>
        pg (ul_pages b) h (unat (allocate_index h)) + 8 \<le> a + 4" for a
      using that by (auto simp: t(2) after_alloc_def mwrite_def)
    ultimately show ?thesis using t(1) False fresh by (auto intro!: exI [of _ ?h])
  qed
qed

theorem write_alloc_exclusive_witness:
  "\<exists>t. run_state (ccci_ccb_write_alloc 0) demo_ccb = (Some 8, t) \<and> span 3 0 1 = [0]"
proof -
  have r: "ul_ready demo_ccb demo_user 0 demo_buff 0 (ctrl demo_ccb ! 0)"
    by (rule loop_okD(1) [OF demo_loop_ok refl])
  obtain p t where a: "run_state (ccci_ccb_write_alloc 0) demo_ccb = (p, t)" by fastforce
  note e = write_alloc_exclusive [OF r a refl refl]
  have "p \<noteq> None" using e by (simp add: demo_ccb_def header0_def demo_buff_def)
  then obtain q where q: "p = Some q" by blast
  then have "q = 8" using e by (simp add: demo_ccb_def header0_def demo_buff_def pg_def)
  then show ?thesis using a q by (auto simp: span_def rdist_def)
qed

text \<open>
  C10: Pages become visible to the reader in the order in which they were allocated, whatever the order
  in which they are finished: finishing a page moves the write index over exactly the finished pages at the
  front of those being written, so that an unfinished page holds back all pages allocated after it. The loop
  that does this ends.
\<close>

theorem write_done_in_order:
  assumes "ul_ready s u bid b k h" "n = unat (ul_page_num b)" "j < n" "unat len \<le> unat (page_size h)"
    and "page_status (shm s) (pg (ul_pages b) h j) = PAGE_STATUS_ALLOC"
    and "run_state (ccci_ccb_write_done os bid (pg (ul_pages b) h j + 8) len) s = (r, t)"
    and "pending = span n (unat (write_index h)) (unat (allocate_index h))"
  shows "\<exists>h'. ul_ready t u bid b k h' \<and> allocate_index h' = allocate_index h \<and> ccb_hung t = ccb_hung s \<and>
    page_status (shm t) (pg (ul_pages b) h j) = PAGE_STATUS_WRITE_DONE \<and> valid_length (shm t) (pg (ul_pages b) h j) = len \<and>
    span n (unat (write_index h)) (unat (write_index h')) = takeWhile (done_pages (shm t) (ul_pages b) h) pending \<and>
    span n (unat (write_index h')) (unat (allocate_index h')) = dropWhile (done_pages (shm t) (ul_pages b) h) pending"
proof -
  obtain w' where w: "shm t = finished (shm s) (pg (ul_pages b) h j) len" "ctrl t = (ctrl s)[k := h\<lparr>write_index := w'\<rparr>]"
    "user t = user s" "ccb_hung t = ccb_hung s"
    "unat w' = (unat (write_index h) + length (takeWhile (done_pages (shm t) (ul_pages b) h) pending)) mod n"
    using write_done_run [OF assms(1-5), of os] assms(6,7) by auto
  have ring: "ring_ok (ul_page_num b) (ul_pages b) u h" and k: "k < length (ctrl s)"
    using assms(1) by (auto simp: ul_ready_def)
  then have idx: "unat (free_index h) < n" "unat (read_index h) < n" "unat (write_index h) < n" "unat (allocate_index h) < n"
    and ps: "8 \<le> unat (page_size h)" using assms(2) by (auto simp: ring_ok_def)
  let ?m = "length (takeWhile (done_pages (shm t) (ul_pages b) h) pending)"
  have le: "?m \<le> rdist n (unat (write_index h)) (unat (allocate_index h))"
    using length_takeWhile_le [of _ pending] by (simp add: assms(7))
  note walk = span_walk [OF idx(3,4) le] rdist_walk [OF idx(3,4) le]
  have sp: "span n (unat (write_index h)) (unat w') = takeWhile (done_pages (shm t) (ul_pages b) h) pending"
    "span n (unat w') (unat (allocate_index h)) = dropWhile (done_pages (shm t) (ul_pages b) h) pending"
    using walk(1,2) takeWhile_eq_take [of "done_pages (shm t) (ul_pages b) h" pending]
      dropWhile_eq_drop [of "done_pages (shm t) (ul_pages b) h" pending]
    unfolding w(5) assms(7) by argo+
  have "rdist n (unat (read_index h)) (unat (write_index h)) + ?m < n"
    using ring le rdist_less [OF idx(1,4)] assms(2) by (simp add: ring_ok_def)
  then have "rdist n (unat (read_index h)) (unat w') = rdist n (unat (read_index h)) (unat (write_index h)) + ?m"
    unfolding w(5) by (rule rdist_add [OF idx(2,3)])
  then have "ring_ok (ul_page_num b) (ul_pages b) u (h\<lparr>write_index := w'\<rparr>)"
    using ring walk(3,4) le idx assms(2) by (simp add: ring_ok_def w(5))
  then have "ul_ready t u bid b k (h\<lparr>write_index := w'\<rparr>)"
    using assms(1) k by (auto simp: ul_ready_def attached_def w(2,3))
  then show ?thesis
    using sp w(4) finished_views [OF ps, of "shm s" "ul_pages b" j len j] by (intro exI [of _ "h\<lparr>write_index := w'\<rparr>"]) (simp add: w(1))
qed

text \<open>Two pages are being written; the second one is finished first.\<close>

definition two_pending :: "unit ccb" where
  "two_pending = demo_ccb\<lparr>ctrl := [(ctrl demo_ccb ! 0)\<lparr>allocate_index := 2\<rparr>],
     shm := mwrite (mwrite (\<lambda>_. 0) 0 (le32 PAGE_STATUS_ALLOC)) 16 (le32 PAGE_STATUS_ALLOC)\<rparr>"

theorem write_done_in_order_witness:
  "\<exists>t h'. snd (run_state (ccci_ccb_write_done demo_os 0 24 5) two_pending) = t \<and>
     span 3 0 (unat (write_index h')) = [] \<and> ul_ready t demo_user 0 demo_buff 0 h'"
proof -
  let ?h = "ctrl two_pending ! 0"
  have r: "ul_ready two_pending demo_user 0 demo_buff 0 ?h"
    by (simp add: ul_ready_def attached_def ring_ok_def two_pending_def demo_ccb_def demo_user_def demo_buff_def header0_def rdist_def)
  have p: "pg (ul_pages demo_buff) ?h i = 16 * i" for i
    by (simp add: pg_def two_pending_def demo_ccb_def demo_buff_def header0_def)
  have st: "page_status (shm two_pending) 16 = PAGE_STATUS_ALLOC" "page_status (shm two_pending) 0 = PAGE_STATUS_ALLOC"
    using mread_mwrite_same [of _ _ "le32 PAGE_STATUS_ALLOC"]
    by (simp_all add: page_status_def two_pending_def mread_mwrite_disjoint)
  obtain r1 t where t: "run_state (ccci_ccb_write_done demo_os 0 (pg (ul_pages demo_buff) ?h 1 + 8) 5) two_pending = (r1, t)"
    by fastforce
  have n: "unat (ul_page_num demo_buff) = 3" "unat (page_size ?h) = 16" "unat (write_index ?h) = 0" "unat (allocate_index ?h) = 2"
    by (simp_all add: two_pending_def demo_ccb_def demo_buff_def header0_def)
  have j: "1 < unat (ul_page_num demo_buff)" "unat (5 :: u32) \<le> unat (page_size ?h)"
      "page_status (shm two_pending) (pg (ul_pages demo_buff) ?h 1) = PAGE_STATUS_ALLOC"
    using n st(1) p [of 1] by simp_all
  obtain h' where h': "ul_ready t demo_user 0 demo_buff 0 h'"
    "span 3 0 (unat (write_index h')) = takeWhile (done_pages (shm t) (ul_pages demo_buff) ?h) (span 3 0 2)"
    using write_done_in_order [OF r refl j t refl] n by auto
  have "shm t = finished (shm two_pending) 16 5"
    using write_done_run [OF r refl j, of demo_os] t p by auto
  then have "page_status (shm t) 0 = PAGE_STATUS_ALLOC"
    using st(2) by (simp add: page_status_def finished_def mread_mwrite_disjoint)
  then have "takeWhile (done_pages (shm t) (ul_pages demo_buff) ?h) (span 3 0 2) = []"
    by (simp add: done_pages_def p span_def rdist_def upt_rec)
  then show ?thesis using h' t p by auto
qed

text \<open>
  A page may be released only when it is the single page that has been fetched: \<open>ccci_ccb_read_done\<close>
  succeeds exactly when one page lies between the free and the read index, frees it, and otherwise changes
  nothing. A client that fetches two pages before it releases one can release neither.
\<close>

theorem read_done_single:
  assumes "dl_ready s u bid b k h" "n = unat (dl_page_num b)" "2 \<le> n" "run_state (ccci_ccb_read_done bid) s = (r, t)"
  shows "(r = 0 \<longleftrightarrow> span n (unat (free_index h)) (unat (read_index h)) = [unat (free_index h)]) \<and>
    (r = 0 \<longrightarrow> free_index (ctrl t ! k) = read_index h \<and> dl_ready t u bid b k (ctrl t ! k)) \<and> (r \<noteq> 0 \<longrightarrow> r = - EFAULT \<and> t = s)"
proof -
  have ring: "ring_ok (dl_page_num b) (dl_pages b) u h" and k: "k < length (ctrl s)"
    using assms(1) by (auto simp: dl_ready_def)
  then have idx: "unat (free_index h) < n" "unat (read_index h) < n" using assms(2) by (auto simp: ring_ok_def)
  let ?f1 = "ring_next (dl_page_num b) (free_index h)"
  have f1: "unat ?f1 = (unat (free_index h) + 1) mod n" "unat ?f1 < n"
    using ccb.nxt_law ccb.bound idx(1) assms(2) by auto
  have ne: "?f1 \<noteq> free_index h" using f1(1) step_cases [OF idx(1)] assms(3) by (auto simp: word_unat_eq_iff)
  have one: "span n (unat (free_index h)) (unat (read_index h)) = [unat (free_index h)] \<longleftrightarrow> read_index h = ?f1"
  proof
    assume e: "span n (unat (free_index h)) (unat (read_index h)) = [unat (free_index h)]"
    then have "free_index h \<noteq> read_index h" by auto
    then have "span n (unat ?f1) (unat (read_index h)) = []"
      using ccb.taken [of "free_index h" "dl_page_num b" "read_index h"] idx assms(2) e by simp
    then have "rdist n (unat ?f1) (unat (read_index h)) = 0" by (metis length_span list.size(3))
    then show "read_index h = ?f1" using rdist_0_iff [OF f1(2) idx(2)] by (simp add: word_unat_eq_iff)
  next
    assume e: "read_index h = ?f1"
    then show "span n (unat (free_index h)) (unat (read_index h)) = [unat (free_index h)]"
      using ccb.taken [of "free_index h" "dl_page_num b" "read_index h"] idx assms(2) ne by simp
  qed
  show ?thesis
  proof (cases "read_index h = ?f1")
    case True
    then have "ring_ok (dl_page_num b) (dl_pages b) u (h\<lparr>free_index := read_index h\<rparr>)"
      using ring_ok_free [OF ring] ne by simp
    then show ?thesis
      using True one read_done_run [OF assms(1)] assms(1,4) k by (auto simp: dl_ready_def attached_def)
  next
    case False
    then show ?thesis using one read_done_run [OF assms(1)] assms(4) by simp
  qed
qed

definition one_fetched :: "unit ccb" where
  "one_fetched = demo_ccb\<lparr>ctrl := [(ctrl demo_ccb ! 0)\<lparr>read_index := 1, write_index := 2, allocate_index := 2\<rparr>]\<rparr>"

theorem read_done_single_witness:
  "\<exists>t. run_state (ccci_ccb_read_done 0) one_fetched = (0, t) \<and> free_index (ctrl t ! 0) = 1"
proof -
  let ?h = "ctrl one_fetched ! 0"
  have r: "dl_ready one_fetched demo_user 0 demo_buff 0 ?h"
    by (simp add: dl_ready_def attached_def ring_ok_def one_fetched_def demo_ccb_def demo_user_def demo_buff_def header0_def rdist_def)
  obtain x t where t: "run_state (ccci_ccb_read_done 0) one_fetched = (x, t)" by fastforce
  have n: "unat (dl_page_num demo_buff) = 3" "unat (free_index ?h) = 0" "read_index ?h = 1"
    by (simp_all add: demo_buff_def one_fetched_def demo_ccb_def header0_def)
  show ?thesis using read_done_single [OF r refl _ t] n t by (auto simp: span_def rdist_def)
qed

section \<open>Registration\<close>

lemma unregister_none: "wp (ccci_ccb_unregister os) (\<lambda>_ t. user t = None) s"
proof (cases "user s")
  case None
  then show ?thesis by (simp add: ccci_ccb_unregister_def wp_simps)
next
  case (Some u)
  have "wp (do { modify (\<lambda>s. s\<lparr>user := None\<rparr>); ret r }) (\<lambda>_ t. user t = None) t" for r and t :: "'a ccb"
    by (simp add: wp_simps)
  then have "wp (do { a; r \<leftarrow> b; c; modify (\<lambda>s. s\<lparr>user := None\<rparr>); ret r }) (\<lambda>_ t. user t = None) s"
    for a :: "('a ccb, unit) state" and b :: "('a ccb, s32) state" and c :: "('a ccb, unit) state"
    by (simp add: wp_bind) (simp add: wp_def case_prod_beta)
  then show ?thesis unfolding ccci_ccb_unregister_def by (simp add: wp_bind wp_gets Some)
qed

definition registered :: "u32 \<Rightarrow> 'w ccb \<Rightarrow> bool" where
  "registered c s \<longleftrightarrow> (\<exists>u. user s = Some u \<and> buffer_num u = c)"

lemma registered_memory [valid_intros]:
  "keeps (registered c) (get_header p)" "keeps (registered c) (upd_header p f)" "keeps (registered c) (page_count h)"
  "keeps (registered c) (get_buff u bid)" "keeps (registered c) fault"
  unfolding get_header_def upd_header_def page_count_def get_buff_def fault_def
  by (intro valid_intros; simp add: registered_def)+

lemma registered_buff [valid_intros]:
  "keeps (registered c) (upd_buff i f)" "keeps (registered c) (ccci_ccb_read_flush bid)"
proof -
  show "keeps (registered c) (upd_buff i f)"
    unfolding upd_buff_def upd_user_def by (intro valid_intros) (auto simp: registered_def)
  show "keeps (registered c) (ccci_ccb_read_flush bid)"
    unfolding ccci_ccb_read_flush_def by (intro valid_intros)
qed

lemma register_loop_result:
  "registered c s \<Longrightarrow> wp (register_loop os n i k d) (\<lambda>ok t. if ok then registered c t else user t = None) s"
proof (induction n arbitrary: i k d s)
  case 0
  then show ?case by (simp add: wp_return)
next
  case (Suc n)
  have one: "keeps (registered c) (register_buffer i k d)"
    unfolding register_buffer_def Let_def by (intro valid_intros)
  have no: "wp (do { _ \<leftarrow> ccci_ccb_unregister os; ret False }) (\<lambda>ok t. if ok then registered c t else user t = None) t" for t
    by (intro wp_bindI wp_mono [OF unregister_none] wp_returnI) simp
  show ?case
    unfolding register_loop.simps
    by (rule wp_bindI, rule wp_keeps [OF one Suc.prems], intro wp_optionI no Suc.IH)
qed

lemma register_buffers_result:
  assumes "user s \<noteq> None"
  shows "wp (register_buffers os uid info) (\<lambda>r t. user t = None \<or> registered r t) s"
proof -
  let ?Q = "\<lambda>r t. user t = None \<or> registered r t"
  have no: "wp (do { _ \<leftarrow> ccci_ccb_unregister os; ret e }) ?Q t" for e and t :: "'a ccb"
    by (intro wp_bindI wp_mono [OF unregister_none] wp_returnI) simp
  have loop: "wp (do { ok \<leftarrow> register_loop os n i k d; ret (if ok then of_nat n else e) }) ?Q t"
    if "registered (of_nat n) t" for n i k d e and t :: "'a ccb"
    by (intro wp_bindI wp_mono [OF register_loop_result [OF that]] wp_returnI) (auto split: if_splits)
  show ?thesis
    unfolding register_buffers_def upd_user_def Let_def using assms
    by (intro wp_bindI [of "gets _"] wp_bindI [of "modify _"] wp_bindI [of "syscall _ _"] wp_getsI wp_modifyI wp_ifI wp_syscallI no loop)
      (auto simp: registered_def)
qed

lemma user_read_configs [valid_intros]: "keeps (\<lambda>s. P (user s)) (read_configs os fd is)"
  by (induction "is") (auto intro!: valid_intros)

lemma user_version [valid_intros]: "keeps (\<lambda>s :: 'w ccb. P (user s)) (ccci_get_version os)"
  unfolding ccci_get_version_def by (intro valid_intros) simp_all

lemma user_maps [valid_intros]:
  "keeps (\<lambda>s. P (user s)) (ccci_ccb_ctrl_get os info)" "keeps (\<lambda>s. P (user s)) (ccci_smem_get os md uid)"
  unfolding ccci_ccb_ctrl_get_def ccci_smem_get_def ccci_get_node_name_def fault_def Let_def
  by (intro valid_intros; simp)+

lemma register_result:
  fixes s :: "'w ccb"
  shows "wp (ccci_ccb_register os 0 uid) (\<lambda>r t. user t = None \<or> registered r t) s"
proof -
  let ?Q = "\<lambda>r t. user t = None \<or> registered r t"
  have no: "wp (do { _ \<leftarrow> ccci_ccb_unregister os; ret e }) ?Q t" for e and t :: "'w ccb"
    by (intro wp_bindI wp_mono [OF unregister_none] wp_returnI) simp
  have gone: "wp (do { modify (\<lambda>s. s\<lparr>user := None\<rparr>); ret e }) ?Q t" for e and t :: "'w ccb"
    by (simp add: wp_simps)
  have some: "wp m Q t" if "keeps (\<lambda>s. user s \<noteq> None) m" "user t \<noteq> None" "\<And>a v. user v \<noteq> None \<Longrightarrow> Q a v"
    for m :: "('w ccb, 'a) state" and Q t
    by (rule wp_keeps [OF that(1,2) that(3)])
  have ctrl: "wp (do { (cfd, info) \<leftarrow> ccci_ccb_ctrl_get os i0; upd_user (f cfd info);
      if cfd <s 0 then do { _ \<leftarrow> ccci_ccb_unregister os; ret e } else register_buffers os uid info }) ?Q t"
    if "user t \<noteq> None" for f e i0 and t :: "'w ccb"
    unfolding upd_user_def
    by (intro wp_bindI [of "ccci_ccb_ctrl_get _ _"] some [OF user_maps(1) that] wp_prodI wp_bindI [of "modify _"] wp_modifyI wp_ifI no
        register_buffers_result) auto
  show ?thesis
    unfolding ccci_ccb_register_def upd_user_def
    by (intro wp_ifI wp_returnI wp_bindI [of "ccci_ccb_unregister _"] wp_mono [OF unregister_none] wp_bindI [of "syscall _ _"]
        wp_syscallI wp_bindI [of "modify _"] wp_modifyI wp_bindI [of "ccci_smem_get _ _ _"] some [OF user_maps(2)] wp_prodI
        no gone ctrl [unfolded upd_user_def]) auto
qed

text \<open>
  C36: Registration is all or nothing: \<open>ccci_ccb_register\<close> for the first modem either returns the number of
  buffers of the user it leaves registered, or leaves no user registered, whatever was registered before and at
  whatever step it fails.
\<close>

theorem register_all_or_nothing:
  assumes "run_state (ccci_ccb_register os 0 uid) s = (r, t)"
  shows "user t = None \<or> (\<exists>u. user t = Some u \<and> r = buffer_num u)"
  using wp_run [OF register_result assms] by (auto simp: registered_def)

theorem register_all_or_nothing_witness:
  "\<exists>r t. run_state (ccci_ccb_register demo_os 0 57) demo_ccb = (r, t) \<and> r = - EFAULT \<and> user demo_ccb \<noteq> None \<and>
     (user t = None \<or> (\<exists>u. user t = Some u \<and> buffer_num u = - EFAULT))"
proof -
  let ?r = "run_state (ccci_ccb_register demo_os 0 57) demo_ccb"
  have f: "fst ?r = - EFAULT" "user demo_ccb \<noteq> None" by code_simp+
  obtain r t where r: "?r = (r, t)" by fastforce
  then show ?thesis using register_all_or_nothing [OF r] f by auto
qed

section \<open>What the checks let through\<close>

text \<open>The test \<open>buffer_id > user->buffer_num\<close> lets the number of buffers itself pass, and the entry after the last one is
  used.\<close>

theorem buffer_id_off_by_one:
  "ub (snd (run_state (ccci_ccb_write_alloc 1) demo_ccb)) \<and> ub (snd (run_state (ccci_ccb_read_get 1) demo_ccb)) \<and>
   ub (snd (run_state (ccci_ccb_read_done 1) demo_ccb)) \<and> ub (snd (run_state (ccci_ccb_write_done demo_os 1 8 0) demo_ccb))"
  by (simp add: ccci_ccb_write_alloc_def ccci_ccb_read_get_def ccci_ccb_read_done_def ccci_ccb_write_done_def get_buff_def
      get_header_def fault_def demo_ccb_def demo_user_def new_user_def buff0_def header0_def)

text \<open>A length up to the page size is accepted although the page's data is eight bytes shorter: a reader is told to read on
  into the next page.\<close>

theorem accepted_length_leaves_page:
  "fst (run_state (ccci_ccb_write_done demo_os 0 24 16) two_pending) = 0 \<and>
   ccci_ccb_get_page (ctrl two_pending ! 0) 0 2 <
     24 + unat (valid_length (shm (snd (run_state (ccci_ccb_write_done demo_os 0 24 16) two_pending))) 16)"
  by code_simp

text \<open>A driver that reports no configuration makes \<open>ccci_ccb_ctrl_get\<close> return 0 after it has closed its descriptor; the caller
  takes that for a descriptor and closes descriptor 0.\<close>

theorem empty_configuration_closes_0:
  "Sys_close 0 \<in> set (trace (snd (run_state (ccci_ccb_init_user (\<lambda>q w. (res0\<lparr>r_ret := (case q of Sys_open _ _ _ \<Rightarrow> 7 | _ \<Rightarrow> 0)\<rparr>, w)) 0 57) demo_ccb)))"
  by code_simp

end
