(* ===== verification/Ccci_Image.thy ===== *)
theory Ccci_Image
  imports Ccci_Env
begin

unbundle bit_operations_syntax

text \<open>
  The part of the CCCI library (\<open>hardware/ccci/ccci_lib.c\<close>, \<open>platform/ccci_lib_platform.c\<close>) that looks for
  images in the modem partitions, copies them into files, and reads the settings of the kernel.

  A partition is a chain of images: each has a header of 512 bytes with its name and size, and may be
  followed by a block with its signature.
\<close>

section \<open>Headers\<close>

abbreviation (input) SEEK_SET :: s32 where "SEEK_SET \<equiv> 0"
abbreviation (input) IMG_MAGIC :: u32 where "IMG_MAGIC \<equiv> 0x58881688"
abbreviation (input) IMG_NAME_SIZE :: nat where "IMG_NAME_SIZE \<equiv> 32"
abbreviation (input) IMG_HDR_SIZE :: u32 where "IMG_HDR_SIZE \<equiv> 512"
abbreviation (input) SEC_IMG_AUTH_SIZE :: u32 where "SEC_IMG_AUTH_SIZE \<equiv> 0x100"
abbreviation (input) SEC_IMG_AUTH_ALIGN :: u32 where "SEC_IMG_AUTH_ALIGN \<equiv> 0x1000"

text \<open>
  The fields of \<open>prt_img_hdr_t\<close> that the library reads. The name is compared as a string: one without a
  terminator goes on into the next fields.
\<close>

record prt_img_hdr_t =
  magic :: u32
  dsize :: u32
  img_name :: string
  hdr_size :: u32
  img_list_end :: u32
  align_size :: u32

definition read_hdr :: "u8 list \<Rightarrow> prt_img_hdr_t" where
  "read_hdr bs = \<lparr>magic = rd32 bs, dsize = rd32 (drop 4 bs), img_name = cstr (map char_of_byte (drop 8 bs)),
     hdr_size = rd32 (drop 52 bs), img_list_end = rd32 (drop 64 bs), align_size = rd32 (drop 68 bs)\<rparr>"

text \<open>The distance to the next header, and what a signature in between would add.\<close>

definition curr_img_size :: "prt_img_hdr_t \<Rightarrow> u32" where
  "curr_img_size h =
     (if hdr_size h \<noteq> 0 then hdr_size h else IMG_HDR_SIZE) +
     (if align_size h \<noteq> 0 then (dsize h + align_size h - 1) AND NOT (align_size h - 1) else dsize h)"

definition sec_padding :: "u32 \<Rightarrow> u32" where
  "sec_padding n = ((n + SEC_IMG_AUTH_ALIGN - 1) AND NOT (SEC_IMG_AUTH_ALIGN - 1)) - n + SEC_IMG_AUTH_SIZE"

section \<open>Looking for an image\<close>

type_synonym 'w libenv = "(sysreq, 'w) env"

text \<open>
  A header is read; when its magic is wrong, once more behind the signature. The offset, which may have
  moved, and the header, or \<open>Inl\<close> and the error.
\<close>

definition load_hdr :: "'w os \<Rightarrow> s32 \<Rightarrow> s32 \<Rightarrow> s32 \<Rightarrow> ('w libenv, s32 \<times> (s32 + prt_img_hdr_t)) state" where
  "load_hdr os fd offset sec_padding_size = do {
     r \<leftarrow> syscall os (Sys_read fd IMG_HDR_SIZE);
     if r_ret r \<noteq> IMG_HDR_SIZE then ret (offset, Inl (- 5))
     else if magic (read_hdr (r_data r)) = IMG_MAGIC then ret (offset, Inr (read_hdr (r_data r)))
     else do {
       let offset' = offset + sec_padding_size;
       _ \<leftarrow> syscall os (Sys_lseek fd offset' SEEK_SET);
       r' \<leftarrow> syscall os (Sys_read fd IMG_HDR_SIZE);
       ret (offset', if r_ret r' \<noteq> IMG_HDR_SIZE then Inl (- 5)
         else if magic (read_hdr (r_data r')) \<noteq> IMG_MAGIC then Inl (- 6)
         else Inr (read_hdr (r_data r'))) } }"

text \<open>
  The loop over the images. The result, the caller's \<open>offset\<close> and \<open>img_size\<close>; \<open>None\<close> when \<open>fuel\<close> images were
  not enough, which can happen for every number when the sizes add up to 0.
\<close>

primrec image_loop ::
  "'w os \<Rightarrow> nat \<Rightarrow> s32 \<Rightarrow> string \<Rightarrow> s32 \<Rightarrow> s32 \<Rightarrow> s32 \<Rightarrow> ('w libenv, (s32 \<times> s32 \<times> s32) option) state" where
  "image_loop os 0 fd name offset sec_padding_size img_size = ret None"
| "image_loop os (Suc fuel) fd name offset sec_padding_size img_size = do {
     (offset', r) \<leftarrow> load_hdr os fd offset sec_padding_size;
     case r of Inl e \<Rightarrow> ret (Some (e, offset', img_size))
     | Inr h \<Rightarrow>
         if name = img_name h then ret (Some (0, offset' + IMG_HDR_SIZE, dsize h))
         else if img_list_end h \<noteq> 0 then ret (Some (- 7, offset', img_size))
         else do {
           let next = offset' + curr_img_size h;
           l \<leftarrow> syscall os (Sys_lseek fd next SEEK_SET);
           if r_ret l <s 0 then ret (Some (r_ret l, next, img_size))
           else image_loop os fuel fd name next (sec_padding (curr_img_size h)) img_size } }"

definition find_image_from_pt_internal ::
  "'w os \<Rightarrow> nat \<Rightarrow> s32 \<Rightarrow> string \<Rightarrow> s32 \<times> s32 \<Rightarrow> ('w libenv, (s32 \<times> s32 \<times> s32) option) state" where
  "find_image_from_pt_internal os fuel which_md_fd name out = do {
     m \<leftarrow> syscall os (Sys_malloc 512);
     if r_ret m = 0 then ret (Some (- 4, out))
     else image_loop os fuel which_md_fd name 0 0 (snd out) }"

definition mdimg_node :: "nat \<Rightarrow> string" where
  "mdimg_node i = (if i = 0 then ''/dev/block/platform/bootdevice/by-name/md1img''
     else ''/dev/block/platform/bootdevice/by-name/md3img'')"

definition AB_image_get :: "'w os \<Rightarrow> ('w libenv, string) state" where
  "AB_image_get os = do {
     r \<leftarrow> syscall os (Sys_property_get ''ro.boot.slot_suffix'');
     ret (case r_name r of None \<Rightarrow> [] | Some v \<Rightarrow> v) }"

abbreviation (input) PARTITION_PATH_LEN :: nat where "PARTITION_PATH_LEN \<equiv> 128"

definition partition_path :: "nat \<Rightarrow> string \<Rightarrow> string" where
  "partition_path i buf = take (PARTITION_PATH_LEN - 1) (mdimg_node i @ buf)"

text \<open>The two partitions in turn; the result of the last one that could be opened remains.\<close>

primrec find_in_nodes ::
  "'w os \<Rightarrow> nat \<Rightarrow> string \<Rightarrow> string \<Rightarrow> nat list \<Rightarrow> s32 \<Rightarrow> s32 \<times> s32 \<Rightarrow> ('w libenv, (s32 \<times> s32 \<times> s32) option) state" where
  "find_in_nodes os fuel name buf [] res out = ret (Some (res, out))"
| "find_in_nodes os fuel name buf (i # is) res out = do {
     fd \<leftarrow> syscall os (Sys_open (partition_path i buf) O_RDONLY 0);
     if r_ret fd <s 0 then find_in_nodes os fuel name buf is res out
     else do {
       r \<leftarrow> find_image_from_pt_internal os fuel (r_ret fd) name out;
       case r of None \<Rightarrow> ret None
       | Some (res', out') \<Rightarrow> do {
           _ \<leftarrow> syscall os (Sys_close (r_ret fd));
           if res' \<noteq> 0 then find_in_nodes os fuel name buf is res' out' else ret (Some (of_nat i, out')) } } }"

definition find_image_from_pt :: "'w os \<Rightarrow> nat \<Rightarrow> string \<Rightarrow> s32 \<times> s32 \<Rightarrow> ('w libenv, (s32 \<times> s32 \<times> s32) option) state" where
  "find_image_from_pt os fuel name out = do {
     buf \<leftarrow> AB_image_get os;
     find_in_nodes os fuel name buf [0, 1] (- 1) out }"

section \<open>Copying an image into a file\<close>

abbreviation (input) W_BUF_SIZE :: s32 where "W_BUF_SIZE \<equiv> 4096"

definition read_image_from_pt_internal :: "'w os \<Rightarrow> s32 \<Rightarrow> s32 \<Rightarrow> s32 \<Rightarrow> ('w libenv, s32 \<times> u8 list) state" where
  "read_image_from_pt_internal os which_md_fd offset read_len = do {
     l \<leftarrow> syscall os (Sys_lseek which_md_fd offset SEEK_SET);
     if r_ret l <s 0 then ret (r_ret l, [])
     else do {
       r \<leftarrow> syscall os (Sys_read which_md_fd read_len);
       ret (r_ret r, r_data r) } }"

text \<open>The loop: what is not written is read again. \<open>None\<close> when \<open>fuel\<close> rounds were not enough.\<close>

primrec restore_loop ::
  "'w os \<Rightarrow> nat \<Rightarrow> s32 \<Rightarrow> s32 \<Rightarrow> s32 \<Rightarrow> s32 \<Rightarrow> s32 \<Rightarrow> s32 \<Rightarrow> ('w libenv, s32 option) state" where
  "restore_loop os 0 fd which_md_fd offset img_size w_count res =
     ret (if w_count <s img_size then None else Some res)"
| "restore_loop os (Suc fuel) fd which_md_fd offset img_size w_count res =
     (if \<not> w_count <s img_size then ret (Some res)
      else do {
        let r_len = (if W_BUF_SIZE <s img_size - w_count then W_BUF_SIZE else img_size - w_count);
        (rr_len, buff) \<leftarrow> read_image_from_pt_internal os which_md_fd (offset + w_count) r_len;
        if 0 <s rr_len then do {
          w \<leftarrow> syscall os (Sys_write fd (take (unat rr_len) buff));
          if 0 <s r_ret w then
            restore_loop os fuel fd which_md_fd offset img_size (w_count + r_ret w) (w_count + r_ret w)
          else ret (Some (r_ret w)) }
        else ret (Some (if rr_len = 0 then res else rr_len)) })"

text \<open>When the partition cannot be opened, the new file stays open.\<close>

definition restore_image_from_pt :: "'w os \<Rightarrow> nat \<Rightarrow> string option \<Rightarrow> string option \<Rightarrow> s32 \<Rightarrow> ('w libenv, s32 option) state" where
  "restore_image_from_pt os fuel name restore_path junk = (case (name, restore_path) of
     (Some name, Some path) \<Rightarrow> do {
       f \<leftarrow> find_image_from_pt os fuel name (junk, 0);
       case f of None \<Rightarrow> ret None
       | Some (which_md, offset, img_size) \<Rightarrow>
           if which_md <s 0 then ret (Some (- 1))
           else if 0x20000000 <s img_size \<or> img_size <s 0 then ret (Some (- 1))
           else do {
             fd \<leftarrow> syscall os (Sys_creat path 0x1B4);
             if r_ret fd <s 0 then ret (Some (- 2))
             else do {
               buf \<leftarrow> AB_image_get os;
               md \<leftarrow> syscall os (Sys_open (partition_path (unat which_md) buf) O_RDONLY 0);
               if r_ret md <s 0 then ret (Some (- 2))
               else do {
                 r \<leftarrow> restore_loop os fuel (r_ret fd) (r_ret md) offset img_size 0 0;
                 case r of None \<Rightarrow> ret None
                 | Some res \<Rightarrow> do {
                     _ \<leftarrow> syscall os (Sys_close (r_ret fd));
                     _ \<leftarrow> syscall os (Sys_close (r_ret md));
                     ret (Some res) } } } } }
     | _ \<Rightarrow> ret (Some (- 1)))"

section \<open>The settings of the kernel\<close>

text \<open>
  The parser of lines \<open>[name]:value\<close>: state, the name and the value collected. Both arrays have 32 bytes;
  an entry that is too long is a fault. \<open>None\<close> when no entry has the name.
\<close>

datatype info_state = Init | Read_name string | Get_divider string | Read_value string string

definition too_long :: "string \<Rightarrow> ('w libenv, unit) state" where
  "too_long cs = (if 32 \<le> length cs then fault else ret ())"

definition newline :: "char \<Rightarrow> bool" where
  "newline c \<longleftrightarrow> c = CHR 0x0D \<or> c = CHR 0x0A"

primrec parse_info :: "string \<Rightarrow> info_state \<Rightarrow> string \<Rightarrow> ('w libenv, string option) state" where
  "parse_info name st [] = ret None"
| "parse_info name st (c # cs) = (case st of
     Init \<Rightarrow> parse_info name (if c = CHR ''['' then Read_name [] else Init) cs
   | Read_name n \<Rightarrow>
       if c = CHR '']'' then do { too_long n; parse_info name (Get_divider n) cs }
       else if newline c then parse_info name Init cs
       else do { too_long n; parse_info name (Read_name (n @ [c])) cs }
   | Get_divider n \<Rightarrow> parse_info name (if c = CHR '':'' then Read_value n [] else Init) cs
   | Read_value n v \<Rightarrow>
       if newline c then do {
         too_long v;
         if cstr n = name then ret (Some (cstr v)) else parse_info name Init cs }
       else do { too_long v; parse_info name (Read_value n (v @ [c])) cs })"

definition query_kcfg_setting :: "'w os \<Rightarrow> string \<Rightarrow> nat \<Rightarrow> ('w libenv, s32 \<times> string option) state" where
  "query_kcfg_setting os name n = do {
     fd \<leftarrow> syscall os (Sys_open ''/sys/kernel/ccci/kcfg_setting'' O_RDONLY 0);
     if r_ret fd <s 0 then ret (- 1, None)
     else do {
       m \<leftarrow> syscall os (Sys_malloc 4096);
       if r_ret m = 0 then do { _ \<leftarrow> syscall os (Sys_close (r_ret fd)); ret (- 2, None) }
       else do {
         r \<leftarrow> syscall os (Sys_read (r_ret fd) 4095);
         v \<leftarrow> (if r_ret r \<le>s 0 then ret (- 3, None)
              else do {
                v \<leftarrow> parse_info name Init (map char_of_byte (take (unat (r_ret r)) (r_data r)));
                ret (case v of None \<Rightarrow> (- 1, None) | Some t \<Rightarrow> (0, Some (take (n - 1) t))) });
         _ \<leftarrow> syscall os (Sys_close (r_ret fd));
         ret v } } }"

text \<open>The settings of the project; the two values are fixed when the library is built.\<close>

record build_cfg =
  MTK_ECCCI_C2K :: bool
  MD_SBP_CUSTOM_VALUE :: "s32 option"
  MD2_SBP_CUSTOM_VALUE :: "s32 option"

definition query_prj_cfg_setting_platform :: "build_cfg \<Rightarrow> string \<Rightarrow> nat \<Rightarrow> string option" where
  "query_prj_cfg_setting_platform b name n =
     (if name = ''MTK_ECCCI_C2K'' \<and> MTK_ECCCI_C2K b then Some (take (n - 1) ''1'')
      else if name = ''MTK_MD_SBP_CUSTOM_VALUE'' then map_option (take (n - 1) \<circ> print_int) (MD_SBP_CUSTOM_VALUE b)
      else if name = ''MTK_MD2_SBP_CUSTOM_VALUE'' then map_option (take (n - 1) \<circ> print_int) (MD2_SBP_CUSTOM_VALUE b)
      else None)"

definition query_prj_cfg_setting :: "build_cfg \<Rightarrow> string \<Rightarrow> nat \<Rightarrow> string option" where
  "query_prj_cfg_setting = query_prj_cfg_setting_platform"

end
