(* ===== verification/Ccci_Partition.thy ===== *)
theory Ccci_Partition
  imports Ccci_Image
begin

unbundle bit_operations_syntax

text \<open>
  What the search for images and the copying of an image achieve on a partition that was written image
  by image.
\<close>

section \<open>The layout of a partition\<close>

text \<open>
  An image with its alignment \<open>2 ^ ialign\<close>, further fields of its header, and the signature that follows it,
  if any.
\<close>

record image =
  iname :: string
  idata :: "u8 list"
  ialign :: nat
  imaddr :: u32
  imode :: u32
  iext :: u32
  iversion :: u32
  itype :: u32
  isig :: "u8 list option"

definition up :: "nat \<Rightarrow> nat \<Rightarrow> nat" where
  "up a n = (n + a - 1) div a * a"

definition img_len :: "image \<Rightarrow> nat" where
  "img_len i = 512 + up (2 ^ ialign i) (length (idata i))"

definition img_header :: "bool \<Rightarrow> image \<Rightarrow> u8 list" where
  "img_header final i = le32 IMG_MAGIC @ le32 (of_nat (length (idata i))) @ bytes (iname i) @
     replicate (IMG_NAME_SIZE - length (iname i)) 0 @ le32 (imaddr i) @ le32 (imode i) @ le32 (iext i) @ le32 512 @
     le32 (iversion i) @ le32 (itype i) @ le32 (if final then 1 else 0) @ le32 (2 ^ ialign i) @ replicate 440 0"

definition img_body :: "bool \<Rightarrow> image \<Rightarrow> u8 list" where
  "img_body final i = img_header final i @ idata i @ replicate (img_len i - 512 - length (idata i)) 0"

definition img_signature :: "image \<Rightarrow> u8 list" where
  "img_signature i = (case isig i of None \<Rightarrow> [] | Some sg \<Rightarrow> replicate (up 4096 (img_len i) - img_len i) 0 @ sg)"

fun pt_layout :: "image list \<Rightarrow> u8 list" where
  "pt_layout [] = []"
| "pt_layout [i] = img_body True i"
| "pt_layout (i # is) = img_body False i @ img_signature i @ pt_layout is"

text \<open>A signature has 256 bytes, and what follows the image does not look like a header.\<close>

definition image_ok :: "image \<Rightarrow> bool" where
  "image_ok i \<longleftrightarrow> length (iname i) < IMG_NAME_SIZE \<and> NUL \<notin> set (iname i) \<and> ialign i < 31 \<and>
     length (idata i) + 2 ^ ialign i + 0x2000 < 2 ^ 31 \<and>
     (case isig i of None \<Rightarrow> True | Some sg \<Rightarrow> length sg = 256 \<and> rd32 (img_signature i) \<noteq> IMG_MAGIC)"

text \<open>Where the data of the first image with a name are: offset and size.\<close>

fun pt_find :: "string \<Rightarrow> nat \<Rightarrow> image list \<Rightarrow> (nat \<times> nat) option" where
  "pt_find name off [] = None"
| "pt_find name off (i # is) = (if iname i = name then Some (off + 512, length (idata i))
     else pt_find name (off + img_len i + length (img_signature i)) is)"

fun pt_last :: "nat \<Rightarrow> image list \<Rightarrow> nat" where
  "pt_last off [] = off"
| "pt_last off [i] = off"
| "pt_last off (i # is) = pt_last (off + img_len i + length (img_signature i)) is"

section \<open>Sizes\<close>

lemma and_not_mask:
  assumes "k < 32"
  shows "(x :: u32) AND NOT (2 ^ k - 1) = x - x mod 2 ^ k"
proof -
  have "NOT x AND take_bit k x = 0" "x AND NOT (take_bit k x) = x AND NOT (mask k)"
    by (auto intro!: bit_eqI simp: bit_simps)
  then have "x AND NOT (mask k) = x - take_bit k x" by (metis disjunctive_diff_eq_and_not)
  then show ?thesis by (simp add: mask_eq_exp_minus_1 take_bit_eq_mod)
qed

lemma up_eq: "0 < a \<Longrightarrow> up a n = (n + a - 1) - (n + a - 1) mod a"
  by (simp add: up_def minus_mod_eq_div_mult)

lemma up_ge: "0 < a \<Longrightarrow> n \<le> up a n"
  using mod_less_divisor [of a "n + a - 1"] unfolding up_eq by linarith

lemma up_less: "0 < a \<Longrightarrow> up a n < n + a"
  by (simp add: up_eq)

lemma unat_exp: "k < 32 \<Longrightarrow> unat (2 ^ k :: u32) = 2 ^ k"
proof -
  assume "k < 32"
  then have "(2 :: nat) ^ k < 2 ^ 32" by (intro power_strict_increasing) simp_all
  from unat_of_nat_small [OF this] show ?thesis by simp
qed

lemma align_word:
  assumes k: "k < 31" and n: "n + 2 ^ k < 2 ^ 31"
  shows "unat (((of_nat n :: u32) + 2 ^ k - 1) AND NOT (2 ^ k - 1)) = up (2 ^ k) n"
proof -
  obtain m where m: "n + 2 ^ k = Suc m" by (metis add_is_0 not0_implies_Suc power_not_zero zero_neq_numeral)
  have "(of_nat (n + 2 ^ k) :: u32) = of_nat (Suc m)" by (simp only: m)
  then have w: "(of_nat n :: u32) + 2 ^ k - 1 = of_nat m" by simp
  have b: "unat (of_nat m :: u32) = m" using n m by (simp add: unat_of_nat_small)
  have p: "unat (2 ^ k :: u32) = 2 ^ k" using k by (simp add: unat_exp)
  have "unat ((of_nat m :: u32) mod 2 ^ k) = m mod 2 ^ k" by (simp only: unat_mod b p)
  then have "unat ((of_nat m :: u32) - of_nat m mod 2 ^ k) = m - m mod 2 ^ k"
    by (simp add: unat_sub b word_le_nat_alt)
  moreover have "k < 32" using k by simp
  ultimately show ?thesis unfolding w by (simp add: and_not_mask up_eq m)
qed

text \<open>The header that the library reads is the one that was written.\<close>

lemma cstr_padded: "NUL \<notin> set cs \<Longrightarrow> cstr (cs @ NUL # xs) = cs"
  by (induction cs) (auto simp: cstr_def)

lemma length_img_header [simp]: "image_ok i \<Longrightarrow> length (img_header final i) = 512"
  by (simp add: img_header_def image_ok_def bytes_def)

lemma read_img_header:
  assumes "image_ok i"
  shows "read_hdr (img_header final i @ xs) = \<lparr>magic = IMG_MAGIC, dsize = of_nat (length (idata i)), img_name = iname i,
     hdr_size = 512, img_list_end = (if final then 1 else 0), align_size = 2 ^ ialign i\<rparr>"
proof -
  have l: "length (iname i) < 32" "NUL \<notin> set (iname i)" using assms by (simp_all add: image_ok_def)
  obtain m where m: "32 - length (iname i) = Suc m" using l(1) by (metis Suc_diff_Suc)
  let ?h = "img_header final i @ xs"
  have b: "length (bytes (iname i)) = length (iname i)" by (simp add: bytes_def)
  have n: "drop 8 ?h = bytes (iname i) @ replicate (32 - length (iname i)) 0 @ drop 40 ?h"
    "drop 52 ?h = le32 512 @ drop 56 ?h" "drop 64 ?h = le32 (if final then 1 else 0) @ drop 68 ?h"
    "drop 68 ?h = le32 (2 ^ ialign i) @ drop 72 ?h"
    using l(1) b by (simp_all add: img_header_def)
  have z: "char_of_byte 0 = NUL" by code_simp
  have "drop 4 ?h = le32 (of_nat (length (idata i))) @ drop 8 ?h" "?h = le32 IMG_MAGIC @ drop 4 ?h"
    by (simp_all add: img_header_def)
  moreover have "img_name (read_hdr ?h) = iname i"
    unfolding read_hdr_def prt_img_hdr_t.select_convs n(1) m
    using l(2) z by (simp add: bytes_def comp_def cstr_padded)
  ultimately show ?thesis
    using n(2-4) by (simp add: read_hdr_def)
qed

lemma sizes:
  assumes "image_ok i"
  defines "h \<equiv> read_hdr (img_header False i)"
  shows "curr_img_size h = of_nat (img_len i)" "img_len i < 2 ^ 31 - 0x1000"
    and "sec_padding (curr_img_size h) = of_nat (up 4096 (img_len i) - img_len i + 256)"
proof -
  have k: "ialign i < 31" "length (idata i) + 2 ^ ialign i < 2 ^ 31" "length (idata i) + 2 ^ ialign i + 0x2000 < 2 ^ 31"
    using assms(1) by (simp_all add: image_ok_def)
  have "(2 :: u32) ^ ialign i \<noteq> 0" using unat_exp [of "ialign i"] k(1) by auto
  then have "curr_img_size h = 512 + of_nat (up (2 ^ ialign i) (length (idata i)))"
    using read_img_header [OF assms(1), of False "[]"] unfolding h_def curr_img_size_def
    by (simp add: align_word [OF k(1,2), symmetric])
  then show c: "curr_img_size h = of_nat (img_len i)" by (simp add: img_len_def)
  show l: "img_len i < 2 ^ 31 - 0x1000"
    using up_less [of "2 ^ ialign i" "length (idata i)"] k(3) by (simp add: img_len_def)
  let ?x = "((of_nat (img_len i) :: u32) + 2 ^ 12 - 1) AND NOT (2 ^ 12 - 1)"
  have "unat ?x = up (2 ^ 12) (img_len i)" using l by (intro align_word) simp_all
  moreover have "up 4096 (img_len i) < 2 ^ 32" using up_less [of 4096 "img_len i"] l by simp
  ultimately have "((of_nat (img_len i) :: u32) + 0x1000 - 1) AND NOT (0x1000 - 1) = of_nat (up 4096 (img_len i))"
    by (simp add: word_unat_eq_iff unat_of_nat_small)
  then show "sec_padding (curr_img_size h) = of_nat (up 4096 (img_len i) - img_len i + 256)"
    unfolding c sec_padding_def using up_ge [of 4096 "img_len i"] by (simp add: of_nat_diff)
qed

section \<open>The partition and the file\<close>

text \<open>
  An operating system where the partition is a device with contents \<open>img\<close>, opened as descriptor \<open>fd\<close>, and new files
  get the descriptor \<open>ofd\<close>. \<open>pos\<close> is the position on the partition, \<open>out\<close> what the new file contains, and \<open>slot\<close>
  the slot that was booted. Reads inside the partition are complete; a write may take only a part of the
  bytes.
\<close>

definition image_os ::
  "'w os \<Rightarrow> string \<Rightarrow> u8 list \<Rightarrow> s32 \<Rightarrow> s32 \<Rightarrow> ('w \<Rightarrow> nat) \<Rightarrow> ('w \<Rightarrow> u8 list) \<Rightarrow> bool" where
  "image_os os slot img fd ofd pos out \<longleftrightarrow> length img < 2 ^ 31 \<and> \<not> fd <s 0 \<and> \<not> ofd <s 0 \<and>
     (\<forall>w fl m. r_ret (fst (os (Sys_open (partition_path 0 slot) fl m) w)) = fd \<and>
        pos (snd (os (Sys_open (partition_path 0 slot) fl m) w)) = 0 \<and>
        out (snd (os (Sys_open (partition_path 0 slot) fl m) w)) = out w) \<and>
     (\<forall>w k. \<not> k <s 0 \<longrightarrow> r_ret (fst (os (Sys_lseek fd k SEEK_SET) w)) = k \<and>
        pos (snd (os (Sys_lseek fd k SEEK_SET) w)) = unat k \<and> out (snd (os (Sys_lseek fd k SEEK_SET) w)) = out w) \<and>
     (\<forall>w n. pos w + unat n \<le> length img \<longrightarrow> r_ret (fst (os (Sys_read fd n) w)) = n \<and>
        r_data (fst (os (Sys_read fd n) w)) = take (unat n) (drop (pos w) img) \<and> out (snd (os (Sys_read fd n) w)) = out w) \<and>
     (\<forall>w p m. r_ret (fst (os (Sys_creat p m) w)) = ofd \<and> out (snd (os (Sys_creat p m) w)) = []) \<and>
     (\<forall>w bs. bs \<noteq> [] \<longrightarrow> 0 <s r_ret (fst (os (Sys_write ofd bs) w)) \<and>
        unat (r_ret (fst (os (Sys_write ofd bs) w))) \<le> length bs \<and>
        out (snd (os (Sys_write ofd bs) w)) = out w @ take (unat (r_ret (fst (os (Sys_write ofd bs) w)))) bs) \<and>
     (\<forall>w d. out (snd (os (Sys_close d) w)) = out w) \<and>
     (\<forall>w k. r_ret (fst (os (Sys_malloc k) w)) \<noteq> 0 \<and> pos (snd (os (Sys_malloc k) w)) = pos w \<and> out (snd (os (Sys_malloc k) w)) = out w) \<and>
     (\<forall>w k. r_name (fst (os (Sys_property_get k) w)) = Some slot \<and> out (snd (os (Sys_property_get k) w)) = out w)"

lemma image_laws:
  assumes "image_os os slot img fd ofd pos out"
  shows "length img < 2 ^ 31" "\<not> fd <s 0" "\<not> ofd <s 0"
    and "r_ret (fst (os (Sys_open (partition_path 0 slot) fl m) w)) = fd"
      "pos (snd (os (Sys_open (partition_path 0 slot) fl m) w)) = 0"
      "out (snd (os (Sys_open (partition_path 0 slot) fl m) w)) = out w"
    and "\<not> k <s 0 \<Longrightarrow> r_ret (fst (os (Sys_lseek fd k SEEK_SET) w)) = k"
      "\<not> k <s 0 \<Longrightarrow> pos (snd (os (Sys_lseek fd k SEEK_SET) w)) = unat k"
      "\<not> k <s 0 \<Longrightarrow> out (snd (os (Sys_lseek fd k SEEK_SET) w)) = out w"
    and "pos w + unat n \<le> length img \<Longrightarrow> r_ret (fst (os (Sys_read fd n) w)) = n"
      "pos w + unat n \<le> length img \<Longrightarrow> r_data (fst (os (Sys_read fd n) w)) = take (unat n) (drop (pos w) img)"
      "pos w + unat n \<le> length img \<Longrightarrow> out (snd (os (Sys_read fd n) w)) = out w"
    and "r_ret (fst (os (Sys_creat p m) w)) = ofd" "out (snd (os (Sys_creat p m) w)) = []"
    and "bs \<noteq> [] \<Longrightarrow> 0 <s r_ret (fst (os (Sys_write ofd bs) w))"
      "bs \<noteq> [] \<Longrightarrow> unat (r_ret (fst (os (Sys_write ofd bs) w))) \<le> length bs"
      "bs \<noteq> [] \<Longrightarrow> out (snd (os (Sys_write ofd bs) w)) = out w @ take (unat (r_ret (fst (os (Sys_write ofd bs) w)))) bs"
    and "out (snd (os (Sys_close d) w)) = out w"
    and "r_ret (fst (os (Sys_malloc j) w)) \<noteq> 0" "pos (snd (os (Sys_malloc j) w)) = pos w" "out (snd (os (Sys_malloc j) w)) = out w"
    and "r_name (fst (os (Sys_property_get q) w)) = Some slot" "out (snd (os (Sys_property_get q) w)) = out w"
  using assms unfolding image_os_def by blast+

section \<open>The search\<close>

text \<open>The search is at a header at \<open>c\<close>, or before the signature in front of it.\<close>

definition enters :: "u8 list \<Rightarrow> nat \<Rightarrow> s32 \<Rightarrow> s32 \<Rightarrow> nat \<Rightarrow> bool" where
  "enters img c off pad p \<longleftrightarrow> p = unat off \<and>
     (unat off = c \<or> off + pad = of_nat c \<and> unat off + 512 \<le> length img \<and> rd32 (drop (unat off) img) \<noteq> IMG_MAGIC)"

lemma load_hdr_law:
  assumes dev: "image_os os slot img fd ofd pos out" and i: "image_ok i"
    and img: "img = pre @ img_header final i @ post"
    and e: "enters img (length pre) off pad (pos (world s))"
  shows "wp (load_hdr os fd off pad) (\<lambda>(off', r) t. off' = of_nat (length pre) \<and>
     r = Inr (read_hdr (img_header final i)) \<and> out (world t) = out (world s) \<and> ub t = ub s) s"
proof -
  have hd: "take 512 (drop (length pre) img) = img_header final i" using i by (simp add: img)
  have mg: "magic (read_hdr (img_header final i)) = IMG_MAGIC" using read_img_header [OF i, of final "[]"] by simp
  have len: "length pre + 512 \<le> length img" using i by (simp add: img)
  then have small: "length pre < 2 ^ 31" using image_laws(1) [OF dev] by simp
  have rd: "magic (read_hdr (take 512 (drop (unat off) img))) = rd32 (drop (unat off) img)" if "unat off + 512 \<le> length img"
    using that by (simp add: read_hdr_def rd32_take)
  consider (here) "unat off = length pre" | (sig) "off + pad = of_nat (length pre)" "unat off + 512 \<le> length img"
      "rd32 (drop (unat off) img) \<noteq> IMG_MAGIC" "unat off \<noteq> length pre"
    using e by (auto simp: enters_def)
  then show ?thesis
  proof cases
    case here
    then have "off = of_nat (length pre)" by (simp add: word_unat_eq_iff unat_of_nat_small here [symmetric])
    then show ?thesis
      using here e len hd mg by (simp add: enters_def load_hdr_def wp_simps case_prod_beta image_laws [OF dev])
  next
    case sig
    then show ?thesis
      using e len hd mg rd small of_nat_nonneg [OF small]
      by (simp add: enters_def load_hdr_def wp_simps case_prod_beta image_laws [OF dev] Let_def unat_of_nat_small)
  qed
qed

lemma length_img_body [simp]: "image_ok i \<Longrightarrow> length (img_body final i) = img_len i"
  using up_ge [of "2 ^ ialign i" "length (idata i)"] by (simp add: img_body_def img_len_def)

lemma pt_layout_header:
  assumes "is \<noteq> []"
  shows "\<exists>rest. pt_layout is = img_header (length is = 1) (hd is) @ rest"
  using assms by (cases "is" rule: pt_layout.cases) (auto simp: img_body_def)

text \<open>One image is skipped: the search is at the next one, or before the signature in front of it.\<close>

lemma enters_next:
  assumes i: "image_ok i" "image_ok j" and img: "img = pre @ img_body False i @ img_signature i @ pt_layout (j # js) @ post"
    and small: "length img < 2 ^ 31"
  defines "next \<equiv> (of_nat (length pre) :: s32) + curr_img_size (read_hdr (img_header False i))"
  shows "enters img (length (pre @ img_body False i @ img_signature i)) next
     (sec_padding (curr_img_size (read_hdr (img_header False i)))) (unat next)"
proof -
  note z = sizes [OF i(1)]
  have n: "next = of_nat (length pre + img_len i)" by (simp add: next_def z(1))
  have lt: "length pre + img_len i < 2 ^ 31" using small i(1) by (simp add: img)
  then have un: "unat next = length pre + img_len i" unfolding n by (intro unat_of_nat_small) simp
  obtain rest where "pt_layout (j # js) = img_header (js = []) j @ rest"
    using pt_layout_header [of "j # js"] by auto
  then have l: "512 \<le> length (pt_layout (j # js))" using i(2) by simp
  show ?thesis
  proof (cases "isig i")
    case None
    then show ?thesis using un i(1) by (simp add: enters_def img_signature_def)
  next
    case (Some sg)
    have len: "length (img_signature i) = up 4096 (img_len i) - img_len i + 256" "rd32 (img_signature i) \<noteq> IMG_MAGIC"
      using Some i(1) by (auto simp: image_ok_def img_signature_def)
    have "drop (unat next) img = img_signature i @ pt_layout (j # js) @ post" using i(1) by (simp add: un img)
    moreover have "rd32 (img_signature i @ pt_layout (j # js) @ post) = rd32 (img_signature i)"
      using len(1) by (intro rd32_append) simp
    moreover have "next + sec_padding (curr_img_size (read_hdr (img_header False i))) =
        of_nat (length (pre @ img_body False i @ img_signature i))"
      using i(1) by (simp add: n z(3) len(1) del: of_nat_diff)
    ultimately show ?thesis
      using len(2) l un i(1) by (simp add: enters_def img)
  qed
qed

lemma find_chain:
  assumes dev: "image_os os slot img fd ofd pos out"
  shows "list_all image_ok is \<Longrightarrow> is \<noteq> [] \<Longrightarrow> img = pre @ pt_layout is @ post \<Longrightarrow> length is \<le> fuel \<Longrightarrow>
    enters img (length pre) off pad (pos (world s)) \<Longrightarrow>
    wp (image_loop os fuel fd name off pad isz) (\<lambda>r t. r = Some (case pt_find name (length pre) is of
        Some (o', n) \<Rightarrow> (0, of_nat o', of_nat n) | None \<Rightarrow> (- 7, of_nat (pt_last (length pre) is), isz)) \<and>
      out (world t) = out (world s) \<and> ub t = ub s) s"
proof (induction "is" arbitrary: pre off pad fuel s rule: pt_layout.induct)
  case (2 i)
  obtain f where f: "fuel = Suc f" using 2(4) by (cases fuel) auto
  have i: "image_ok i" using 2(1) by simp
  have img: "img = pre @ img_header True i @ (idata i @ replicate (img_len i - 512 - length (idata i)) 0 @ post)"
    using 2(3) by (simp add: img_body_def)
  show ?case
    unfolding f image_loop.simps
    by (rule wp_bindI, rule wp_mono [OF load_hdr_law [OF dev i img 2(5)]])
      (auto simp: wp_simps read_img_header [OF i, of _ "[]", simplified])
next
  case (3 i j js)
  obtain f where f: "fuel = Suc f" "length (j # js) \<le> f" using 3(5) by (cases fuel) auto
  have ok: "image_ok i" "image_ok j" "list_all image_ok (j # js)" using 3(2) by simp_all
  let ?h = "read_hdr (img_header False i)"
  have img: "img = pre @ img_header False i @ (idata i @ replicate (img_len i - 512 - length (idata i)) 0 @
      img_signature i @ pt_layout (j # js) @ post)"
    "img = pre @ img_body False i @ img_signature i @ pt_layout (j # js) @ post"
    using 3(4) by (simp_all add: img_body_def)
  let ?next = "(of_nat (length pre) :: s32) + curr_img_size ?h"
  have lt: "length pre + img_len i < 2 ^ 31" using image_laws(1) [OF dev] ok(1) img(2) by simp
  have "?next = of_nat (length pre + img_len i)" using sizes(1) [OF ok(1)] by simp
  then have nn: "\<not> ?next <s 0" using of_nat_nonneg [OF lt] by simp
  have unfolds: "pt_find name (length pre) (i # j # js) = (if iname i = name then Some (length pre + 512, length (idata i))
      else pt_find name (length pre + img_len i + length (img_signature i)) (j # js))"
    "pt_last (length pre) (i # j # js) = pt_last (length pre + img_len i + length (img_signature i)) (j # js)" by simp_all
  note [simp del] = pt_find.simps pt_last.simps
  have img': "img = (pre @ img_body False i @ img_signature i) @ pt_layout (j # js) @ post" using img(2) by simp
  have len: "length (pre @ img_body False i @ img_signature i) = length pre + img_len i + length (img_signature i)"
    using ok(1) by simp
  let ?post = "\<lambda>u r t. r = Some (case pt_find name (length pre + img_len i + length (img_signature i)) (j # js) of
        Some (o', n) \<Rightarrow> (0, of_nat o', of_nat n)
      | None \<Rightarrow> (- 7, of_nat (pt_last (length pre + img_len i + length (img_signature i)) (j # js)), isz)) \<and>
      out (world t) = out (world u) \<and> ub t = ub u"
  have rest: "wp (image_loop os f fd name ?next (sec_padding (curr_img_size ?h)) isz) (?post u) u"
    if "pos (world u) = unat ?next" for u
    using 3(1) [OF ok(3) _ img' f(2), unfolded len, of ?next "sec_padding (curr_img_size ?h)" u]
      enters_next [OF ok(1,2) img(2) image_laws(1) [OF dev], unfolded len] that by simp
  have hd: "img_name ?h = iname i" "img_list_end ?h = 0" "dsize ?h = of_nat (length (idata i))"
    using read_img_header [OF ok(1), of False "[]"] by simp_all
  show ?case
    unfolding f(1) image_loop.simps unfolds
    apply (rule wp_bindI, rule wp_mono [OF load_hdr_law [OF dev ok(1) img(1) 3(6)]])
    using nn by (auto simp: wp_simps hd Let_def case_prod_beta image_laws [OF dev] intro!: wp_mono [OF rest])
qed simp

text \<open>An image that is found lies in the partition.\<close>

lemma pt_find_inside:
  "list_all image_ok is \<Longrightarrow> pt_find name off is = Some (o', n) \<Longrightarrow>
   \<exists>i\<in>set is. iname i = name \<and> n = length (idata i) \<and> off + 512 \<le> o' \<and>
     take n (drop (o' - off) (pt_layout is)) = idata i \<and> o' - off + n \<le> length (pt_layout is)"
proof (induction "is" arbitrary: off rule: pt_layout.induct)
  case (2 i)
  then show ?case
    using length_img_header [of i True] by (auto simp: img_body_def split: if_splits)
next
  case (3 i j js)
  show ?case
  proof (cases "iname i = name")
    case True
    then show ?thesis using 3 length_img_header [of i False] by (auto simp: img_body_def)
  next
    case False
    let ?off = "off + img_len i + length (img_signature i)"
    have ok: "image_ok i" "list_all image_ok (j # js)" using 3(2) by simp_all
    have "pt_find name ?off (j # js) = Some (o', n)" using 3(3) False by simp
    from 3(1) [OF ok(2) this] obtain x where x: "x \<in> set (j # js)" "iname x = name" "n = length (idata x)" "?off + 512 \<le> o'"
      "take n (drop (o' - ?off) (pt_layout (j # js))) = idata x" "o' - ?off + n \<le> length (pt_layout (j # js))" by blast
    have "drop (o' - off) (pt_layout (i # j # js)) = drop (o' - ?off) (pt_layout (j # js))"
      using x(4) ok(1) by (simp add: add.assoc)
    moreover have "o' - off + n \<le> length (pt_layout (i # j # js))" using x(4,6) ok(1) by simp
    ultimately show ?thesis using x by (intro bexI [of _ x]) auto
  qed
qed simp

section \<open>The copy\<close>

lemma sless_nat: "a < 2 ^ 31 \<Longrightarrow> b < 2 ^ 31 \<Longrightarrow> (of_nat a :: s32) <s of_nat b \<longleftrightarrow> a < b"
  by (simp add: word_sless_alt sint_of_nat_small)

lemma restore_law:
  assumes dev: "image_os os slot img fd ofd pos out"
    and data: "take n (drop o' img) = d" "length d = n" "o' + n \<le> length img"
  shows "k \<le> n \<Longrightarrow> n - k \<le> fuel \<Longrightarrow> out (world s) = take k d \<Longrightarrow>
    wp (restore_loop os fuel ofd fd (of_nat o') (of_nat n) (of_nat k) (of_nat k))
      (\<lambda>r t. r = Some (of_nat n) \<and> out (world t) = d \<and> ub t = ub s) s"
proof (induction fuel arbitrary: k s)
  case 0
  have "n < 2 ^ 31" using data(3) image_laws(1) [OF dev] by linarith
  then show ?case using 0 data(2) by (simp add: wp_simps sless_nat)
next
  case (Suc fuel)
  have n: "n < 2 ^ 31" "o' + n < 2 ^ 31" using data(3) image_laws(1) [OF dev] by linarith+
  show ?case
  proof (cases "k < n")
    case False
    then show ?thesis using Suc.prems n(1) data(2) by (simp add: wp_simps sless_nat)
  next
    case True
    define m where "m = min 4096 (n - k)"
    define bs where "bs = take m (drop (o' + k) img)"
    have m: "0 < m" "m \<le> n - k" "m < 2 ^ 31" using True n by (auto simp: m_def)
    have um: "unat (of_nat m :: s32) = m" using m(3) by (intro unat_of_nat_small) simp
    have inside: "o' + k + m \<le> length img" using m(2) True data(3) by linarith
    then have l: "length bs = m" by (simp add: bs_def)
    have sub: "(of_nat n :: s32) - of_nat k = of_nat (n - k)" using True by simp
    have len: "(if W_BUF_SIZE <s (of_nat n :: s32) - of_nat k then W_BUF_SIZE else of_nat n - of_nat k) = of_nat m"
      using sless_nat [of 4096 "n - k"] n(1) unfolding sub by (simp add: m_def min_def)
    have sum: "(of_nat o' :: s32) + of_nat k = of_nat (o' + k)" by simp
    have at: "\<not> (of_nat (o' + k) :: s32) <s 0" "unat (of_nat (o' + k) :: s32) = o' + k"
      using n(2) True of_nat_nonneg [of "o' + k"] unat_of_nat_small [of "o' + k"] by simp_all
    have "drop k d = take (n - k) (drop (o' + k) img)" by (simp add: data(1) [symmetric] drop_take add.commute)
    then have bs: "bs = take m (drop k d)" using m(2) by (simp add: bs_def min_absorb1)
    have more: "wp (restore_loop os fuel ofd fd (of_nat o') (of_nat n) (of_nat k + r) (of_nat k + r))
        (\<lambda>x t. x = Some (of_nat n) \<and> out (world t) = d \<and> ub t = ub s) u"
      if r: "0 <s r" "unat r \<le> m" and u: "out (world u) = take k d @ take (unat r) bs" "ub u = ub s" for r u
    proof -
      have "r \<noteq> 0" using r(1) by auto
      then have r0: "0 < unat r" by (simp add: unat_gt_0)
      have "take (unat r) bs = take (unat r) (drop k d)" using r(2) by (simp add: bs min_absorb1)
      then have o: "out (world u) = take (k + unat r) d" using u(1) by (simp add: take_add)
      have "of_nat (k + unat r) = of_nat k + r" by simp
      moreover have "k + unat r \<le> n" "n - (k + unat r) \<le> fuel" using r(2) r0 m(2) Suc.prems(2) True by auto
      ultimately show ?thesis using Suc.IH [of "k + unat r" u] o u(2) by simp
    qed
    have ne: "bs \<noteq> []" using m(1) l by auto
    have fits: "unat (r_ret (fst (os (Sys_write ofd bs) w))) \<le> m" for w using image_laws(16) [OF dev ne, of w] l by simp
    have "0 <s (of_nat m :: s32)" using sless_nat [of 0 m] m by simp
    moreover have "(of_nat k :: s32) <s of_nat n" using sless_nat [of k n] True n(1) by simp
    ultimately show ?thesis
      unfolding restore_loop.simps Let_def len read_image_from_pt_internal_def sum
      using at um inside ne l Suc.prems(3)
      apply (simp add: wp_simps case_prod_beta image_laws [OF dev] bs_def [symmetric] del: of_nat_add)
      apply (rule more)
      apply (simp_all add: image_laws [OF dev] fits)
      done
  qed
qed

section \<open>A search without end\<close>

text \<open>A header whose sizes add up to 0 modulo \<open>2 ^ 32\<close> is read again and again.\<close>

lemma search_never_ends:
  assumes dev: "image_os os slot img fd ofd pos out" and l: "512 \<le> length img"
    and h: "h = read_hdr (take 512 img)" "magic h = IMG_MAGIC" "img_name h \<noteq> name" "img_list_end h = 0" "curr_img_size h = 0"
  shows "pos (world s) = 0 \<Longrightarrow> wp (image_loop os fuel fd name 0 pad isz) (\<lambda>r t. r = None) s"
proof (induction fuel arbitrary: pad s)
  case (Suc fuel)
  have z: "\<not> (0 :: s32) <s 0" by simp
  show ?case
    using Suc h l z
    by (auto simp: load_hdr_def wp_simps case_prod_beta Let_def image_laws [OF dev])
qed (simp add: wp_simps)

section \<open>The settings of the kernel\<close>

text \<open>An entry as the kernel prints it, and what an entry may contain.\<close>

definition info_line :: "string \<times> string \<Rightarrow> string" where
  "info_line e = ''['' @ fst e @ '']:'' @ snd e @ [CHR 0x0A]"

definition info_ok :: "string \<times> string \<Rightarrow> bool" where
  "info_ok e \<longleftrightarrow> length (fst e) < 32 \<and> length (snd e) < 32 \<and> NUL \<notin> set (fst e) \<and> NUL \<notin> set (snd e) \<and>
     list_all (\<lambda>c. \<not> newline c \<and> c \<noteq> CHR '']'') (fst e) \<and> list_all (\<lambda>c. \<not> newline c) (snd e)"

lemma too_long_short: "length cs < 32 \<Longrightarrow> too_long cs = ret ()"
  by (simp add: too_long_def)

lemma parse_name:
  "list_all (\<lambda>c. \<not> newline c \<and> c \<noteq> CHR '']'') n \<Longrightarrow> length (acc @ n) < 32 \<Longrightarrow>
   parse_info name (Read_name acc) (n @ CHR '']'' # cs) = parse_info name (Get_divider (acc @ n)) cs"
  by (induction n arbitrary: acc) (auto simp: too_long_short)

lemma parse_value:
  "list_all (\<lambda>c. \<not> newline c) v \<Longrightarrow> length (acc @ v) < 32 \<Longrightarrow>
   parse_info name (Read_value n acc) (v @ CHR 0x0A # cs) =
     (if cstr n = name then ret (Some (cstr (acc @ v))) else parse_info name Init cs)"
  by (induction v arbitrary: acc) (auto simp: too_long_short newline_def)

lemma cstr_plain: "NUL \<notin> set cs \<Longrightarrow> cstr cs = cs"
  by (auto simp: cstr_def takeWhile_eq_all_conv)

lemma parse_line:
  assumes "info_ok e"
  shows "parse_info name Init (info_line e @ cs) = (if fst e = name then ret (Some (snd e)) else parse_info name Init cs)"
  using assms by (auto simp: info_line_def info_ok_def cstr_plain parse_name parse_value)

lemma parse_info_lookup:
  "list_all info_ok es \<Longrightarrow> parse_info name Init (concat (map info_line es)) = ret (map_of es name)"
proof (induction es)
  case (Cons e es)
  then show ?case by (cases e) (auto simp: parse_line)
qed simp

text \<open>The last entry is lost when no newline follows it.\<close>

lemma unterminated_entry_lost:
  assumes "info_ok e"
  shows "parse_info name Init (butlast (info_line e)) = (ret None :: ('a libenv, string option) state)"
proof -
  have v: "parse_info name (Read_value n acc) v = (ret None :: ('a libenv, string option) state)"
    if "list_all (\<lambda>c. \<not> newline c) v" "length (acc @ v) < 32" for n acc v
    using that by (induction v arbitrary: acc) (auto simp: too_long_short)
  have "butlast (info_line e) = ''['' @ fst e @ '']:'' @ snd e" by (simp add: info_line_def butlast_append)
  then show ?thesis
    using assms v [of "snd e" "[]"] by (simp add: info_ok_def parse_name)
qed

section \<open>An example\<close>

text \<open>A partition with a signed and an unsigned image, on a phone that writes one byte at a time.\<close>

definition img_phone :: "u8 list \<Rightarrow> (nat \<times> u8 list) os" where
  "img_phone img q w = (case q of
     Sys_open p fl m \<Rightarrow> (res0\<lparr>r_ret := 3\<rparr>, 0, snd w)
   | Sys_lseek fd k z \<Rightarrow> (res0\<lparr>r_ret := k\<rparr>, unat k, snd w)
   | Sys_read fd n \<Rightarrow> (res0\<lparr>r_ret := n, r_data := take (unat n) (drop (fst w) img)\<rparr>, fst w + unat n, snd w)
   | Sys_creat p m \<Rightarrow> (res0\<lparr>r_ret := 4\<rparr>, fst w, [])
   | Sys_write fd bs \<Rightarrow> (res0\<lparr>r_ret := 1\<rparr>, fst w, snd w @ take 1 bs)
   | Sys_malloc n \<Rightarrow> (res0\<lparr>r_ret := 1\<rparr>, w)
   | Sys_property_get k \<Rightarrow> (res0\<lparr>r_name := Some ''_a''\<rparr>, w)
   | _ \<Rightarrow> (res0, w))"

lemma img_phone_ok: "length img < 2 ^ 31 \<Longrightarrow> image_os (img_phone img) ''_a'' img 3 4 fst snd"
proof -
  assume l: "length img < 2 ^ 31"
  have "\<not> (3 :: s32) <s 0" "\<not> (4 :: s32) <s 0" "(0 :: s32) <s 1" by code_simp+
  then show ?thesis using l by (auto simp: image_os_def img_phone_def res0_def Suc_le_eq)
qed

lemma padded_signature:
  assumes "isig i = Some sg" "4 \<le> up 4096 (img_len i) - img_len i"
  shows "rd32 (img_signature i) = 0"
proof -
  obtain k where "up 4096 (img_len i) - img_len i = 4 + k" using assms(2) le_iff_add by blast
  then have "up 4096 (img_len i) - img_len i = Suc (Suc (Suc (Suc k)))" by simp
  then show ?thesis by (simp add: img_signature_def assms(1) rd32_def byte_at_def)
qed

definition demo_image :: "string \<Rightarrow> u8 list \<Rightarrow> u8 list option \<Rightarrow> image" where
  "demo_image nm d sg = \<lparr>iname = nm, idata = d, ialign = 4, imaddr = 0, imode = 0, iext = 0x58891689, iversion = 1,
     itype = 0, isig = sg\<rparr>"

definition demo_images :: "image list" where
  "demo_images = [demo_image ''md1rom'' [1, 2, 3, 4, 5] (Some (replicate 256 7)), demo_image ''md1dsp'' [9, 8, 7] None]"

lemma demo_fields [simp]: "iname (demo_image nm d sg) = nm" "idata (demo_image nm d sg) = d"
  "ialign (demo_image nm d sg) = 4" "isig (demo_image nm d sg) = sg"
  by (simp_all add: demo_image_def)

lemma demo_sizes [simp]:
  "img_len (demo_image nm [a, b, c, d, e] sg) = 528" "img_len (demo_image nm [a, b, c] sg) = 528" "up 4096 528 = 4096"
  by (simp_all add: img_len_def up_def)

lemma demo_ok: "list_all image_ok demo_images" "length (pt_layout demo_images) < 2 ^ 31" "length demo_images = 2"
proof -
  have "rd32 (img_signature (demo_image ''md1rom'' [1, 2, 3, 4, 5] (Some (replicate 256 7)))) = 0"
    by (rule padded_signature) simp_all
  then show ok: "list_all image_ok demo_images" by (simp add: demo_images_def image_ok_def)
  show "length demo_images = 2" by (simp add: demo_images_def)
  show "length (pt_layout demo_images) < 2 ^ 31"
    using ok by (simp add: demo_images_def img_signature_def)
qed

lemma demo_find: "pt_find ''md1dsp'' 0 demo_images = Some (4864, 3)"
  by (simp add: demo_images_def img_signature_def)

section \<open>Properties\<close>

lemma find_law:
  assumes dev: "image_os os slot img fd ofd pos out" and ok: "list_all image_ok is" "is \<noteq> []" "img = pt_layout is @ post"
    and fuel: "length is \<le> fuel" and start: "pos (world s) = 0"
  shows "wp (find_image_from_pt_internal os fuel fd name (junk, isz)) (\<lambda>r t. r = Some (case pt_find name 0 is of
      Some (o', n) \<Rightarrow> (0, of_nat o', of_nat n) | None \<Rightarrow> (- 7, of_nat (pt_last 0 is), isz)) \<and>
    out (world t) = out (world s) \<and> ub t = ub s) s"
proof -
  have e: "enters img 0 0 0 0" by (simp add: enters_def)
  note chain = find_chain [OF dev ok(1,2) _ fuel, of "[]" post 0 0, unfolded list.size append_Nil, OF ok(3)]
  show ?thesis
    unfolding find_image_from_pt_internal_def
    using e start by (simp add: wp_simps case_prod_beta image_laws [OF dev] wp_mono [OF chain])
qed

text \<open>
  C38: The search for an image ends and finds it: in a partition that was written image by image, with or
  without signatures between them, \<open>find_image_from_pt_internal\<close> delivers offset and size of the data of the first
  image with the name, and \<open>-7\<close> when there is none.
\<close>

theorem image_search:
  assumes "image_os os slot (pt_layout is @ post) fd ofd pos out" "list_all image_ok is" "is \<noteq> []"
    and "length is \<le> fuel" "pos (world s) = 0"
  shows "wp (find_image_from_pt_internal os fuel fd name out0) (\<lambda>r t. r = Some (case pt_find name 0 is of
      Some (o', n) \<Rightarrow> (0, of_nat o', of_nat n) | None \<Rightarrow> (- 7, of_nat (pt_last 0 is), snd out0)) \<and> ub t = ub s) s"
  by (rule wp_mono [OF find_law [OF assms(1,2,3) refl assms(4,5), of name "fst out0" "snd out0", simplified]]) simp

theorem image_search_witness:
  "wp (find_image_from_pt_internal (img_phone (pt_layout demo_images)) 2 3 ''md1dsp'' (0, 0))
     (\<lambda>r t. r = Some (0, 4864, 3) \<and> \<not> ub t) \<lparr>world = (0, []), trace = [], ub = False\<rparr>"
  using image_search [of "img_phone (pt_layout demo_images)" "''_a''" demo_images "[]" 3 4 fst snd 2
      "\<lparr>world = (0, []), trace = [], ub = False\<rparr>" "''md1dsp''" "(0, 0)"]
    img_phone_ok [OF demo_ok(2)] demo_ok(1,3) demo_find by (auto simp: demo_images_def)

text \<open>
  C20: An image is restored from the partition of the first modem byte by byte: \<open>restore_image_from_pt\<close> returns its
  size, and the new file contains exactly its data, however many bytes the writes take at a time.
\<close>

theorem image_restored:
  assumes dev: "image_os os slot (pt_layout is @ post) fd ofd pos out" and ok: "list_all image_ok is"
    and found: "pt_find name 0 is = Some (o', n)" and size: "n \<le> 0x20000000" and fuel: "length is \<le> fuel" "n \<le> fuel"
  shows "wp (restore_image_from_pt os fuel (Some name) (Some path) junk)
     (\<lambda>r t. r = Some (of_nat n) \<and> (\<exists>i\<in>set is. iname i = name \<and> out (world t) = idata i) \<and> ub t = ub s) s"
proof -
  have ne: "is \<noteq> []" using found by auto
  obtain i where i: "i \<in> set is" "iname i = name" "n = length (idata i)" "take n (drop o' (pt_layout is)) = idata i"
    "o' + n \<le> length (pt_layout is)" using pt_find_inside [OF ok found] by auto
  have n: "n < 2 ^ 31" using size by simp
  have small: "\<not> (0x20000000 :: s32) <s of_nat n" "\<not> (of_nat n :: s32) <s 0"
    using sless_nat [of "0x20000000" n] size n of_nat_nonneg [OF n] by simp_all
  have data: "take n (drop o' (pt_layout is @ post)) = idata i" "length (idata i) = n" "o' + n \<le> length (pt_layout is @ post)"
    using i by simp_all
  have find: "wp (find_image_from_pt os fuel name (junk, 0)) (\<lambda>r t. r = Some (0, of_nat o', of_nat n) \<and> ub t = ub s) s"
    unfolding find_image_from_pt_def AB_image_get_def find_in_nodes.simps
    apply (simp add: wp_simps case_prod_beta image_laws [OF dev])
    apply (rule wp_mono [OF find_law [OF dev ok ne refl fuel(1)]])
    using found by (auto simp: wp_simps image_laws [OF dev])
  show ?thesis
    unfolding restore_image_from_pt_def prod.case option.case
    apply (rule wp_bindI, rule wp_mono [OF find])
    apply (simp add: wp_simps case_prod_beta small AB_image_get_def image_laws [OF dev])
    apply (rule wp_mono [OF restore_law [OF dev data, of 0, simplified]])
    using fuel(2) i(1,2) by (auto simp: wp_simps case_prod_beta image_laws [OF dev] intro!: bexI [of _ i])
qed

theorem image_restored_witness:
  "wp (restore_image_from_pt (img_phone (pt_layout demo_images)) 3 (Some ''md1dsp'') (Some ''/data/dsp'') 0)
     (\<lambda>r t. r = Some 3 \<and> (\<exists>i\<in>set demo_images. iname i = ''md1dsp'' \<and> snd (world t) = idata i) \<and> \<not> ub t)
     \<lparr>world = (0, []), trace = [], ub = False\<rparr>"
  using image_restored [of "img_phone (pt_layout demo_images)" "''_a''" demo_images "[]" 3 4 fst snd "''md1dsp''" 4864 3 3
      "''/data/dsp''" 0 "\<lparr>world = (0, []), trace = [], ub = False\<rparr>"]
    img_phone_ok [OF demo_ok(2)] demo_ok(1,3) demo_find by auto

text \<open>
  \<open>query_kcfg_setting\<close> looks a setting up: when the kernel answers with one entry per line it returns 0 and the value of the first
  entry with the name, cut to the caller's buffer, and \<open>-1\<close> when there is none; a file that cannot be opened
  or read, and memory that cannot be allocated, give \<open>-1\<close>, \<open>-3\<close> and \<open>-2\<close>.
\<close>

theorem kcfg_lookup:
  assumes "list_all info_ok es" and answer: "map char_of_byte (take (unat (r_ret r)) (r_data r)) = concat (map info_line es)"
    and answers: "os (Sys_open ''/sys/kernel/ccci/kcfg_setting'' O_RDONLY 0) (world s) = (f, w1)"
      "os (Sys_malloc 4096) w1 = (m, w2)" "os (Sys_read (r_ret f) 4095) w2 = (r, w3)"
  shows "fst (run_state (query_kcfg_setting os name n) s) =
     (if r_ret f <s 0 then (- 1, None) else if r_ret m = 0 then (- 2, None) else if r_ret r \<le>s 0 then (- 3, None)
      else case map_of es name of None \<Rightarrow> (- 1, None) | Some v \<Rightarrow> (0, Some (take (n - 1) v)))"
  using answers
  by (auto simp: query_kcfg_setting_def parse_info_lookup [OF assms(1), of name, folded answer] split: prod.splits option.splits)

definition kcfg_os :: "string \<Rightarrow> unit os" where
  "kcfg_os t q w = (case q of
     Sys_read fd k \<Rightarrow> (res0\<lparr>r_ret := of_nat (length t), r_data := bytes t\<rparr>, w)
   | _ \<Rightarrow> (res0\<lparr>r_ret := 3\<rparr>, w))"

theorem kcfg_lookup_witness:
  "fst (run_state (query_kcfg_setting (kcfg_os (concat (map info_line [(''MTK_MD1_SUPPORT'', ''12''), (''x'', ''y'')]))) ''x'' 8)
     \<lparr>world = (), trace = [], ub = False\<rparr>) = (0, Some ''y'')"
proof -
  let ?es = "[(''MTK_MD1_SUPPORT'', ''12''), (''x'', ''y'')]"
  define t where "t = concat (map info_line ?es)"
  let ?r = "res0\<lparr>r_ret := 27, r_data := bytes t\<rparr>" and ?ok = "res0\<lparr>r_ret := 3\<rparr>"
  have l: "length t = 27" by (simp add: t_def info_line_def)
  have "list_all info_ok ?es" by (simp add: info_ok_def newline_def)
  moreover have "map char_of_byte (take (unat (r_ret ?r)) (r_data ?r)) = concat (map info_line ?es)"
    unfolding t_def [symmetric] using l by (simp add: bytes_def comp_def)
  moreover have "kcfg_os t (Sys_open f fl p) () = (?ok, ())" "kcfg_os t (Sys_malloc k) () = (?ok, ())"
    "kcfg_os t (Sys_read fd j) () = (?r, ())" for f fl p k fd j
    by (simp_all add: kcfg_os_def l)
  ultimately have "fst (run_state (query_kcfg_setting (kcfg_os t) ''x'' 8) \<lparr>world = (), trace = [], ub = False\<rparr>) =
     (if (3 :: s32) <s 0 then (- 1, None) else if (3 :: s32) = 0 then (- 2, None) else if (27 :: s32) \<le>s 0 then (- 3, None)
      else (0, Some ''y''))"
    using kcfg_lookup [of ?es ?r "kcfg_os t" "\<lparr>world = (), trace = [], ub = False\<rparr>" ?ok "()" ?ok "()" "()" "''x''" 8]
    by (simp add: res0_def)
  moreover have "\<not> (3 :: s32) <s 0" "\<not> (27 :: s32) \<le>s 0" by code_simp+
  ultimately show ?thesis unfolding t_def [symmetric] by simp
qed

end
