(* ===== verification/Rpcd.thy ===== *)
theory Rpcd
  imports Ccci_Env
begin

unbundle bit_operations_syntax

text \<open>
  The remote-procedure-call daemon \<open>ccci_rpcd\<close> (\<open>external/ccci_rpcd_com\<close>): \<open>ccci_rpcd.c\<close>, its header and its
  platform files. The modem sends requests in packets; the daemon collects a request in one of five slots
  of a buffer, answers a query for a system property, passes every other operation to a library of the
  customer, when there is one, and sends the answer from the same slot.

  The buffer is a memory with the length that was allocated or mapped. A load or store outside of it sets
  \<open>ub\<close>; nothing in the source prevents it. A failed assertion sets \<open>rpc_aborted\<close>; what the model does afterwards
  no longer happens. The library is not part of the repository: what it answers comes from the environment,
  which is given the request's bytes, and it is taken not to write to the buffer.
\<close>

section \<open>State\<close>

abbreviation (input) RPC_MAX_BUF_SIZE :: nat where "RPC_MAX_BUF_SIZE \<equiv> 2048"
abbreviation (input) RPC_MAX_ARG_NUM :: nat where "RPC_MAX_ARG_NUM \<equiv> 6"
abbreviation (input) RPC_BUFFER_SLOT_NUM :: nat where "RPC_BUFFER_SLOT_NUM \<equiv> 5"
abbreviation (input) MAX_RPC_PKT_BYTE :: u32 where "MAX_RPC_PKT_BYTE \<equiv> 3456"
abbreviation (input) MAX_RPC_BUF_BYTE :: nat where "MAX_RPC_BUF_BYTE \<equiv> 4096"
abbreviation (input) CCCI_RPC_REQ_SEND_AGAIN :: u32 where "CCCI_RPC_REQ_SEND_AGAIN \<equiv> 0x80000000"
abbreviation (input) RPC_API_RESP_ID :: u32 where "RPC_API_RESP_ID \<equiv> 0xFFFF0000"
abbreviation (input) RPC_PARAM_ERROR :: s32 where "RPC_PARAM_ERROR \<equiv> - 2"
abbreviation (input) IPC_RPC_QUERY_AP_SYS_PROPERTY :: u32 where "IPC_RPC_QUERY_AP_SYS_PROPERTY \<equiv> 0x400F"
abbreviation (input) RPC_BUFF_IDLE :: u8 where "RPC_BUFF_IDLE \<equiv> 0"
abbreviation (input) RPC_BUFF_WAIT :: u8 where "RPC_BUFF_WAIT \<equiv> 1"
abbreviation (input) PROPERTY_VALUE_MAX :: nat where "PROPERTY_VALUE_MAX \<equiv> 92"

text \<open>Where an argument is: in the buffer, the variable \<open>RetVal\<close>, the array \<open>property_val\<close>, or memory of the library.\<close>

datatype rpc_data = Unset | In_buf nat | At_RetVal | At_property | From_lib "u8 list"

record RPC_PACKET_INFO =
  pack_len :: u32
  pack_data :: rpc_data

record 'w rpcd = "(sysreq, 'w) env" +
  rpc_stream :: bool
  rpc_fd :: s32
  rpc_md_id :: s32
  pRpcBuf :: memory
  rpc_buff_state :: "u8 list"
  rpc_buff_offset :: "u32 list"
  rpc_RetVal :: s32
  property_val :: "u8 list"
  rpc_PackInfo :: "RPC_PACKET_INFO list"
  tc1_support_lib :: bool
  tc1_lib_ready :: bool
  rpc_exit_signal :: s32
  rpc_aborted :: bool
  wake_initialized :: bool
  wake_fds :: "s32 list"
  wake_error :: s32

text \<open>The static variables before \<open>main\<close>, and an array of arguments as \<open>malloc\<close> leaves it.\<close>

definition rpc_boot :: "'w \<Rightarrow> 'w rpcd" where
  "rpc_boot w = \<lparr>world = w, trace = [], ub = False, rpc_stream = False, rpc_fd = 0, rpc_md_id = 0, pRpcBuf = (\<lambda>_. 0),
     rpc_buff_state = replicate RPC_BUFFER_SLOT_NUM 0, rpc_buff_offset = replicate RPC_BUFFER_SLOT_NUM 0,
     rpc_RetVal = 0, property_val = replicate PROPERTY_VALUE_MAX 0,
     rpc_PackInfo = replicate RPC_MAX_ARG_NUM \<lparr>pack_len = 0, pack_data = Unset\<rparr>,
     tc1_support_lib = False, tc1_lib_ready = False, rpc_exit_signal = 0, rpc_aborted = False,
     wake_initialized = False, wake_fds = [0, 0], wake_error = - 1\<rparr>"

section \<open>The buffer\<close>

text \<open>In stream mode five slots are allocated, otherwise one page is mapped.\<close>

definition rpc_buf_len :: "'w rpcd \<Rightarrow> nat" where
  "rpc_buf_len s = (if rpc_stream s then (20 + RPC_MAX_BUF_SIZE) * RPC_BUFFER_SLOT_NUM else 4096)"

definition rpc_load :: "nat \<Rightarrow> nat \<Rightarrow> ('w rpcd, u8 list) state" where
  "rpc_load a n = do {
     len \<leftarrow> gets rpc_buf_len;
     (if len < a + n then fault else ret ());
     gets (\<lambda>s. mread (pRpcBuf s) a n) }"

definition rpc_store :: "nat \<Rightarrow> u8 list \<Rightarrow> ('w rpcd, unit) state" where
  "rpc_store a bs = do {
     len \<leftarrow> gets rpc_buf_len;
     (if len < a + length bs then fault else ret ());
     modify (\<lambda>s. s\<lparr>pRpcBuf := mwrite (pRpcBuf s) a bs\<rparr>) }"

definition set_pack :: "nat \<Rightarrow> u32 \<Rightarrow> rpc_data \<Rightarrow> ('w rpcd, unit) state" where
  "set_pack i n p = do {
     (if RPC_MAX_ARG_NUM \<le> i then fault else ret ());
     modify (\<lambda>s. s\<lparr>rpc_PackInfo := (rpc_PackInfo s)[i := \<lparr>pack_len = n, pack_data = p\<rparr>]\<rparr>) }"

text \<open>The bytes of an argument, \<open>n\<close> of them.\<close>

definition fetch_pack :: "rpc_data \<Rightarrow> nat \<Rightarrow> ('w rpcd, u8 list) state" where
  "fetch_pack p n = (case p of
     Unset \<Rightarrow> do { fault; ret (replicate n 0) }
   | In_buf a \<Rightarrow> rpc_load a n
   | At_RetVal \<Rightarrow> do {
       (if 4 < n then fault else ret ());
       v \<leftarrow> gets rpc_RetVal;
       ret (map (byte_at (le32 v)) [0..<n]) }
   | At_property \<Rightarrow> do {
       (if PROPERTY_VALUE_MAX < n then fault else ret ());
       v \<leftarrow> gets property_val;
       ret (map (byte_at v) [0..<n]) }
   | From_lib bs \<Rightarrow> do {
       (if length bs < n then fault else ret ());
       ret (map (byte_at bs) [0..<n]) })"

section \<open>Arguments of a request\<close>

primrec rpc_pack_loop :: "nat list \<Rightarrow> nat \<Rightarrow> u32 \<Rightarrow> ('w rpcd, u32) state" where
  "rpc_pack_loop [] pData Index = ret Index"
| "rpc_pack_loop (i # is) pData Index = do {
     l \<leftarrow> rpc_load (pData + unat Index) 4;
     set_pack i (rd32 l) (In_buf (pData + unat (Index + 4)));
     rpc_pack_loop is pData (Index + 4 + align4 (rd32 l)) }"

text \<open>The length is looked at after the loop.\<close>

definition RPC_GetPackInfo :: "nat \<Rightarrow> ('w rpcd, bool) state" where
  "RPC_GetPackInfo pData = do {
     n \<leftarrow> rpc_load pData 4;
     if of_nat RPC_MAX_ARG_NUM < rd32 n then ret False
     else do {
       Index \<leftarrow> rpc_pack_loop [0..<unat (rd32 n)] pData 4;
       ret (\<not> of_nat RPC_MAX_BUF_SIZE < Index) } }"

section \<open>Sending an answer\<close>

text \<open>A header is put in front of the data at \<open>pData\<close>; the 20 bytes it covers are the result.\<close>

definition RPC_PreparePktEx :: "nat \<Rightarrow> nat \<Rightarrow> nat \<Rightarrow> u32 \<Rightarrow> bool \<Rightarrow> ('w rpcd, nat \<times> u8 list) state" where
  "RPC_PreparePktEx pData data_to_send ccci_src op_id again = do {
     (if unat MAX_RPC_PKT_BYTE < data_to_send \<or> pData < ccci_src + 20 then modify (\<lambda>s. s\<lparr>rpc_aborted := True\<rparr>) else ret ());
     let bak_ptr = pData - 20;
     g_bak \<leftarrow> rpc_load bak_ptr 20;
     d0 \<leftarrow> rpc_load ccci_src 4;
     channel \<leftarrow> rpc_load (ccci_src + 8) 4;
     reserved \<leftarrow> rpc_load (ccci_src + 12) 4;
     rpc_store bak_ptr (le32 (if again then rd32 d0 OR CCCI_RPC_REQ_SEND_AGAIN
                              else rd32 d0 AND NOT CCCI_RPC_REQ_SEND_AGAIN));
     rpc_store (bak_ptr + 4) (le32 (of_nat (data_to_send + 20)));
     rpc_store (bak_ptr + 8) channel;
     rpc_store (bak_ptr + 12) reserved;
     rpc_store (bak_ptr + 16) (le32 op_id);
     ret (bak_ptr, g_bak) }"

definition RPC_PreparePktDone :: "nat \<Rightarrow> u8 list \<Rightarrow> ('w rpcd, unit) state" where
  "RPC_PreparePktDone pStream g_bak = rpc_store pStream g_bak"

text \<open>The fragments of a large answer, at most \<open>fuel\<close> of them; the result of the last \<open>write\<close>.\<close>

primrec rpc_send_frags :: "nat \<Rightarrow> 'w os \<Rightarrow> nat \<Rightarrow> nat \<Rightarrow> nat \<Rightarrow> nat \<Rightarrow> u32 \<Rightarrow> s32 \<Rightarrow> ('w rpcd, s32) state" where
  "rpc_send_frags 0 os ccci_h pData data_len data_sent op_id res = ret res"
| "rpc_send_frags (Suc fuel) os ccci_h pData data_len data_sent op_id res =
     (if data_len \<le> data_sent then ret res
      else do {
        let again = unat MAX_RPC_PKT_BYTE < data_len - data_sent;
        let data_to_send = (if again then unat MAX_RPC_PKT_BYTE else data_len - data_sent);
        (pkt, g_bak) \<leftarrow> RPC_PreparePktEx pData data_to_send ccci_h op_id again;
        bs \<leftarrow> rpc_load pkt (data_to_send + 20);
        fd \<leftarrow> gets rpc_fd;
        r \<leftarrow> syscall os (Sys_write fd bs);
        if r_ret r \<noteq> of_nat (data_to_send + 20) then ret (r_ret r)
        else do {
          RPC_PreparePktDone pkt g_bak;
          rpc_send_frags fuel os ccci_h (pData + data_to_send) data_len (data_sent + data_to_send) op_id (r_ret r) } })"

text \<open>The arguments are put one after the other; None when the buffer is full, else the length.\<close>

primrec rpc_put_args :: "nat list \<Rightarrow> nat \<Rightarrow> u32 \<Rightarrow> ('w rpcd, u32 option) state" where
  "rpc_put_args [] pData DataLength = ret (Some DataLength)"
| "rpc_put_args (i # is) pData DataLength = do {
     (if RPC_MAX_ARG_NUM \<le> i then fault else ret ());
     p \<leftarrow> gets (\<lambda>s. if i < length (rpc_PackInfo s) then rpc_PackInfo s ! i else \<lparr>pack_len = 0, pack_data = Unset\<rparr>);
     if of_nat RPC_MAX_BUF_SIZE < DataLength + 8 + pack_len p then ret None
     else do {
       rpc_store pData (le32 (pack_len p));
       (if pack_data p = In_buf (pData + 4) then ret ()
        else do {
          bs \<leftarrow> fetch_pack (pack_data p) (unat (pack_len p));
          rpc_store (pData + 4) bs });
       rpc_put_args is (pData + 4 + unat (align4 (pack_len p))) (DataLength + 4 + align4 (pack_len p)) } }"

text \<open>One packet from the slot: header and answer.\<close>

definition rpc_send_one :: "'w os \<Rightarrow> nat \<Rightarrow> u32 \<Rightarrow> ('w rpcd, s32) state" where
  "rpc_send_one os slot DataLength = do {
     d0 \<leftarrow> rpc_load slot 4;
     rpc_store slot (le32 (rd32 d0 AND NOT CCCI_RPC_REQ_SEND_AGAIN));
     rpc_store (slot + 4) (le32 DataLength);
     bs \<leftarrow> rpc_load slot (unat DataLength);
     fd \<leftarrow> gets rpc_fd;
     r \<leftarrow> syscall os (Sys_write fd bs);
     ret (r_ret r) }"

text \<open>Without streams the slot is looked for at another distance than in \<open>main\<close>.\<close>

definition RPC_WriteToMD :: "'w os \<Rightarrow> s32 \<Rightarrow> nat \<Rightarrow> ('w rpcd, bool) state" where
  "RPC_WriteToMD os BufIndex PacketNum = do {
     stream \<leftarrow> gets rpc_stream;
     let slot = (RPC_MAX_BUF_SIZE + (if stream then 20 else 8)) * unat BufIndex;
     let pRpc = (if stream then slot + 16 else slot);
     op \<leftarrow> rpc_load pRpc 4;
     rpc_store pRpc (le32 (RPC_API_RESP_ID OR rd32 op));
     rpc_store (pRpc + 4) (le32 (of_nat PacketNum));
     n \<leftarrow> rpc_put_args [0..<PacketNum] (pRpc + 8) ((if stream then 20 else 0) + 4);
     case n of None \<Rightarrow> ret False
     | Some DataLength \<Rightarrow>
         if \<not> stream then do {
           _ \<leftarrow> syscall os (Sys_msync RPC_MAX_BUF_SIZE);
           fd \<leftarrow> gets rpc_fd;
           r \<leftarrow> syscall os (Sys_ioctl fd ''CCCI_RPC_IOCTL_SEND'' (le32 DataLength @ le32 BufIndex));
           ret (\<not> r_ret r <s 0) }
         else do {
           channel \<leftarrow> rpc_load (slot + 8) 4;
           rpc_store (slot + 8) (le32 (rd32 channel + 1));
           if DataLength - 20 \<le>s MAX_RPC_PKT_BYTE then do {
             r \<leftarrow> rpc_send_one os slot DataLength;
             ret (r = DataLength) }
           else do {
             o1 \<leftarrow> rpc_load pRpc 4;
             r \<leftarrow> rpc_send_frags (unat (DataLength - 20)) os slot (slot + 20) (unat (DataLength - 20)) 0 (rd32 o1) 0;
             ret (\<not> r <s 0) } } }"

section \<open>Wake locks\<close>

primrec wake_open :: "'w os \<Rightarrow> string list \<Rightarrow> nat \<Rightarrow> ('w rpcd, s32) state" where
  "wake_open os [] i = do { modify (\<lambda>s. s\<lparr>wake_error := 0\<rparr>); ret 0 }"
| "wake_open os (p # ps) i = do {
     r \<leftarrow> syscall os (Sys_open p (O_RDWR OR O_CLOEXEC) 0);
     if r_ret r <s 0 then do { modify (\<lambda>s. s\<lparr>wake_error := - r_errno r\<rparr>); ret (- 1) }
     else do {
       modify (\<lambda>s. s\<lparr>wake_fds := (wake_fds s)[i := r_ret r]\<rparr>);
       wake_open os ps (Suc i) } }"

definition wake_initialize :: "'w os \<Rightarrow> ('w rpcd, unit) state" where
  "wake_initialize os = do {
     init \<leftarrow> gets wake_initialized;
     if init then ret ()
     else do {
       r \<leftarrow> wake_open os [''/sys/power/wake_lock'', ''/sys/power/wake_unlock''] 0;
       (if r <s 0 then do {
          _ \<leftarrow> wake_open os [''/sys/android_power/acquire_partial_wake_lock'', ''/sys/android_power/release_wake_lock''] 0;
          ret () } else ret ());
       modify (\<lambda>s. s\<lparr>wake_initialized := True\<rparr>) } }"

text \<open>The name of the lock is written to the first file to take it and to the second to release it.\<close>

definition rpc_com_wakelock :: "'w os \<Rightarrow> bool \<Rightarrow> ('w rpcd, unit) state" where
  "rpc_com_wakelock os lock = do {
     wake_initialize os;
     e \<leftarrow> gets wake_error;
     if e \<noteq> 0 then ret ()
     else do {
       fd \<leftarrow> gets (\<lambda>s. wake_fds s ! (if lock then 0 else 1));
       _ \<leftarrow> syscall os (Sys_write fd (bytes ''ccci_rpc''));
       ret () } }"

section \<open>Receiving a request\<close>

text \<open>From the packet, in a block of \<open>MAX_RPC_BUF_BYTE\<close> bytes that was cleared before, into the slot.\<close>

definition rpc_copy :: "nat \<Rightarrow> u8 list \<Rightarrow> nat \<Rightarrow> u32 \<Rightarrow> ('w rpcd, unit) state" where
  "rpc_copy dst pkt_buff off n = do {
     (if MAX_RPC_BUF_BYTE < off + unat n then fault else ret ());
     rpc_store dst (map (byte_at pkt_buff) [off..<off + unat n]) }"

definition rpc_set_slot :: "u32 \<Rightarrow> u8 \<Rightarrow> u32 \<Rightarrow> ('w rpcd, unit) state" where
  "rpc_set_slot idx st off = modify (\<lambda>s. s\<lparr>rpc_buff_state := (rpc_buff_state s)[unat idx := st],
     rpc_buff_offset := (rpc_buff_offset s)[unat idx := off]\<rparr>)"

definition rpc_abort :: "('w rpcd, unit) state" where
  "rpc_abort = modify (\<lambda>s. s\<lparr>rpc_aborted := True\<rparr>)"

definition rpc_recv_last :: "u32 \<Rightarrow> u8 list \<Rightarrow> u32 \<Rightarrow> u8 \<Rightarrow> u32 \<Rightarrow> ('w rpcd, unit) state" where
  "rpc_recv_last idx pkt d1 st off = do {
     let slot = (RPC_MAX_BUF_SIZE + 20) * unat idx;
     (if st = RPC_BUFF_IDLE then rpc_copy slot pkt 0 d1
      else if st = RPC_BUFF_WAIT then
        (if d1 < 20 then rpc_abort
         else do { rpc_copy (slot + unat off) pkt 20 (d1 - 20); rpc_copy slot pkt 0 16 })
      else rpc_abort);
     rpc_set_slot idx RPC_BUFF_IDLE 0 }"

definition rpc_recv_more :: "u32 \<Rightarrow> u8 list \<Rightarrow> u32 \<Rightarrow> u8 \<Rightarrow> u32 \<Rightarrow> ('w rpcd, unit) state" where
  "rpc_recv_more idx pkt d1 st off = do {
     let slot = (RPC_MAX_BUF_SIZE + 20) * unat idx;
     if st = RPC_BUFF_IDLE then do { rpc_copy slot pkt 0 d1; rpc_set_slot idx RPC_BUFF_WAIT (off + d1) }
     else if st = RPC_BUFF_WAIT then do {
       rpc_copy (slot + unat off) pkt 20 (d1 - 20);
       rpc_set_slot idx RPC_BUFF_WAIT (off + (d1 - 20)) }
     else do { rpc_abort; rpc_set_slot idx RPC_BUFF_WAIT off } }"

text \<open>One packet; the slot it names and whether the request is complete. The slot is taken from the packet as it is.\<close>

definition rpc_recv_packet :: "u8 list \<Rightarrow> ('w rpcd, u32 \<times> bool) state" where
  "rpc_recv_packet pkt = do {
     let d0 = rd32 pkt; let d1 = rd32 (drop 4 pkt); let idx = rd32 (drop 12 pkt);
     (if RPC_BUFFER_SLOT_NUM \<le> unat idx then fault else ret ());
     st \<leftarrow> gets (\<lambda>s. byte_at (rpc_buff_state s) (unat idx));
     off \<leftarrow> gets (\<lambda>s. if unat idx < RPC_BUFFER_SLOT_NUM then rpc_buff_offset s ! unat idx else 0);
     if d0 AND CCCI_RPC_REQ_SEND_AGAIN = 0 then do { rpc_recv_last idx pkt d1 st off; ret (idx, True) }
     else do { rpc_recv_more idx pkt d1 st off; ret (idx, False) } }"

text \<open>The loop over packets; \<open>None\<close> when \<open>fuel\<close> reads were not enough.\<close>

primrec rpc_receive :: "nat \<Rightarrow> 'w os \<Rightarrow> ('w rpcd, u32 option) state" where
  "rpc_receive 0 os = ret None"
| "rpc_receive (Suc fuel) os = do {
     fd \<leftarrow> gets rpc_fd;
     r \<leftarrow> syscall os (Sys_read fd (MAX_RPC_PKT_BYTE + 20));
     modify (\<lambda>s. s\<lparr>rpc_RetVal := r_ret r\<rparr>);
     if r_ret r \<le>s 0 then rpc_receive fuel os
     else do {
       rpc_com_wakelock os True;
       (idx, complete) \<leftarrow> rpc_recv_packet (r_data r);
       if complete then ret (Some idx)
       else do { rpc_com_wakelock os False; rpc_receive fuel os } } }"

section \<open>The operations\<close>

text \<open>An error answer: \<open>RetVal\<close> is the next argument. The result is the number of arguments.\<close>

definition rpc_param_error :: "nat \<Rightarrow> ('w rpcd, nat) state" where
  "rpc_param_error PacketNum = do {
     modify (\<lambda>s. s\<lparr>rpc_RetVal := RPC_PARAM_ERROR\<rparr>);
     set_pack PacketNum 4 At_RetVal;
     ret (Suc PacketNum) }"

text \<open>A terminator is put behind the name; it is outside of the argument.\<close>

definition op_QUERY_PROPERTY :: "'w os \<Rightarrow> ('w rpcd, nat) state" where
  "op_QUERY_PROPERTY os = do {
     p \<leftarrow> gets (\<lambda>s. hd (rpc_PackInfo s));
     name \<leftarrow> (case pack_data p of
         In_buf a \<Rightarrow> do {
           rpc_store (a + unat (pack_len p)) [0];
           bs \<leftarrow> rpc_load a (unat (pack_len p));
           ret (cstr (map char_of_byte bs)) }
       | _ \<Rightarrow> do { fault; ret [] });
     r \<leftarrow> syscall os (Sys_property_get name);
     let v = (case r_name r of None \<Rightarrow> [] | Some t \<Rightarrow> bytes (cstr t));
     (if PROPERTY_VALUE_MAX \<le> length v then fault else ret ());
     modify (\<lambda>s. s\<lparr>rpc_RetVal := r_ret r, property_val := v @ [0] @ drop (Suc (length v)) (property_val s)\<rparr>);
     set_pack 0 4 At_RetVal;
     set_pack 1 (of_nat (Suc (length v))) At_property;
     ret 2 }"

text \<open>The library fills the arguments of the answer.\<close>

primrec lib_packs :: "u8 list list \<Rightarrow> nat \<Rightarrow> ('w rpcd, nat) state" where
  "lib_packs [] i = ret i"
| "lib_packs (bs # bss) i = do { set_pack i (of_nat (length bs)) (From_lib bs); lib_packs bss (Suc i) }"

definition tc1_srv_check :: "'w os \<Rightarrow> u32 \<Rightarrow> nat \<Rightarrow> ('w rpcd, s32 \<times> nat) state" where
  "tc1_srv_check os op pRpc = do {
     ready \<leftarrow> gets tc1_lib_ready;
     if ready then do {
       req \<leftarrow> gets (\<lambda>s. mread (pRpcBuf s) (pRpc + 4) RPC_MAX_BUF_SIZE);
       r \<leftarrow> syscall os (Sys_tc1_rpc_srv_entry op req);
       n \<leftarrow> lib_packs (r_packs r) 0;
       ret (r_ret r, n) }
     else ret (- 1, 0) }"

definition rpc_dispatch :: "'w os \<Rightarrow> nat \<Rightarrow> ('w rpcd, nat) state" where
  "rpc_dispatch os pRpc = do {
     ok \<leftarrow> RPC_GetPackInfo (pRpc + 4);
     if \<not> ok then rpc_param_error 0
     else do {
       op \<leftarrow> rpc_load pRpc 4;
       if rd32 op = IPC_RPC_QUERY_AP_SYS_PROPERTY then op_QUERY_PROPERTY os
       else do {
         (r, n) \<leftarrow> tc1_srv_check os (rd32 op) pRpc;
         if r = 0 then ret n else rpc_param_error n } } }"

section \<open>The main loop\<close>

text \<open>A turn of the loop of \<open>main\<close>; False when the request did not arrive within \<open>fuel\<close> reads.\<close>

definition rpc_turn :: "nat \<Rightarrow> 'w os \<Rightarrow> ('w rpcd, bool) state" where
  "rpc_turn fuel os = do {
     stream \<leftarrow> gets rpc_stream;
     req \<leftarrow> (if \<not> stream then do {
         fd \<leftarrow> gets rpc_fd;
         r \<leftarrow> syscall os (Sys_ioctl fd ''CCCI_RPC_IOCTL_GET_INDEX'' []);
         rpc_com_wakelock os True;
         if r_ret r <s 0 \<or> 5 <s r_ret r then do { n \<leftarrow> rpc_param_error 0; ret (Some (r_ret r, n)) }
         else do { n \<leftarrow> rpc_dispatch os ((RPC_MAX_BUF_SIZE + 4) * unat (r_ret r)); ret (Some (r_ret r, n)) } }
       else do {
         i \<leftarrow> rpc_receive fuel os;
         case i of None \<Rightarrow> ret None
         | Some idx \<Rightarrow> do {
             n \<leftarrow> rpc_dispatch os ((RPC_MAX_BUF_SIZE + 20) * unat idx + 16);
             ret (Some (idx, n)) } });
     case req of None \<Rightarrow> ret False
     | Some (idx, n) \<Rightarrow> do {
         _ \<leftarrow> RPC_WriteToMD os idx n;
         rpc_com_wakelock os False;
         ret True } }"

definition rpc_signal_treatment :: "s32 \<Rightarrow> ('w rpcd, unit) state" where
  "rpc_signal_treatment param = modify (\<lambda>s. s\<lparr>rpc_exit_signal := param\<rparr>)"

section \<open>Start and end\<close>

definition load_support_lib :: "'w os \<Rightarrow> ('w rpcd, s32) state" where
  "load_support_lib os = do {
     h \<leftarrow> syscall os (Sys_dlopen ''/vendor/lib/libccci_tc1_srv.so'');
     modify (\<lambda>s. s\<lparr>tc1_support_lib := (r_ret h \<noteq> 0)\<rparr>);
     if r_ret h = 0 then ret (- 1)
     else do {
       f \<leftarrow> syscall os (Sys_dlsym ''tc1_lib_init'');
       if r_ret f = 0 then do { _ \<leftarrow> syscall os Sys_dlclose; ret (- 1) }
       else do {
         g \<leftarrow> syscall os (Sys_dlsym ''tc1_rpc_srv_entry'');
         if r_ret g = 0 then do { _ \<leftarrow> syscall os Sys_dlclose; ret (- 1) }
         else do {
           i \<leftarrow> syscall os Sys_tc1_lib_init;
           if r_ret i <s 0 then do { _ \<leftarrow> syscall os Sys_dlclose; ret (- 1) }
           else do { modify (\<lambda>s. s\<lparr>tc1_lib_ready := True\<rparr>); ret 0 } } } } }"

text \<open>The device node and the number of the modem; \<open>None\<close> for a wrong argument.\<close>

definition rpc_select :: "'w os \<Rightarrow> string list \<Rightarrow> ('w rpcd, (string \<times> s32) option) state" where
  "rpc_select os args = (case args of
     [a] \<Rightarrow>
       (if a = ''0'' then do { n \<leftarrow> ccci_get_node_name os (ccci_node_list ! 46) 0; ret (Some (node_path n, 0)) }
        else if a = ''1'' then do { n \<leftarrow> ccci_get_node_name os (ccci_node_list ! 46) 1; ret (Some (node_path n, 1)) }
        else if a = ''4'' then do { n \<leftarrow> ccci_get_node_name os (ccci_node_list ! 46) 4; ret (Some (node_path n, 4)) }
        else ret None)
   | _ \<Rightarrow> ret (Some (''/dev/ccci_rpc'', 0)))"

definition rpc_stream_mode :: "'w os \<Rightarrow> s32 \<Rightarrow> ('w rpcd, bool) state" where
  "rpc_stream_mode os md = (if md = 4 then ret True
     else do {
       v1 \<leftarrow> ccci_get_version os;
       v2 \<leftarrow> (if v1 = 3 then ret v1 else ccci_get_version os);
       v3 \<leftarrow> (if v1 = 3 \<or> v2 = 5 then ret v2 else ccci_get_version os);
       ret (v1 = 3 \<or> v2 = 5 \<or> v3 = 6) })"

text \<open>\<open>main\<close> up to the loop: True when the loop is reached. A null buffer is cleared before it is looked for.\<close>

definition rpc_start :: "'w os \<Rightarrow> string list \<Rightarrow> ('w rpcd, bool) state" where
  "rpc_start os args = do {
     _ \<leftarrow> ccci_get_version os;
     m \<leftarrow> rpc_select os args;
     case m of None \<Rightarrow> ret False
     | Some (node, md) \<Rightarrow> do {
         stream \<leftarrow> rpc_stream_mode os md;
         modify (\<lambda>s. s\<lparr>rpc_md_id := md, rpc_stream := stream\<rparr>);
         fd \<leftarrow> syscall os (Sys_open node O_RDWR 0);
         modify (\<lambda>s. s\<lparr>rpc_fd := r_ret fd\<rparr>);
         if r_ret fd = - 1 then ret False
         else do {
           b \<leftarrow> (if stream then do {
                b \<leftarrow> syscall os (Sys_malloc 10340);
                (if r_ret b = 0 then fault else ret ());
                modify (\<lambda>s. s\<lparr>pRpcBuf := (\<lambda>_. 0)\<rparr>);
                ret (r_ret b) }
              else do { b \<leftarrow> syscall os (Sys_mmap (r_ret fd) 4); ret (r_ret b) });
           p \<leftarrow> syscall os (Sys_malloc 96);
           (if r_ret p = 0 then fault else ret ());
           if b = 0 then ret False
           else do { _ \<leftarrow> load_support_lib os; ret True } } } }"

definition rpc_end :: "'w os \<Rightarrow> ('w rpcd, unit) state" where
  "rpc_end os = do {
     fd \<leftarrow> gets rpc_fd;
     _ \<leftarrow> syscall os (Sys_close fd);
     _ \<leftarrow> syscall os Sys_dlclose;
     ret () }"

end
