(* ===== verification/Rpcd_Serve.thy ===== *)
theory Rpcd_Serve
  imports Rpcd
begin

unbundle bit_operations_syntax

text \<open>
  What \<open>ccci_rpcd\<close> does with a request of a modem that keeps to the sizes of the slots: no access leaves the
  buffer, and the answer carries the arguments of the operation.
\<close>

declare rd32_take [simp]

section \<open>Wake locks and answers\<close>

text \<open>What the daemon has written to its device, and the state that wake locks do not touch.\<close>

definition sent_by :: "s32 \<Rightarrow> sysreq \<Rightarrow> u8 list list" where
  "sent_by fd q = (case q of Sys_write g bs \<Rightarrow> if g = fd then [bs] else [] | _ \<Rightarrow> [])"

lemma sent_by_simps [simp]:
  "sent_by fd (Sys_write g bs) = (if g = fd then [bs] else [])" "sent_by fd (Sys_open p fl m) = []"
  "sent_by fd (Sys_read g n) = []" "sent_by fd (Sys_property_get k) = []" "sent_by fd (Sys_tc1_rpc_srv_entry op bs) = []"
  by (simp_all add: sent_by_def)

definition sent :: "'w rpcd \<Rightarrow> u8 list list" where
  "sent s = concat (map (sent_by (rpc_fd s)) (trace s))"

definition core :: "'w rpcd \<Rightarrow> _" where
  "core s = (rpc_stream s, rpc_fd s, pRpcBuf s, rpc_buff_state s, rpc_buff_offset s, rpc_RetVal s, property_val s,
     rpc_PackInfo s, tc1_lib_ready s, ub s, rpc_aborted s)"

text \<open>
  New descriptors differ from the one of the device, a failing \<open>open\<close> sets \<open>errno\<close>; the descriptors of the wake
  locks differ from the one of the device.
\<close>

definition fresh_fds :: "'w os \<Rightarrow> s32 \<Rightarrow> bool" where
  "fresh_fds os fd \<longleftrightarrow> (\<forall>w p fl m. r_ret (fst (os (Sys_open p fl m) w)) \<noteq> fd \<and>
     (r_ret (fst (os (Sys_open p fl m) w)) <s 0 \<longrightarrow> r_errno (fst (os (Sys_open p fl m) w)) \<noteq> 0))"

definition wake_ok :: "'w rpcd \<Rightarrow> bool" where
  "wake_ok s \<longleftrightarrow> length (wake_fds s) = 2 \<and> (wake_initialized s \<and> wake_error s = 0 \<longrightarrow> rpc_fd s \<notin> set (wake_fds s))"

definition same_core :: "'w rpcd \<Rightarrow> 'w rpcd \<Rightarrow> bool" where
  "same_core s t \<longleftrightarrow> core t = core s \<and> sent t = sent s"

lemma two_fds: "length xs = 2 \<Longrightarrow> xs[0 := a, Suc 0 := b] = [a, b]"
  by (cases xs) (auto simp: length_Suc_conv)

lemma freshD:
  assumes "fresh_fds os fd"
  shows "r_ret (fst (os (Sys_open p fl m) w)) \<noteq> fd" "fd \<noteq> r_ret (fst (os (Sys_open p fl m) w))"
    and "r_ret (fst (os (Sys_open p fl m) w)) <s 0 \<Longrightarrow> r_errno (fst (os (Sys_open p fl m) w)) \<noteq> 0"
  using assms by (auto simp: fresh_fds_def)

lemma wake_open_two:
  assumes "fresh_fds os (rpc_fd s)" "length (wake_fds s) = 2"
  shows "wp (wake_open os [a, b] 0) (\<lambda>r t. same_core s t \<and> length (wake_fds t) = 2 \<and>
     (wake_error t = 0 \<longrightarrow> rpc_fd t \<notin> set (wake_fds t))) s"
  using assms(2) by (simp add: wp_simps case_prod_beta freshD [OF assms(1)] same_core_def core_def sent_def two_fds)

lemma same_core_trans: "same_core s t \<Longrightarrow> same_core t u \<Longrightarrow> same_core s u"
  by (simp add: same_core_def)

lemma same_core_fd: "same_core s t \<Longrightarrow> rpc_fd t = rpc_fd s"
  by (simp add: same_core_def core_def)

lemma wake_initialize_law:
  assumes f: "fresh_fds os (rpc_fd s)" and w: "wake_ok s"
  shows "wp (wake_initialize os) (\<lambda>_ t. same_core s t \<and> wake_ok t) s"
proof (cases "wake_initialized s")
  case True
  then show ?thesis using w by (simp add: wake_initialize_def wp_simps same_core_def)
next
  case False
  have l: "length (wake_fds s) = 2" using w by (simp add: wake_ok_def)
  have fin: "wp (modify (\<lambda>s. s\<lparr>wake_initialized := True\<rparr>)) (\<lambda>_ u. same_core s u \<and> wake_ok u) t"
    if "same_core s t" "length (wake_fds t) = 2" "wake_error t = 0 \<longrightarrow> rpc_fd t \<notin> set (wake_fds t)" for t
    using that by (auto simp: wp_simps same_core_def core_def sent_def wake_ok_def)
  have again: "wp (wake_open os [c, d] 0) (\<lambda>r u. same_core s u \<and> length (wake_fds u) = 2 \<and>
      (wake_error u = 0 \<longrightarrow> rpc_fd u \<notin> set (wake_fds u))) t" if "same_core s t" "length (wake_fds t) = 2" for c d t
    using wake_open_two [of os t c d] f that same_core_fd [OF that(1)] by (auto elim!: wp_mono intro: same_core_trans)
  show ?thesis
    unfolding wake_initialize_def using False
    apply (simp add: wp_simps del: wake_open.simps)
    apply (rule wp_mono [OF wake_open_two [OF f l]])
    apply (auto simp: wp_if wp_bind wp_return simp del: wake_open.simps intro!: fin wp_mono [OF again])
    done
qed

lemma wakelock_law:
  assumes f: "fresh_fds os (rpc_fd s)" and w: "wake_ok s"
  shows "wp (rpc_com_wakelock os b) (\<lambda>_ t. same_core s t \<and> wake_ok t) s"
proof -
  have wr: "wp (syscall os (Sys_write (wake_fds t ! i) bs)) (\<lambda>_ u. same_core s u \<and> wake_ok u) t"
    if "same_core s t" "wake_ok t" "wake_initialized t" "wake_error t = 0" "i < 2" for t i bs
  proof -
    have "wake_fds t ! i \<noteq> rpc_fd t" using that(2-5) by (metis nth_mem wake_ok_def)
    then show ?thesis using that(1,2) by (auto simp: wp_simps case_prod_beta same_core_def core_def sent_def wake_ok_def)
  qed
  have i: "wp (wake_initialize os) (\<lambda>_ t. wake_initialized t) s"
    by (auto simp: wake_initialize_def wp_simps intro!: wp_intro)
  show ?thesis
    unfolding rpc_com_wakelock_def
    apply (rule wp_bindI, rule wp_mono [where Q = "\<lambda>_ t. (same_core s t \<and> wake_ok t) \<and> wake_initialized t"])
    subgoal using wake_initialize_law [OF f w] i by (simp add: wp_def split: prod.splits)
    apply (auto simp: wp_simps intro!: wp_mono [OF wr] simp del: wp_syscall)
    done
qed

section \<open>Arguments\<close>

text \<open>Arguments in memory: each has its length in front and is padded to four bytes; padding is not written.\<close>

definition arg_bytes :: "u8 list \<Rightarrow> nat" where
  "arg_bytes c = 4 + 4 * ((length c + 3) div 4)"

fun args_bytes :: "u8 list list \<Rightarrow> nat" where
  "args_bytes [] = 0"
| "args_bytes (c # cs) = arg_bytes c + args_bytes cs"

fun put_args :: "memory \<Rightarrow> nat \<Rightarrow> u8 list list \<Rightarrow> memory" where
  "put_args m p [] = m"
| "put_args m p (c # cs) = put_args (mwrite (mwrite m p (le32 (of_nat (length c)))) (p + 4) c) (p + arg_bytes c) cs"

text \<open>The receiver's view: \<open>k\<close> arguments at the start of a list of bytes.\<close>

fun get_args :: "nat \<Rightarrow> u8 list \<Rightarrow> u8 list list" where
  "get_args 0 bs = []"
| "get_args (Suc k) bs = (let n = unat (rd32 bs) in
     take n (drop 4 bs) # get_args k (drop (4 + 4 * ((n + 3) div 4)) bs))"

lemma arg_bytes_ge: "4 + length c \<le> arg_bytes c"
  by (simp add: arg_bytes_def)

lemma put_args_below: "a + n \<le> p \<Longrightarrow> mread (put_args m p cs) a n = mread m a n"
proof (induction cs arbitrary: m p)
  case (Cons c cs)
  then show ?case by (simp add: mread_mwrite_disjoint trans_le_add1)
qed simp

lemma get_put_args:
  "list_all (\<lambda>c. length c < 2 ^ 32) cs \<Longrightarrow> get_args (length cs) (mread (put_args m p cs) p (args_bytes cs)) = cs"
proof (induction cs arbitrary: m p)
  case (Cons c cs)
  let ?m = "mwrite (mwrite m p (le32 (of_nat (length c)))) (p + 4) c" and ?M = "put_args m p (c # cs)"
  have "mread ?M p (arg_bytes c) = mread ?m p (arg_bytes c)" by (simp add: put_args_below)
  also have "\<dots> = mread ?m p 4 @ mread ?m (p + 4) (arg_bytes c - 4)"
    using mread_append [of ?m p 4 "arg_bytes c - 4"] arg_bytes_ge [of c] by simp
  also have "mread ?m p 4 = le32 (of_nat (length c))"
    using mread_mwrite_same [of m p "le32 (of_nat (length c))"] by (simp add: mread_mwrite_disjoint)
  also have "mread ?m (p + 4) (arg_bytes c - 4) = c @ mread ?m (p + 4 + length c) (arg_bytes c - 4 - length c)"
    using mread_append [of ?m "p + 4" "length c" "arg_bytes c - 4 - length c"] arg_bytes_ge [of c] by simp
  finally have first: "mread ?M p (arg_bytes c) = le32 (of_nat (length c)) @ c @ mread ?m (p + 4 + length c) (arg_bytes c - 4 - length c)" .
  have all: "mread ?M p (args_bytes (c # cs)) = mread ?M p (arg_bytes c) @ mread ?M (p + arg_bytes c) (args_bytes cs)"
    by (simp add: mread_append)
  have n: "unat (of_nat (length c) :: u32) = length c" using Cons.prems by (simp add: unat_of_nat_small)
  have l: "4 + 4 * ((length c + 3) div 4) = arg_bytes c" by (simp add: arg_bytes_def)
  have "drop (arg_bytes c) (mread ?M p (args_bytes (c # cs))) = mread ?M (p + arg_bytes c) (args_bytes cs)"
    unfolding all by simp
  moreover have "rd32 (mread ?M p (args_bytes (c # cs))) = of_nat (length c)" unfolding all first by simp
  moreover have "take (length c) (drop 4 (mread ?M p (args_bytes (c # cs)))) = c" unfolding all first by simp
  ultimately show ?case
    using Cons.IH [of ?m "p + arg_bytes c"] Cons.prems by (simp add: Let_def n l del: put_args.simps(2)) (simp)
qed simp

text \<open>What an argument of an answer contains: variables of the daemon or memory of the library.\<close>

definition pack_content :: "'w rpcd \<Rightarrow> RPC_PACKET_INFO \<Rightarrow> u8 list option" where
  "pack_content s p = (let n = unat (pack_len p); v = (case pack_data p of
       At_RetVal \<Rightarrow> Some (le32 (rpc_RetVal s)) | At_property \<Rightarrow> Some (property_val s) | From_lib bs \<Rightarrow> Some bs | _ \<Rightarrow> None)
     in case v of None \<Rightarrow> None | Some bs \<Rightarrow> if n \<le> length bs then Some (take n bs) else None)"

lemma map_byte_at: "n \<le> length bs \<Longrightarrow> map (byte_at bs) [0..<n] = take n bs"
  by (rule nth_equalityI) (simp_all add: byte_at_def)

lemma fetch_law:
  assumes "pack_content s p = Some c" "length (property_val s) = PROPERTY_VALUE_MAX"
  shows "run_state (fetch_pack (pack_data p) (unat (pack_len p))) s = (c, s)" "length c = unat (pack_len p)"
    "pack_data p \<noteq> In_buf a"
  using assms by (auto simp: pack_content_def fetch_pack_def Let_def map_byte_at split: rpc_data.splits if_splits)

lemma rpc_store_run [simp]:
  "a + length bs \<le> rpc_buf_len s \<Longrightarrow> run_state (rpc_store a bs) s = ((), s\<lparr>pRpcBuf := mwrite (pRpcBuf s) a bs\<rparr>)"
  by (simp add: rpc_store_def)

lemma rpc_load_run [simp]: "a + n \<le> rpc_buf_len s \<Longrightarrow> run_state (rpc_load a n) s = (mread (pRpcBuf s) a n, s)"
  by (simp add: rpc_load_def)

lemma rpc_buf_len_mem [simp]: "rpc_buf_len (s\<lparr>pRpcBuf := m\<rparr>) = rpc_buf_len s"
  by (simp add: rpc_buf_len_def)

lemma pack_content_mem [simp]: "pack_content (s\<lparr>pRpcBuf := m\<rparr>) p = pack_content s p"
  by (simp add: pack_content_def split: rpc_data.split)

lemma put_args_law:
  "length (property_val s) = PROPERTY_VALUE_MAX \<Longrightarrow> length (rpc_PackInfo s) = RPC_MAX_ARG_NUM \<Longrightarrow>
   i + length cs \<le> RPC_MAX_ARG_NUM \<Longrightarrow> (\<forall>j<length cs. pack_content s (rpc_PackInfo s ! (i + j)) = Some (cs ! j)) \<Longrightarrow>
   d + args_bytes cs + 4 \<le> RPC_MAX_BUF_SIZE \<Longrightarrow> p + args_bytes cs \<le> rpc_buf_len s \<Longrightarrow>
   run_state (rpc_put_args [i..<i + length cs] p (of_nat d)) s =
     (Some (of_nat (d + args_bytes cs)), s\<lparr>pRpcBuf := put_args (pRpcBuf s) p cs\<rparr>)"
proof (induction cs arbitrary: i p d s)
  case (Cons c cs)
  let ?p = "rpc_PackInfo s ! i"
  have c: "pack_content s ?p = Some c" using Cons.prems(4) by (metis add.right_neutral length_greater_0_conv list.discI nth_Cons_0)
  note f = fetch_law [OF c Cons.prems(1)]
  have len: "pack_len ?p = of_nat (length c)" using f(2) by simp
  have b: "d + arg_bytes c + args_bytes cs + 4 \<le> 2048" "d + 8 + length c \<le> 2048" "p + arg_bytes c \<le> rpc_buf_len s"
    "4 + length c \<le> arg_bytes c"
    using Cons.prems(5,6) arg_bytes_ge [of c] by auto
  have "unat (of_nat d + 8 + of_nat (length c) :: u32) = d + 8 + length c"
    using unat_of_nat_small [of "d + 8 + length c"] b(2) by simp
  then have room: "\<not> 2048 < (of_nat d + 8 + of_nat (length c) :: u32)" using b(2) by (simp add: word_less_nat_alt)
  have lc: "unat (of_nat (length c) :: u32) = length c" using b(2) by (intro unat_of_nat_small) simp
  then have al: "4 + unat (align4 (of_nat (length c))) = arg_bytes c" using b(2) by (simp add: unat_align4 arg_bytes_def)
  have al': "(of_nat d :: u32) + 4 + align4 (of_nat (length c)) = of_nat (d + arg_bytes c)"
    unfolding al [symmetric] by simp
  let ?s = "s\<lparr>pRpcBuf := mwrite (mwrite (pRpcBuf s) p (le32 (of_nat (length c)))) (p + 4) c\<rparr>"
  have rest: "\<forall>j<length cs. pack_content s (rpc_PackInfo s ! (Suc i + j)) = Some (cs ! j)"
    using Cons.prems(4) by (metis Suc_less_eq add_Suc_right add_Suc length_Cons nth_Cons_Suc)
  have upt: "[i..<i + length (c # cs)] = i # [Suc i..<Suc i + length cs]" by (simp add: upt_rec)
  have i: "i < 6" using Cons.prems(3) by simp
  have IH: "run_state (rpc_put_args [Suc i..<Suc i + length cs] (p + arg_bytes c) (of_nat (d + arg_bytes c))) ?s =
     (Some (of_nat (d + arg_bytes c + args_bytes cs)), ?s\<lparr>pRpcBuf := put_args (pRpcBuf ?s) (p + arg_bytes c) cs\<rparr>)"
    using Cons.prems b rest by (intro Cons.IH) simp_all
  let ?s1 = "s\<lparr>pRpcBuf := mwrite (pRpcBuf s) p (le32 (of_nat (length c)))\<rparr>"
  have g: "run_state (fetch_pack (pack_data ?p) (length c)) ?s1 = (c, ?s1)"
    using fetch_law(1) [of ?s1 ?p c] c Cons.prems(1) f(2) by simp
  have IH': "run_state (rpc_put_args [Suc i..<Suc i + length cs] (p + 4 + unat (align4 (of_nat (length c) :: u32)))
      (of_nat d + 4 + align4 (of_nat (length c)))) ?s =
     (Some (of_nat (d + arg_bytes c + args_bytes cs)), ?s\<lparr>pRpcBuf := put_args (pRpcBuf ?s) (p + arg_bytes c) cs\<rparr>)"
    using IH unfolding al' by (simp only: al add.assoc)
  define js where "js = [Suc i..<Suc i + length cs]"
  show ?case
    unfolding upt rpc_put_args.simps js_def [symmetric]
    using i Cons.prems(2) b f(3) [of "p + 4"] room g IH' [folded js_def]
    by (simp add: len lc del: add_Suc_right)
qed simp

section \<open>The answer\<close>

text \<open>An answer to the request whose first 20 bytes are \<open>req\<close>, with the arguments \<open>cs\<close>.\<close>

definition is_answer :: "u8 list \<Rightarrow> u8 list list \<Rightarrow> u8 list \<Rightarrow> bool" where
  "is_answer req cs ans \<longleftrightarrow> length ans = 24 + args_bytes cs \<and>
     rd32 ans = rd32 req AND NOT CCCI_RPC_REQ_SEND_AGAIN \<and> rd32 (drop 4 ans) = of_nat (length ans) \<and>
     rd32 (drop 8 ans) = rd32 (drop 8 req) + 1 \<and> rd32 (drop 12 ans) = rd32 (drop 12 req) \<and>
     rd32 (drop 16 ans) = RPC_API_RESP_ID OR rd32 (drop 16 req) \<and> rd32 (drop 20 ans) = of_nat (length cs) \<and>
     get_args (length cs) (drop 24 ans) = cs"

text \<open>The memory of the slot when the answer is sent.\<close>

definition answer_mem :: "memory \<Rightarrow> nat \<Rightarrow> u8 list list \<Rightarrow> memory" where
  "answer_mem m a cs =
     mwrite (mwrite (mwrite (put_args (mwrite (mwrite m (a + 16) (le32 (RPC_API_RESP_ID OR rd32 (mread m (a + 16) 4))))
       (a + 20) (le32 (of_nat (length cs)))) (a + 24) cs)
       (a + 8) (le32 (rd32 (mread m (a + 8) 4) + 1)))
       a (le32 (rd32 (mread m a 4) AND NOT CCCI_RPC_REQ_SEND_AGAIN)))
       (a + 4) (le32 (of_nat (24 + args_bytes cs)))"

lemma mread_le32 [simp]: "mread (mwrite m a (le32 w)) a 4 = le32 w"
  using mread_mwrite_same [of m a "le32 w"] by simp

lemma rd32_mread: "4 < n \<Longrightarrow> rd32 (mread m a n) = rd32 (mread m a 4)"
  using mread_append [of m a 4 "n - 4"] by (simp add: rd32_append)

lemma rd32_mread_add: "rd32 (mread m a (4 + n)) = rd32 (mread m a 4)"
  by (cases n) (simp_all add: rd32_mread)

lemmas mem_facts = mread_mwrite_disjoint put_args_below

lemma answer_mem_parts:
  defines "M m a cs \<equiv> answer_mem m a cs"
  shows "mread (M m a cs) a 4 = le32 (rd32 (mread m a 4) AND NOT CCCI_RPC_REQ_SEND_AGAIN)"
    and "mread (M m a cs) (a + 4) 4 = le32 (of_nat (24 + args_bytes cs))"
    and "mread (M m a cs) (a + 8) 4 = le32 (rd32 (mread m (a + 8) 4) + 1)"
    and "mread (M m a cs) (a + 12) 4 = mread m (a + 12) 4"
    and "mread (M m a cs) (a + 16) 4 = le32 (RPC_API_RESP_ID OR rd32 (mread m (a + 16) 4))"
    and "mread (M m a cs) (a + 20) 4 = le32 (of_nat (length cs))"
  unfolding M_def answer_mem_def by (simp_all add: mem_facts)

lemma answer_mem_args:
  "mread (answer_mem m a cs) (a + 24) n =
   mread (put_args (mwrite (mwrite m (a + 16) (le32 (RPC_API_RESP_ID OR rd32 (mread m (a + 16) 4))))
       (a + 20) (le32 (of_nat (length cs)))) (a + 24) cs) (a + 24) n"
  unfolding answer_mem_def by (simp add: mem_facts)

lemma answer_mem_law:
  assumes "list_all (\<lambda>c. length c < 2 ^ 32) cs"
  shows "is_answer (mread m a 20) cs (mread (answer_mem m a cs) a (24 + args_bytes cs))"
  using get_put_args [OF assms]
  by (simp add: is_answer_def drop_mread rd32_mread rd32_mread_add answer_mem_parts answer_mem_args)

text \<open>The shape of the daemon's state in stream mode; the slots do not overlap and fill the buffer.\<close>

definition rpc_shape :: "'w rpcd \<Rightarrow> bool" where
  "rpc_shape s \<longleftrightarrow> rpc_stream s \<and> length (rpc_buff_state s) = RPC_BUFFER_SLOT_NUM \<and>
     length (rpc_buff_offset s) = RPC_BUFFER_SLOT_NUM \<and> length (property_val s) = PROPERTY_VALUE_MAX \<and>
     length (rpc_PackInfo s) = RPC_MAX_ARG_NUM"

abbreviation slot_at :: "u32 \<Rightarrow> nat" where
  "slot_at idx \<equiv> 2068 * unat idx"

lemma slot_inside: "unat (idx :: u32) < 5 \<Longrightarrow> n \<le> 2068 \<Longrightarrow> slot_at idx + n \<le> 10340"
  by simp

lemma stream_len: "rpc_shape s \<Longrightarrow> rpc_buf_len s = 10340"
  by (simp add: rpc_shape_def rpc_buf_len_def)

definition has_args :: "'w rpcd \<Rightarrow> u8 list list \<Rightarrow> bool" where
  "has_args s cs \<longleftrightarrow> length cs \<le> RPC_MAX_ARG_NUM \<and> args_bytes cs \<le> 2020 \<and>
     (\<forall>j<length cs. pack_content s (rpc_PackInfo s ! j) = Some (cs ! j))"

lemma small_args: "args_bytes cs \<le> n \<Longrightarrow> list_all (\<lambda>c. length c \<le> n) cs"
  by (induction cs arbitrary: n) (auto simp: arg_bytes_def list_all_iff)

lemma WriteToMD_law:
  assumes s: "rpc_shape s" and i: "unat idx < RPC_BUFFER_SLOT_NUM" and c: "has_args s cs"
  defines "ans \<equiv> mread (answer_mem (pRpcBuf s) (slot_at idx) cs) (slot_at idx) (24 + args_bytes cs)"
  shows "wp (RPC_WriteToMD os idx (length cs)) (\<lambda>_ t. t = s\<lparr>world := world t, trace := trace s @ [Sys_write (rpc_fd s) ans],
     pRpcBuf := answer_mem (pRpcBuf s) (slot_at idx) cs\<rparr>) s"
proof -
  let ?a = "slot_at idx" and ?n = "of_nat (24 + args_bytes cs) :: u32"
  let ?m = "mwrite (mwrite (pRpcBuf s) (?a + 16) (le32 (RPC_API_RESP_ID OR rd32 (mread (pRpcBuf s) (?a + 16) 4))))
       (?a + 20) (le32 (of_nat (length cs)))"
  let ?s = "s\<lparr>pRpcBuf := ?m\<rparr>"
  have st: "rpc_stream s" and len: "rpc_buf_len s = 10340" and b: "args_bytes cs \<le> 2020" "?a \<le> 8272"
    using s i c by (auto simp: rpc_shape_def stream_len has_args_def)
  have put: "run_state (rpc_put_args [0..<length cs] (?a + 24) 24) ?s =
      (Some ?n, s\<lparr>pRpcBuf := put_args ?m (?a + 24) cs\<rparr>)"
    using put_args_law [of ?s 0 cs 24 "?a + 24"] s c b len by (simp add: rpc_shape_def has_args_def)
  have n: "unat ?n = 24 + args_bytes cs" using b by (intro unat_of_nat_small) simp
  have one: "?n - 20 \<le>s MAX_RPC_PKT_BYTE"
  proof -
    have "?n - 20 = of_nat (4 + args_bytes cs)" by simp
    then show ?thesis using b(1) sint_of_nat_small [of "4 + args_bytes cs"] sint_of_nat_small [of 3456]
      by (simp add: word_sle_eq del: of_nat_add)
  qed
  define N where "N = ?n"
  show ?thesis
    unfolding RPC_WriteToMD_def rpc_send_one_def ans_def answer_mem_def N_def [symmetric]
    using st len b put [folded N_def] n [folded N_def] one [folded N_def]
    by (simp add: wp_def case_prod_beta Let_def mem_facts add.commute [of _ ?a])
qed

section \<open>A request\<close>

text \<open>A packet of a modem: header, operation and arguments.\<close>

definition request :: "u32 \<Rightarrow> u32 \<Rightarrow> u32 \<Rightarrow> u32 \<Rightarrow> u8 list \<Rightarrow> u8 list" where
  "request mark ch idx op body = le32 mark @ le32 (of_nat (20 + length body)) @ le32 ch @ le32 idx @ le32 op @ body"

lemma length_request [simp]: "length (request mark ch idx op body) = 20 + length body"
  by (simp add: request_def)

lemma request_parts [simp]:
  "rd32 (request mark ch idx op body) = mark" "rd32 (drop 4 (request mark ch idx op body)) = of_nat (20 + length body)"
  "rd32 (drop 8 (request mark ch idx op body)) = ch" "rd32 (drop 12 (request mark ch idx op body)) = idx"
  "rd32 (drop 16 (request mark ch idx op body)) = op" "drop 20 (request mark ch idx op body) = body"
  by (simp_all add: request_def)

text \<open>A request in one packet for a slot that is not waiting.\<close>

lemma recv_whole:
  assumes s: "rpc_shape s" and i: "unat idx < RPC_BUFFER_SLOT_NUM" "rpc_buff_state s ! unat idx = RPC_BUFF_IDLE"
    and d: "mark AND CCCI_RPC_REQ_SEND_AGAIN = 0" and l: "length body \<le> RPC_MAX_BUF_SIZE"
  shows "run_state (rpc_recv_packet (request mark ch idx op body)) s = ((idx, True),
     s\<lparr>pRpcBuf := mwrite (pRpcBuf s) (slot_at idx) (request mark ch idx op body),
       rpc_buff_state := (rpc_buff_state s)[unat idx := 0], rpc_buff_offset := (rpc_buff_offset s)[unat idx := 0]\<rparr>)"
proof -
  let ?p = "request mark ch idx op body"
  have n: "unat (of_nat (20 + length body) :: u32) = 20 + length body" using l by (intro unat_of_nat_small) simp
  have cp: "map (byte_at ?p) [0..<20 + length body] = ?p" by (simp add: map_byte_at)
  have st: "byte_at (rpc_buff_state s) (unat idx) = 0" using s i by (simp add: byte_at_def rpc_shape_def)
  have fit: "slot_at idx + (20 + length body) \<le> rpc_buf_len s" using s i l by (simp add: stream_len)
  show ?thesis
    using i d l n cp fit st
    by (simp add: rpc_recv_packet_def rpc_recv_last_def rpc_copy_def rpc_set_slot_def Let_def del: of_nat_add)
qed

text \<open>The one argument of a request.\<close>

definition one_arg :: "u8 list \<Rightarrow> u8 list \<Rightarrow> u8 list" where
  "one_arg v rest = le32 1 @ le32 (of_nat (length v)) @ v @ rest"

lemma GetPackInfo_one:
  assumes s: "rpc_shape s" and m: "mread (pRpcBuf s) p 8 = le32 1 @ le32 (of_nat n)"
    and b: "n \<le> 2032" "p + 8 \<le> rpc_buf_len s"
  shows "run_state (RPC_GetPackInfo p) s =
     (True, s\<lparr>rpc_PackInfo := (rpc_PackInfo s)[0 := \<lparr>pack_len = of_nat n, pack_data = In_buf (p + 8)\<rparr>]\<rparr>)"
proof -
  have m': "mread (pRpcBuf s) p 4 = le32 1" "mread (pRpcBuf s) (p + 4) 4 = le32 (of_nat n)"
    using m mread_append [of "pRpcBuf s" p 4 4] by simp_all
  have n: "unat (of_nat n :: u32) = n" using b by (intro unat_of_nat_small) simp
  have "unat (4 + 4 + align4 (of_nat n) :: u32) \<le> 2048"
    using b(1) unat_align4 [of "of_nat n"] n by (simp add: unat_word_ariths)
  then have "\<not> 2048 < (8 + align4 (of_nat n) :: u32)" by (simp add: word_less_nat_alt)
  then show ?thesis
    using b(2) by (simp add: RPC_GetPackInfo_def m' set_pack_def)
qed

lemma QUERY_law:
  assumes s: "rpc_shape s" and p: "rpc_PackInfo s ! 0 = \<lparr>pack_len = of_nat (length name), pack_data = In_buf a\<rparr>"
    and m: "mread (pRpcBuf s) a (length name) = bytes name" and z: "NUL \<notin> set name"
    and b: "a + length name < rpc_buf_len s" "length name \<le> 2032"
    and pg: "fst (os (Sys_property_get name) (world s)) = res0\<lparr>r_ret := n, r_name := Some v\<rparr>"
    and v: "NUL \<notin> set v" "length v < PROPERTY_VALUE_MAX"
  shows "run_state (op_QUERY_PROPERTY os) s = (2, s\<lparr>world := snd (os (Sys_property_get name) (world s)),
     trace := trace s @ [Sys_property_get name], pRpcBuf := mwrite (pRpcBuf s) (a + length name) [0], rpc_RetVal := n,
     property_val := bytes v @ [0] @ drop (Suc (length v)) (property_val s),
     rpc_PackInfo := (rpc_PackInfo s)[0 := \<lparr>pack_len = 4, pack_data = At_RetVal\<rparr>,
        1 := \<lparr>pack_len = of_nat (Suc (length v)), pack_data = At_property\<rparr>]\<rparr>)"
proof -
  have hd: "hd (rpc_PackInfo s) = rpc_PackInfo s ! 0" using s by (cases "rpc_PackInfo s") (auto simp: rpc_shape_def)
  have n: "unat (of_nat (length name) :: u32) = length name" using b by (intro unat_of_nat_small) simp
  have c: "cstr t = t" if "NUL \<notin> set t" for t using that by (simp add: cstr_def takeWhile_eq_all_conv) metis
  have nm: "map char_of_byte (bytes name) = name" by (simp add: bytes_def comp_def)
  have m': "mread (mwrite (pRpcBuf s) (a + length name) [0]) a (length name) = bytes name"
    using m by (simp add: mread_mwrite_disjoint)
  obtain w where os: "os (Sys_property_get name) (world s) = (res0\<lparr>r_ret := n, r_name := Some v\<rparr>, w)"
    using pg by (cases "os (Sys_property_get name) (world s)") simp
  have lv: "length (bytes v) = length v" by (simp add: bytes_def)
  show ?thesis
    using b v
    by (simp add: op_QUERY_PROPERTY_def hd p n m' nm c [OF z] c [OF v(1)] os set_pack_def lv del: of_nat_Suc)
qed

section \<open>A turn of the loop\<close>

text \<open>From \<open>s\<close> to \<open>t\<close> the packets \<open>l\<close> were sent, and nothing went wrong.\<close>

definition served :: "'w rpcd \<Rightarrow> u8 list list \<Rightarrow> 'w rpcd \<Rightarrow> bool" where
  "served s l t \<longleftrightarrow> rpc_shape t \<and> wake_ok t \<and> sent t = sent s @ l \<and> ub t = ub s \<and> rpc_aborted t = rpc_aborted s \<and>
     rpc_fd t = rpc_fd s \<and> rpc_buff_state t = rpc_buff_state s \<and> tc1_lib_ready t = tc1_lib_ready s"

definition placed :: "u32 \<Rightarrow> u8 list \<Rightarrow> 'w rpcd \<Rightarrow> 'w rpcd" where
  "placed idx pkt t = t\<lparr>pRpcBuf := mwrite (pRpcBuf t) (slot_at idx) pkt,
     rpc_buff_state := (rpc_buff_state t)[unat idx := 0], rpc_buff_offset := (rpc_buff_offset t)[unat idx := 0]\<rparr>"

lemma same_core_served:
  assumes "served s l t" "same_core t u" "wake_ok u"
  shows "served s l u"
  using assms by (auto simp: served_def same_core_def core_def rpc_shape_def)

lemma served_refl: "rpc_shape s \<Longrightarrow> wake_ok s \<Longrightarrow> served s [] s"
  by (simp add: served_def)

lemma served_placed:
  assumes "served s [] t" "unat idx < RPC_BUFFER_SLOT_NUM" "rpc_buff_state s ! unat idx = RPC_BUFF_IDLE"
  shows "served s [] (placed idx pkt t)"
proof -
  have "(rpc_buff_state t)[unat idx := 0] = rpc_buff_state s"
    using assms by (metis list_update_id served_def)
  then show ?thesis using assms(1) by (auto simp: served_def placed_def rpc_shape_def wake_ok_def sent_def)
qed

lemma is_answer_take: "is_answer (take 20 req) cs ans \<longleftrightarrow> is_answer req cs ans"
  by (simp add: is_answer_def drop_take)

text \<open>The state in which the answer is sent: the arguments are there, the header of the request is still in the slot.\<close>

definition prepared :: "'w rpcd \<Rightarrow> u32 \<Rightarrow> u8 list \<Rightarrow> u8 list list \<Rightarrow> nat \<Rightarrow> 'w rpcd \<Rightarrow> bool" where
  "prepared s idx pkt cs n t \<longleftrightarrow> n = length cs \<and> has_args t cs \<and> served s [] t \<and>
     mread (pRpcBuf t) (slot_at idx) 20 = take 20 pkt"

lemma answer_step:
  assumes f: "fresh_fds os (rpc_fd s)" and i: "unat idx < RPC_BUFFER_SLOT_NUM" and p: "prepared s idx pkt cs n t"
  shows "wp (RPC_WriteToMD os idx n) (\<lambda>_. wp (rpc_com_wakelock os False)
     (\<lambda>_ u. \<exists>ans. is_answer pkt cs ans \<and> served s [ans] u)) t"
proof -
  have v: "served s [] t" and c: "has_args t cs" and n: "n = length cs" using p by (auto simp: prepared_def)
  let ?M = "answer_mem (pRpcBuf t) (slot_at idx) cs"
  define ans where "ans = mread ?M (slot_at idx) (24 + args_bytes cs)"
  have small: "list_all (\<lambda>c. length c < 2 ^ 32) cs"
    using c small_args [of cs 2020] by (auto simp: has_args_def list_all_iff)
  have a: "is_answer pkt cs ans"
    using answer_mem_law [OF small, of "pRpcBuf t" "slot_at idx"] p by (simp add: prepared_def is_answer_take ans_def)
  have "wp (rpc_com_wakelock os False) (\<lambda>_ u. \<exists>ans. is_answer pkt cs ans \<and> served s [ans] u) u"
    if u: "u = t\<lparr>world := world u, trace := trace t @ [Sys_write (rpc_fd t) ans], pRpcBuf := ?M\<rparr>" for u
  proof -
    have "served s [ans] (t\<lparr>world := world u, trace := trace t @ [Sys_write (rpc_fd t) ans], pRpcBuf := ?M\<rparr>)"
      using v by (auto simp: served_def rpc_shape_def wake_ok_def sent_def)
    then have sv: "served s [ans] u" by (subst u)
    have "fresh_fds os (rpc_fd u)" "wake_ok u" using f sv by (simp_all add: served_def)
    then show ?thesis using a sv by (auto intro!: wp_mono [OF wakelock_law] dest: same_core_served)
  qed
  then show ?thesis
    unfolding n using v i by (auto simp: served_def ans_def intro!: wp_mono [OF WriteToMD_law [OF _ _ c]])
qed

lemma turn_law:
  assumes s: "rpc_shape s" "wake_ok s" and f: "fresh_fds os (rpc_fd s)"
    and i: "unat idx < RPC_BUFFER_SLOT_NUM" "rpc_buff_state s ! unat idx = RPC_BUFF_IDLE"
    and d: "mark AND CCCI_RPC_REQ_SEND_AGAIN = 0" and l: "length body \<le> RPC_MAX_BUF_SIZE"
    and r: "fst (os (Sys_read (rpc_fd s) 3476) (world s)) =
      res0\<lparr>r_ret := of_nat (20 + length body), r_data := request mark ch idx op body\<rparr>"
    and disp: "\<And>t. served s [] t \<Longrightarrow> mread (pRpcBuf t) (slot_at idx) (20 + length body) = request mark ch idx op body \<Longrightarrow>
      wp (rpc_dispatch os (slot_at idx + 16)) (prepared s idx (request mark ch idx op body) cs) t"
  shows "wp (rpc_turn (Suc k) os) (\<lambda>b t. b \<and> (\<exists>ans. is_answer (request mark ch idx op body) cs ans \<and> served s [ans] t)) s"
proof -
  let ?p = "request mark ch idx op body"
  obtain w where os: "os (Sys_read (rpc_fd s) 3476) (world s) = (res0\<lparr>r_ret := of_nat (20 + length body), r_data := ?p\<rparr>, w)"
    using r by (cases "os (Sys_read (rpc_fd s) 3476) (world s)") simp
  let ?s = "s\<lparr>world := w, trace := trace s @ [Sys_read (rpc_fd s) 3476], rpc_RetVal := of_nat (20 + length body)\<rparr>"
  have v: "served s [] ?s" using s by (simp add: served_def rpc_shape_def wake_ok_def sent_def)
  have pos: "\<not> (of_nat (20 + length body) :: s32) \<le>s 0"
    using l sint_of_nat_small [of "20 + length body"] by (simp add: word_sle_eq del: of_nat_add)
  have rest: "wp (rpc_dispatch os (slot_at idx + 16)) (\<lambda>n. wp (RPC_WriteToMD os idx n) (\<lambda>_. wp (rpc_com_wakelock os False)
     (\<lambda>_ u. \<exists>ans. is_answer ?p cs ans \<and> served s [ans] u))) (placed idx ?p t)" if "served s [] t" for t
  proof -
    have "mread (pRpcBuf (placed idx ?p t)) (slot_at idx) (20 + length body) = ?p"
      using mread_mwrite_same [of "pRpcBuf t" "slot_at idx" ?p] by (simp add: placed_def)
    then show ?thesis by (rule wp_mono [OF disp [OF served_placed [OF that i]] answer_step [OF f i(1)]])
  qed
  have recv: "run_state (rpc_recv_packet ?p) t = ((idx, True), placed idx ?p t)" if "served s [] t" for t
    unfolding placed_def using that i by (intro recv_whole d l) (simp_all add: served_def)
  have lock: "wp (rpc_com_wakelock os True) (\<lambda>_. served s []) ?s"
    using wakelock_law [of os ?s True] f v by (auto simp: served_def intro: same_core_served [OF v] elim!: wp_mono)
  have got: "wp (rpc_receive (Suc k) os) (\<lambda>x t'. x = Some idx \<and> (\<exists>t. served s [] t \<and> t' = placed idx ?p t)) s"
    using pos by (auto simp: wp_simps os wp_eq [OF recv] simp del: of_nat_add intro!: wp_mono [OF lock])
  have last: "wp (RPC_WriteToMD os idx n) (\<lambda>_. wp (rpc_com_wakelock os False \<bind> (\<lambda>_. ret True))
       (\<lambda>b t. b \<and> (\<exists>ans. is_answer ?p cs ans \<and> served s [ans] t))) t"
    if "wp (RPC_WriteToMD os idx n) (\<lambda>_. wp (rpc_com_wakelock os False)
       (\<lambda>_ u. \<exists>ans. is_answer ?p cs ans \<and> served s [ans] u)) t" for n t
    by (rule wp_mono [OF that], rule wp_bindI, erule wp_mono, simp add: wp_return)
  show ?thesis
    unfolding rpc_turn_def using s(1)
    by (auto simp: rpc_shape_def wp_simps simp del: rpc_receive.simps intro!: wp_mono [OF got] wp_mono [OF rest] last)
qed

section \<open>What the modem gets\<close>

lemma request_part:
  assumes "k + j \<le> 20 + length body" "mread m a (20 + length body) = request mark ch idx op body"
  shows "mread m (a + k) j = take j (drop k (request mark ch idx op body))"
  unfolding assms(2) [symmetric] using assms(1) mread_append [of m "a + k" j "20 + length body - k - j"]
  by (simp add: drop_mread)

text \<open>A query for a property is answered with the result of \<open>property_get\<close> and the value.\<close>

lemma query_prepared:
  assumes s: "rpc_shape s" and i: "unat idx < RPC_BUFFER_SLOT_NUM" and v: "served s [] t"
    and body: "body = one_arg (bytes name) rest" and l: "length body \<le> RPC_MAX_BUF_SIZE" "length name \<le> 2032"
    and z: "NUL \<notin> set name" "NUL \<notin> set val" "length val < PROPERTY_VALUE_MAX"
    and pg: "\<And>w. fst (os (Sys_property_get name) w) = res0\<lparr>r_ret := n, r_name := Some val\<rparr>"
    and m: "mread (pRpcBuf t) (slot_at idx) (20 + length body) = request mark ch idx IPC_RPC_QUERY_AP_SYS_PROPERTY body"
  shows "wp (rpc_dispatch os (slot_at idx + 16)) (prepared s idx (request mark ch idx IPC_RPC_QUERY_AP_SYS_PROPERTY body)
     [le32 n, bytes val @ [0]]) t"
proof -
  let ?a = "slot_at idx" and ?p = "request mark ch idx IPC_RPC_QUERY_AP_SYS_PROPERTY body"
  have part: "mread (pRpcBuf t) (?a + k) j = take j (drop k ?p)" if "k + j \<le> 20 + length body" for k j
    using that m by (rule request_part)
  have lb: "length (bytes name) = length name" "length (bytes val) = length val" by (simp_all add: bytes_def)
  have b: "length body = 8 + length name + length rest" by (simp add: body one_arg_def lb)
  have st: "rpc_shape t" "rpc_buf_len t = 10340" and a: "?a \<le> 8272" using v i by (auto simp: served_def stream_len)
  let ?i = "(rpc_PackInfo t)[0 := \<lparr>pack_len = of_nat (length name), pack_data = In_buf (?a + 28)\<rparr>]"
  let ?t = "t\<lparr>rpc_PackInfo := ?i\<rparr>"
  have info: "run_state (RPC_GetPackInfo (?a + 20)) t = (True, ?t)"
    using GetPackInfo_one [of t "?a + 20" "length name"] st a b l part [of 20 8]
    by (simp add: body one_arg_def lb add.commute [of 28])
  have op: "run_state (rpc_load (?a + 16) 4) ?t = (le32 IPC_RPC_QUERY_AP_SYS_PROPERTY, ?t)"
    using st a part [of 16 4] by (simp add: request_def rpc_buf_len_def)
  obtain w where w: "os (Sys_property_get name) (world t) = (res0\<lparr>r_ret := n, r_name := Some val\<rparr>, w)"
    using pg [of "world t"] by (cases "os (Sys_property_get name) (world t)") simp
  have nm: "mread (pRpcBuf t) (?a + 28) (length name) = bytes name"
    using part [of 28 "length name"] b by (simp add: request_def body one_arg_def lb)
  let ?u = "?t\<lparr>world := w, trace := trace t @ [Sys_property_get name], pRpcBuf := mwrite (pRpcBuf t) (?a + 28 + length name) [0],
     rpc_RetVal := n, property_val := bytes val @ [0] @ drop (Suc (length val)) (property_val t),
     rpc_PackInfo := ?i[0 := \<lparr>pack_len = 4, pack_data = At_RetVal\<rparr>,
        1 := \<lparr>pack_len = of_nat (Suc (length val)), pack_data = At_property\<rparr>]\<rparr>"
  have q: "run_state (op_QUERY_PROPERTY os) ?t = (2, ?u)"
    using QUERY_law [where s = ?t and name = name and a = "?a + 28" and os = os and n = n and v = val] st a l b z nm w pg by (simp add: rpc_shape_def rpc_buf_len_def)
  have "prepared s idx ?p [le32 n, bytes val @ [0]] 2 ?u"
    unfolding prepared_def
  proof (intro conjI)
    have "length val \<le> 91" using z(3) by simp
    then have "unat (of_nat (Suc (length val)) :: u32) = Suc (length val)" by (intro unat_of_nat_small) simp
    then show "has_args ?u [le32 n, bytes val @ [0]]"
      using st(1) z(3) lb by (auto simp: has_args_def rpc_shape_def pack_content_def arg_bytes_def less_Suc_eq simp del: of_nat_Suc)
    show "served s [] ?u" using v z(3) lb by (auto simp: served_def rpc_shape_def wake_ok_def sent_def)
    show "mread (pRpcBuf ?u) ?a 20 = take 20 ?p" using part [of 0 20] by (simp add: mread_mwrite_disjoint)
  qed simp
  then show ?thesis
    by (simp add: rpc_dispatch_def wp_bind wp_if wp_eq [OF info] wp_eq [OF op] wp_eq [OF q] add.assoc)
qed

text \<open>Arguments as a modem lays them out, and the table that \<open>RPC_GetPackInfo\<close> fills for them.\<close>

fun enc_args :: "u8 list list \<Rightarrow> u8 list" where
  "enc_args [] = []"
| "enc_args (c # cs) = le32 (of_nat (length c)) @ c @ replicate (arg_bytes c - 4 - length c) 0 @ enc_args cs"

fun info_args :: "nat \<Rightarrow> nat \<Rightarrow> u8 list list \<Rightarrow> RPC_PACKET_INFO list \<Rightarrow> RPC_PACKET_INFO list" where
  "info_args i a [] ps = ps"
| "info_args i a (c # cs) ps =
     info_args (Suc i) (a + arg_bytes c) cs (ps[i := \<lparr>pack_len = of_nat (length c), pack_data = In_buf (a + 4)\<rparr>])"

lemma length_enc_args [simp]: "length (enc_args cs) = args_bytes cs"
  by (induction cs) (auto simp: arg_bytes_def)

lemma length_info_args [simp]: "length (info_args i a cs ps) = length ps"
  by (induction cs arbitrary: i a ps) auto

lemma pack_loop_law:
  "i + length cs \<le> RPC_MAX_ARG_NUM \<Longrightarrow> mread (pRpcBuf s) (p + j) (args_bytes cs) = enc_args cs \<Longrightarrow>
   j + args_bytes cs \<le> RPC_MAX_BUF_SIZE \<Longrightarrow> p + j + args_bytes cs \<le> rpc_buf_len s \<Longrightarrow>
   run_state (rpc_pack_loop [i..<i + length cs] p (of_nat j)) s =
     (of_nat (j + args_bytes cs), s\<lparr>rpc_PackInfo := info_args i (p + j) cs (rpc_PackInfo s)\<rparr>)"
proof (induction cs arbitrary: i j s)
  case (Cons c cs)
  have split: "mread (pRpcBuf s) (p + j) (arg_bytes c) @ mread (pRpcBuf s) (p + j + arg_bytes c) (args_bytes cs) =
      (le32 (of_nat (length c)) @ c @ replicate (arg_bytes c - 4 - length c) 0) @ enc_args cs"
    using Cons.prems(2) mread_append [of "pRpcBuf s" "p + j" "arg_bytes c" "args_bytes cs"] by simp
  have len: "length (le32 (of_nat (length c)) @ c @ replicate (arg_bytes c - 4 - length c) 0) = arg_bytes c"
    using arg_bytes_ge [of c] by simp
  have m: "mread (pRpcBuf s) (p + j) (arg_bytes c) = le32 (of_nat (length c)) @ c @ replicate (arg_bytes c - 4 - length c) 0"
    "mread (pRpcBuf s) (p + j + arg_bytes c) (args_bytes cs) = enc_args cs"
    using split len by (metis append_eq_append_conv length_mread)+
  have first: "mread (pRpcBuf s) (p + j) 4 = le32 (of_nat (length c))"
    using m(1) mread_append [of "pRpcBuf s" "p + j" 4 "arg_bytes c - 4"] arg_bytes_ge [of c] by simp
  have b: "4 + length c \<le> arg_bytes c" "j + arg_bytes c + args_bytes cs \<le> 2048" using arg_bytes_ge [of c] Cons.prems(3) by simp_all
  then have u: "unat (of_nat j :: u32) = j" "unat (of_nat (length c) :: u32) = length c" "unat (of_nat j + 4 :: u32) = j + 4"
    using unat_of_nat_small [of j] unat_of_nat_small [of "length c"] unat_of_nat_small [of "j + 4"] by simp_all
  have al: "4 + unat (align4 (of_nat (length c))) = arg_bytes c" using b u by (simp add: unat_align4 arg_bytes_def)
  have al': "(of_nat j :: u32) + 4 + align4 (of_nat (length c)) = of_nat (j + arg_bytes c)" unfolding al [symmetric] by simp
  let ?s = "s\<lparr>rpc_PackInfo := (rpc_PackInfo s)[i := \<lparr>pack_len = of_nat (length c), pack_data = In_buf (p + j + 4)\<rparr>]\<rparr>"
  have IH: "run_state (rpc_pack_loop [Suc i..<Suc i + length cs] p (of_nat (j + arg_bytes c))) ?s =
     (of_nat (j + arg_bytes c + args_bytes cs), ?s\<lparr>rpc_PackInfo := info_args (Suc i) (p + (j + arg_bytes c)) cs (rpc_PackInfo ?s)\<rparr>)"
    using Cons.prems b m(2) by (intro Cons.IH) (simp_all add: add.assoc rpc_buf_len_def)
  define js where "js = [Suc i..<Suc i + length cs]"
  have upt: "[i..<i + length (c # cs)] = i # js" by (simp add: js_def upt_rec)
  show ?case
    unfolding upt rpc_pack_loop.simps using IH [folded js_def] Cons.prems(1,4) b first
    by (simp add: set_pack_def u al' [unfolded add.assoc] add.assoc del: of_nat_add)
qed simp

definition with_args :: "u8 list list \<Rightarrow> u8 list \<Rightarrow> u8 list" where
  "with_args cs rest = le32 (of_nat (length cs)) @ enc_args cs @ rest"

lemma GetPackInfo_law:
  assumes c: "length cs \<le> RPC_MAX_ARG_NUM" and m: "mread (pRpcBuf s) p (4 + args_bytes cs) = le32 (of_nat (length cs)) @ enc_args cs"
    and b: "4 + args_bytes cs \<le> RPC_MAX_BUF_SIZE" "p + 4 + args_bytes cs \<le> rpc_buf_len s"
  shows "run_state (RPC_GetPackInfo p) s =
     (True, s\<lparr>rpc_PackInfo := info_args 0 (p + 4) cs (rpc_PackInfo s)\<rparr>)"
proof -
  have m': "mread (pRpcBuf s) p 4 = le32 (of_nat (length cs))" "mread (pRpcBuf s) (p + 4) (args_bytes cs) = enc_args cs"
    using m mread_append [of "pRpcBuf s" p 4 "args_bytes cs"] by simp_all
  have n: "unat (of_nat (length cs) :: u32) = length cs" using c by (intro unat_of_nat_small) simp
  have "unat (of_nat (4 + args_bytes cs) :: u32) = 4 + args_bytes cs" using b by (intro unat_of_nat_small) simp
  then have i: "\<not> 2048 < (of_nat (4 + args_bytes cs) :: u32)" "\<not> 6 < (of_nat (length cs) :: u32)"
    using b(1) c n by (simp_all add: word_less_nat_alt)
  have "run_state (rpc_pack_loop [0..<length cs] p 4) s =
      (of_nat (4 + args_bytes cs), s\<lparr>rpc_PackInfo := info_args 0 (p + 4) cs (rpc_PackInfo s)\<rparr>)"
    using pack_loop_law [of 0 cs s p 4] c m'(2) b by simp
  then show ?thesis using i b(2) by (simp add: RPC_GetPackInfo_def m' n del: of_nat_add)
qed

lemma GetPackInfo_refuses:
  assumes "mread (pRpcBuf s) p 4 = le32 k" "RPC_MAX_ARG_NUM < unat k" "p + 4 \<le> rpc_buf_len s"
  shows "run_state (RPC_GetPackInfo p) s = (False, s)"
proof -
  have "6 < k" using assms(2) by (simp add: word_less_nat_alt)
  then show ?thesis using assms by (simp add: RPC_GetPackInfo_def)
qed

text \<open>What the library answers ends up in the table.\<close>

fun lib_table :: "u8 list list \<Rightarrow> nat \<Rightarrow> RPC_PACKET_INFO list \<Rightarrow> RPC_PACKET_INFO list" where
  "lib_table [] i ps = ps"
| "lib_table (bs # bss) i ps = lib_table bss (Suc i) (ps[i := \<lparr>pack_len = of_nat (length bs), pack_data = From_lib bs\<rparr>])"

lemma length_lib_table [simp]: "length (lib_table bss i ps) = length ps"
  by (induction bss arbitrary: i ps) auto

lemma lib_packs_law:
  "i + length bss \<le> RPC_MAX_ARG_NUM \<Longrightarrow>
   run_state (lib_packs bss i) s = (i + length bss, s\<lparr>rpc_PackInfo := lib_table bss i (rpc_PackInfo s)\<rparr>)"
  by (induction bss arbitrary: i s) (simp_all add: set_pack_def)

lemma nth_lib_table:
  "i + length bss \<le> length ps \<Longrightarrow> j < length ps \<Longrightarrow> lib_table bss i ps ! j =
     (if i \<le> j \<and> j < i + length bss then \<lparr>pack_len = of_nat (length (bss ! (j - i))), pack_data = From_lib (bss ! (j - i))\<rparr>
      else ps ! j)"
  by (induction bss arbitrary: i ps) (auto simp: nth_list_update nth_Cons' le_Suc_eq)

lemma param_error_prepared:
  assumes v: "served s [] t" and c: "has_args t cs" "length cs < RPC_MAX_ARG_NUM" "args_bytes cs \<le> 2012"
    and old: "\<forall>j<length cs. pack_data (rpc_PackInfo t ! j) \<noteq> At_RetVal"
    and m: "mread (pRpcBuf t) (slot_at idx) 20 = take 20 pkt"
  shows "wp (rpc_param_error (length cs)) (prepared s idx pkt (cs @ [le32 RPC_PARAM_ERROR])) t"
proof -
  let ?i = "(rpc_PackInfo t)[length cs := \<lparr>pack_len = 4, pack_data = At_RetVal\<rparr>]"
  let ?t = "t\<lparr>rpc_RetVal := RPC_PARAM_ERROR, rpc_PackInfo := ?i\<rparr>"
  have len: "length (rpc_PackInfo t) = 6" using v by (simp add: served_def rpc_shape_def)
  have args: "args_bytes (xs @ ys) = args_bytes xs + args_bytes ys" for xs ys by (induction xs) simp_all
  have keep: "pack_content ?t (rpc_PackInfo t ! j) = pack_content t (rpc_PackInfo t ! j)" if "j < length cs" for j
    using old that by (simp add: pack_content_def split: rpc_data.split)
  have "pack_content ?t (?i ! j) = Some ((cs @ [le32 RPC_PARAM_ERROR]) ! j)" if "j < Suc (length cs)" for j
  proof (cases "j = length cs")
    case True
    then show ?thesis using len c(2) by (simp add: pack_content_def)
  next
    case False
    then show ?thesis using that c(1) keep [of j] by (simp add: has_args_def nth_append)
  qed
  then have "has_args ?t (cs @ [le32 RPC_PARAM_ERROR])"
    using c(2,3) by (simp add: has_args_def args arg_bytes_def)
  moreover have "served s [] ?t" using v by (auto simp: served_def rpc_shape_def wake_ok_def sent_def)
  ultimately have "prepared s idx pkt (cs @ [le32 RPC_PARAM_ERROR]) (Suc (length cs)) ?t"
    using m by (simp add: prepared_def)
  then show ?thesis using c(2) by (simp add: rpc_param_error_def set_pack_def wp_simps)
qed

text \<open>The arguments of an answer to an operation other than the query.\<close>

definition other_reply :: "bool \<Rightarrow> sysres \<Rightarrow> u8 list list" where
  "other_reply ready lib = (if ready then r_packs lib @ (if r_ret lib = 0 then [] else [le32 RPC_PARAM_ERROR])
     else [le32 RPC_PARAM_ERROR])"

definition good_lib :: "sysres \<Rightarrow> bool" where
  "good_lib lib \<longleftrightarrow> length (r_packs lib) < RPC_MAX_ARG_NUM \<and> args_bytes (r_packs lib) \<le> 2012"

lemma lib_has_args:
  assumes "good_lib lib" "length (rpc_PackInfo t) = RPC_MAX_ARG_NUM"
  shows "has_args (t\<lparr>rpc_PackInfo := lib_table (r_packs lib) 0 (rpc_PackInfo t)\<rparr>) (r_packs lib)"
    and "\<forall>j<length (r_packs lib). pack_data (lib_table (r_packs lib) 0 (rpc_PackInfo t) ! j) \<noteq> At_RetVal"
proof -
  have "length c < 2 ^ 32" if "c \<in> set (r_packs lib)" for c
    using assms(1) that small_args [of "r_packs lib" 2012] by (auto simp: good_lib_def list_all_iff)
  then have u: "unat (of_nat (length (r_packs lib ! j)) :: u32) = length (r_packs lib ! j)" if "j < length (r_packs lib)" for j
    using that by (intro unat_of_nat_small) simp
  show "has_args (t\<lparr>rpc_PackInfo := lib_table (r_packs lib) 0 (rpc_PackInfo t)\<rparr>) (r_packs lib)"
    using assms u by (simp add: has_args_def good_lib_def nth_lib_table pack_content_def)
  show "\<forall>j<length (r_packs lib). pack_data (lib_table (r_packs lib) 0 (rpc_PackInfo t) ! j) \<noteq> At_RetVal"
    using assms by (simp add: good_lib_def nth_lib_table)
qed

lemma no_args [simp]: "has_args t []"
  by (simp add: has_args_def)

lemma refused_prepared:
  assumes "served s [] t" "mread (pRpcBuf t) (slot_at idx) 20 = take 20 pkt"
  shows "wp (rpc_param_error 0) (prepared s idx pkt [le32 RPC_PARAM_ERROR]) t"
  using param_error_prepared [of s t "[]" idx pkt] assms by simp

lemma srv_prepared:
  assumes v: "served s [] t" and m: "mread (pRpcBuf t) (slot_at idx) 20 = take 20 pkt"
    and lib: "tc1_lib_ready s \<Longrightarrow> good_lib lib" "\<And>w req. fst (os (Sys_tc1_rpc_srv_entry op req) w) = lib"
  shows "wp (tc1_srv_check os op a \<bind> (\<lambda>(r, n). if r = 0 then ret n else rpc_param_error n))
     (prepared s idx pkt (other_reply (tc1_lib_ready s) lib)) t"
proof (cases "tc1_lib_ready s")
  case False
  moreover have "tc1_lib_ready t = tc1_lib_ready s" using v by (simp add: served_def)
  ultimately show ?thesis
    using refused_prepared [OF v m] by (simp add: tc1_srv_check_def wp_simps other_reply_def)
next
  case True
  let ?req = "mread (pRpcBuf t) (a + 4) 2048" and ?tab = "lib_table (r_packs lib) 0 (rpc_PackInfo t)"
  obtain w where w: "os (Sys_tc1_rpc_srv_entry op ?req) (world t) = (lib, w)"
    using lib(2) by (metis prod.collapse)
  let ?t = "t\<lparr>world := w, trace := trace t @ [Sys_tc1_rpc_srv_entry op ?req]\<rparr>"
  let ?u = "?t\<lparr>rpc_PackInfo := ?tab\<rparr>"
  have g: "good_lib lib" and r: "tc1_lib_ready t" using True lib(1) v by (simp_all add: served_def)
  have six: "length (rpc_PackInfo ?t) = 6" using v by (simp add: served_def rpc_shape_def)
  have u: "served s [] ?u" using v by (auto simp: served_def rpc_shape_def wake_ok_def sent_def)
  have h: "has_args ?u (r_packs lib)" "\<forall>j<length (r_packs lib). pack_data (rpc_PackInfo ?u ! j) \<noteq> At_RetVal"
    using lib_has_args [OF g six] by simp_all
  have check: "run_state (tc1_srv_check os op a) t = ((r_ret lib, length (r_packs lib)), ?u)"
    using r w g lib_packs_law [of 0 "r_packs lib" ?t] by (simp add: tc1_srv_check_def good_lib_def)
  show ?thesis
  proof (cases "r_ret lib = 0")
    case True
    then show ?thesis
      using u h m r \<open>tc1_lib_ready s\<close> by (simp add: wp_bind wp_eq [OF check] wp_return other_reply_def prepared_def)
  next
    case False
    then show ?thesis
      using param_error_prepared [OF u h(1) _ _ h(2)] g m \<open>tc1_lib_ready s\<close>
      by (simp add: wp_bind wp_eq [OF check] other_reply_def good_lib_def)
  qed
qed

lemma other_prepared:
  assumes i: "unat idx < RPC_BUFFER_SLOT_NUM" and v: "served s [] t"
    and body: "body = with_args cs rest" "length cs \<le> RPC_MAX_ARG_NUM" "length body \<le> RPC_MAX_BUF_SIZE"
    and op: "op \<noteq> IPC_RPC_QUERY_AP_SYS_PROPERTY"
    and lib: "tc1_lib_ready s \<Longrightarrow> good_lib lib" "\<And>w req. fst (os (Sys_tc1_rpc_srv_entry op req) w) = lib"
    and m: "mread (pRpcBuf t) (slot_at idx) (20 + length body) = request mark ch idx op body"
  shows "wp (rpc_dispatch os (slot_at idx + 16)) (prepared s idx (request mark ch idx op body) (other_reply (tc1_lib_ready s) lib)) t"
proof -
  let ?a = "slot_at idx" and ?p = "request mark ch idx op body"
  have part: "mread (pRpcBuf t) (?a + k) j = take j (drop k ?p)" if "k + j \<le> 20 + length body" for k j
    using that m by (rule request_part)
  have st: "rpc_shape t" "rpc_buf_len t = 10340" and a: "?a \<le> 8272" using v i by (auto simp: served_def stream_len)
  have b: "length body = 4 + args_bytes cs + length rest" by (simp add: body(1) with_args_def)
  let ?t = "t\<lparr>rpc_PackInfo := info_args 0 (?a + 24) cs (rpc_PackInfo t)\<rparr>"
  have info: "run_state (RPC_GetPackInfo (?a + 20)) t = (True, ?t)"
    using GetPackInfo_law [of cs t "?a + 20"] st a b body(2,3) part [of 20 "4 + args_bytes cs"]
    by (simp add: body(1) with_args_def add.commute [of 24])
  have load: "run_state (rpc_load (?a + 16) 4) ?t = (le32 op, ?t)"
    using st a part [of 16 4] by (simp add: request_def rpc_buf_len_def)
  have "served s [] ?t" using v by (auto simp: served_def rpc_shape_def wake_ok_def sent_def)
  from srv_prepared [where os = os and op = op and lib = lib and pkt = ?p and a = "?a + 16" and idx = idx, OF this _ lib] part [of 0 20]
  show ?thesis by (simp add: rpc_dispatch_def wp_bind wp_eq [OF info] wp_eq [OF load] op add.assoc)
qed

lemma too_many_prepared:
  assumes i: "unat idx < RPC_BUFFER_SLOT_NUM" and v: "served s [] t"
    and body: "body = le32 n @ rest" "RPC_MAX_ARG_NUM < unat n"
    and m: "mread (pRpcBuf t) (slot_at idx) (20 + length body) = request mark ch idx op body"
  shows "wp (rpc_dispatch os (slot_at idx + 16)) (prepared s idx (request mark ch idx op body) [le32 RPC_PARAM_ERROR]) t"
proof -
  have "mread (pRpcBuf t) (slot_at idx + 20) 4 = le32 n"
    using request_part [OF _ m, of 20 4] body(1) by simp
  moreover have "slot_at idx + 24 \<le> rpc_buf_len t" using v i by (simp add: served_def stream_len)
  ultimately have r: "run_state (RPC_GetPackInfo (slot_at idx + 20)) t = (False, t)"
    using body(2) by (intro GetPackInfo_refuses) simp_all
  have "mread (pRpcBuf t) (slot_at idx) 20 = take 20 (request mark ch idx op body)"
    using request_part [OF _ m, of 0 20] by simp
  from refused_prepared [OF v this] show ?thesis
    by (simp add: rpc_dispatch_def wp_bind wp_eq [OF r] add.assoc)
qed

section \<open>An example\<close>

text \<open>A phone whose modem sends the packet \<open>pkt\<close>, with a library that answers \<open>lib\<close>.\<close>

definition rpc_phone :: "u8 list \<Rightarrow> sysres \<Rightarrow> unit os" where
  "rpc_phone pkt lib q w = ((case q of
       Sys_read fd n \<Rightarrow> res0\<lparr>r_ret := of_nat (length pkt), r_data := pkt\<rparr>
     | Sys_property_get k \<Rightarrow> res0\<lparr>r_ret := 4, r_name := Some ''user''\<rparr>
     | Sys_open p fl m \<Rightarrow> res0\<lparr>r_ret := 7\<rparr>
     | Sys_tc1_rpc_srv_entry op req \<Rightarrow> lib
     | _ \<Rightarrow> res0), w)"

definition rpc_ready :: "bool \<Rightarrow> unit rpcd" where
  "rpc_ready lib = (rpc_boot ())\<lparr>rpc_stream := True, rpc_fd := 5, tc1_lib_ready := lib\<rparr>"

lemma phone_facts:
  "rpc_shape (rpc_ready b)" "wake_ok (rpc_ready b)" "fresh_fds (rpc_phone pkt lib) (rpc_fd (rpc_ready b))"
  "rpc_buff_state (rpc_ready b) ! 2 = 0" "tc1_lib_ready (rpc_ready b) = b"
  "fst (rpc_phone pkt lib (Sys_read fd n) w) = res0\<lparr>r_ret := of_nat (length pkt), r_data := pkt\<rparr>"
  "fst (rpc_phone pkt lib (Sys_property_get k) w) = res0\<lparr>r_ret := 4, r_name := Some ''user''\<rparr>"
  "fst (rpc_phone pkt lib (Sys_tc1_rpc_srv_entry op req) w) = lib"
proof -
  have "\<not> (7 :: s32) <s 0" by code_simp
  then show "fresh_fds (rpc_phone pkt lib) (rpc_fd (rpc_ready b))" by (simp add: fresh_fds_def rpc_phone_def rpc_ready_def)
qed (simp_all add: rpc_shape_def wake_ok_def rpc_ready_def rpc_boot_def rpc_phone_def numeral_eq_Suc)

section \<open>Requests and their answers\<close>

text \<open>
  C14: A request for a system property in one packet, of a modem that keeps to the size of a slot, is answered in
  one packet: the header is the one of the request with the channel of answers, the operation is marked as
  an answer, and its two arguments are the result of \<open>property_get\<close> and the value with its terminator. No
  memory outside of the buffer is touched and no assertion fails.
\<close>

theorem query_answered:
  assumes "rpc_shape s" "wake_ok s" "fresh_fds os (rpc_fd s)"
    and "unat idx < RPC_BUFFER_SLOT_NUM" "rpc_buff_state s ! unat idx = RPC_BUFF_IDLE" "mark AND CCCI_RPC_REQ_SEND_AGAIN = 0"
    and "length (bytes name @ rest) \<le> 2040" "length name \<le> 2032" "NUL \<notin> set name"
    and "fst (os (Sys_read (rpc_fd s) 3476) (world s)) = res0\<lparr>r_ret := of_nat (28 + length (bytes name @ rest)),
      r_data := request mark ch idx IPC_RPC_QUERY_AP_SYS_PROPERTY (one_arg (bytes name) rest)\<rparr>"
    and "\<And>w. fst (os (Sys_property_get name) w) = res0\<lparr>r_ret := n, r_name := Some val\<rparr>"
    and "NUL \<notin> set val" "length val < PROPERTY_VALUE_MAX"
  shows "wp (rpc_turn (Suc k) os) (\<lambda>b t. b \<and> (\<exists>ans. served s [ans] t \<and>
     is_answer (request mark ch idx IPC_RPC_QUERY_AP_SYS_PROPERTY (one_arg (bytes name) rest)) [le32 n, bytes val @ [0]] ans)) s"
proof -
  let ?body = "one_arg (bytes name) rest"
  have l: "length ?body = 8 + length (bytes name @ rest)" by (simp add: one_arg_def)
  have "wp (rpc_turn (Suc k) os) (\<lambda>b t. b \<and> (\<exists>ans. is_answer (request mark ch idx IPC_RPC_QUERY_AP_SYS_PROPERTY ?body)
     [le32 n, bytes val @ [0]] ans \<and> served s [ans] t)) s"
    using assms l by (intro turn_law query_prepared [where rest = rest]) (simp_all del: length_append)
  then show ?thesis by (auto elim: wp_mono)
qed

theorem query_answered_witness:
  "wp (rpc_turn 1 (rpc_phone (request 0 9 2 0x400F (one_arg (bytes ''ro.build.type'') [])) res0))
     (\<lambda>b t. b \<and> (\<exists>ans. served (rpc_ready False) [ans] t \<and>
        is_answer (request 0 9 2 0x400F (one_arg (bytes ''ro.build.type'') [])) [le32 4, bytes ''user'' @ [0]] ans)) (rpc_ready False)"
proof -
  have "length (bytes ''ro.build.type'') = 13" "length (one_arg (bytes ''ro.build.type'') []) = 21"
    by (simp_all add: bytes_def one_arg_def)
  then show ?thesis
    using query_answered [where s = "rpc_ready False" and idx = 2 and mark = 0 and ch = 9 and name = "''ro.build.type''"
      and rest = "[]" and k = 0 and n = 4 and val = "''user''" and
      os = "rpc_phone (request 0 9 2 0x400F (one_arg (bytes ''ro.build.type'') [])) res0"]
    by (simp add: phone_facts)
qed

text \<open>
  C40: Every other operation is left to the customer's library: its arguments are the answer's, followed by the
  parameter error when it reports a failure; without a library the parameter error is the only argument.
\<close>

theorem other_answered:
  assumes "rpc_shape s" "wake_ok s" "fresh_fds os (rpc_fd s)"
    and "unat idx < RPC_BUFFER_SLOT_NUM" "rpc_buff_state s ! unat idx = RPC_BUFF_IDLE" "mark AND CCCI_RPC_REQ_SEND_AGAIN = 0"
    and "length cs \<le> RPC_MAX_ARG_NUM" "length (with_args cs rest) \<le> RPC_MAX_BUF_SIZE" "op \<noteq> IPC_RPC_QUERY_AP_SYS_PROPERTY"
    and "fst (os (Sys_read (rpc_fd s) 3476) (world s)) = res0\<lparr>r_ret := of_nat (20 + length (with_args cs rest)),
      r_data := request mark ch idx op (with_args cs rest)\<rparr>"
    and "tc1_lib_ready s \<Longrightarrow> good_lib lib" "\<And>w req. fst (os (Sys_tc1_rpc_srv_entry op req) w) = lib"
  shows "wp (rpc_turn (Suc k) os) (\<lambda>b t. b \<and> (\<exists>ans. served s [ans] t \<and>
     is_answer (request mark ch idx op (with_args cs rest)) (other_reply (tc1_lib_ready s) lib) ans)) s"
proof -
  have "wp (rpc_turn (Suc k) os) (\<lambda>b t. b \<and> (\<exists>ans. is_answer (request mark ch idx op (with_args cs rest))
     (other_reply (tc1_lib_ready s) lib) ans \<and> served s [ans] t)) s"
    using assms by (intro turn_law other_prepared [where cs = cs and rest = rest]) simp_all
  then show ?thesis by (auto elim: wp_mono)
qed

theorem other_answered_witness:
  "wp (rpc_turn 1 (rpc_phone (request 0 9 2 0x4000 (with_args [[1, 2, 3]] [])) (res0\<lparr>r_packs := [[7, 7]]\<rparr>)))
     (\<lambda>b t. b \<and> (\<exists>ans. served (rpc_ready True) [ans] t \<and> is_answer (request 0 9 2 0x4000 (with_args [[1, 2, 3]] []))
        (other_reply True (res0\<lparr>r_packs := [[7, 7]]\<rparr>)) ans)) (rpc_ready True)"
proof -
  have "length (with_args [[1, 2, 3 :: u8]] []) = 12" "good_lib (res0\<lparr>r_packs := [[7, 7]]\<rparr>)"
    by (simp_all add: with_args_def good_lib_def arg_bytes_def)
  then show ?thesis
    using other_answered [where s = "rpc_ready True" and idx = 2 and mark = 0 and ch = 9 and cs = "[[1, 2, 3]]" and op = "0x4000"
      and rest = "[]" and k = 0 and lib = "res0\<lparr>r_packs := [[7, 7]]\<rparr>" and
      os = "rpc_phone (request 0 9 2 0x4000 (with_args [[1, 2, 3]] [])) (res0\<lparr>r_packs := [[7, 7]]\<rparr>)"]
    by (simp add: phone_facts)
qed

text \<open>
  A request that claims to have more than six arguments is not looked into: the answer is the parameter
  error.
\<close>

lemma too_many_refused:
  assumes "rpc_shape s" "wake_ok s" "fresh_fds os (rpc_fd s)"
    and "unat idx < RPC_BUFFER_SLOT_NUM" "rpc_buff_state s ! unat idx = RPC_BUFF_IDLE" "mark AND CCCI_RPC_REQ_SEND_AGAIN = 0"
    and "RPC_MAX_ARG_NUM < unat n" "length (le32 n @ rest) \<le> RPC_MAX_BUF_SIZE"
    and "fst (os (Sys_read (rpc_fd s) 3476) (world s)) = res0\<lparr>r_ret := of_nat (20 + length (le32 n @ rest)),
      r_data := request mark ch idx op (le32 n @ rest)\<rparr>"
  shows "wp (rpc_turn (Suc k) os) (\<lambda>b t. b \<and> (\<exists>ans. served s [ans] t \<and>
     is_answer (request mark ch idx op (le32 n @ rest)) [le32 RPC_PARAM_ERROR] ans)) s"
proof -
  have "wp (rpc_turn (Suc k) os) (\<lambda>b t. b \<and> (\<exists>ans. is_answer (request mark ch idx op (le32 n @ rest))
     [le32 RPC_PARAM_ERROR] ans \<and> served s [ans] t)) s"
    using assms by (intro turn_law too_many_prepared [where n = n and rest = rest]) simp_all
  then show ?thesis by (auto elim: wp_mono)
qed

end
