(* ===== verification/Rpcd_Slots.thy ===== *)
theory Rpcd_Slots
  imports Rpcd_Serve
begin

unbundle bit_operations_syntax

text \<open>
  The five slots in which \<open>ccci_rpcd\<close> collects requests, against an abstract machine: a slot is a list of bytes
  and a flag that tells whether more is to come.
\<close>

section \<open>The abstract slots\<close>

definition pkt_idx :: "u8 list \<Rightarrow> u32" where "pkt_idx p = rd32 (drop 12 p)"
definition pkt_more :: "u8 list \<Rightarrow> bool" where "pkt_more p \<longleftrightarrow> rd32 p AND CCCI_RPC_REQ_SEND_AGAIN \<noteq> 0"

text \<open>The header comes from the last packet of a request, the operation from the first.\<close>

definition asm :: "bool \<times> u8 list \<Rightarrow> u8 list \<Rightarrow> bool \<times> u8 list" where
  "asm x p = (pkt_more p, if \<not> fst x then p else if pkt_more p then snd x @ drop 20 p
     else take 16 p @ drop 16 (snd x @ drop 20 p))"

definition asm_step :: "u8 list \<Rightarrow> (nat \<Rightarrow> bool \<times> u8 list) \<Rightarrow> nat \<Rightarrow> bool \<times> u8 list" where
  "asm_step p A = A(unat (pkt_idx p) := asm (A (unat (pkt_idx p))) p)"

text \<open>A packet that names a slot, states its length, and leaves no request larger than a slot.\<close>

definition polite :: "(nat \<Rightarrow> bool \<times> u8 list) \<Rightarrow> u8 list \<Rightarrow> bool" where
  "polite A p \<longleftrightarrow> unat (pkt_idx p) < RPC_BUFFER_SLOT_NUM \<and> 20 \<le> length p \<and> rd32 (drop 4 p) = of_nat (length p) \<and>
     length p \<le> 2068 \<and> length (snd (asm (A (unat (pkt_idx p))) p)) \<le> 2068"

definition slot_rel :: "'w rpcd \<Rightarrow> (nat \<Rightarrow> bool \<times> u8 list) \<Rightarrow> bool" where
  "slot_rel s A \<longleftrightarrow> rpc_shape s \<and> (\<forall>i<RPC_BUFFER_SLOT_NUM. let (w, bs) = A i in
     length bs \<le> 2068 \<and> mread (pRpcBuf s) (2068 * i) (length bs) = bs \<and> (w \<longrightarrow> 20 \<le> length bs) \<and>
     rpc_buff_state s ! i = (if w then RPC_BUFF_WAIT else RPC_BUFF_IDLE) \<and>
     rpc_buff_offset s ! i = (if w then of_nat (length bs) else 0))"

section \<open>One packet\<close>

lemma slots_disjoint: "i < (5 :: nat) \<Longrightarrow> j < 5 \<Longrightarrow> i \<noteq> j \<Longrightarrow> n \<le> 2068 \<Longrightarrow> k \<le> 2068 \<Longrightarrow>
   2068 * i + n \<le> 2068 * j \<or> 2068 * j + k \<le> 2068 * i"
  by (cases "i < j") auto

text \<open>Writing inside a slot leaves the other slots alone.\<close>

lemma mread_other_slot:
  assumes "i < 5" "j < 5" "i \<noteq> j" "a + length bs \<le> 2068" "n \<le> 2068"
  shows "mread (mwrite m (2068 * i + a) bs) (2068 * j) n = mread m (2068 * j) n"
proof (cases "i < j")
  case True
  then have "2068 * i + 2068 \<le> 2068 * j" by simp
  then show ?thesis using assms(4) by (intro mread_mwrite_disjoint) linarith
next
  case False
  then have "2068 * j + 2068 \<le> 2068 * i" using assms(3) by simp
  then show ?thesis using assms(5) by (intro mread_mwrite_disjoint) linarith
qed

definition touched :: "nat \<Rightarrow> 'w rpcd \<Rightarrow> memory \<Rightarrow> bool \<times> u8 list \<Rightarrow> 'w rpcd" where
  "touched i s m x = s\<lparr>pRpcBuf := m, rpc_buff_state := (rpc_buff_state s)[i := if fst x then 1 else 0],
     rpc_buff_offset := (rpc_buff_offset s)[i := if fst x then of_nat (length (snd x)) else 0]\<rparr>"

lemma slot_rel_touched:
  assumes r: "slot_rel s A" and i: "i < 5"
    and x: "length (snd x) \<le> 2068" "fst x \<longrightarrow> 20 \<le> length (snd x)" "mread m (2068 * i) (length (snd x)) = snd x"
    and o: "\<And>j n. j < 5 \<Longrightarrow> j \<noteq> i \<Longrightarrow> n \<le> 2068 \<Longrightarrow> mread m (2068 * j) n = mread (pRpcBuf s) (2068 * j) n"
  shows "slot_rel (touched i s m x) (A(i := x))"
  using r i x o by (auto simp: slot_rel_def touched_def rpc_shape_def nth_list_update Let_def split: prod.splits)

lemma copy_law:
  assumes "off + unat n \<le> length p" "length p \<le> 2068" "a + unat n \<le> rpc_buf_len s"
  shows "run_state (rpc_copy a p off n) s = ((), s\<lparr>pRpcBuf := mwrite (pRpcBuf s) a (take (unat n) (drop off p))\<rparr>)"
proof -
  have "map (byte_at p) [off..<off + unat n] = take (unat n) (drop off p)"
    using assms(1) by (intro nth_equalityI) (simp_all add: byte_at_def)
  then show ?thesis using assms by (simp add: rpc_copy_def)
qed

text \<open>The memory after a packet for the slot at \<open>a\<close>.\<close>

definition asm_mem :: "memory \<Rightarrow> nat \<Rightarrow> bool \<times> u8 list \<Rightarrow> u8 list \<Rightarrow> memory" where
  "asm_mem m a x p = (if \<not> fst x then mwrite m a p
     else if pkt_more p then mwrite m (a + length (snd x)) (drop 20 p)
     else mwrite (mwrite m (a + length (snd x)) (drop 20 p)) a (take 16 p))"

lemma mread_mwrite_behind: "mread m a (length bs) = bs \<Longrightarrow> mread (mwrite m (a + length bs) cs) a (length bs + length cs) = bs @ cs"
  by (simp add: mread_append mread_mwrite_disjoint)

lemma mread_mwrite_front:
  assumes "mread m a n = bs" "length cs \<le> n"
  shows "mread (mwrite m a cs) a n = cs @ drop (length cs) bs"
  using assms mread_append [of "mwrite m a cs" a "length cs" "n - length cs"]
  by (auto simp: mread_mwrite_disjoint drop_mread)

lemma asm_mem_same:
  assumes "mread m a (length bs) = bs" "w \<longrightarrow> 20 \<le> length bs" "20 \<le> length p"
  shows "mread (asm_mem m a (w, bs) p) a (length (snd (asm (w, bs) p))) = snd (asm (w, bs) p)"
proof (cases "w \<and> \<not> pkt_more p")
  case True
  have n: "length (take 16 p @ drop 16 (bs @ drop 20 p)) = length bs + length (drop 20 p)" using assms True by simp
  have "length (take 16 p) = 16" using assms(3) by simp
  moreover have "length (take 16 p) \<le> length bs + length (drop 20 p)" using assms(2,3) True by simp
  ultimately have "mread (mwrite (mwrite m (a + length bs) (drop 20 p)) a (take 16 p)) a (length bs + length (drop 20 p)) =
      take 16 p @ drop 16 (bs @ drop 20 p)"
    using mread_mwrite_front [OF mread_mwrite_behind [OF assms(1), of "drop 20 p"], of "take 16 p"] by (simp only: )
  then show ?thesis using True n by (simp only: asm_def asm_mem_def fst_conv snd_conv if_True if_False not_True_eq_False)
next
  case False
  then show ?thesis
    using mread_mwrite_behind [OF assms(1), of "drop 20 p"] by (auto simp: asm_def asm_mem_def)
qed

lemma asm_mem_other:
  assumes "i < 5" "j < 5" "j \<noteq> i" "n \<le> 2068" "length p \<le> 2068" "20 \<le> length p" "w \<longrightarrow> 20 \<le> length bs"
    and "length (snd (asm (w, bs) p)) \<le> 2068"
  shows "mread (asm_mem m (2068 * i) (w, bs) p) (2068 * j) n = mread m (2068 * j) n"
  using assms mread_other_slot [of i j 0 p n] mread_other_slot [of i j 0 "take 16 p" n]
    mread_other_slot [of i j "length bs" "drop 20 p" n]
  by (auto simp: asm_mem_def asm_def split: if_splits)

lemma recv_refines:
  assumes r: "slot_rel s A" and p: "polite A p"
  shows "\<exists>m. run_state (rpc_recv_packet p) s =
     ((pkt_idx p, \<not> pkt_more p), touched (unat (pkt_idx p)) s m (asm (A (unat (pkt_idx p))) p)) \<and>
     slot_rel (touched (unat (pkt_idx p)) s m (asm (A (unat (pkt_idx p))) p)) (asm_step p A)"
proof -
  let ?i = "unat (pkt_idx p)" and ?m = "pRpcBuf s"
  obtain w bs where A: "A ?i = (w, bs)" by (cases "A ?i")
  have i: "?i < 5" and l: "20 \<le> length p" "length p \<le> 2068" "rd32 (drop 4 p) = of_nat (length p)"
    and fit: "length (snd (asm (w, bs) p)) \<le> 2068"
    using p A by (auto simp: polite_def)
  have sh: "rpc_shape s" and sl: "length bs \<le> 2068" "mread ?m (2068 * ?i) (length bs) = bs" "w \<longrightarrow> 20 \<le> length bs"
    "rpc_buff_state s ! ?i = (if w then 1 else 0)" "rpc_buff_offset s ! ?i = (if w then of_nat (length bs) else 0)"
    using r i A by (auto simp: slot_rel_def Let_def split: prod.splits)
  have st: "byte_at (rpc_buff_state s) ?i = (if w then 1 else 0)" using sl(4) sh i by (simp add: byte_at_def rpc_shape_def)
  have len: "rpc_buf_len s = 10340" using sh by (rule stream_len)
  have n: "unat (of_nat (length p) :: u32) = length p" using l by (intro unat_of_nat_small) simp
  have n20: "unat (of_nat (length p) - 20 :: u32) = length p - 20"
  proof -
    have "(of_nat (length p) - 20 :: u32) = of_nat (length p - 20)" using l(1) by simp
    then show ?thesis using l(2) unat_of_nat_small [of "length p - 20"] by simp
  qed
  have nb: "unat (of_nat (length bs) :: u32) = length bs" using sl(1) by (intro unat_of_nat_small) simp
  have run: "run_state (rpc_recv_packet p) s =
      ((pkt_idx p, \<not> pkt_more p), touched ?i s (asm_mem ?m (2068 * ?i) (w, bs) p) (asm (w, bs) p))"
    using i l fit sl(3,5) st len n n20 nb
    by (cases w; cases "pkt_more p")
      (simp_all add: rpc_recv_packet_def rpc_recv_last_def rpc_recv_more_def rpc_set_slot_def copy_law Let_def touched_def
        asm_def asm_mem_def pkt_idx_def [symmetric] pkt_more_def [symmetric] word_less_nat_alt add_diff_eq)
  have "slot_rel (touched ?i s (asm_mem ?m (2068 * ?i) (w, bs) p) (asm (w, bs) p)) (A(?i := asm (w, bs) p))"
    using i l fit sl asm_mem_same [of ?m "2068 * ?i" bs w p] asm_mem_other [where i = ?i and bs = bs and p = p and w = w]
    by (intro slot_rel_touched r) (auto simp: asm_def)
  then show ?thesis using run by (auto simp: asm_step_def A)
qed

section \<open>Many packets\<close>

text \<open>The packets of several requests arrive in any order.\<close>

primrec rpc_recv_all :: "u8 list list \<Rightarrow> ('w rpcd, unit) state" where
  "rpc_recv_all [] = ret ()"
| "rpc_recv_all (p # ps) = do { _ \<leftarrow> rpc_recv_packet p; rpc_recv_all ps }"

fun all_polite :: "(nat \<Rightarrow> bool \<times> u8 list) \<Rightarrow> u8 list list \<Rightarrow> bool" where
  "all_polite A [] = True"
| "all_polite A (p # ps) = (polite A p \<and> all_polite (asm_step p A) ps)"

lemma rpc_recv_all_refines:
  "slot_rel s A \<Longrightarrow> all_polite A ps \<Longrightarrow>
   wp (rpc_recv_all ps) (\<lambda>_ t. slot_rel t (fold asm_step ps A) \<and> ub t = ub s \<and> rpc_aborted t = rpc_aborted s) s"
proof (induction ps arbitrary: s A)
  case (Cons p ps)
  then obtain m where m: "run_state (rpc_recv_packet p) s =
      ((pkt_idx p, \<not> pkt_more p), touched (unat (pkt_idx p)) s m (asm (A (unat (pkt_idx p))) p))"
    "slot_rel (touched (unat (pkt_idx p)) s m (asm (A (unat (pkt_idx p))) p)) (asm_step p A)"
    using recv_refines [of s A p] by auto
  then show ?case using Cons.IH [OF m(2)] Cons.prems(2) by (simp add: wp_bind wp_eq [OF m(1)] touched_def)
qed (simp add: wp_simps)

text \<open>A slot sees only its own packets.\<close>

lemma fold_asm_slot: "fold asm_step ps A i = fold (\<lambda>p x. asm x p) (filter (\<lambda>p. unat (pkt_idx p) = i) ps) (A i)"
  by (induction ps arbitrary: A) (simp_all add: asm_step_def)

lemma asm_waiting:
  "list_all pkt_more ps \<Longrightarrow> fold (\<lambda>p x. asm x p) ps (True, bs) = (True, bs @ concat (map (drop 20) ps))"
  by (induction ps arbitrary: bs) (simp_all add: asm_def)

text \<open>The request that packets make up.\<close>

definition joined :: "u8 list list \<Rightarrow> u8 list" where
  "joined ps = take 16 (last ps) @ take 4 (drop 16 (hd ps)) @ concat (map (drop 20) ps)"

lemma take_drop_20: "take 4 (drop 16 p) @ drop 20 p = drop 16 (p :: u8 list)"
  using append_take_drop_id [of 4 "drop 16 p"] by simp

lemma asm_joined:
  assumes "list_all pkt_more fs" "\<not> pkt_more l" "\<not> w" "list_all (\<lambda>p. 20 \<le> length p) fs"
  shows "fold (\<lambda>p x. asm x p) (fs @ [l]) (w, bs) = (False, joined (fs @ [l]))"
proof (cases fs)
  case Nil
  then show ?thesis using assms(2,3) by (simp add: asm_def joined_def take_drop_20)
next
  case (Cons f gs)
  let ?c = "concat (map (drop 20) gs)"
  have first: "asm (w, bs) f = (True, f)" and rest: "fold (\<lambda>p x. asm x p) gs (True, f) = (True, f @ ?c)"
    using assms(1,3) Cons asm_waiting [of gs f] by (simp_all add: asm_def)
  have "asm (True, f @ ?c) l = (False, take 16 l @ drop 16 f @ ?c @ drop 20 l)"
    using assms(2,4) Cons by (simp add: asm_def)
  also have "drop 16 f = take 4 (drop 16 f) @ drop 20 f" by (simp add: take_drop_20)
  finally show ?thesis using Cons first rest by (simp add: joined_def)
qed

lemma polite_length: "all_polite A ps \<Longrightarrow> p \<in> set ps \<Longrightarrow> 20 \<le> length p"
  by (induction ps arbitrary: A) (auto simp: polite_def)

section \<open>Start\<close>

definition untouched :: "'w rpcd \<Rightarrow> bool" where
  "untouched s \<longleftrightarrow> rpc_buff_state s = replicate 5 0 \<and> rpc_buff_offset s = replicate 5 0 \<and>
     length (property_val s) = PROPERTY_VALUE_MAX \<and> length (rpc_PackInfo s) = RPC_MAX_ARG_NUM \<and>
     \<not> wake_initialized s \<and> length (wake_fds s) = 2"

lemma untouched_env [valid_intros]: "keeps untouched (syscall os q)" "keeps untouched fault"
  unfolding fault_def by (intro valid_intros; simp add: untouched_def)+

lemma untouched_node [valid_intros]: "keeps untouched (ccci_get_version os)" "keeps untouched (ccci_get_node_name os row md)"
  unfolding ccci_get_node_name_def ccci_get_version_def by (intro valid_intros)+

lemma untouched_lib [valid_intros]: "keeps untouched (load_support_lib os)"
  unfolding load_support_lib_def by (intro valid_intros) (simp_all add: untouched_def)

lemma untouched_select [valid_intros]: "keeps untouched (rpc_select os args)" "keeps untouched (rpc_stream_mode os md)"
  unfolding rpc_select_def rpc_stream_mode_def by (auto intro!: valid_intros split: list.split)

lemma untouched_start: "keeps untouched (rpc_start os args)"
  unfolding rpc_start_def by (intro valid_intros) (simp_all add: untouched_def)

lemma untouched_slots: "untouched s \<Longrightarrow> rpc_stream s \<Longrightarrow> slot_rel s (\<lambda>_. (False, [])) \<and> wake_ok s"
  by (simp add: untouched_def slot_rel_def rpc_shape_def wake_ok_def mread_def)

lemma start_slots:
  assumes "run_state (rpc_start os args) (rpc_boot w) = (True, t)" "rpc_stream t"
  shows "slot_rel t (\<lambda>_. (False, [])) \<and> wake_ok t"
proof -
  have "untouched (rpc_boot w :: 'a rpcd)" by (simp add: untouched_def rpc_boot_def numeral_eq_Suc)
  then show ?thesis using untouched_slots keepsD [OF untouched_start _ assms(1)] assms(2) by blast
qed

lemma ready_slots: "slot_rel (rpc_ready b) (\<lambda>_. (False, []))"
  by (simp add: slot_rel_def rpc_shape_def rpc_ready_def rpc_boot_def mread_def nth_replicate numeral_eq_Suc less_Suc_eq)

section \<open>The results\<close>

text \<open>
  C15: The receive loop implements the abstract slots: a packet of a modem that keeps to the sizes changes exactly the
  slot it names, as the abstract machine says; the loop reports the slot and whether its request is complete, no
  access leaves the buffer and no assertion fails.
\<close>

theorem packet_refines:
  assumes "slot_rel s A" "polite A p"
  shows "wp (rpc_recv_packet p) (\<lambda>(i, complete) t. i = pkt_idx p \<and> complete = (\<not> pkt_more p) \<and>
     slot_rel t (A(unat (pkt_idx p) := asm (A (unat (pkt_idx p))) p)) \<and> ub t = ub s \<and> rpc_aborted t = rpc_aborted s) s"
  using recv_refines [OF assms] by (auto simp: wp_def asm_step_def touched_def)

theorem packet_refines_witness:
  "wp (rpc_recv_packet (request 0x80000000 9 2 0x400F [1, 2]) \<bind> (\<lambda>_. ret ())) (\<lambda>_ t. ub t = ub (rpc_ready False)) (rpc_ready False)
   \<and> polite (\<lambda>_. (False, [])) (request 0x80000000 9 2 0x400F [1, 2])"
proof -
  let ?p = "request 0x80000000 9 2 0x400F [1, 2]"
  have p: "polite (\<lambda>_. (False, [])) ?p" by (simp add: polite_def pkt_idx_def asm_def)
  from packet_refines [OF ready_slots this, of False] show ?thesis
    using p by (auto simp: wp_simps elim: wp_mono)
qed



section \<open>What the modem is trusted with\<close>

lemma stays_ub [valid_intros]:
  "keeps ub (rpc_load a n :: ('w rpcd, _) state)" "keeps ub (rpc_store a bs :: ('w rpcd, _) state)"
  "keeps ub (rpc_copy a p off k :: ('w rpcd, _) state)" "keeps ub (rpc_set_slot i st new :: ('w rpcd, _) state)"
  "keeps ub (rpc_abort :: ('w rpcd, _) state)"
  unfolding rpc_load_def rpc_store_def rpc_copy_def rpc_set_slot_def rpc_abort_def fault_def
  by (intro valid_intros; simp)+

lemma stays_ub_recv [valid_intros]:
  "keeps ub (rpc_recv_last idx p d1 st off :: ('w rpcd, _) state)" "keeps ub (rpc_recv_more idx p d1 st off :: ('w rpcd, _) state)"
  unfolding rpc_recv_last_def rpc_recv_more_def Let_def by (intro valid_intros)+

lemma ub_run: "keeps ub m \<Longrightarrow> ub s \<Longrightarrow> ub (snd (run_state m s))"
  by (cases "run_state m s") (auto dest: keepsD)

text \<open>The number of the slot is taken from the packet as it is.\<close>

lemma bad_slot_unchecked:
  assumes "RPC_BUFFER_SLOT_NUM \<le> unat (pkt_idx p)"
  shows "ub (snd (run_state (rpc_recv_packet p) (s :: 'w rpcd)))"
  using assms stays_ub_recv
  by (auto simp: rpc_recv_packet_def pkt_idx_def Let_def fault_def case_prod_beta intro!: ub_run)

text \<open>A packet may be longer than a slot; the last slot ends with the buffer.\<close>

lemma long_packet_unchecked:
  assumes "slot_rel s A" "pkt_idx p = 4" "\<not> fst (A 4)" "2068 < length p" "length p \<le> 3476" "rd32 (drop 4 p) = of_nat (length p)"
    "\<not> pkt_more p"
  shows "ub (snd (run_state (rpc_recv_packet p) s))"
proof -
  have n: "unat (of_nat (length p) :: u32) = length p" using assms(5) by (intro unat_of_nat_small) simp
  obtain bs where A: "A 4 = (False, bs)" using assms(3) by (cases "A 4") simp
  have sh: "rpc_shape s" and "rpc_buff_state s ! 4 = 0"
    using assms(1) A by (auto simp: slot_rel_def dest: spec [of _ 4])
  then have "byte_at (rpc_buff_state s) 4 = 0" "rpc_buf_len s = 10340"
    by (simp_all add: stream_len) (simp add: byte_at_def rpc_shape_def)
  then show ?thesis
    using assms(2,4-7) n
    by (simp add: rpc_recv_packet_def rpc_recv_last_def rpc_copy_def rpc_store_def rpc_set_slot_def Let_def fault_def
      pkt_idx_def pkt_more_def)
qed

text \<open>The length of an argument is followed before it is looked at.\<close>

lemma long_argument_followed:
  "ub (snd (run_state (RPC_GetPackInfo 36) ((rpc_ready False)\<lparr>pRpcBuf := mwrite (\<lambda>_. 0) 36 (le32 2 @ le32 0x10000)\<rparr>)))"
proof -
  have "mread (mwrite (\<lambda>_. 0) 36 (le32 2 @ le32 0x10000)) 36 4 = le32 2"
    "mread (mwrite (\<lambda>_. 0) 36 (le32 2 @ le32 0x10000)) 40 4 = le32 0x10000"
    using mread_mwrite_inside [of 0 4 "le32 2 @ le32 0x10000" _ 36] mread_mwrite_inside [of 4 4 "le32 2 @ le32 0x10000" _ 36] by simp_all
  moreover have "align4 0x10000 = 0x10000" by (simp add: align4_def)
  ultimately show ?thesis
    by (simp add: RPC_GetPackInfo_def set_pack_def rpc_load_def rpc_buf_len_def rpc_ready_def fault_def upt_rec)
qed

end
