(* ===== verification/Mdinit_Env.thy ===== *)
theory Mdinit_Env
  imports Ccb_Ring
begin

unbundle bit_operations_syntax

text \<open>
  The modem start-up daemon \<open>ccci_mdinit\<close>, first part: its state, Android properties, and the helpers
  of \<open>main.c\<close>, \<open>env_setting.c\<close>, \<open>ccci_support_utils.c\<close>, \<open>ccci_legacy.c\<close>, \<open>magic_pattern.c\<close> and
  \<open>time_clib_srv.c\<close>.

  The state extends that of the CCB library, which the daemon links: \<open>ccb_call\<close> runs a function of the
  library on the part it owns. The fields below are the static variables of the C files. A loop that
  waits for another process takes \<open>fuel\<close> attempts and sets \<open>stuck\<close> when they are used up.
\<close>

section \<open>State\<close>

record 'w mdinit = "'w ccb" +
  curr_md_id :: s32
  system_ch_handle :: s32
  boot_prof_fd :: s32
  sys_boot_mode :: char
  k_setting_md_en :: "s32 list"
  k_setting_ccci_drv_ver :: s32
  lib_handle_aed :: bool
  aee_fun_ptr :: bool
  ipc_fd :: s32
  sbpc :: s32
  muxd_name :: string
  rild_name :: string
  mdlogger_name :: string
  fsd_name :: string
  muxd_service_status :: string
  rild_service_status :: string
  mdlogger_service_status :: string
  fsd_service_status :: string
  mdlogger_cnt :: s32
  relate_md_id :: s32
  need_silent_reboot :: s32
  mdstatusfd :: s32
  status_event_type :: s32
  md_ctl_fsm_curr_state :: s32
  gotten_md_info :: s32
  fsm_md_id :: s32
  ignore_time_out_msg :: bool
  dev_monitor_fd :: s32
  time_HS1 :: int
  stuck :: bool

definition ccb_call :: "('w ccb, 'a) state \<Rightarrow> ('w mdinit, 'a) state" where
  "ccb_call m = State (\<lambda>s. case run_state m (ccb.truncate s) of
     (a, t) \<Rightarrow> (a, s\<lparr>world := world t, trace := trace t, ub := ub t, ccci_ccb_ports := ccci_ccb_ports t,
        ccb_info_len := ccb_info_len t, user := user t, ctrl := ctrl t, shm := shm t, ccb_hung := ccb_hung t\<rparr>))"

definition stall :: "('w mdinit, unit) state" where
  "stall = modify (\<lambda>s. s\<lparr>stuck := True\<rparr>)"

section \<open>Properties\<close>

text \<open>The result of \<open>property_get\<close> and the string it leaves in the buffer.\<close>

definition prop_value :: "sysres \<Rightarrow> string" where
  "prop_value r = (case r_name r of None \<Rightarrow> [] | Some v \<Rightarrow> v)"

definition property_get :: "'w os \<Rightarrow> string \<Rightarrow> ('w mdinit, s32 \<times> string) state" where
  "property_get os name = do {
     r \<leftarrow> syscall os (Sys_property_get name);
     ret (r_ret r, prop_value r) }"

definition property_get_default :: "'w os \<Rightarrow> string \<Rightarrow> string \<Rightarrow> ('w mdinit, s32 \<times> string) state" where
  "property_get_default os name dflt = do {
     r \<leftarrow> syscall os (Sys_property_get_default name dflt);
     ret (r_ret r, prop_value r) }"

definition property_set :: "'w os \<Rightarrow> string \<Rightarrow> string \<Rightarrow> ('w mdinit, unit) state" where
  "property_set os name val = do { _ \<leftarrow> syscall os (Sys_property_set name val); ret () }"

abbreviation (input) PROPERTY_WAIT_TIME :: nat where "PROPERTY_WAIT_TIME \<equiv> 10"
abbreviation (input) MAX_WAIT_FOR_PROPERTY :: nat where "MAX_WAIT_FOR_PROPERTY \<equiv> 6000"

primrec wait_loop :: "'w os \<Rightarrow> string \<Rightarrow> string \<Rightarrow> nat \<Rightarrow> ('w mdinit, s32) state" where
  "wait_loop os name desired 0 = ret (- 1)"
| "wait_loop os name desired (Suc n) = do {
     (retpropget, val) \<leftarrow> property_get os name;
     if 0 <s retpropget \<and> val = desired then ret 0
     else do {
       _ \<leftarrow> syscall os (Sys_usleep (PROPERTY_WAIT_TIME * 1000));
       wait_loop os name desired n } }"

text \<open>A \<open>do\<close> loop: the property is read at least once. No caller passes a null desired value.\<close>

definition wait_for_property :: "'w os \<Rightarrow> string \<Rightarrow> string \<Rightarrow> nat \<Rightarrow> ('w mdinit, s32) state" where
  "wait_for_property os name desired waitmsec =
     wait_loop os name desired (max 1 (waitmsec div PROPERTY_WAIT_TIME))"

section \<open>Boot profile and boot mode\<close>

definition update_inf_to_bootprof :: "'w os \<Rightarrow> string \<Rightarrow> ('w mdinit, s32) state" where
  "update_inf_to_bootprof os str = do {
     fd \<leftarrow> gets boot_prof_fd;
     md \<leftarrow> gets curr_md_id;
     if \<not> fd <s 0 then do {
       let full = ''ccci_md'' @ print_int md @ '': '' @ str;
       (if 64 < length full then fault else ret ());
       r \<leftarrow> syscall os (Sys_write fd (take (length full) (bytes (take 63 full) @ [0])));
       ret (r_ret r) }
     else ret (- 1) }"

definition BOOT_MODE_FILE :: string where
  "BOOT_MODE_FILE = ''/sys/class/BOOT/BOOT/boot/boot_mode''"

text \<open>
  The count of bytes read is kept in a \<open>size_t\<close>: only 0 is \<open><= 0\<close>, and after an error the buffer is
  used as it is.
\<close>

definition read_boot_mode :: "'w os \<Rightarrow> s32 \<Rightarrow> ('w mdinit, char option) state" where
  "read_boot_mode os fd = do {
     r \<leftarrow> syscall os (Sys_read fd 3);
     if r_ret r = 0 then ret None
     else do {
       (if r_data r = [] then fault else ret ());
       ret (Some (char_of_byte (byte_at (r_data r) 0))) } }"

definition get_sys_boot_mode :: "'w os \<Rightarrow> ('w mdinit, char) state" where
  "get_sys_boot_mode os = do {
     m \<leftarrow> gets sys_boot_mode;
     if m \<noteq> NUL then ret m
     else do {
       fd \<leftarrow> syscall os (Sys_open BOOT_MODE_FILE O_RDONLY 0);
       if r_ret fd <s 0 then ret NUL
       else do {
         c \<leftarrow> read_boot_mode os (r_ret fd);
         let mode = (case c of None \<Rightarrow> CHR ''0'' | Some d \<Rightarrow> d);
         modify (\<lambda>s. s\<lparr>sys_boot_mode := mode\<rparr>);
         _ \<leftarrow> syscall os (Sys_close (r_ret fd));
         ret mode } } }"

definition is_factory_mode :: "'w os \<Rightarrow> ('w mdinit, bool) state" where
  "is_factory_mode os = do { m \<leftarrow> get_sys_boot_mode os; ret (m = CHR ''4'') }"

definition is_meta_mode :: "'w os \<Rightarrow> ('w mdinit, bool) state" where
  "is_meta_mode os = do {
     fd \<leftarrow> syscall os (Sys_open BOOT_MODE_FILE O_RDONLY 0);
     if r_ret fd <s 0 then ret False
     else do {
       c \<leftarrow> read_boot_mode os (r_ret fd);
       _ \<leftarrow> syscall os (Sys_close (r_ret fd));
       ret (c = Some (CHR ''1'')) } }"

section \<open>The stored modem type\<close>

definition ccci_md_env_cfg_folder_init :: "'w os \<Rightarrow> ('w mdinit, s32) state" where
  "ccci_md_env_cfg_folder_init os = do {
     _ \<leftarrow> syscall os (Sys_umask 7);
     r \<leftarrow> syscall os (Sys_stat ''/data/vendor/ccci_cfg'');
     if r_ret r <s 0 then do {
       m \<leftarrow> syscall os (Sys_mkdir ''/data/vendor/ccci_cfg'' 0x1C0);
       ret (if r_ret m <s 0 then - 1 else 0) }
     else ret 0 }"

text \<open>The value is left in the caller's buffer of \<open>size\<close> bytes; \<open>sysenv_get\<close> may return a null pointer.\<close>

definition md_env_val_get :: "'w os \<Rightarrow> string \<Rightarrow> string \<Rightarrow> nat \<Rightarrow> ('w mdinit, s32 \<times> string) state" where
  "md_env_val_get os name buf n = do {
     r \<leftarrow> ccci_md_env_cfg_folder_init os;
     if r <s 0 then ret (- 1, buf)
     else do {
       v \<leftarrow> syscall os (Sys_sysenv_get name);
       ret (1, take (n - 1) (case r_name v of None \<Rightarrow> ''(null)'' | Some str \<Rightarrow> str)) } }"

definition md_env_val_set :: "'w os \<Rightarrow> string \<Rightarrow> string \<Rightarrow> ('w mdinit, s32) state" where
  "md_env_val_set os name val = do {
     r \<leftarrow> ccci_md_env_cfg_folder_init os;
     if r <s 0 then ret (- 1)
     else do {
       v \<leftarrow> syscall os (Sys_sysenv_set name val);
       ret (if r_ret v \<noteq> 0 then - 1 else 0) } }"

section \<open>Radio access technologies\<close>

abbreviation (input) MD_CAP_ENHANCE :: u32 where "MD_CAP_ENHANCE \<equiv> 0x5A000000"
abbreviation (input) MD_CAP_GSM :: u32 where "MD_CAP_GSM \<equiv> 1"
abbreviation (input) MD_CAP_TDS_CDMA :: u32 where "MD_CAP_TDS_CDMA \<equiv> 2"
abbreviation (input) MD_CAP_WCDMA :: u32 where "MD_CAP_WCDMA \<equiv> 4"
abbreviation (input) MD_CAP_TDD_LTE :: u32 where "MD_CAP_TDD_LTE \<equiv> 8"
abbreviation (input) MD_CAP_FDD_LTE :: u32 where "MD_CAP_FDD_LTE \<equiv> 16"
abbreviation (input) MD_CAP_CDMA2000 :: u32 where "MD_CAP_CDMA2000 \<equiv> 32"

definition get_capability_bit :: "string \<Rightarrow> u32" where
  "get_capability_bit cap_str =
     (if cap_str = ''LF'' \<or> cap_str = ''Lf'' \<or> cap_str = ''lf'' then MD_CAP_FDD_LTE
      else if cap_str = ''LT'' \<or> cap_str = ''Lt'' \<or> cap_str = ''lt'' then MD_CAP_TDD_LTE
      else if cap_str = ''W'' \<or> cap_str = ''w'' then MD_CAP_WCDMA
      else if cap_str = ''C'' \<or> cap_str = ''c'' then MD_CAP_CDMA2000
      else if cap_str = ''T'' \<or> cap_str = ''t'' then MD_CAP_TDS_CDMA
      else if cap_str = ''G'' \<or> cap_str = ''g'' then MD_CAP_GSM
      else 0)"

abbreviation (input) MAX_CAP_STR_LENGTH :: nat where "MAX_CAP_STR_LENGTH \<equiv> 16"

text \<open>A word that fills the buffer ends the scan; what was collected so far still counts.\<close>

fun rat_loop :: "string \<Rightarrow> string \<Rightarrow> u32 \<Rightarrow> u32" where
  "rat_loop [] tmp_str bits = (if tmp_str \<noteq> [] then bits OR get_capability_bit tmp_str else bits)"
| "rat_loop (c # cs) tmp_str bits =
     (if c = CHR '' '' then rat_loop cs tmp_str bits
      else if c = CHR 0x09 then rat_loop cs tmp_str bits
      else if c = CHR ''/'' \<or> c = CHR ''_'' then
        rat_loop cs [] (if tmp_str \<noteq> [] then bits OR get_capability_bit tmp_str else bits)
      else if length tmp_str < MAX_CAP_STR_LENGTH - 1 then rat_loop cs (tmp_str @ [c]) bits
      else rat_loop [] tmp_str bits)"

definition ccci_rat_str_to_bitmap :: "string \<Rightarrow> u32" where
  "ccci_rat_str_to_bitmap str = rat_loop str [] 0"

text \<open>The entry \<open>ultwg\<close> is written with the logical \<open>||\<close>.\<close>

definition legacy_rat_map :: "u32 list" where
  "legacy_rat_map = [
     MD_CAP_FDD_LTE OR MD_CAP_TDD_LTE OR MD_CAP_TDS_CDMA OR MD_CAP_GSM,
     MD_CAP_FDD_LTE OR MD_CAP_TDD_LTE OR MD_CAP_WCDMA OR MD_CAP_GSM,
     MD_CAP_FDD_LTE OR MD_CAP_TDD_LTE OR MD_CAP_WCDMA OR MD_CAP_TDS_CDMA OR MD_CAP_GSM,
     MD_CAP_FDD_LTE OR MD_CAP_TDD_LTE OR MD_CAP_WCDMA OR MD_CAP_CDMA2000 OR MD_CAP_GSM,
     MD_CAP_FDD_LTE OR MD_CAP_TDD_LTE OR MD_CAP_WCDMA OR MD_CAP_CDMA2000 OR MD_CAP_TDS_CDMA OR MD_CAP_GSM,
     MD_CAP_TDD_LTE OR MD_CAP_TDS_CDMA OR MD_CAP_GSM,
     MD_CAP_FDD_LTE OR MD_CAP_WCDMA OR MD_CAP_GSM,
     MD_CAP_FDD_LTE OR MD_CAP_WCDMA OR MD_CAP_CDMA2000 OR MD_CAP_GSM,
     MD_CAP_FDD_LTE OR MD_CAP_TDD_LTE OR MD_CAP_CDMA2000 OR MD_CAP_TDS_CDMA OR MD_CAP_GSM,
     MD_CAP_TDD_LTE OR MD_CAP_CDMA2000 OR MD_CAP_TDS_CDMA OR MD_CAP_GSM,
     (if MD_CAP_TDD_LTE OR MD_CAP_WCDMA \<noteq> 0 \<or> MD_CAP_GSM \<noteq> 0 then 1 else 0),
     MD_CAP_TDD_LTE OR MD_CAP_WCDMA OR MD_CAP_CDMA2000 OR MD_CAP_GSM,
     MD_CAP_FDD_LTE OR MD_CAP_TDS_CDMA OR MD_CAP_GSM,
     MD_CAP_FDD_LTE OR MD_CAP_CDMA2000 OR MD_CAP_TDS_CDMA OR MD_CAP_GSM]"

definition legacy_md_support_id_to_rat :: "s32 \<Rightarrow> u32" where
  "legacy_md_support_id_to_rat md_support_id =
     (if md_support_id <s 0 then 0
      else if md_support_id <s 8 then md_support_id
      else if md_support_id \<le>s 21 then legacy_rat_map ! unat (md_support_id - 8)
      else if md_support_id AND MD_CAP_ENHANCE = MD_CAP_ENHANCE then md_support_id
      else 0)"

definition get_rsc_protol_value :: "'w os \<Rightarrow> s32 \<Rightarrow> string \<Rightarrow> nat \<Rightarrow> ('w mdinit, s32 \<times> string) state" where
  "get_rsc_protol_value os md buf n = do {
     (r, v) \<leftarrow> (if md = 0 then property_get os ''ro.vendor.mtk_md1_support''
                else if md = 2 then property_get os ''ro.vendor.mtk_md3_support''
                else ret (0, []));
     ret (r, if r \<noteq> 0 then take (n - 1) v else buf) }"

definition parse_sys_env_rat_setting :: "'w os \<Rightarrow> s32 \<Rightarrow> ('w mdinit, u32) state" where
  "parse_sys_env_rat_setting os md = do {
     (r, v) \<leftarrow> get_rsc_protol_value os md [] 64;
     let rsc_value = (if 0 <s r then atoi v else 0);
     saved \<leftarrow> (if md = 0 then do {
         (r2, v2) \<leftarrow> md_env_val_get os ''md_type'' v 64;
         ret (if 0 <s r2 then atoi v2 else 0) }
       else ret 0);
     ret (if 0 < saved then saved else rsc_value) }"

definition get_stored_modem_type_val :: "'w os \<Rightarrow> s32 \<Rightarrow> ('w mdinit, s32) state" where
  "get_stored_modem_type_val os md =
     (if md \<noteq> 0 then ret 0
      else do {
        (r, v) \<leftarrow> md_env_val_get os ''md_type'' [] 64;
        ret (if 0 <s r then legacy_md_support_id_to_rat (atoi v) else - 1) })"

definition store_modem_type_val :: "'w os \<Rightarrow> s32 \<Rightarrow> s32 \<Rightarrow> ('w mdinit, s32) state" where
  "store_modem_type_val os md new_val =
     (if md \<noteq> 0 then ret 0
      else if new_val = 0 then ret 0
      else md_env_val_set os ''md_type'' (print_int new_val))"

end
