(* ===== verification/Mdinit_Setup.thy ===== *)
theory Mdinit_Setup
  imports Mdinit_Env
begin

unbundle bit_operations_syntax

text \<open>
  The start of \<open>ccci_mdinit\<close>: the settings the kernel publishes and the boot loader's report
  (\<open>ccci_support_utils.c\<close>), the search for modem images (\<open>ccci_legacy.c\<close>), the device pattern
  (\<open>magic_pattern.c\<close>), the time service (\<open>time_clib_srv.c\<close>) and \<open>main\<close> up to the choice of the
  driver's version.
\<close>

section \<open>Numbers in settings\<close>

text \<open>
  \<open>str2uint\<close> first checks the characters, at most 16 of them, and collects them in lower case; \<open>i\<close> ends
  one past the terminator, or at 16 when there was none. \<open>None\<close> is a refused string.
\<close>

fun str2uint_scan :: "string \<Rightarrow> bool \<Rightarrow> nat \<Rightarrow> string \<Rightarrow> (string \<times> bool \<times> nat) option" where
  "str2uint_scan buf hex 0 cs = Some (buf, hex, length buf)"
| "str2uint_scan buf hex (Suc n) cs =
     (case cs of [] \<Rightarrow> Some (buf @ [NUL], hex, length buf + 1)
      | c # r \<Rightarrow>
        if c = CHR ''X'' \<or> c = CHR ''x'' then
          if length buf \<noteq> 1 then None
          else if hd buf \<noteq> CHR ''0'' then None
          else str2uint_scan (buf @ [CHR ''x'']) True n r
        else if c_digit c then str2uint_scan (buf @ [c]) hex n r
        else if 97 \<le> (of_char c :: nat) \<and> (of_char c :: nat) \<le> 102 then
          if \<not> hex then None else str2uint_scan (buf @ [c]) hex n r
        else if 65 \<le> (of_char c :: nat) \<and> (of_char c :: nat) \<le> 70 then
          if \<not> hex then None else str2uint_scan (buf @ [char_of (of_char c + 32 :: nat)]) hex n r
        else None)"

fun sum10 :: "s32 \<Rightarrow> string \<Rightarrow> s32" where
  "sum10 v [] = v"
| "sum10 v (c # cs) = sum10 (v * 10 + of_nat (of_char c) - 48) cs"

fun sum16 :: "s32 \<Rightarrow> string \<Rightarrow> s32" where
  "sum16 v [] = v"
| "sum16 v (c # cs) =
     sum16 (if 97 \<le> (of_char c :: nat) then v * 16 + of_nat (of_char c) - 97 + 10
            else v * 16 + of_nat (of_char c) - 48) cs"

text \<open>The last of the \<open>i\<close> collected characters is taken for the terminator and left out.\<close>

definition str2uint :: "string \<Rightarrow> u32" where
  "str2uint str = (case str2uint_scan [] False 16 str of
       None \<Rightarrow> 0
     | Some (buf, hex, i) \<Rightarrow> if hex then sum16 0 (drop 2 (take (i - 1) buf)) else sum10 0 (take (i - 1) buf))"

section \<open>The boot loader's report\<close>

definition show_aee_system_exception :: "'w os \<Rightarrow> string \<Rightarrow> string \<Rightarrow> u32 \<Rightarrow> string \<Rightarrow> ('w mdinit, s32) state" where
  "show_aee_system_exception os module path flag msg = do {
     m \<leftarrow> syscall os (Sys_malloc 4096);
     if r_ret m = 0 then ret (- 2)
     else do {
       f \<leftarrow> gets aee_fun_ptr;
       if f then do {
         r \<leftarrow> syscall os (Sys_aee_system_exception module path flag (take 4095 msg));
         ret (r_ret r) }
       else ret (- 1) } }"

definition depends_so_prepare :: "'w os \<Rightarrow> ('w mdinit, unit) state" where
  "depends_so_prepare os = do {
     modify (\<lambda>s. s\<lparr>aee_fun_ptr := False\<rparr>);
     h \<leftarrow> syscall os (Sys_dlopen ''libaed.so'');
     modify (\<lambda>s. s\<lparr>lib_handle_aed := (r_ret h \<noteq> 0)\<rparr>);
     if r_ret h \<noteq> 0 then do {
       f \<leftarrow> syscall os (Sys_dlsym ''aee_system_exception'');
       if r_ret f = 0 then ret () else modify (\<lambda>s. s\<lparr>aee_fun_ptr := True\<rparr>) }
     else ret () }"

definition depends_so_free :: "'w os \<Rightarrow> ('w mdinit, unit) state" where
  "depends_so_free os = do {
     h \<leftarrow> gets lib_handle_aed;
     if h then do { _ \<leftarrow> syscall os Sys_dlclose; ret () } else ret () }"

definition show_warning_for_lk_ld_fail :: "'w os \<Rightarrow> string \<Rightarrow> ('w mdinit, unit) state" where
  "show_warning_for_lk_ld_fail os warn_msg = do {
     r \<leftarrow> wait_for_property os ''init.svc.debuggerd'' ''running'' 30000;
     (if r = 0 then do { _ \<leftarrow> syscall os (Sys_sleep 1); ret () } else ret ());
     _ \<leftarrow> show_aee_system_exception os ''ccci_mdinit'' ''external.ccci_mdinit'' 0 warn_msg;
     ret () }"

text \<open>The C string in a buffer whose last byte read has been overwritten by the terminator.\<close>

definition report_text :: "sysres \<Rightarrow> string" where
  "report_text r = cstr (map char_of_byte (take (unat (r_ret r) - 1) (r_data r)))"

definition check_lk_load_md_status :: "'w os \<Rightarrow> s32 \<Rightarrow> ('w mdinit, s32) state" where
  "check_lk_load_md_status os md =
     (if md \<noteq> 1 then ret 0
      else do {
        fd \<leftarrow> syscall os (Sys_open ''/sys/kernel/ccci/lk_md'' O_RDONLY 0);
        if r_ret fd <s 0 then ret 0
        else do {
          m \<leftarrow> syscall os (Sys_malloc 4096);
          if r_ret m = 0 then do { _ \<leftarrow> syscall os (Sys_close (r_ret fd)); ret (- 1) }
          else do {
            r \<leftarrow> syscall os (Sys_read (r_ret fd) 4095);
            res \<leftarrow> (if r_ret r \<le>s 0 then ret (- 1)
              else if sublist ''LK Load MD:[Disabled]'' (report_text r) then ret 0
              else if sublist ''LK load MD success!'' (report_text r) then ret 0
              else do { show_warning_for_lk_ld_fail os (report_text r); ret (- 1) });
            _ \<leftarrow> syscall os (Sys_close (r_ret fd));
            ret res } } })"

section \<open>Kernel settings\<close>

text \<open>
  The scanner of \<open>parse_k_setting\<close>, its state with the name and the value collected so far in two arrays
  of 64 bytes. \<open>K_overflow\<close> is a write past the end of one of them.
\<close>

datatype k_state = K_init | K_name string | K_colon string | K_value string string

datatype k_result = K_found string | K_missing | K_overflow

definition line_end :: "char \<Rightarrow> bool" where
  "line_end c \<longleftrightarrow> c = CHR 0x0D \<or> c = CHR 0x0A"

fun k_scan :: "string \<Rightarrow> k_state \<Rightarrow> string \<Rightarrow> k_result" where
  "k_scan name st [] = K_missing"
| "k_scan name K_init (c # cs) = (if c = CHR ''['' then k_scan name (K_name []) cs else k_scan name K_init cs)"
| "k_scan name (K_name n) (c # cs) =
     (if c = CHR '']'' then if 64 \<le> length n then K_overflow else k_scan name (K_colon n) cs
      else if line_end c then k_scan name K_init cs
      else if 64 \<le> length n then K_overflow else k_scan name (K_name (n @ [c])) cs)"
| "k_scan name (K_colon n) (c # cs) =
     (if c = CHR '':'' then k_scan name (K_value n []) cs else k_scan name K_init cs)"
| "k_scan name (K_value n v) (c # cs) =
     (if line_end c then
        if 64 \<le> length v then K_overflow
        else if cstr n = name then K_found (cstr v)
        else k_scan name K_init cs
      else if 64 \<le> length v then K_overflow else k_scan name (K_value n (v @ [c])) cs)"

definition parse_k_setting :: "string \<Rightarrow> string \<Rightarrow> nat \<Rightarrow> k_result" where
  "parse_k_setting ref_data name n = (case k_scan name K_init ref_data of
       K_found v \<Rightarrow> K_found (take (n - 1) v)
     | K_missing \<Rightarrow> K_missing
     | K_overflow \<Rightarrow> K_overflow)"

text \<open>
  The flags of the modems, read from the 64 bytes of \<open>tmp_buf\<close> until five have been seen. The end of the
  string does not stop the loop; the result is \<open>False\<close> when it runs past the array.
\<close>

fun read_en :: "string \<Rightarrow> nat \<Rightarrow> s32 list \<Rightarrow> s32 list \<times> bool" where
  "read_en [] i en = (en, False)"
| "read_en (c # cs) i en =
     (let i' = (if c = CHR ''1'' \<or> c = CHR ''0'' then i + 1 else i);
          en' = (if c = CHR ''1'' then en[i := 1] else en)
      in if 5 \<le> i' then (en', True) else read_en cs i' en')"

text \<open>What a string leaves in an array that held \<open>junk\<close>.\<close>

definition in_array :: "string \<Rightarrow> string \<Rightarrow> string" where
  "in_array junk v = v @ [NUL] @ drop (length v + 1) junk"

definition apply_k_settings :: "string \<Rightarrow> string \<Rightarrow> ('w mdinit, s32) state" where
  "apply_k_settings junk ref_data = (case parse_k_setting ref_data ''modem en'' 64 of
       K_overflow \<Rightarrow> do { fault; ret (- 1) }
     | K_missing \<Rightarrow> ret (- 1)
     | K_found v \<Rightarrow> do {
         let (en, inside) = read_en (in_array junk v) 0 (replicate 5 0);
         (if inside then ret () else fault);
         modify (\<lambda>s. s\<lparr>k_setting_md_en := en\<rparr>);
         case parse_k_setting ref_data ''ccci_drv_ver'' 64 of
           K_overflow \<Rightarrow> do { fault; ret (- 1) }
         | K_missing \<Rightarrow> ret (- 1)
         | K_found w \<Rightarrow> do {
             modify (\<lambda>s. s\<lparr>k_setting_ccci_drv_ver := (if w = ''V2'' then 2 else 1)\<rparr>);
             ret 0 } })"

text \<open>The byte before the end of what was read is overwritten with 0, and the scan covers that 0.\<close>

definition setting_text :: "sysres \<Rightarrow> string" where
  "setting_text r = map char_of_byte (take (unat (r_ret r) - 1) (r_data r)) @ [NUL]"

definition kernel_setting_prepare :: "'w os \<Rightarrow> string \<Rightarrow> ('w mdinit, s32) state" where
  "kernel_setting_prepare os junk = do {
     m \<leftarrow> syscall os (Sys_malloc 4096);
     if r_ret m = 0 then ret (- 1)
     else do {
       fd \<leftarrow> syscall os (Sys_open ''/sys/kernel/ccci/kcfg_setting'' O_RDONLY 0);
       if r_ret fd <s 0 then ret (- 1)
       else do {
         r \<leftarrow> syscall os (Sys_read (r_ret fd) 4095);
         res \<leftarrow> (if r_ret r \<le>s 0 then ret (- 1) else apply_k_settings junk (setting_text r));
         _ \<leftarrow> syscall os (Sys_close (r_ret fd));
         ret res } } }"

definition is_current_md_en :: "s32 \<Rightarrow> 'w mdinit \<Rightarrow> s32" where
  "is_current_md_en md s =
     (if md = 1 then k_setting_md_en s ! 0
      else if md = 2 then k_setting_md_en s ! 1
      else if md = 3 then k_setting_md_en s ! 2
      else 0)"

definition get_ccci_drv_ver :: "'w mdinit \<Rightarrow> s32" where
  "get_ccci_drv_ver s = k_setting_ccci_drv_ver s"

section \<open>Modem images\<close>

definition md_img_folder :: string where "md_img_folder = ''/vendor/firmware/''"
definition md_img_cip_folder :: string where "md_img_cip_folder = ''/custom/etc/firmware/''"

definition md1_img_list :: "(string \<times> u32) list" where
  "md1_img_list = [(''modem_1_2g_n.img'', 1), (''modem_1_3g_n.img'', 2), (''modem_1_wg_n.img'', 3),
     (''modem_1_tg_n.img'', 4), (''modem_1_lwg_n.img'', 5), (''modem_1_ltg_n.img'', 6)]"

definition md2_img_list :: "(string \<times> u32) list" where
  "md2_img_list = [(''modem_2_2g_n.img'', 1), (''modem_2_3g_n.img'', 2), (''modem_2_wg_n.img'', 3),
     (''modem_2_tg_n.img'', 4), (''modem_2_lwg_n.img'', 5), (''modem_2_ltg_n.img'', 6)]"

definition md3_img_list :: "(string \<times> u32) list" where
  "md3_img_list = [(''modem_3_3g_n.img'', 2)]"

primrec scan_images :: "'w os \<Rightarrow> (string \<times> u32) list \<Rightarrow> u32 list \<Rightarrow> ('w mdinit, u32 list) state" where
  "scan_images os [] found = ret found"
| "scan_images os (img # imgs) found = do {
     a \<leftarrow> syscall os (Sys_access (md_img_cip_folder @ fst img));
     if r_ret a = 0 then scan_images os imgs (found @ [snd img])
     else do {
       b \<leftarrow> syscall os (Sys_access (md_img_folder @ fst img));
       if r_ret b = 0 then scan_images os imgs (found @ [snd img])
       else scan_images os imgs found } }"

definition md_image_exist_check :: "'w os \<Rightarrow> s32 \<Rightarrow> s32 \<Rightarrow> ('w mdinit, s32) state" where
  "md_image_exist_check os fd md = do {
     found \<leftarrow> scan_images os (if md = 1 then md1_img_list else if md = 2 then md2_img_list
                              else if md = 3 then md3_img_list else []) [];
     _ \<leftarrow> syscall os (Sys_ioctl fd ''CCCI_IOC_SET_MD_IMG_EXIST''
            (concat (map le32 (found @ replicate (16 - length found) 0))));
     ret 0 }"

section \<open>The device pattern\<close>

definition byte_reverse :: "u8 list \<Rightarrow> u8 list" where
  "byte_reverse b = [b ! 1, b ! 0, b ! 3, b ! 2]"

definition cross_id_switch :: "u8 list \<Rightarrow> u8 list \<Rightarrow> u8 list \<times> u8 list" where
  "cross_id_switch a b = ([a ! 0, b ! 0, b ! 3, a ! 3], [a ! 1, b ! 1, b ! 2, a ! 2])"

definition mix_ids :: "u32 \<Rightarrow> u32 \<Rightarrow> u32" where
  "mix_ids id_1 id_2 =
     (let (a, b) = cross_id_switch (byte_reverse (le32 id_1)) (byte_reverse (le32 id_2))
      in rd32 a XOR rd32 b)"

text \<open>The result, and what \<open>p_val\<close> points to afterwards.\<close>

definition compute_random_pattern :: "'w os \<Rightarrow> u32 \<Rightarrow> ('w mdinit, s32 \<times> u32) state" where
  "compute_random_pattern os p_val = do {
     fd \<leftarrow> syscall os (Sys_open ''/dev/devmap'' O_RDONLY 0);
     if r_ret fd <s 0 then ret (- 1, p_val)
     else do {
       r1 \<leftarrow> syscall os (Sys_ioctl (r_ret fd) ''READ_DEV_DATA'' (le32 12));
       if r_ret r1 \<noteq> 0 then do { _ \<leftarrow> syscall os (Sys_close (r_ret fd)); ret (- 1, p_val) }
       else do {
         r2 \<leftarrow> syscall os (Sys_ioctl (r_ret fd) ''READ_DEV_DATA'' (le32 13));
         _ \<leftarrow> syscall os (Sys_close (r_ret fd));
         ret (if r_ret r2 \<noteq> 0 then (- 1, p_val) else (0, mix_ids (rd32 (r_data r1)) (rd32 (r_data r2)))) } } }"

section \<open>The time service\<close>

definition CCCI_TIMEZONE_FILE :: string where
  "CCCI_TIMEZONE_FILE = ''/data/vendor/ccci_cfg/timezone''"

definition save_timezone :: "'w os \<Rightarrow> s32 \<Rightarrow> ('w mdinit, s32) state" where
  "save_timezone os tz = do {
     fd \<leftarrow> syscall os (Sys_open CCCI_TIMEZONE_FILE (O_CREAT OR O_RDWR OR O_TRUNC) 0x180);
     if r_ret fd <s 0 then ret (- 1)
     else do {
       w \<leftarrow> syscall os (Sys_write (r_ret fd) (le32 tz));
       _ \<leftarrow> syscall os (Sys_close (r_ret fd));
       ret (if r_ret w \<noteq> 4 then - 2 else 0) } }"

definition load_timezone :: "'w os \<Rightarrow> ('w mdinit, s32 \<times> s32) state" where
  "load_timezone os = do {
     fd \<leftarrow> syscall os (Sys_open CCCI_TIMEZONE_FILE O_RDONLY 0);
     if r_ret fd <s 0 then ret (- 1, 0)
     else do {
       r \<leftarrow> syscall os (Sys_read (r_ret fd) 4);
       _ \<leftarrow> syscall os (Sys_close (r_ret fd));
       ret (if r_ret r \<noteq> 4 then - 2 else 0, rd32 (r_data r)) } }"

text \<open>The time zone both the service and its thread start with.\<close>

definition first_timezone :: "'w os \<Rightarrow> ('w mdinit, s32) state" where
  "first_timezone os = do {
     (r, tz) \<leftarrow> load_timezone os;
     if r <s 0 then do { g \<leftarrow> syscall os Sys_gettimeofday; ret (r_ret g) } else ret tz }"

definition time_srv_init :: "'w os \<Rightarrow> ('w mdinit, s32) state" where
  "time_srv_init os = do {
     fd \<leftarrow> syscall os (Sys_open ''/dev/ccci_ipc_5'' O_RDWR 0);
     modify (\<lambda>s. s\<lparr>ipc_fd := r_ret fd\<rparr>);
     if r_ret fd <s 0 then ret (- 1)
     else do {
       curr_tz \<leftarrow> first_timezone os;
       r \<leftarrow> syscall os (Sys_ioctl (r_ret fd) ''CCCI_IPC_UPDATE_TIMEZONE'' (le32 curr_tz));
       ret (if r_ret r <s 0 then - 2 else 0) } }"

text \<open>One turn of \<open>monitor_time_update_thread\<close>, from the time zone it holds to the next.\<close>

definition monitor_time_turn :: "'w os \<Rightarrow> s32 \<Rightarrow> ('w mdinit, s32) state" where
  "monitor_time_turn os curr_tz = do {
     fd \<leftarrow> gets ipc_fd;
     _ \<leftarrow> syscall os Sys_mutex_lock;
     w \<leftarrow> syscall os (Sys_ioctl fd ''CCCI_IPC_WAIT_TIME_UPDATE'' (le32 0));
     tz \<leftarrow> (if r_ret w = 0 then do {
         g \<leftarrow> syscall os Sys_gettimeofday;
         (if curr_tz \<noteq> r_ret g then do { _ \<leftarrow> save_timezone os (r_ret g); ret () } else ret ());
         _ \<leftarrow> syscall os (Sys_ioctl fd ''CCCI_IPC_UPDATE_TIME'' (le32 (r_ret g)));
         ret (r_ret g) }
       else ret curr_tz);
     _ \<leftarrow> syscall os Sys_mutex_unlock;
     ret tz }"

section \<open>The start of the program\<close>

text \<open>
  \<open>main\<close> up to the choice between the two drivers: \<open>Some v\<close> when the daemon goes on with version \<open>v\<close>
  of the driver (\<open>main_v2\<close> for 2, \<open>main_v1\<close> otherwise), \<open>None\<close> when it returns.
\<close>

definition main_prepare :: "'w os \<Rightarrow> string \<Rightarrow> string option \<Rightarrow> ('w mdinit, s32 option) state" where
  "main_prepare os junk arg = do {
     modify (\<lambda>s. s\<lparr>curr_md_id := 0\<rparr>);
     case arg of None \<Rightarrow> ret None
     | Some a \<Rightarrow>
       if a \<noteq> ''0'' \<and> a \<noteq> ''1'' \<and> a \<noteq> ''2'' then ret None
       else do {
         let md = (if a = ''0'' then 1 else if a = ''1'' then 2 else 3);
         modify (\<lambda>s. s\<lparr>curr_md_id := md\<rparr>);
         fd \<leftarrow> syscall os (Sys_open ''/proc/bootprof'' O_RDWR 0);
         modify (\<lambda>s. s\<lparr>boot_prof_fd := r_ret fd\<rparr>);
         _ \<leftarrow> update_inf_to_bootprof os ''md_init srv start'';
         depends_so_prepare os;
         lk \<leftarrow> check_lk_load_md_status os md;
         if lk <s 0 then ret None
         else do {
           k \<leftarrow> kernel_setting_prepare os junk;
           if k <s 0 then ret None
           else do {
             en \<leftarrow> gets (is_current_md_en md);
             if en = 0 then ret None
             else do { v \<leftarrow> gets get_ccci_drv_ver; ret (Some v) } } } } }"

end
