(* ===== verification/Mdinit_Relate.thy ===== *)
theory Mdinit_Relate
  imports Mdinit_Setup
begin

unbundle bit_operations_syntax

text \<open>
  The modem's surroundings, as \<open>ccci_mdinit\<close> sees them: the services that are started and stopped with
  the modem and the restart handshake with the other modem (\<open>platform/mdinit_relate.c\<close>), and the boot
  data handed to the modem (\<open>platform/mdinit_platform.c\<close>).
\<close>

abbreviation (input) MD_SYS1 :: s32 where "MD_SYS1 \<equiv> 0"
abbreviation (input) MD_SYS2 :: s32 where "MD_SYS2 \<equiv> 1"
abbreviation (input) MD_SYS3 :: s32 where "MD_SYS3 \<equiv> 2"

section \<open>Services\<close>

text \<open>Bit \<open>i\<close> of \<open>waitflag\<close> records that property \<open>i\<close> has had its value once.\<close>

primrec wait_pass :: "'w os \<Rightarrow> (string \<times> string) list \<Rightarrow> nat \<Rightarrow> u32 \<Rightarrow> bool \<Rightarrow> ('w mdinit, u32 \<times> bool) state" where
  "wait_pass os [] i waitflag needtry = ret (waitflag, needtry)"
| "wait_pass os (w # ws) i waitflag needtry =
     (if waitflag AND push_bit i 1 = 0 then do {
        r \<leftarrow> wait_for_property os (fst w) (snd w) 0;
        if 0 \<le>s r then wait_pass os ws (Suc i) (waitflag OR push_bit i 1) needtry
        else wait_pass os ws (Suc i) waitflag True }
      else wait_pass os ws (Suc i) waitflag needtry)"

primrec wait_rounds :: "'w os \<Rightarrow> (string \<times> string) list \<Rightarrow> nat \<Rightarrow> u32 \<Rightarrow> ('w mdinit, bool) state" where
  "wait_rounds os wps 0 waitflag = ret True"
| "wait_rounds os wps (Suc n) waitflag = do {
     (flag, needtry) \<leftarrow> wait_pass os wps 0 waitflag False;
     if needtry then do {
       _ \<leftarrow> syscall os (Sys_usleep (PROPERTY_WAIT_TIME * 1000));
       wait_rounds os wps n flag }
     else ret False }"

definition wait_property_ready :: "'w os \<Rightarrow> (string \<times> string) list \<Rightarrow> nat \<Rightarrow> ('w mdinit, bool) state" where
  "wait_property_ready os wps waitmsec =
     (if 32 < length wps then ret False
      else do {
        needtry \<leftarrow> wait_rounds os wps (max 1 (waitmsec div PROPERTY_WAIT_TIME)) 0;
        ret (\<not> needtry) })"

definition start_service_verified :: "'w os \<Rightarrow> string \<Rightarrow> string \<Rightarrow> nat \<Rightarrow> ('w mdinit, s32) state" where
  "start_service_verified os service_name service_status_name waitmsec = do {
     _ \<leftarrow> property_get os service_status_name;
     property_set os ''ctl.start'' service_name;
     wait_for_property os service_status_name ''running'' waitmsec }"

definition stop_service_verified :: "'w os \<Rightarrow> string \<Rightarrow> string \<Rightarrow> nat \<Rightarrow> ('w mdinit, s32) state" where
  "stop_service_verified os service_name service_status_name waitmsec = do {
     property_set os ''ctl.stop'' service_name;
     wait_for_property os service_status_name ''stopped'' waitmsec }"

text \<open>Waiting, six times 50 ms at most, for the logger's consent.\<close>

primrec wait_logger :: "'w os \<Rightarrow> nat \<Rightarrow> ('w mdinit, unit) state" where
  "wait_logger os 0 = ret ()"
| "wait_logger os (Suc n) = do {
     (r, buf) \<leftarrow> property_get_default os ''vendor.debug.md.reset'' ''0'';
     if buf \<noteq> ''0'' then ret ()
     else do {
       _ \<leftarrow> syscall os (Sys_usleep 50000);
       wait_logger os n } }"

definition stop_rild_muxd :: "'w os \<Rightarrow> ('w mdinit, (string \<times> string) list) state" where
  "stop_rild_muxd os = do {
     fac \<leftarrow> is_factory_mode os;
     if fac then ret []
     else do {
       rn \<leftarrow> gets rild_name;
       rs \<leftarrow> gets rild_service_status;
       _ \<leftarrow> stop_service_verified os rn rs MAX_WAIT_FOR_PROPERTY;
       md \<leftarrow> gets relate_md_id;
       if md \<noteq> MD_SYS3 then do {
         mn \<leftarrow> gets muxd_name;
         ms \<leftarrow> gets muxd_service_status;
         property_set os ''ctl.stop'' mn;
         ret [(ms, ''stopped'')] }
       else ret [] } }"

definition stop_mdlogger :: "'w os \<Rightarrow> ('w mdinit, (string \<times> string) list) state" where
  "stop_mdlogger os = do {
     cnt \<leftarrow> gets mdlogger_cnt;
     if cnt \<noteq> 0 then do {
       wait_logger os 6;
       ln \<leftarrow> gets mdlogger_name;
       ls \<leftarrow> gets mdlogger_service_status;
       property_set os ''ctl.stop'' ln;
       modify (\<lambda>s. s\<lparr>mdlogger_cnt := 0\<rparr>);
       ret [(ls, ''stopped'')] }
     else ret [] }"

definition stop_all_ccci_up_layer_services :: "'w os \<Rightarrow> ('w mdinit, unit) state" where
  "stop_all_ccci_up_layer_services os = do {
     fn \<leftarrow> gets fsd_name;
     fs \<leftarrow> gets fsd_service_status;
     _ \<leftarrow> stop_service_verified os fn fs MAX_WAIT_FOR_PROPERTY;
     _ \<leftarrow> syscall os (Sys_release_wake_lock ''ccci_fsd'');
     wp1 \<leftarrow> stop_rild_muxd os;
     wp2 \<leftarrow> stop_mdlogger os;
     _ \<leftarrow> wait_property_ready os (wp1 @ wp2) MAX_WAIT_FOR_PROPERTY;
     ret () }"

definition start_mdlogger :: "'w os \<Rightarrow> nat \<Rightarrow> ('w mdinit, unit) state" where
  "start_mdlogger os waitmsec = do {
     cnt \<leftarrow> gets mdlogger_cnt;
     if cnt = 0 then do {
       ln \<leftarrow> gets mdlogger_name;
       ls \<leftarrow> gets mdlogger_service_status;
       _ \<leftarrow> start_service_verified os ln ls waitmsec;
       modify (\<lambda>s. s\<lparr>mdlogger_cnt := 1\<rparr>) }
     else ret () }"

definition start_all_ccci_up_layer_services :: "'w os \<Rightarrow> ('w mdinit, unit) state" where
  "start_all_ccci_up_layer_services os = do {
     silent \<leftarrow> gets need_silent_reboot;
     (if silent \<noteq> 0 then property_set os ''vendor.ril.mux.report.case'' ''2'' else ret ());
     start_mdlogger os 0;
     fac \<leftarrow> is_factory_mode os;
     if fac then ret ()
     else do {
       md \<leftarrow> gets relate_md_id;
       n \<leftarrow> gets (if md \<noteq> MD_SYS3 then muxd_name else rild_name);
       st \<leftarrow> gets (if md \<noteq> MD_SYS3 then muxd_service_status else rild_service_status);
       _ \<leftarrow> start_service_verified os n st MAX_WAIT_FOR_PROPERTY;
       ret () } }"

definition rild_generation :: "'w os \<Rightarrow> ('w mdinit, s32) state" where
  "rild_generation os = do {
     (r, v) \<leftarrow> property_get_default os ''ro.vendor.mtk_ril_mode'' ''legacy chip'';
     ret (if 0 <s r \<and> v = ''c6m_1rild'' then 1 else 0) }"

section \<open>Decryption and NVRAM\<close>

text \<open>
  A wait that ends in \<open>exit\<close> is \<open>None\<close>: the process is gone. The first argument is the attempts left of
  \<open>MAX_NVRAM_RETRY_TIMES\<close>.
\<close>

abbreviation (input) MAX_NVRAM_RETRY_TIMES :: nat where "MAX_NVRAM_RETRY_TIMES \<equiv> 240"

primrec nvram_loop :: "nat \<Rightarrow> 'w os \<Rightarrow> nat \<Rightarrow> ('w mdinit, bool) state" where
  "nvram_loop 0 os wait_level = ret False"
| "nvram_loop (Suc n) os wait_level = do {
     (r, v) \<leftarrow> property_get os ''vendor.service.nvram_init'';
     if (wait_level = 1 \<or> wait_level = 2) \<and> v = ''Ready'' then ret True
     else if wait_level = 2 \<and> v = ''Pre_Ready'' then ret True
     else if n = 0 then ret False
     else do {
       _ \<leftarrow> syscall os (Sys_usleep 500000);
       nvram_loop n os wait_level } }"

definition wait_nvram_ready :: "'w os \<Rightarrow> nat \<Rightarrow> ('w mdinit, s32 option) state" where
  "wait_nvram_ready os wait_level = do {
     ok \<leftarrow> nvram_loop MAX_NVRAM_RETRY_TIMES os wait_level;
     if ok then ret (Some 0)
     else do {
       md \<leftarrow> gets relate_md_id;
       let mod_name = (if md = 1 then ''md1'' else if md = 2 then ''md2'' else if md = 3 then ''md3'' else ''mdx'');
       _ \<leftarrow> show_aee_system_exception os ''ccci_mdinit'' mod_name 1
              ''Wait service.nvram_init ready timeout, please ask nvram owner to check!'';
       ret None } }"

text \<open>The two flags of \<open>wait_decrypt_done\<close> and the time at which the state became encrypted.\<close>

record decrypt_state =
  isEncryptWithPasswd :: bool
  toCheck :: bool
  becomeEncrypted :: int

definition decrypt_check :: "'w os \<Rightarrow> string \<Rightarrow> decrypt_state \<Rightarrow> ('w mdinit, decrypt_state) state" where
  "decrypt_check os decrypt d = do {
     d1 \<leftarrow> (if becomeEncrypted d = 0 then do {
         i \<leftarrow> syscall os Sys_sysinfo;
         ret (d\<lparr>becomeEncrypted := fst (r_time i)\<rparr>) }
       else ret d);
     if toCheck d1 \<and> \<not> isEncryptWithPasswd d1 then do {
       i \<leftarrow> syscall os Sys_sysinfo;
       ret (if 10 < fst (r_time i) - becomeEncrypted d1
            then d1\<lparr>isEncryptWithPasswd := (decrypt = ''trigger_restart_min_framework''), toCheck := False\<rparr>
            else d1) }
     else ret d1 }"

primrec decrypt_loop :: "nat \<Rightarrow> 'w os \<Rightarrow> decrypt_state \<Rightarrow> string \<Rightarrow> string \<Rightarrow> ('w mdinit, unit) state" where
  "decrypt_loop 0 os d crypto decrypt = stall"
| "decrypt_loop (Suc fuel) os d crypto decrypt = do {
     d' \<leftarrow> (if crypto = ''encrypted'' then decrypt_check os decrypt d else ret d);
     if crypto = ''encrypted'' \<and> decrypt = (if isEncryptWithPasswd d' then ''trigger_restart_min_framework''
                                             else ''trigger_restart_framework'') then ret ()
     else if crypto = ''unencrypted'' then ret ()
     else do {
       _ \<leftarrow> syscall os (Sys_usleep 500000);
       (r1, crypto') \<leftarrow> property_get_default os ''ro.crypto.state'' [];
       (r2, decrypt') \<leftarrow> property_get os ''vold.decrypt'';
       decrypt_loop fuel os d' crypto' decrypt' } }"

definition wait_decrypt_done :: "'w os \<Rightarrow> nat \<Rightarrow> ('w mdinit, unit) state" where
  "wait_decrypt_done os fuel = do {
     (r1, crypto) \<leftarrow> property_get_default os ''ro.crypto.state'' [];
     (r2, decrypt) \<leftarrow> property_get os ''vold.decrypt'';
     decrypt_loop fuel os \<lparr>isEncryptWithPasswd = False, toCheck = True, becomeEncrypted = 0\<rparr> crypto decrypt }"

primrec vold_loop :: "nat \<Rightarrow> 'w os \<Rightarrow> ('w mdinit, s32 option) state" where
  "vold_loop 0 os = do { stall; ret None }"
| "vold_loop (Suc fuel) os = do {
     (r, v) \<leftarrow> property_get os ''vold.decrypt'';
     if v = ''trigger_restart_framework'' then do {
       ok \<leftarrow> wait_nvram_ready os 1;
       ret (if ok = None then None else Some 2) }
     else if v = ''trigger_restart_min_framework'' then do {
       ok \<leftarrow> wait_nvram_ready os 2;
       ret (if ok = None then None else Some 3) }
     else do {
       _ \<leftarrow> syscall os (Sys_usleep 100000);
       vold_loop fuel os } }"

definition check_decrypt_ready :: "'w os \<Rightarrow> nat \<Rightarrow> ('w mdinit, s32 option) state" where
  "check_decrypt_ready os fuel = do {
     (r, v) \<leftarrow> property_get os ''ro.crypto.state'';
     if v = [] then do {
       wait_decrypt_done os fuel;
       ok \<leftarrow> wait_nvram_ready os 2;
       ret (if ok = None then None else Some 1) }
     else if v = ''unencrypted'' \<or> v = ''unsupported'' then do {
       ok \<leftarrow> wait_nvram_ready os 1;
       ret (if ok = None then None else Some 0) }
     else if v = ''encrypted'' then do {
       (r2, t) \<leftarrow> property_get os ''ro.crypto.type'';
       if t = ''file'' then do {
         ok \<leftarrow> wait_nvram_ready os 1;
         ret (if ok = None then None else Some 0) }
       else vold_loop fuel os }
     else ret (Some (- 1)) }"

section \<open>Restarting together with the other modem\<close>

definition get_mdini_killed_state :: "'w os \<Rightarrow> s32 \<Rightarrow> ('w mdinit, s32) state" where
  "get_mdini_killed_state os monitor_fd = do {
     r \<leftarrow> syscall os (Sys_ioctl monitor_fd ''CCCI_IOC_GET_MDINIT_KILLED'' (le32 0));
     ret (if r_ret r \<noteq> 0 then 0 else rd32 (r_data r)) }"

text \<open>
  The status properties of this modem and of the other one. They are set for modems 1 and 3 only; for
  modem 2 the two arrays stay uninitialised.
\<close>

definition md_status_keys :: "s32 \<Rightarrow> (string \<times> string) option" where
  "md_status_keys md =
     (if md = MD_SYS1 then Some (''vendor.mtk.md1.status'', ''vendor.mtk.md3.status'')
      else if md = MD_SYS3 then Some (''vendor.mtk.md3.status'', ''vendor.mtk.md1.status'')
      else None)"

definition stop_ril_proxy :: "'w os \<Rightarrow> s32 \<Rightarrow> ('w mdinit, unit) state" where
  "stop_ril_proxy os md =
     (if md = MD_SYS1 then do {
        fac \<leftarrow> is_factory_mode os;
        if fac then ret ()
        else do {
          g \<leftarrow> rild_generation os;
          if g = 0 then do {
            _ \<leftarrow> stop_service_verified os ''vendor.ril-proxy'' ''init.svc.vendor.ril-proxy'' MAX_WAIT_FOR_PROPERTY;
            ret () }
          else ret () } }
      else ret ())"

text \<open>\<open>False\<close> is the jump to \<open>OTHER_CHECK\<close>.\<close>

primrec wait_other_reset :: "nat \<Rightarrow> 'w os \<Rightarrow> s32 \<Rightarrow> s32 \<Rightarrow> string \<Rightarrow> ('w mdinit, bool) state" where
  "wait_other_reset 0 os monitor_fd md key = do { stall; ret False }"
| "wait_other_reset (Suc fuel) os monitor_fd md key = do {
     (r, buf) \<leftarrow> property_get os key;
     if r = 0 then do { stop_ril_proxy os md; ret False }
     else if buf = ''reset'' then do {
       (if md = MD_SYS3 then do {
          _ \<leftarrow> syscall os (Sys_ioctl monitor_fd ''CCCI_IOC_RESET_MD1_MD3_PCCIF'' []); ret () }
        else ret ());
       property_set os key ''reset_start'';
       _ \<leftarrow> wait_for_property os key ''reset_start'' MAX_WAIT_FOR_PROPERTY;
       ret True }
     else do {
       _ \<leftarrow> syscall os (Sys_usleep 30000);
       wait_other_reset fuel os monitor_fd md key } }"

primrec wait_this_start :: "nat \<Rightarrow> 'w os \<Rightarrow> string \<Rightarrow> ('w mdinit, bool) state" where
  "wait_this_start 0 os key = do { stall; ret False }"
| "wait_this_start (Suc fuel) os key = do {
     (r, buf) \<leftarrow> property_get os key;
     if r = 0 then ret False
     else if buf = ''reset_start'' then ret True
     else do {
       _ \<leftarrow> syscall os (Sys_usleep 30000);
       wait_this_start fuel os key } }"

definition restart_handshake :: "'w os \<Rightarrow> nat \<Rightarrow> s32 \<Rightarrow> s32 \<Rightarrow> ('w mdinit, unit) state" where
  "restart_handshake os fuel monitor_fd md = (case md_status_keys md of
       None \<Rightarrow> fault
     | Some (this, other) \<Rightarrow> do {
         a \<leftarrow> wait_other_reset fuel os monitor_fd md other;
         if \<not> a then ret ()
         else do {
           b \<leftarrow> wait_this_start fuel os this;
           if \<not> b then ret () else stop_ril_proxy os md } })"

definition check_to_restart_md_v2 :: "'w os \<Rightarrow> nat \<Rightarrow> s32 \<Rightarrow> bool \<Rightarrow> ('w mdinit, unit) state" where
  "check_to_restart_md_v2 os fuel monitor_fd first_boot = do {
     r \<leftarrow> syscall os (Sys_ioctl monitor_fd ''CCCI_IOC_GET_MD_TYPE'' []);
     (if r_ret r = 0 then property_set os ''vendor.ril.active.md'' (take 15 (print_int (rd32 (r_data r))))
      else ret ());
     md \<leftarrow> gets relate_md_id;
     killed \<leftarrow> get_mdini_killed_state os monitor_fd;
     (if \<not> first_boot \<or> killed \<noteq> 0 then restart_handshake os fuel monitor_fd md else ret ());
     fn \<leftarrow> gets fsd_name;
     fs \<leftarrow> gets fsd_service_status;
     _ \<leftarrow> start_service_verified os fn fs MAX_WAIT_FOR_PROPERTY;
     if first_boot then do { _ \<leftarrow> ccb_call (ccci_ccb_init_users os md); ret () } else ret () }"

section \<open>Following the modem's status\<close>

definition service_names :: "s32 \<Rightarrow> (string \<times> string \<times> string \<times> string) option" where
  "service_names md =
     (if md = 0 then Some (''vendor.gsm0710muxd'', ''vendor.ril-daemon-mtk'', ''emdlogger1'', ''vendor.ccci_fsd'')
      else if md = 1 then
        Some (''vendor.gsm0710muxdmd2'', ''vendor.ril-daemon-mtkmd2'', ''emdlogger2'', ''vendor.ccci2_fsd'')
      else if md = 2 then Some (''invalid'', ''vendor.viarild'', ''emdlogger3'', ''vendor.ccci3_fsd'')
      else None)"

definition md_init_related_init :: "s32 \<Rightarrow> ('w mdinit, unit) state" where
  "md_init_related_init md = (case service_names md of
       None \<Rightarrow> ret ()
     | Some (mux, ril, logger, fs) \<Rightarrow> modify (\<lambda>s. s\<lparr>
         muxd_name := mux, rild_name := ril, mdlogger_name := logger, fsd_name := fs,
         muxd_service_status := ''init.svc.'' @ mux, rild_service_status := ''init.svc.'' @ ril,
         mdlogger_service_status := ''init.svc.'' @ logger, fsd_service_status := ''init.svc.'' @ fs\<rparr>))"

definition notify_boot_ready :: "'w os \<Rightarrow> ('w mdinit, unit) state" where
  "notify_boot_ready os = do {
     meta \<leftarrow> is_meta_mode os;
     (if meta then ret ()
      else do {
        fd \<leftarrow> gets system_ch_handle;
        r \<leftarrow> syscall os (Sys_ioctl fd ''CCCI_IOC_GET_MD_BOOT_MODE'' (le32 0));
        if r_ret r = 0 \<and> rd32 (r_data r) = 2 then ret () else start_all_ccci_up_layer_services os });
     modify (\<lambda>s. s\<lparr>need_silent_reboot := 0\<rparr>) }"

definition notify_md_status :: "'w os \<Rightarrow> s32 \<Rightarrow> s32 \<Rightarrow> ('w mdinit, unit) state" where
  "notify_md_status os status flight_mode =
     (if status = CCCI_MD_STA_INIT then do {
        modify (\<lambda>s. s\<lparr>relate_md_id := curr_md_id s - 1\<rparr>);
        md \<leftarrow> gets relate_md_id;
        md_init_related_init md;
        _ \<leftarrow> update_inf_to_bootprof os ''decpyt ready'';
        ret () }
      else if status = CCCI_MD_STA_BOOT_READY then notify_boot_ready os
      else if status = CCCI_MD_STA_RESET then
        if flight_mode \<noteq> 0 then do {
          _ \<leftarrow> wait_for_property os ''vendor.ril.getccci.response'' ''1'' 500;
          meta \<leftarrow> is_meta_mode os;
          if meta then ret () else stop_all_ccci_up_layer_services os }
        else ret ()
      else if status = CCCI_MD_STA_EXCEPTION then do {
        start_mdlogger os MAX_WAIT_FOR_PROPERTY;
        modify (\<lambda>s. s\<lparr>need_silent_reboot := 1\<rparr>);
        md \<leftarrow> gets relate_md_id;
        if md = MD_SYS3 then property_set os ''vendor.net.cdma.mdmstat'' ''exception'' else ret () }
      else ret ())"

section \<open>Status property and boot data\<close>

definition delay_to_reset_md :: "'w os \<Rightarrow> nat \<Rightarrow> ('w mdinit, unit) state" where
  "delay_to_reset_md os version = do {
     (r, buf) \<leftarrow> property_get_default os
       (if version = 1 then ''vendor.md.reset.wait'' else ''vendor.mediatek.debug.md.reset.wait'') ''none'';
     if buf \<noteq> ''none'' then do {
       let val = atoi buf;
       if 0 <s val \<and> val <s 10 then do { _ \<leftarrow> syscall os (Sys_sleep (unat val)); ret () } else ret () }
     else ret () }"

definition md_status_key :: "s32 \<Rightarrow> string" where
  "md_status_key md = take 49 (''vendor.mtk.md'' @ print_int (md + 1) @ ''.status'')"

definition store_md_statue :: "'w os \<Rightarrow> s32 \<Rightarrow> string \<Rightarrow> nat \<Rightarrow> ('w mdinit, unit) state" where
  "store_md_statue os md buf len = do {
     let prop_val = take 91 (take (len - 1) buf);
     property_set os (md_status_key md) prop_val;
     if md = MD_SYS3 then property_set os ''vendor.net.cdma.mdmstat'' prop_val else ret () }"

definition read_number_file :: "'w os \<Rightarrow> string \<Rightarrow> ('w mdinit, string option) state" where
  "read_number_file os path = do {
     fd \<leftarrow> syscall os (Sys_open path O_RDONLY 0);
     if r_ret fd <s 0 then ret None
     else do {
       r \<leftarrow> syscall os (Sys_read (r_ret fd) 15);
       _ \<leftarrow> syscall os (Sys_close (r_ret fd));
       ret (if r_ret r \<le>s 0 then None
            else Some (cstr (map char_of_byte (take (unat (r_ret r)) (r_data r))))) } }"

definition get_usp_sbp_setting_v2 :: "'w os \<Rightarrow> ('w mdinit, s32) state" where
  "get_usp_sbp_setting_v2 os = do {
     t \<leftarrow> read_number_file os ''/mnt/vendor/nvdata/APCFG/APRDCL/CXP_SBP'';
     ret (case t of None \<Rightarrow> - 1 | Some str \<Rightarrow> atoi str) }"

text \<open>A property read as a number: \<open>missing\<close> when it does not exist, 0 when it is negative.\<close>

definition property_uint :: "'w os \<Rightarrow> string \<Rightarrow> s32 \<Rightarrow> ('w mdinit, s32) state" where
  "property_uint os name missing = do {
     (r, buf) \<leftarrow> property_get os name;
     ret (if r = 0 then missing else if str2uint buf <s 0 then 0 else str2uint buf) }"

definition get_usp_sbp_setting :: "'w os \<Rightarrow> ('w mdinit, s32) state" where
  "get_usp_sbp_setting os = property_uint os ''persist.vendor.mtk_usp_md_sbp_code'' (- 1)"

definition get_cip_sbp_setting :: "'w os \<Rightarrow> s32 \<Rightarrow> ('w mdinit, u32) state" where
  "get_cip_sbp_setting os md =
     (if md \<noteq> MD_SYS1 \<and> md \<noteq> MD_SYS2 then ret 0
      else do {
        let path = md_img_cip_folder @ (if md = MD_SYS1 then ''CIP_MD_SBP'' else ''CIP_MD2_SBP'');
        _ \<leftarrow> syscall os (Sys_umask 7);
        st \<leftarrow> syscall os (Sys_stat path);
        if r_ret st <s 0 then ret 0
        else do {
          t \<leftarrow> read_number_file os path;
          ret (case t of None \<Rightarrow> 0 | Some str \<Rightarrow> if 0 <s str2uint str then str2uint str else 0) } })"

definition get_project_sbp_code_v1 :: "'w os \<Rightarrow> s32 \<Rightarrow> ('w mdinit, s32) state" where
  "get_project_sbp_code_v1 os md = do {
     r \<leftarrow> syscall os (Sys_prj_cfg_setting
       (if md = MD_SYS2 then ''MTK_MD2_SBP_CUSTOM_VALUE'' else ''MTK_MD_SBP_CUSTOM_VALUE''));
     ret (case r_name r of None \<Rightarrow> 0 | Some v \<Rightarrow> str2uint (take 9 v)) }"

definition get_project_sbp_code :: "'w os \<Rightarrow> s32 \<Rightarrow> ('w mdinit, s32) state" where
  "get_project_sbp_code os md = property_uint os ''ro.vendor.mtk_md_sbp_custom_value'' 0"

text \<open>
  The NVRAM library answers \<open>NVM_GetFileDesc\<close> with a descriptor and, as bytes, the size of a record.
  The buffer passed by every caller has the \<open>recsize\<close> bytes of an \<open>MD_SBP_Struct\<close>.
\<close>

definition get_nvram_ef_data :: "'w os \<Rightarrow> s32 \<Rightarrow> u32 \<Rightarrow> ('w mdinit, s32 \<times> u8 list) state" where
  "get_nvram_ef_data os fid recsize = do {
     d \<leftarrow> syscall os (Sys_NVM_GetFileDesc fid);
     if r_ret d <s 0 then ret (- 1, [])
     else do {
       let rec_size = rd32 (r_data d);
       (if recsize < rec_size then fault else ret ());
       r \<leftarrow> syscall os (Sys_read (r_ret d) rec_size);
       if rec_size \<noteq> r_ret r then ret (- 1, r_data r)
       else do {
         _ \<leftarrow> syscall os (Sys_NVM_CloseFileDesc (r_ret d));
         ret (0, r_data r) } } }"

primrec check_nvram_ready :: "nat \<Rightarrow> 'w os \<Rightarrow> nat \<Rightarrow> ('w mdinit, bool) state" where
  "check_nvram_ready 0 os retry = do { stall; ret False }"
| "check_nvram_ready (Suc fuel) os retry = do {
     (r, v) \<leftarrow> property_get os ''vendor.service.nvram_init'';
     if v = ''Ready'' \<or> v = ''Pre_Ready'' then ret (\<not> 30 \<le> retry + 1)
     else do {
       _ \<leftarrow> syscall os (Sys_usleep 500000);
       check_nvram_ready fuel os (retry + 1) } }"

definition get_nvram_sbp_code :: "'w os \<Rightarrow> nat \<Rightarrow> s32 \<Rightarrow> ('w mdinit, s32) state" where
  "get_nvram_sbp_code os fuel md = do {
     _ \<leftarrow> check_nvram_ready fuel os 0;
     lid \<leftarrow> syscall os (Sys_NVM_GetLIDByName ''/vendor/nvdata/APCFG/APRDCL/MD_SBP'');
     if r_ret lid <s 0 then ret 0
     else do {
       m \<leftarrow> syscall os (Sys_malloc 24);
       if r_ret m = 0 then ret 0
       else do {
         (r, d) \<leftarrow> get_nvram_ef_data os (r_ret lid) 24;
         ret (if r \<noteq> 0 then 0 else if md = MD_SYS2 then rd32 (drop 8 d) else rd32 d) } } }"

definition pick_sbp :: "s32 \<Rightarrow> s32 \<Rightarrow> s32 \<Rightarrow> s32 \<Rightarrow> s32" where
  "pick_sbp cip prj stored old =
     (if 0 <s cip then cip else if 0 <s prj then prj else if 0 <s stored then stored else old)"

definition get_md_sbp_code :: "'w os \<Rightarrow> nat \<Rightarrow> s32 \<Rightarrow> nat \<Rightarrow> ('w mdinit, s32) state" where
  "get_md_sbp_code os fuel md version = do {
     usp \<leftarrow> get_usp_sbp_setting_v2 os;
     if 0 \<le>s usp then do { modify (\<lambda>s. s\<lparr>sbpc := usp\<rparr>); ret usp }
     else do {
       cip \<leftarrow> get_cip_sbp_setting os md;
       prj \<leftarrow> (if version = 1 then get_project_sbp_code_v1 os md else get_project_sbp_code os md);
       stored \<leftarrow> get_nvram_sbp_code os fuel md;
       modify (\<lambda>s. s\<lparr>sbpc := pick_sbp cip prj stored (sbpc s)\<rparr>);
       gets sbpc } }"

definition get_md_wait_time :: "'w os \<Rightarrow> ('w mdinit, s32) state" where
  "get_md_wait_time os = do {
     (r, buf) \<leftarrow> property_get os ''ro.vendor.md_log_memdump_wait'';
     ret (if str2uint buf <s 0 then 0 else str2uint buf) }"

definition default_log_mode :: "'w os \<Rightarrow> ('w mdinit, u32) state" where
  "default_log_mode os = do {
     (r, b) \<leftarrow> property_get_default os ''ro.build.type'' ''eng'';
     w \<leftarrow> get_md_wait_time os;
     ret ((if b = ''eng'' then 2 else 0) OR push_bit 16 w) }"

text \<open>The configuration file of the modem's logger; the third file is tied to the id 3.\<close>

definition open_log_config :: "'w os \<Rightarrow> s32 \<Rightarrow> ('w mdinit, s32) state" where
  "open_log_config os md =
     (if md = 0 then do {
        a \<leftarrow> syscall os (Sys_open ''/data/mdlog/mdlog1_config'' O_RDONLY 0);
        if r_ret a <s 0 then do { b \<leftarrow> syscall os (Sys_open ''/data/mdl/mdl_config'' O_RDONLY 0); ret (r_ret b) }
        else ret (r_ret a) }
      else if md = 1 then do { a \<leftarrow> syscall os (Sys_open ''/data/mdlog/mdlog2_config'' O_RDONLY 0); ret (r_ret a) }
      else if md = 3 then do { a \<leftarrow> syscall os (Sys_open ''/data/mdlog/mdlog3_config'' O_RDONLY 0); ret (r_ret a) }
      else ret (- 1))"

definition get_mdlog_boot_mode :: "'w os \<Rightarrow> s32 \<Rightarrow> ('w mdinit, u32) state" where
  "get_mdlog_boot_mode os md = do {
     fd \<leftarrow> open_log_config os md;
     if fd <s 0 then default_log_mode os
     else do {
       r \<leftarrow> syscall os (Sys_read fd 4);
       mode \<leftarrow> (if r_ret r \<noteq> 4 then default_log_mode os else ret (rd32 (r_data r)));
       _ \<leftarrow> syscall os (Sys_close fd);
       ret mode } }"

definition get_md_dbg_dump_flag :: "'w os \<Rightarrow> s32 \<Rightarrow> ('w mdinit, u32) state" where
  "get_md_dbg_dump_flag os md = do {
     (r, buf) \<leftarrow> (if md = MD_SYS1 then property_get_default os ''persist.vendor.ccci.md1.dbg_dump'' ''none''
                  else if md = MD_SYS3 then property_get_default os ''persist.vendor.ccci.md3.dbg_dump'' ''none''
                  else ret (0, []));
     ret (if buf \<noteq> ''none'' then strtoul16 buf else - 1) }"

definition get_sbp_subid_setting :: "'w os \<Rightarrow> ('w mdinit, s32) state" where
  "get_sbp_subid_setting os = property_uint os ''persist.vendor.operator.subid'' 0"

end
