(* ===== verification/Mdinit_Fsm.thy ===== *)
theory Mdinit_Fsm
  imports Mdinit_Relate
begin

unbundle bit_operations_syntax

text \<open>
  The modem control state machine of \<open>ccci_mdinit\<close> (\<open>md_init_fsm.c\<close>): the daemon boots the modem, then
  handles the driver's messages one at a time. The driver's channel delivers them as answers to \<open>read\<close>.
\<close>

abbreviation (input) CCCI_MD_MSG_FORCE_STOP_REQUEST :: u32 where "CCCI_MD_MSG_FORCE_STOP_REQUEST \<equiv> 0xFAF50001"
abbreviation (input) CCCI_MD_MSG_FLIGHT_STOP_REQUEST :: u32 where "CCCI_MD_MSG_FLIGHT_STOP_REQUEST \<equiv> 0xFAF50002"
abbreviation (input) CCCI_MD_MSG_FORCE_START_REQUEST :: u32 where "CCCI_MD_MSG_FORCE_START_REQUEST \<equiv> 0xFAF50003"
abbreviation (input) CCCI_MD_MSG_FLIGHT_START_REQUEST :: u32 where "CCCI_MD_MSG_FLIGHT_START_REQUEST \<equiv> 0xFAF50004"
abbreviation (input) CCCI_MD_MSG_RESET_REQUEST :: u32 where "CCCI_MD_MSG_RESET_REQUEST \<equiv> 0xFAF50005"
abbreviation (input) CCCI_MD_MSG_EXCEPTION :: u32 where "CCCI_MD_MSG_EXCEPTION \<equiv> 0xFAF50006"
abbreviation (input) CCCI_MD_MSG_SEND_BATTERY_INFO :: u32 where "CCCI_MD_MSG_SEND_BATTERY_INFO \<equiv> 0xFAF50007"
abbreviation (input) CCCI_MD_MSG_STORE_NVRAM_MD_TYPE :: u32 where "CCCI_MD_MSG_STORE_NVRAM_MD_TYPE \<equiv> 0xFAF50008"
abbreviation (input) CCCI_MD_MSG_CFG_UPDATE :: u32 where "CCCI_MD_MSG_CFG_UPDATE \<equiv> 0xFAF50009"
abbreviation (input) CCCI_MD_MSG_RANDOM_PATTERN :: u32 where "CCCI_MD_MSG_RANDOM_PATTERN \<equiv> 0xFAF5000A"
abbreviation (input) CCCI_MONITOR_CH :: u32 where "CCCI_MONITOR_CH \<equiv> 0xF0000000"

abbreviation (input) MD_STATE_READY :: s32 where "MD_STATE_READY \<equiv> 2"

section \<open>The current status\<close>

definition status_name :: "s32 \<Rightarrow> string" where
  "status_name status =
     (if status = CCCI_MD_STA_INIT then ''init''
      else if status = CCCI_MD_STA_BOOT_READY then ''ready''
      else if status = CCCI_MD_STA_BOOT_UP then ''bootup''
      else if status = CCCI_MD_STA_RESET then ''reset''
      else if status = CCCI_MD_STA_STOP then ''stop''
      else if status = CCCI_MD_STA_FLIGHT_MODE then ''flightmode''
      else if status = CCCI_MD_STA_EXCEPTION then ''exception''
      else ''undefined'')"

definition check_curret_md_status :: "s32 \<Rightarrow> ('w mdinit, bool) state" where
  "check_curret_md_status desired = gets (\<lambda>s. md_ctl_fsm_curr_state s = desired)"

definition set_current_md_status :: "'w os \<Rightarrow> s32 \<Rightarrow> s32 \<Rightarrow> ('w mdinit, unit) state" where
  "set_current_md_status os status flight_mode = do {
     modify (\<lambda>s. s\<lparr>md_ctl_fsm_curr_state := status\<rparr>);
     _ \<leftarrow> update_inf_to_bootprof os (status_name status);
     md \<leftarrow> gets fsm_md_id;
     store_md_statue os md (status_name status) 32;
     notify_md_status os status flight_mode }"

section \<open>Messages handled in every state\<close>

definition store_md_type :: "'w os \<Rightarrow> s32 \<Rightarrow> ('w mdinit, unit) state" where
  "store_md_type os fd = do {
     r \<leftarrow> syscall os (Sys_ioctl fd ''CCCI_IOC_GET_MD_TYPE_SAVING'' (le32 0));
     md \<leftarrow> gets fsm_md_id;
     let val = rd32 (r_data r);
     old \<leftarrow> get_stored_modem_type_val os md;
     if val = old then ret ()
     else do { _ \<leftarrow> store_modem_type_val os md val; ret () } }"

definition common_msg_handler :: "'w os \<Rightarrow> u32 \<Rightarrow> ('w mdinit, bool) state" where
  "common_msg_handler os msg = do {
     fd \<leftarrow> gets system_ch_handle;
     if msg = CCCI_MD_MSG_SEND_BATTERY_INFO then do {
       _ \<leftarrow> syscall os (Sys_ioctl fd ''CCCI_IOC_SEND_BATTERY_INFO'' (le32 0));
       ret True }
     else if msg = CCCI_MD_MSG_CFG_UPDATE then ret True
     else if msg = CCCI_MD_MSG_RANDOM_PATTERN then do {
       (r, pattern) \<leftarrow> compute_random_pattern os 0;
       _ \<leftarrow> syscall os (Sys_ioctl fd ''CCCI_IOC_RESET_AP'' (le32 pattern));
       ret True }
     else if msg = CCCI_MD_MSG_STORE_NVRAM_MD_TYPE then do { store_md_type os fd; ret True }
     else if msg = CCCI_MD_MSG_EXCEPTION then do {
       already \<leftarrow> check_curret_md_status CCCI_MD_STA_EXCEPTION;
       (if already then ret () else set_current_md_status os CCCI_MD_STA_EXCEPTION 0);
       ret True }
     else ret False }"

section \<open>Starting and stopping the modem\<close>

text \<open>The status events: \<open>event_type\<close> follows a time stamp and the modem's id.\<close>

definition store_event :: "u8 list \<Rightarrow> ('w mdinit, unit) state" where
  "store_event d = modify (\<lambda>s. s\<lparr>status_event_type := (if 16 \<le> length d then rd32 (drop 12 d) else status_event_type s)\<rparr>)"

primrec wait_event :: "nat \<Rightarrow> 'w os \<Rightarrow> s32 \<Rightarrow> s32 \<Rightarrow> ('w mdinit, unit) state" where
  "wait_event 0 os fd wanted = stall"
| "wait_event (Suc fuel) os fd wanted = do {
     r \<leftarrow> syscall os (Sys_read fd 48);
     if 0 <s r_ret r then do {
       store_event (r_data r);
       ev \<leftarrow> gets status_event_type;
       if ev = wanted \<or> ev = MD_STA_EV_EXCEPTION then ret () else wait_event fuel os fd wanted }
     else wait_event fuel os fd wanted }"

definition open_status_port :: "'w os \<Rightarrow> s32 \<Rightarrow> ('w mdinit, bool) state" where
  "open_status_port os md = do {
     fd \<leftarrow> gets mdstatusfd;
     if \<not> fd <s 0 then ret True
     else if md \<noteq> 2 \<and> md \<noteq> 0 then ret False
     else do {
       r \<leftarrow> syscall os (Sys_open (if md = 2 then ''/dev/ccci_md3_sta'' else ''/dev/ccci_md1_sta'') O_RDWR 0);
       modify (\<lambda>s. s\<lparr>mdstatusfd := r_ret r\<rparr>);
       ret (\<not> r_ret r <s 0) } }"

definition is_md_command_finish :: "'w os \<Rightarrow> nat \<Rightarrow> s32 \<Rightarrow> bool \<Rightarrow> ('w mdinit, s32) state" where
  "is_md_command_finish os fuel md stop = do {
     ok \<leftarrow> open_status_port os md;
     if \<not> ok then ret (- 1)
     else do {
       fd \<leftarrow> gets mdstatusfd;
       wait_event fuel os fd (if stop then MD_STA_EV_STOP else MD_STA_EV_READY);
       gets status_event_type } }"

definition set_md_boot_env_data :: "'w os \<Rightarrow> nat \<Rightarrow> s32 \<Rightarrow> s32 \<Rightarrow> ('w mdinit, s32) state" where
  "set_md_boot_env_data os fuel md fd = do {
     d0 \<leftarrow> get_mdlog_boot_mode os md;
     d1 \<leftarrow> get_md_sbp_code os fuel md 2;
     d2 \<leftarrow> get_md_dbg_dump_flag os md;
     d3 \<leftarrow> get_sbp_subid_setting os;
     _ \<leftarrow> syscall os (Sys_ioctl fd ''CCCI_IOC_SET_BOOT_DATA''
            (concat (map le32 ([d0, d1, d2, d3] @ replicate 12 0))));
     ret 0 }"

definition report_state :: "'w os \<Rightarrow> s32 \<Rightarrow> ('w mdinit, s32) state" where
  "report_state os monitor_fd = do {
     r \<leftarrow> syscall os (Sys_ioctl monitor_fd ''CCCI_IOC_GET_MD_STATE'' (le32 0));
     if r_ret r <s 0 then ret (- 1)
     else if rd32 (r_data r) = MD_STATE_READY then do {
       set_current_md_status os CCCI_MD_STA_BOOT_READY 0;
       ret 0 }
     else ret (- 1) }"

definition trigger_modem_to_run :: "'w os \<Rightarrow> nat \<Rightarrow> s32 \<Rightarrow> s32 \<Rightarrow> bool \<Rightarrow> ('w mdinit, s32) state" where
  "trigger_modem_to_run os fuel monitor_fd flight_mode first_boot = do {
     set_current_md_status os CCCI_MD_STA_RESET flight_mode;
     check_to_restart_md_v2 os fuel monitor_fd first_boot;
     md \<leftarrow> gets fsm_md_id;
     _ \<leftarrow> set_md_boot_env_data os fuel md monitor_fd;
     set_current_md_status os CCCI_MD_STA_BOOT_UP 0;
     r \<leftarrow> syscall os (Sys_ioctl monitor_fd ''CCCI_IOC_DO_START_MD'' []);
     if r_ret r \<noteq> 0 then ret (- 1)
     else do {
       ev \<leftarrow> is_md_command_finish os fuel md False;
       if ev \<noteq> MD_STA_EV_READY then ret (- 1) else report_state os monitor_fd } }"

definition stop_modem :: "'w os \<Rightarrow> nat \<Rightarrow> s32 \<Rightarrow> u32 \<Rightarrow> ('w mdinit, s32) state" where
  "stop_modem os fuel monitor_fd data = do {
     r \<leftarrow> syscall os (Sys_ioctl monitor_fd ''CCCI_IOC_DO_STOP_MD'' (le32 data));
     if r_ret r \<noteq> 0 then ret (- 1)
     else do {
       md \<leftarrow> gets fsm_md_id;
       ev \<leftarrow> is_md_command_finish os fuel md True;
       ret (if ev \<noteq> MD_STA_EV_STOP then - 1 else r_ret r) } }"

primrec rst_lock_loop :: "nat \<Rightarrow> 'w os \<Rightarrow> s32 \<Rightarrow> ('w mdinit, unit) state" where
  "rst_lock_loop 0 os fd = ret ()"
| "rst_lock_loop (Suc n) os fd = do {
     r \<leftarrow> syscall os (Sys_ioctl fd ''CCCI_IOC_GET_HOLD_RST_CNT'' []);
     if r_ret r <s 0 \<or> rd32 (r_data r) = 0 then ret ()
     else do {
       _ \<leftarrow> syscall os (Sys_sleep 1);
       _ \<leftarrow> syscall os (Sys_ioctl fd ''CCCI_IOC_SHOW_LOCK_USER'' (take 4 (r_data r)));
       rst_lock_loop n os fd } }"

definition wait_for_rst_lock_free :: "'w os \<Rightarrow> s32 \<Rightarrow> ('w mdinit, unit) state" where
  "wait_for_rst_lock_free os fd = (if fd <s 0 then ret () else rst_lock_loop 10 os fd)"

section \<open>The requests\<close>

text \<open>What a forced stop and a reset have in common.\<close>

definition halt_modem :: "'w os \<Rightarrow> nat \<Rightarrow> s32 \<Rightarrow> s32 \<Rightarrow> ('w mdinit, unit) state" where
  "halt_modem os fuel fd bc_fd = do {
     delay_to_reset_md os 2;
     _ \<leftarrow> stop_modem os fuel fd 0;
     wait_for_rst_lock_free os bc_fd;
     meta \<leftarrow> is_meta_mode os;
     (if meta then ret () else stop_all_ccci_up_layer_services os);
     set_current_md_status os CCCI_MD_STA_STOP 0 }"

definition handle_request :: "'w os \<Rightarrow> nat \<Rightarrow> s32 \<Rightarrow> s32 \<Rightarrow> u32 \<Rightarrow> ('w mdinit, unit) state" where
  "handle_request os fuel fd bc_fd msg = do {
     stopped \<leftarrow> check_curret_md_status CCCI_MD_STA_STOP;
     flying \<leftarrow> check_curret_md_status CCCI_MD_STA_FLIGHT_MODE;
     ready \<leftarrow> check_curret_md_status CCCI_MD_STA_BOOT_READY;
     if msg = CCCI_MD_MSG_FORCE_STOP_REQUEST then
       (if stopped \<or> flying then ret () else halt_modem os fuel fd bc_fd)
     else if msg = CCCI_MD_MSG_FORCE_START_REQUEST then
       (if ready then ret () else do { _ \<leftarrow> trigger_modem_to_run os fuel fd 0 False; ret () })
     else if msg = CCCI_MD_MSG_FLIGHT_STOP_REQUEST then
       (if stopped \<or> flying then ret ()
        else do {
          _ \<leftarrow> stop_modem os fuel fd 1;
          set_current_md_status os CCCI_MD_STA_FLIGHT_MODE 0 })
     else if msg = CCCI_MD_MSG_FLIGHT_START_REQUEST then
       (if ready then ret () else do { _ \<leftarrow> trigger_modem_to_run os fuel fd 1 False; ret () })
     else if msg = CCCI_MD_MSG_RESET_REQUEST then do {
       halt_modem os fuel fd bc_fd;
       _ \<leftarrow> trigger_modem_to_run os fuel fd 0 False;
       ret () }
     else ret () }"

text \<open>One turn of the loop of \<open>main_v2\<close>: the message is 16 bytes, \<open>data[0]\<close>, \<open>data[1]\<close>, channel, reserved.\<close>

definition main_v2_turn :: "'w os \<Rightarrow> nat \<Rightarrow> s32 \<Rightarrow> s32 \<Rightarrow> ('w mdinit, unit) state" where
  "main_v2_turn os fuel fd bc_fd = do {
     r \<leftarrow> syscall os (Sys_read fd 16);
     if r_ret r \<le>s 0 \<or> r_ret r \<noteq> 16 then ret ()
     else if rd32 (r_data r) = 0xFFFFFFFF \<and> rd32 (drop 8 (r_data r)) = CCCI_MONITOR_CH then do {
       handled \<leftarrow> common_msg_handler os (rd32 (drop 4 (r_data r)));
       if handled then ret () else handle_request os fuel fd bc_fd (rd32 (drop 4 (r_data r))) }
     else ret () }"

section \<open>Start-up\<close>

definition node_row_CTRL :: "string list" where
  "node_row_CTRL = ccci_node_list ! 44"

primrec open_monitor :: "nat \<Rightarrow> 'w os \<Rightarrow> string \<Rightarrow> ('w mdinit, s32 option) state" where
  "open_monitor 0 os dev_port = ret None"
| "open_monitor (Suc n) os dev_port = do {
     r \<leftarrow> syscall os (Sys_open dev_port O_RDWR 0);
     if r_ret r <s 0 then
       if 0 < n then do { _ \<leftarrow> syscall os (Sys_usleep 10000); open_monitor n os dev_port }
       else ret None
     else ret (Some (r_ret r)) }"

definition get_md_info :: "'w os \<Rightarrow> s32 \<Rightarrow> ('w mdinit, unit) state" where
  "get_md_info os fd = do {
     g \<leftarrow> gets gotten_md_info;
     if g \<noteq> 0 then ret ()
     else do {
       r \<leftarrow> syscall os (Sys_ioctl fd ''CCCI_IOC_GET_MD_INFO'' []);
       let v = rd32 (r_data r);
       if r_ret r = 0 then modify (\<lambda>s. s\<lparr>gotten_md_info := (if v = 1 \<or> v = 2 then v else 0)\<rparr>) else ret () } }"

text \<open>\<open>main_v2\<close> up to its loop: the two descriptors the loop works on, or the code it returns.\<close>

definition main_v2_start :: "'w os \<Rightarrow> nat \<Rightarrow> s32 \<Rightarrow> ('w mdinit, s32 + s32 \<times> s32) state" where
  "main_v2_start os fuel input_md_id = do {
     modify (\<lambda>s. s\<lparr>fsm_md_id := input_md_id - 1\<rparr>);
     md \<leftarrow> gets fsm_md_id;
     set_current_md_status os CCCI_MD_STA_INIT md;
     if md \<noteq> 0 \<and> md \<noteq> 1 \<and> md \<noteq> 2 then ret (Inl (- 1))
     else do {
       node \<leftarrow> ccci_get_node_name os node_row_CTRL md;
       _ \<leftarrow> update_inf_to_bootprof os ''decpyt ready'';
       opened \<leftarrow> open_monitor 600 os (node_path node);
       case opened of None \<Rightarrow> ret (Inl (- 1))
       | Some fd \<Rightarrow> do {
           modify (\<lambda>s. s\<lparr>system_ch_handle := fd\<rparr>);
           curr \<leftarrow> gets curr_md_id;
           _ \<leftarrow> md_image_exist_check os fd curr;
           t \<leftarrow> time_srv_init os;
           (if t = 0 then do { _ \<leftarrow> syscall os Sys_pthread_create; ret () } else ret ());
           rat \<leftarrow> parse_sys_env_rat_setting os md;
           _ \<leftarrow> syscall os (Sys_ioctl fd ''CCCI_IOC_RELOAD_MD_TYPE'' (le32 rat));
           _ \<leftarrow> trigger_modem_to_run os fuel fd 0 True;
           get_md_info os fd;
           bc \<leftarrow> syscall os (Sys_open ''/dev/ccci_mdx_sta'' O_RDWR 0);
           ret (if r_ret bc <s 0 then Inl (- 1) else Inr (fd, r_ret bc)) } } }"

end
