(* ===== verification/Mdinit_Frame.thy ===== *)
theory Mdinit_Frame
  imports Mdinit_Fsm
begin

unbundle bit_operations_syntax

text \<open>
  What the helpers of \<open>ccci_mdinit\<close> leave alone. \<open>acted\<close> says that an operation acted on the world only
  through requests of a kind; \<open>quiet\<close>, that all of them were plain and that the daemon's
  identity and state are unchanged; \<open>calm\<close>, that the logger's and the silent reboot's flags are too.
\<close>

section \<open>Operations as runs of requests\<close>

definition after :: "'w os \<Rightarrow> sysreq list \<Rightarrow> 'w \<Rightarrow> 'w" where
  "after os qs w = fold (\<lambda>q w. snd (os q w)) qs w"

lemma after_simps [simp]: "after os [] w = w" "after os (q # qs) w = after os qs (snd (os q w))"
  "after os (qs @ rs) w = after os rs (after os qs w)"
  by (simp_all add: after_def)

definition acted ::
  "'w os \<Rightarrow> (sysreq \<Rightarrow> bool) \<Rightarrow> (sysreq, 'w, 'z) env_scheme \<Rightarrow> (sysreq, 'w, 'z) env_scheme \<Rightarrow> bool" where
  "acted os A s t \<longleftrightarrow> (\<exists>qs. trace t = trace s @ qs \<and> list_all A qs \<and> world t = after os qs (world s))"

lemma actedI: "trace t = trace s @ qs \<Longrightarrow> list_all A qs \<Longrightarrow> world t = after os qs (world s) \<Longrightarrow> acted os A s t"
  by (auto simp: acted_def)

lemma acted_here: "trace t = trace s \<Longrightarrow> world t = world s \<Longrightarrow> acted os A s t"
  by (rule actedI [where qs = "[]"]) simp_all

lemma acted_trans:
  assumes "acted os A s t" "acted os A t u"
  shows "acted os A s u"
proof -
  obtain qs rs where "trace t = trace s @ qs" "list_all A qs" "world t = after os qs (world s)"
    "trace u = trace t @ rs" "list_all A rs" "world u = after os rs (world t)"
    using assms by (auto simp: acted_def)
  then show ?thesis by (intro actedI [where qs = "qs @ rs"]) simp_all
qed

interpretation acted: frame_rel "acted os A"
  by unfold_locales (auto intro: acted_here acted_trans)

lemma acted_request: "A q \<Longrightarrow> os q (world s) = (r, w) \<Longrightarrow> acted os A s (s\<lparr>world := w, trace := trace s @ [q]\<rparr>)"
  by (rule actedI [where qs = "[q]"]) simp_all

lemma acted_syscall [frame_intros]: "A q \<Longrightarrow> frame (acted os A) (syscall os q)"
  by (rule frameI) (auto intro: acted_request split: prod.splits)

lemma acted_fault [frame_intros]: "frame (acted os A) fault"
  unfolding fault_def by (rule frame_modify) (simp add: acted_here)

section \<open>The CCB library\<close>

text \<open>A request that neither writes a modem's status property nor starts the modem.\<close>

definition plain :: "sysreq \<Rightarrow> bool" where
  "plain q = (case q of Sys_property_set k v \<Rightarrow> take 13 k \<noteq> ''vendor.mtk.md''
     | Sys_ioctl fd c d \<Rightarrow> c \<noteq> ''CCCI_IOC_DO_START_MD'' | _ \<Rightarrow> True)"

lemma plain_simps [simp]:
  "plain (Sys_open p fl m)" "plain (Sys_close fd)" "plain (Sys_read fd cnt)" "plain (Sys_write fd bs)"
  "plain (Sys_stat p)" "plain (Sys_access p)" "plain (Sys_mkdir p m)" "plain (Sys_umask m)"
  "plain (Sys_malloc n)" "plain (Sys_property_get k)" "plain (Sys_property_get_default k v)"
  "plain (Sys_ioctl fd c bs) \<longleftrightarrow> c \<noteq> ''CCCI_IOC_DO_START_MD''" "plain (Sys_usleep n)" "plain (Sys_sleep n)" "plain (Sys_mmap fd n)"
  "plain (Sys_munmap n)" "plain Sys_pthread_create" "plain Sys_gettimeofday" "plain Sys_time" "plain (Sys_ctime z)"
  "plain (Sys_dlopen f)" "plain (Sys_dlsym f)" "plain (Sys_aee_system_exception mdl p fl msg)"
  "plain (Sys_release_wake_lock l)" "plain (Sys_prj_cfg_setting k)" "plain (Sys_sysenv_get k)"
  "plain (Sys_sysenv_set k v)" "plain (Sys_NVM_GetLIDByName p)" "plain (Sys_NVM_GetFileDesc i)"
  "plain (Sys_NVM_CloseFileDesc fd)"
  "plain (Sys_property_set k v) \<longleftrightarrow> take 13 k \<noteq> ''vendor.mtk.md''"
  by (simp_all add: plain_def)

lemma acted_node_name [frame_intros]:
  "frame (acted os plain) (ccci_get_version os)" "frame (acted os plain) (ccci_get_node_name os row md)"
  unfolding ccci_get_version_def ccci_get_node_name_def by (intro frame_intros; simp)+

lemma acted_upd_header [frame_intros]: "frame (acted os A) (upd_header p f)"
  unfolding upd_header_def by (intro frame_intros; simp add: acted_here)

lemma acted_init_headers [frame_intros]: "frame (acted os A) (init_headers cid cs k)"
  by (induction cs arbitrary: k) (auto intro!: frame_intros)

lemma acted_read_configs [frame_intros]: "frame (acted os plain) (read_configs os fd is)"
  by (induction "is") (auto intro!: frame_intros simp: acted_here)

lemma acted_ctrl [frame_intros]:
  "frame (acted os plain) (ccci_ccb_ctrl_get os info)" "frame (acted os plain) (ccci_ccb_ctrl_put os fd n)"
  unfolding ccci_ccb_ctrl_get_def ccci_ccb_ctrl_put_def Let_def by (intro frame_intros; simp add: acted_here)+

lemma acted_init_user [frame_intros]: "frame (acted os plain) (ccci_ccb_init_user os md uid)"
  unfolding ccci_ccb_init_user_def by (intro frame_intros)

lemma acted_init_users [frame_intros]: "frame (acted os plain) (ccci_ccb_init_users os md)"
  unfolding ccci_ccb_init_users_def by (intro frame_intros)

section \<open>Quiet and calm operations\<close>

text \<open>What identifies the daemon: the modem it serves, its channel and the names of its services.\<close>

definition same_daemon :: "'w mdinit \<Rightarrow> 'w mdinit \<Rightarrow> bool" where
  "same_daemon s t \<longleftrightarrow> curr_md_id t = curr_md_id s \<and> fsm_md_id t = fsm_md_id s \<and> relate_md_id t = relate_md_id s \<and>
     muxd_name t = muxd_name s \<and> rild_name t = rild_name s \<and> mdlogger_name t = mdlogger_name s \<and>
     fsd_name t = fsd_name s \<and> muxd_service_status t = muxd_service_status s \<and>
     rild_service_status t = rild_service_status s \<and> mdlogger_service_status t = mdlogger_service_status s \<and>
     fsd_service_status t = fsd_service_status s"

definition quiet :: "'w os \<Rightarrow> 'w mdinit \<Rightarrow> 'w mdinit \<Rightarrow> bool" where
  "quiet os s t \<longleftrightarrow> acted os plain s t \<and> same_daemon s t \<and> md_ctl_fsm_curr_state t = md_ctl_fsm_curr_state s \<and>
     ignore_time_out_msg t = ignore_time_out_msg s \<and>
     (fsm_md_id s \<noteq> 0 \<and> fsm_md_id s \<noteq> 2 \<and> mdstatusfd s <s 0 \<longrightarrow> mdstatusfd t <s 0)"

definition calm :: "'w os \<Rightarrow> 'w mdinit \<Rightarrow> 'w mdinit \<Rightarrow> bool" where
  "calm os s t \<longleftrightarrow> quiet os s t \<and> mdlogger_cnt t = mdlogger_cnt s \<and> need_silent_reboot t = need_silent_reboot s"

interpretation quiet: frame_rel "quiet os"
  by unfold_locales (auto simp: quiet_def same_daemon_def intro: acted_here acted_trans)

interpretation calm: frame_rel "calm os"
  by unfold_locales (auto simp: calm_def intro: quiet.R_refl quiet.R_trans)

lemma calm_quiet: "frame (calm os) m \<Longrightarrow> frame (quiet os) m"
  by (erule frame_weaken) (simp add: calm_def)

lemma calm_request [frame_intros]: "plain q \<Longrightarrow> frame (calm os) (syscall os q)"
  by (rule frameI) (auto simp: calm_def quiet_def same_daemon_def intro: acted_request split: prod.splits)

lemma calm_simps [simp]:
  "calm os s (s\<lparr>ub := b\<rparr>)" "calm os s (s\<lparr>stuck := b\<rparr>)" "calm os s (s\<lparr>sys_boot_mode := c\<rparr>)"
  "calm os s (s\<lparr>sbpc := v\<rparr>)" "calm os s (s\<lparr>ipc_fd := v\<rparr>)" "calm os s (s\<lparr>status_event_type := v\<rparr>)"
  "calm os s (s\<lparr>gotten_md_info := v\<rparr>)" "calm os s (s\<lparr>aee_fun_ptr := b\<rparr>)" "calm os s (s\<lparr>lib_handle_aed := b\<rparr>)"
  "calm os s (s\<lparr>k_setting_md_en := en\<rparr>)" "calm os s (s\<lparr>k_setting_ccci_drv_ver := v\<rparr>)"
  "calm os s (s\<lparr>time_HS1 := z\<rparr>)" "calm os s (s\<lparr>dev_monitor_fd := v\<rparr>)"
  "calm os s (s\<lparr>system_ch_handle := v\<rparr>)" "calm os s (s\<lparr>boot_prof_fd := v\<rparr>)"
  by (simp_all add: calm_def quiet_def same_daemon_def acted_here)

lemma calm_fault [frame_intros]: "frame (calm os) fault"
  unfolding fault_def by (intro frame_intros) simp

lemma calm_stall [frame_intros]: "frame (calm os) stall"
  unfolding stall_def by (intro frame_intros) simp

lemma calm_ccb_call [frame_intros]:
  assumes "frame (acted os plain) m"
  shows "frame (calm os) (ccb_call m)"
proof (rule frameI)
  fix s :: "'a mdinit"
  obtain a t where m: "run_state m (ccb.truncate s) = (a, t)" by fastforce
  have "acted os plain (ccb.truncate s) t" using frameD [OF assms m] .
  then have "\<exists>qs. trace t = trace s @ qs \<and> list_all plain qs \<and> world t = after os qs (world s)"
    by (simp add: acted_def ccb.defs)
  moreover have "snd (run_state (ccb_call m) s) = s\<lparr>world := world t, trace := trace t, ub := ub t,
      ccci_ccb_ports := ccci_ccb_ports t, ccb_info_len := ccb_info_len t, user := user t, ctrl := ctrl t,
      shm := shm t, ccb_hung := ccb_hung t\<rparr>"
    by (simp add: ccb_call_def m)
  ultimately show "calm os s (snd (run_state (ccb_call m) s))"
    by (simp add: calm_def quiet_def same_daemon_def acted_def)
qed

section \<open>The helpers\<close>

lemma calm_property [frame_intros]:
  "frame (calm os) (property_get os k)" "frame (calm os) (property_get_default os k v)"
  "take 13 k \<noteq> ''vendor.mtk.md'' \<Longrightarrow> frame (calm os) (property_set os k v)"
  unfolding property_get_def property_get_default_def property_set_def by (intro frame_intros; simp)+

lemma calm_wait_loop [frame_intros]: "frame (calm os) (wait_loop os k v n)"
  by (induction n) (auto intro!: frame_intros)

lemma calm_wait [frame_intros]: "frame (calm os) (wait_for_property os k v n)"
  unfolding wait_for_property_def by (intro frame_intros)

lemma calm_boot [frame_intros]:
  "frame (calm os) (update_inf_to_bootprof os str)" "frame (calm os) (read_boot_mode os fd)"
  unfolding update_inf_to_bootprof_def read_boot_mode_def Let_def by (intro frame_intros; simp)+

lemma calm_boot_mode [frame_intros]:
  "frame (calm os) (get_sys_boot_mode os)" "frame (calm os) (is_meta_mode os)"
  unfolding get_sys_boot_mode_def is_meta_mode_def Let_def by (intro frame_intros; simp)+

lemma calm_factory [frame_intros]: "frame (calm os) (is_factory_mode os)"
  unfolding is_factory_mode_def by (intro frame_intros)

lemma calm_folder [frame_intros]: "frame (calm os) (ccci_md_env_cfg_folder_init os)"
  unfolding ccci_md_env_cfg_folder_init_def by (intro frame_intros; simp)

lemma calm_md_env [frame_intros]:
  "frame (calm os) (md_env_val_get os k b n)" "frame (calm os) (md_env_val_set os k v)"
  unfolding md_env_val_get_def md_env_val_set_def by (intro frame_intros; simp)+

lemma calm_rat [frame_intros]:
  "frame (calm os) (get_rsc_protol_value os md b n)" "frame (calm os) (get_stored_modem_type_val os md)"
  "frame (calm os) (store_modem_type_val os md v)"
  unfolding get_rsc_protol_value_def get_stored_modem_type_val_def store_modem_type_val_def
  by (intro frame_intros)+

lemma calm_rat_setting [frame_intros]: "frame (calm os) (parse_sys_env_rat_setting os md)"
  unfolding parse_sys_env_rat_setting_def Let_def by (intro frame_intros)

lemma calm_random_pattern [frame_intros]: "frame (calm os) (compute_random_pattern os p)"
  unfolding compute_random_pattern_def by (intro frame_intros; simp)

lemma calm_scan_images [frame_intros]: "frame (calm os) (scan_images os imgs found)"
  by (induction imgs arbitrary: found) (auto intro!: frame_intros)

lemma calm_images [frame_intros]: "frame (calm os) (md_image_exist_check os fd md)"
  unfolding md_image_exist_check_def by (intro frame_intros; simp)

lemma calm_timezone [frame_intros]: "frame (calm os) (load_timezone os)"
  unfolding load_timezone_def by (intro frame_intros; simp)

lemma calm_first_timezone [frame_intros]: "frame (calm os) (first_timezone os)"
  unfolding first_timezone_def by (intro frame_intros; simp)

lemma calm_time_srv [frame_intros]: "frame (calm os) (time_srv_init os)"
  unfolding time_srv_init_def by (intro frame_intros; simp)

lemma calm_node_name [frame_intros]:
  "frame (calm os) (ccci_get_version os)" "frame (calm os) (ccci_get_node_name os row md)"
  unfolding ccci_get_version_def ccci_get_node_name_def by (intro frame_intros; simp)+

section \<open>Services and boot data\<close>

lemma calm_wait_pass [frame_intros]: "frame (calm os) (wait_pass os ws i f b)"
  by (induction ws arbitrary: i f b) (auto intro!: frame_intros)

lemma calm_wait_rounds [frame_intros]: "frame (calm os) (wait_rounds os ws n f)"
  by (induction n arbitrary: f) (auto intro!: frame_intros)

lemma calm_services [frame_intros]:
  "frame (calm os) (wait_property_ready os ws n)" "frame (calm os) (start_service_verified os a b n)"
  "frame (calm os) (stop_service_verified os a b n)" "frame (calm os) (rild_generation os)"
  unfolding wait_property_ready_def start_service_verified_def stop_service_verified_def rild_generation_def
  by (intro frame_intros; simp)+

lemma calm_wait_logger [frame_intros]: "frame (calm os) (wait_logger os n)"
  by (induction n) (auto intro!: frame_intros)

lemma calm_stop_parts [frame_intros]:
  "frame (calm os) (stop_rild_muxd os)" "frame (calm os) (stop_ril_proxy os md)"
  unfolding stop_rild_muxd_def stop_ril_proxy_def by (intro frame_intros; simp)+

lemma quiet_request [frame_intros]: "plain q \<Longrightarrow> frame (quiet os) (syscall os q)"
  by (intro calm_quiet frame_intros)

lemmas calm_used = calm_property calm_wait calm_boot calm_boot_mode calm_factory calm_services
  calm_wait_logger calm_stop_parts

lemmas quiet_boot = calm_boot [THEN calm_quiet]

lemmas quiet_boot_mode = calm_boot_mode [THEN calm_quiet]

lemmas quiet_services = calm_services [THEN calm_quiet]

lemmas quiet_used [frame_intros] = calm_used [THEN calm_quiet]

lemma quiet_flags [simp]: "quiet os s (s\<lparr>mdlogger_cnt := n\<rparr>)" "quiet os s (s\<lparr>need_silent_reboot := n\<rparr>)"
  by (simp_all add: quiet_def same_daemon_def acted_here)

lemma quiet_logger [frame_intros]:
  "frame (quiet os) (stop_mdlogger os)" "frame (quiet os) (start_mdlogger os n)"
  unfolding stop_mdlogger_def start_mdlogger_def by (intro frame_intros; simp)+

lemma quiet_all_services [frame_intros]:
  "frame (quiet os) (stop_all_ccci_up_layer_services os)" "frame (quiet os) (start_all_ccci_up_layer_services os)"
  unfolding stop_all_ccci_up_layer_services_def start_all_ccci_up_layer_services_def by (intro frame_intros; simp)+

lemma quiet_notify_boot_ready [frame_intros]: "frame (quiet os) (notify_boot_ready os)"
  unfolding notify_boot_ready_def by (intro frame_intros; simp)

lemma calm_boot_data [frame_intros]:
  "frame (calm os) (delay_to_reset_md os n)" "frame (calm os) (read_number_file os p)"
  "frame (calm os) (property_uint os k v)" "frame (calm os) (get_project_sbp_code_v1 os md)"
  "frame (calm os) (get_nvram_ef_data os i n')" "frame (calm os) (get_md_wait_time os)"
  "frame (calm os) (open_log_config os md)" "frame (calm os) (get_md_dbg_dump_flag os md)"
  "frame (calm os) (get_mdini_killed_state os fd)"
  unfolding delay_to_reset_md_def read_number_file_def property_uint_def get_project_sbp_code_v1_def
    get_nvram_ef_data_def get_md_wait_time_def open_log_config_def get_md_dbg_dump_flag_def
    get_mdini_killed_state_def Let_def
  by (intro frame_intros; simp)+

lemma calm_nvram_ready [frame_intros]: "frame (calm os) (check_nvram_ready fuel os n)"
  by (induction fuel arbitrary: n) (auto intro!: frame_intros)

lemma calm_sbp [frame_intros]:
  "frame (calm os) (get_usp_sbp_setting_v2 os)" "frame (calm os) (get_cip_sbp_setting os md)"
  "frame (calm os) (get_project_sbp_code os md)" "frame (calm os) (get_nvram_sbp_code os fuel md)"
  "frame (calm os) (get_sbp_subid_setting os)" "frame (calm os) (default_log_mode os)"
  unfolding get_usp_sbp_setting_v2_def get_cip_sbp_setting_def get_project_sbp_code_def get_nvram_sbp_code_def
    get_sbp_subid_setting_def default_log_mode_def Let_def
  by (intro frame_intros; simp)+

lemma calm_log_mode [frame_intros]:
  "frame (calm os) (get_mdlog_boot_mode os md)" "frame (calm os) (get_md_sbp_code os fuel md n)"
  unfolding get_mdlog_boot_mode_def get_md_sbp_code_def by (intro frame_intros; simp)+

section \<open>The state machine's parts\<close>

lemma calm_store_md_type [frame_intros]: "frame (calm os) (store_md_type os fd)"
  unfolding store_md_type_def Let_def by (intro frame_intros; simp)

lemma calm_set_boot_env [frame_intros]: "frame (calm os) (set_md_boot_env_data os fuel md fd)"
  unfolding set_md_boot_env_data_def by (intro frame_intros; simp)

lemma calm_wait_event [frame_intros]: "frame (calm os) (wait_event fuel os fd ev)"
  by (induction fuel) (auto intro!: frame_intros simp: store_event_def)

lemma calm_rst_lock [frame_intros]: "frame (calm os) (rst_lock_loop n os fd)"
  by (induction n) (auto intro!: frame_intros)

lemma calm_wait_rst [frame_intros]: "frame (calm os) (wait_for_rst_lock_free os fd)"
  unfolding wait_for_rst_lock_free_def by (intro frame_intros)

lemma calm_open_monitor [frame_intros]: "frame (calm os) (open_monitor n os p)"
  by (induction n) (auto intro!: frame_intros)

lemma calm_md_info [frame_intros]: "frame (calm os) (get_md_info os fd)"
  unfolding get_md_info_def Let_def by (intro frame_intros; simp)

section \<open>The start of the program\<close>

lemma calm_aee [frame_intros]:
  "frame (calm os) (show_aee_system_exception os a b f m)" "frame (calm os) (depends_so_prepare os)"
  unfolding show_aee_system_exception_def depends_so_prepare_def by (intro frame_intros; simp)+

lemma calm_lk_warning [frame_intros]: "frame (calm os) (show_warning_for_lk_ld_fail os m)"
  unfolding show_warning_for_lk_ld_fail_def by (intro frame_intros; simp)

lemma calm_k_result [frame_intros]:
  "(\<And>v. x = K_found v \<Longrightarrow> frame R (f v)) \<Longrightarrow> (x = K_missing \<Longrightarrow> frame R m) \<Longrightarrow> (x = K_overflow \<Longrightarrow> frame R n) \<Longrightarrow>
   frame R (case x of K_found v \<Rightarrow> f v | K_missing \<Rightarrow> m | K_overflow \<Rightarrow> n)"
  by (cases x) auto

lemma calm_settings [frame_intros]: "frame (calm os) (apply_k_settings junk txt)"
  unfolding apply_k_settings_def by (intro frame_intros; simp)

lemma calm_prepare [frame_intros]:
  "frame (calm os) (check_lk_load_md_status os md)" "frame (calm os) (kernel_setting_prepare os junk)"
  unfolding check_lk_load_md_status_def kernel_setting_prepare_def by (intro frame_intros; simp)+

section \<open>Operations that write the other modem's status\<close>

definition steady :: "'w mdinit \<Rightarrow> 'w mdinit \<Rightarrow> bool" where
  "steady s t \<longleftrightarrow> same_daemon s t \<and>
     (fsm_md_id s \<noteq> 0 \<and> fsm_md_id s \<noteq> 2 \<and> mdstatusfd s <s 0 \<longrightarrow> mdstatusfd t <s 0)"

interpretation steady: frame_rel steady
  by unfold_locales (auto simp: steady_def same_daemon_def)

lemma calm_steady: "frame (calm os) m \<Longrightarrow> frame steady m"
  by (erule frame_weaken) (simp add: calm_def quiet_def steady_def)

lemma quiet_steady: "frame (quiet os) m \<Longrightarrow> frame steady m"
  by (erule frame_weaken) (simp add: quiet_def steady_def)

lemmas steady_stop_all [frame_intros] = quiet_all_services(1) [THEN quiet_steady]

lemma steady_request [frame_intros]: "frame steady (syscall os q)"
  by (rule frameI) (simp add: steady_def same_daemon_def split: prod.splits)

lemma steady_set [frame_intros]: "frame steady (property_set os k v)"
  unfolding property_set_def by (intro frame_intros)

lemmas steady_used [frame_intros] = calm_used(1,2,4) [THEN calm_steady] calm_stop_parts(2) [THEN calm_steady]
  calm_stall [THEN calm_steady] calm_fault [THEN calm_steady]

lemma steady_wait_other [frame_intros]: "frame steady (wait_other_reset fuel os fd md k)"
  by (induction fuel) (auto intro!: frame_intros)

lemma steady_wait_this [frame_intros]: "frame steady (wait_this_start fuel os k)"
  by (induction fuel) (auto intro!: frame_intros)

lemma steady_handshake [frame_intros]: "frame steady (restart_handshake os fuel fd md)"
  unfolding restart_handshake_def by (intro frame_intros)

lemma calm_init_users [frame_intros]: "frame (calm os) (ccb_call (ccci_ccb_init_users os md))"
  by (intro calm_ccb_call frame_intros)

lemma steady_restart [frame_intros]: "frame steady (check_to_restart_md_v2 os fuel fd b)"
  unfolding check_to_restart_md_v2_def
  by (intro frame_intros calm_steady [OF calm_boot_data(9)] calm_steady [OF calm_services(2)]
      calm_steady [OF calm_init_users])

section \<open>Which requests an operation issues\<close>

text \<open>
  A set of requests that holds the plain ones and the writes of properties contains what the handshake
  and the change of status issue; with the start request it contains what the whole daemon issues.
\<close>

locale acting =
  fixes os :: "'w os" and A :: "sysreq \<Rightarrow> bool"
  assumes plain: "plain q \<Longrightarrow> A q"
    and set: "A (Sys_property_set k v)"
begin

lemma weaken: "acted os plain s t \<Longrightarrow> acted os A s t"
  unfolding acted_def using plain by (auto simp: list_all_iff)

lemma quiet: "frame (quiet os) m \<Longrightarrow> frame (acted os A) m"
  by (erule frame_weaken) (simp add: quiet_def weaken)

lemmas calm = quiet [OF calm_quiet]

lemma property [frame_intros]: "frame (acted os A) (property_set os k v)"
  unfolding property_set_def by (intro frame_intros set)

lemmas used [frame_intros] = calm_property(1,2) [THEN calm] calm_wait [THEN calm] calm_stop_parts(2) [THEN calm]
  calm_stall [THEN calm] calm_services(2) [THEN calm] calm_boot [THEN calm] calm_boot_mode(2) [THEN calm]
  calm_boot_data(9) [THEN calm] calm_init_users [THEN calm] calm_ccb_call [THEN calm] quiet_all_services [THEN quiet]
  quiet_logger [THEN quiet] quiet_notify_boot_ready [THEN quiet]

lemma request [frame_intros]: "plain q \<Longrightarrow> frame (acted os A) (syscall os q)"
  by (intro acted_syscall plain)

lemma wait_other [frame_intros]: "frame (acted os A) (wait_other_reset fuel os fd md k)"
  by (induction fuel) (auto intro!: frame_intros)

lemma wait_this [frame_intros]: "frame (acted os A) (wait_this_start fuel os k)"
  by (induction fuel) (auto intro!: frame_intros)

lemma handshake [frame_intros]: "frame (acted os A) (restart_handshake os fuel fd md)"
  unfolding restart_handshake_def by (intro frame_intros)

lemma restart [frame_intros]: "frame (acted os A) (check_to_restart_md_v2 os fuel fd b)"
  unfolding check_to_restart_md_v2_def by (intro frame_intros; simp)

lemma related_init [frame_intros]: "frame (acted os A) (md_init_related_init md)"
  unfolding md_init_related_init_def by (intro frame_intros; simp add: acted_here)

lemma store [frame_intros]: "frame (acted os A) (store_md_statue os md v n)"
  unfolding store_md_statue_def Let_def by (intro frame_intros)

lemma notify [frame_intros]: "frame (acted os A) (notify_md_status os st fl)"
  unfolding notify_md_status_def by (intro frame_intros; simp add: acted_here)

lemma status_change [frame_intros]: "frame (acted os A) (set_current_md_status os st fl)"
  unfolding set_current_md_status_def by (intro frame_intros; simp add: acted_here)

lemma command_finish [frame_intros]: "frame (acted os A) (is_md_command_finish os fuel md b)"
  unfolding is_md_command_finish_def open_status_port_def
  by (intro frame_intros calm [OF calm_wait_event]; simp add: acted_here)

lemma report_state [frame_intros]: "frame (acted os A) (report_state os fd)"
  unfolding report_state_def by (intro frame_intros; simp)

lemma stop [frame_intros]: "frame (acted os A) (stop_modem os fuel fd d)"
  unfolding stop_modem_def by (intro frame_intros; simp)

lemma halt [frame_intros]: "frame (acted os A) (halt_modem os fuel fd bc)"
  unfolding halt_modem_def by (intro frame_intros calm [OF calm_boot_data(1)] calm [OF calm_wait_rst])

end

locale acting_start = acting +
  assumes start: "A (Sys_ioctl fd ''CCCI_IOC_DO_START_MD'' d)"
begin

lemma start_request: "frame (acted os A) (syscall os (Sys_ioctl fd ''CCCI_IOC_DO_START_MD'' d))"
  by (intro acted_syscall start)

lemma trigger [frame_intros]: "frame (acted os A) (trigger_modem_to_run os fuel fd fl b)"
  unfolding trigger_modem_to_run_def
  by (intro start_request frame_intros calm [OF calm_set_boot_env])

lemma common_message [frame_intros]: "frame (acted os A) (common_msg_handler os msg)"
  unfolding common_msg_handler_def check_curret_md_status_def
  by (intro frame_intros calm [OF calm_random_pattern] calm [OF calm_store_md_type]; simp)

lemma requests [frame_intros]: "frame (acted os A) (handle_request os fuel fd bc msg)"
  unfolding handle_request_def check_curret_md_status_def by (intro frame_intros)

lemma turn: "frame (acted os A) (main_v2_turn os fuel fd bc)"
  unfolding main_v2_turn_def by (intro frame_intros; simp)

lemma start_up: "frame (acted os A) (main_v2_start os fuel n)"
  unfolding main_v2_start_def
  by (intro frame_intros calm [OF calm_node_name(2)] calm [OF calm_open_monitor] calm [OF calm_images]
      calm [OF calm_time_srv] calm [OF calm_rat_setting] calm [OF calm_md_info]; simp add: acted_here)

lemma prepare: "frame (acted os A) (main_prepare os junk arg)"
  unfolding main_prepare_def Let_def
  by (intro frame_intros calm [OF calm_aee(2)] calm [OF calm_prepare(1)] calm [OF calm_prepare(2)]; simp add: acted_here)

end

text \<open>Requests that do not start a modem, and all requests.\<close>

definition no_start :: "sysreq \<Rightarrow> bool" where
  "no_start q = (case q of Sys_ioctl fd c d \<Rightarrow> c \<noteq> ''CCCI_IOC_DO_START_MD'' | _ \<Rightarrow> True)"

interpretation no_start: acting os no_start for os
  by unfold_locales (auto simp: plain_def no_start_def split: sysreq.splits)

interpretation everything: acting_start os "\<lambda>_. True" for os
  by unfold_locales auto

end
