(* ===== verification/Mdinit_Run.thy ===== *)
theory Mdinit_Run
  imports Mdinit_Frame "HOL-Library.Code_Target_Nat"
begin

unbundle bit_operations_syntax

text \<open>
  \<open>ccci_mdinit\<close> as a whole: the states its message loop can be in, and what holds in all of them.
\<close>

section \<open>The invariant\<close>

text \<open>The last value written to a property.\<close>

fun last_set :: "string \<Rightarrow> sysreq list \<Rightarrow> string option" where
  "last_set k [] = None"
| "last_set k (q # qs) = (case last_set k qs of Some v \<Rightarrow> Some v
     | None \<Rightarrow> (case q of Sys_property_set k' v \<Rightarrow> if k' = k then Some v else None | _ \<Rightarrow> None))"

lemma last_set_append:
  "last_set k (qs @ rs) = (case last_set k rs of Some v \<Rightarrow> Some v | None \<Rightarrow> last_set k qs)"
  by (induction qs) (auto split: option.splits)

lemma take_status_key [simp]: "take 13 (md_status_key md) = ''vendor.mtk.md''"
  by (simp add: md_status_key_def take_Cons')

lemma other_key: "take 13 k \<noteq> ''vendor.mtk.md'' \<Longrightarrow> k \<noteq> md_status_key md"
  using take_status_key [of md] by blast

lemma last_set_plain: "list_all plain qs \<Longrightarrow> last_set (md_status_key md) qs = None"
  by (induction qs) (auto simp: plain_def split: sysreq.splits)

text \<open>The modem served, and the names that go with it.\<close>

definition serves :: "s32 \<Rightarrow> 'w mdinit \<Rightarrow> bool" where
  "serves md s \<longleftrightarrow> md \<in> {0, 1, 2} \<and> fsm_md_id s = md \<and> relate_md_id s = md \<and> curr_md_id s = md + 1 \<and>
     service_names md = Some (muxd_name s, rild_name s, mdlogger_name s, fsd_name s) \<and>
     muxd_service_status s = ''init.svc.'' @ muxd_name s \<and> rild_service_status s = ''init.svc.'' @ rild_name s \<and>
     mdlogger_service_status s = ''init.svc.'' @ mdlogger_name s \<and> fsd_service_status s = ''init.svc.'' @ fsd_name s \<and>
     (md = 1 \<longrightarrow> mdstatusfd s <s 0)"

definition published :: "s32 \<Rightarrow> s32 \<Rightarrow> 'w mdinit \<Rightarrow> bool" where
  "published md st s \<longleftrightarrow> serves md s \<and> md_ctl_fsm_curr_state s = st \<and>
     last_set (md_status_key md) (trace s) = Some (status_name st)"

definition fsm_inv :: "s32 \<Rightarrow> s32 \<Rightarrow> 'w mdinit \<Rightarrow> bool" where
  "fsm_inv md st s \<longleftrightarrow> published md st s \<and>
     (st = CCCI_MD_STA_EXCEPTION \<longrightarrow> mdlogger_cnt s \<noteq> 0 \<and> need_silent_reboot s = 1) \<and>
     (st = CCCI_MD_STA_BOOT_READY \<longrightarrow> need_silent_reboot s = 0 \<and> md \<noteq> 1)"

lemma serves_upd [simp]:
  "serves md (s\<lparr>world := w, trace := tr\<rparr>) = serves md s" "serves md (s\<lparr>mdlogger_cnt := n\<rparr>) = serves md s"
  "serves md (s\<lparr>need_silent_reboot := n\<rparr>) = serves md s" "serves md (s\<lparr>md_ctl_fsm_curr_state := n\<rparr>) = serves md s"
  by (simp_all add: serves_def)

lemma steady_serves: "steady s t \<Longrightarrow> serves md s \<Longrightarrow> serves md t"
  by (auto simp: steady_def same_daemon_def serves_def)

lemma quiet_serves: "quiet os s t \<Longrightarrow> serves md s \<Longrightarrow> serves md t"
  by (rule steady_serves) (auto simp: quiet_def steady_def)

lemma quiet_published:
  assumes "quiet os s t" "published md st s"
  shows "published md st t"
proof -
  obtain qs where "trace t = trace s @ qs" "list_all plain qs" using assms(1) by (auto simp: quiet_def acted_def)
  then show ?thesis
    using assms quiet_serves [OF assms(1)] by (auto simp: published_def last_set_append last_set_plain quiet_def)
qed

lemma fsm_inv_serves: "fsm_inv md st s \<Longrightarrow> serves md s"
  by (simp add: fsm_inv_def published_def)

lemma serves_md: "serves md s \<Longrightarrow> fsm_md_id s = md"
  by (simp add: serves_def)

lemma calm_fsm_inv: "calm os s t \<Longrightarrow> fsm_inv md st s \<Longrightarrow> fsm_inv md st t"
  by (auto simp: calm_def fsm_inv_def dest: quiet_published)

lemma wp_quiet: "frame (quiet os) m \<Longrightarrow> published md st s \<Longrightarrow> (\<And>a t. published md st t \<Longrightarrow> Q a t) \<Longrightarrow> wp m Q s"
  by (erule wp_frame) (blast intro: quiet_published)

lemma wp_calm: "frame (calm os) m \<Longrightarrow> fsm_inv md st s \<Longrightarrow> (\<And>a t. fsm_inv md st t \<Longrightarrow> Q a t) \<Longrightarrow> wp m Q s"
  by (erule wp_frame) (blast intro: calm_fsm_inv)

lemma wp_ioctl:
  assumes "fsm_inv md st s" "\<And>r t. fsm_inv md st t \<Longrightarrow> Q r t"
  shows "wp (syscall os (Sys_ioctl fd c d)) Q s"
  using assms(1) by (intro wp_syscallI assms(2)) (simp add: fsm_inv_def published_def last_set_append)

lemma wp_serves: "frame steady m \<Longrightarrow> serves md s \<Longrightarrow> (\<And>a t. serves md t \<Longrightarrow> Q a t) \<Longrightarrow> wp m Q s"
  by (erule wp_frame) (blast intro: steady_serves)

section \<open>Changing the status\<close>

lemma wp_property_set [wp_simps]:
  "wp (property_set os k v) Q s = Q () (s\<lparr>world := snd (os (Sys_property_set k v) (world s)),
     trace := trace s @ [Sys_property_set k v]\<rparr>)"
  by (simp add: property_set_def wp_simps split: prod.splits)

lemma store_publishes:
  assumes "serves md s" "md_ctl_fsm_curr_state s = st"
  shows "wp (store_md_statue os md (status_name st) 32) (\<lambda>_. published md st) s"
proof -
  have n: "take 91 (take 31 (status_name st)) = status_name st" by (simp add: status_name_def)
  have "''vendor.net.cdma.mdmstat'' \<noteq> md_status_key md"
    by (rule other_key) simp
  then show ?thesis
    using assms n
    by (auto simp: store_md_statue_def wp_simps Let_def published_def last_set_append)
qed

lemma start_mdlogger_runs:
  assumes "published md st s"
  shows "wp (start_mdlogger os n) (\<lambda>_ t. published md st t \<and> mdlogger_cnt t \<noteq> 0) s"
proof -
  have "wp (start_service_verified os a b n) (\<lambda>_. wp (modify (\<lambda>s. s\<lparr>mdlogger_cnt := 1\<rparr>))
      (\<lambda>_ t. published md st t \<and> mdlogger_cnt t \<noteq> 0)) s" for a b
    by (rule wp_quiet [OF quiet_services(2) assms]) (simp add: wp_modify published_def)
  with assms show ?thesis
    unfolding start_mdlogger_def by (auto intro!: wp_intros)
qed

lemma notify_keeps:
  assumes "published md st s" "st \<noteq> CCCI_MD_STA_INIT" "st = CCCI_MD_STA_BOOT_READY \<longrightarrow> md \<noteq> 1"
  shows "wp (notify_md_status os st fl) (\<lambda>_. fsm_inv md st) s"
proof -
  consider "st = CCCI_MD_STA_BOOT_READY" | "st = CCCI_MD_STA_EXCEPTION" | "st = CCCI_MD_STA_RESET"
    | "st \<notin> {CCCI_MD_STA_INIT, CCCI_MD_STA_BOOT_READY, CCCI_MD_STA_EXCEPTION, CCCI_MD_STA_RESET}"
    using assms(2) by blast
  then show ?thesis
  proof cases
    case 1
    have fin: "wp (modify (\<lambda>s. s\<lparr>need_silent_reboot := 0\<rparr>)) (\<lambda>_. fsm_inv md st) t" if "published md st t" for t
      using that assms(3) 1 by (simp add: wp_modify fsm_inv_def published_def)
    have "wp (notify_boot_ready os) (\<lambda>_. fsm_inv md st) s"
      unfolding notify_boot_ready_def
      by (rule wp_bindI, rule wp_quiet [OF quiet_boot_mode(2) assms(1)], rule wp_bindI,
          rule wp_quiet [where os = os and md = md and st = st]) (auto intro!: frame_intros fin)
    with 1 show ?thesis by (simp add: notify_md_status_def)
  next
    case 2
    have "wp (start_mdlogger os MAX_WAIT_FOR_PROPERTY)
       (\<lambda>_ t. fsm_inv md st (t\<lparr>need_silent_reboot := 1\<rparr>)) s"
      by (rule wp_mono [OF start_mdlogger_runs [OF assms(1)]]) (simp add: fsm_inv_def published_def 2)
    then have "wp (start_mdlogger os MAX_WAIT_FOR_PROPERTY) (\<lambda>_. wp (do {
         modify (\<lambda>s. s\<lparr>need_silent_reboot := 1\<rparr>);
         md \<leftarrow> gets relate_md_id;
         if md = MD_SYS3 then property_set os ''vendor.net.cdma.mdmstat'' ''exception'' else ret () })
       (\<lambda>_. fsm_inv md st)) s"
      by (rule wp_mono) (auto intro!: wp_intros wp_calm [OF calm_property(3)])
    with 2 show ?thesis
      by (simp add: notify_md_status_def wp_bind)
  next
    case 3
    have "frame (quiet os) (notify_md_status os st fl)"
      unfolding notify_md_status_def 3 by (simp) (intro conjI impI frame_intros)
    from wp_quiet [OF this assms(1)] 3 show ?thesis by (simp add: fsm_inv_def)
  next
    case 4
    with assms show ?thesis by (simp add: notify_md_status_def wp_simps fsm_inv_def)
  qed
qed

text \<open>Whatever the state, a new status is published, and the daemon's flags agree with it.\<close>

lemma set_status:
  assumes "serves md s" "st \<noteq> CCCI_MD_STA_INIT" "st = CCCI_MD_STA_BOOT_READY \<longrightarrow> md \<noteq> 1"
  shows "wp (set_current_md_status os st fl) (\<lambda>_. fsm_inv md st) s"
proof -
  let ?s = "s\<lparr>md_ctl_fsm_curr_state := st\<rparr>"
  have tail: "wp (do { md \<leftarrow> gets fsm_md_id; store_md_statue os md (status_name st) 32; notify_md_status os st fl })
      (\<lambda>_. fsm_inv md st) t" if "quiet os ?s t" for t
  proof -
    have t: "serves md t" "md_ctl_fsm_curr_state t = st" "fsm_md_id t = md"
      using quiet_serves [OF that] assms(1) that by (simp_all add: quiet_def serves_def same_daemon_def)
    show ?thesis
      using assms by (intro wp_bindI wp_getsI) (auto simp: t(3) intro: wp_mono [OF store_publishes [OF t(1,2)]] notify_keeps)
  qed
  show ?thesis
    unfolding set_current_md_status_def
    by (rule wp_bindI, rule wp_modifyI, rule wp_bindI, rule wp_frame [OF quiet_boot(1)], rule tail)
qed

section \<open>Starting and stopping\<close>

lemma open_port_keeps:
  assumes "fsm_inv md st s"
  shows "wp (open_status_port os md) (\<lambda>ok t. fsm_inv md st t \<and> (md = 1 \<longrightarrow> \<not> ok)) s"
proof -
  have md: "md \<in> {0, 1, 2}" "md = 1 \<longrightarrow> mdstatusfd s <s 0"
    using assms by (auto simp: fsm_inv_def published_def serves_def)
  have upd: "fsm_inv md st (t\<lparr>mdstatusfd := fd\<rparr>)" if "fsm_inv md st t" "md \<noteq> 1" for t fd
    using that by (simp add: fsm_inv_def published_def serves_def)
  show ?thesis
  proof (cases "md = 1")
    case True
    then show ?thesis using assms md by (simp add: open_status_port_def wp_simps)
  next
    case False
    have "wp (do {
       r \<leftarrow> syscall os (Sys_open p O_RDWR 0);
       modify (\<lambda>s. s\<lparr>mdstatusfd := r_ret r\<rparr>);
       ret (\<not> r_ret r <s 0) }) (\<lambda>ok t. fsm_inv md st t \<and> (md = 1 \<longrightarrow> \<not> ok)) s" for p
      by (rule wp_bindI, rule wp_calm [OF calm_request assms]) (auto simp: wp_simps False upd)
    with False md(1) assms show ?thesis
      unfolding open_status_port_def by (intro wp_bindI wp_getsI) (auto simp: wp_return)
  qed
qed

lemma command_finish_keeps:
  assumes "fsm_inv md st s"
  shows "wp (is_md_command_finish os fuel md stop)
     (\<lambda>ev t. fsm_inv md st t \<and> (md = 1 \<longrightarrow> ev = - 1)) s"
  unfolding is_md_command_finish_def
  apply (rule wp_bindI, rule wp_mono [OF open_port_keeps [OF assms]])
  apply (auto intro!: wp_intros)
  apply (rule wp_calm [OF calm_wait_event], assumption, simp add: wp_gets)+
  done

lemma report_state_ready:
  assumes "fsm_inv md CCCI_MD_STA_BOOT_UP s" "md \<noteq> 1"
  shows "wp (report_state os fd) (\<lambda>r t. r = 0 \<and> fsm_inv md CCCI_MD_STA_BOOT_READY t \<or>
     r = - 1 \<and> fsm_inv md CCCI_MD_STA_BOOT_UP t) s"
  unfolding report_state_def
  apply (rule wp_bindI, rule wp_calm [OF calm_request assms(1)], simp)
  apply (intro wp_ifI wp_bindI wp_returnI)
    apply simp
   apply (rule wp_mono [OF set_status])
  using assms(2) apply (auto simp: fsm_inv_def published_def wp_simps)
  done

lemma trigger_result:
  assumes "serves md s"
  shows "wp (trigger_modem_to_run os fuel fd fl first_boot) (\<lambda>r t. r = 0 \<and> fsm_inv md CCCI_MD_STA_BOOT_READY t \<or>
     r = - 1 \<and> fsm_inv md CCCI_MD_STA_BOOT_UP t) s"
proof -
  let ?Q = "\<lambda>r t. r = 0 \<and> fsm_inv md CCCI_MD_STA_BOOT_READY t \<or> r = - 1 \<and> fsm_inv md CCCI_MD_STA_BOOT_UP t"
  have finish: "wp (do {
       ev \<leftarrow> is_md_command_finish os fuel md False;
       if ev \<noteq> MD_STA_EV_READY then ret (- 1) else report_state os fd }) ?Q t"
    if "fsm_inv md CCCI_MD_STA_BOOT_UP t" for t
    by (rule wp_bindI, rule wp_mono [OF command_finish_keeps [OF that]])
      (auto simp: wp_return intro!: report_state_ready)
  have start: "wp (do {
       set_current_md_status os CCCI_MD_STA_BOOT_UP 0;
       r \<leftarrow> syscall os (Sys_ioctl fd ''CCCI_IOC_DO_START_MD'' []);
       if r_ret r \<noteq> 0 then ret (- 1)
       else do {
         ev \<leftarrow> is_md_command_finish os fuel md False;
         if ev \<noteq> MD_STA_EV_READY then ret (- 1) else report_state os fd } }) ?Q t"
    if "serves md t" for t
    by (rule wp_bindI, rule wp_mono [OF set_status [OF that]], simp, simp, rule wp_bindI, erule wp_ioctl)
      (auto simp: wp_return intro!: finish)
  show ?thesis
    unfolding trigger_modem_to_run_def
    apply (rule wp_bindI, rule wp_mono [OF set_status [OF assms]], simp, simp)
    apply (rule wp_bindI, rule wp_serves [OF steady_restart], erule fsm_inv_serves)
    apply (rule wp_bindI, rule wp_getsI, subst serves_md, assumption, rule wp_bindI)
    apply (rule wp_serves [OF calm_steady [OF calm_set_boot_env]], assumption)
    apply (subst serves_md, assumption)
    apply (rule start, assumption)
    done
qed

lemma stop_modem_keeps:
  assumes "fsm_inv md st s"
  shows "wp (stop_modem os fuel fd d) (\<lambda>_. fsm_inv md st) s"
  unfolding stop_modem_def
  apply (rule wp_bindI, rule wp_calm [OF calm_request assms], simp)
  apply (intro wp_ifI wp_returnI, assumption)
  apply (rule wp_bindI, rule wp_getsI, subst serves_md, erule fsm_inv_serves, rule wp_bindI)
  apply (erule wp_mono [OF command_finish_keeps])
  apply (simp add: wp_return)
  done

lemma halt_stops:
  assumes "fsm_inv md st s"
  shows "wp (halt_modem os fuel fd bc) (\<lambda>_. fsm_inv md CCCI_MD_STA_STOP) s"
proof -
  have fin: "wp (do {
       (if meta then ret () else stop_all_ccci_up_layer_services os);
       set_current_md_status os CCCI_MD_STA_STOP 0 }) (\<lambda>_. fsm_inv md CCCI_MD_STA_STOP) t"
    if "fsm_inv md st t" for t meta
    by (rule wp_bindI, rule wp_serves [OF _ fsm_inv_serves [OF that]])
      (auto intro!: frame_intros set_status)
  show ?thesis
    unfolding halt_modem_def
    apply (rule wp_bindI, rule wp_calm [OF calm_boot_data(1) assms])
    apply (rule wp_bindI, erule wp_mono [OF stop_modem_keeps])
    apply (rule wp_bindI, erule wp_calm [OF calm_wait_rst])
    apply (rule wp_bindI, erule wp_calm [OF calm_boot_mode(2)])
    apply (erule fin)
    done
qed

text \<open>The states between two messages.\<close>

definition settled :: "s32 \<Rightarrow> bool" where
  "settled st \<longleftrightarrow> st \<in> {CCCI_MD_STA_BOOT_UP, CCCI_MD_STA_BOOT_READY, CCCI_MD_STA_STOP, CCCI_MD_STA_FLIGHT_MODE,
     CCCI_MD_STA_EXCEPTION}"

definition idle :: "s32 \<Rightarrow> 'w mdinit \<Rightarrow> bool" where
  "idle md s \<longleftrightarrow> fsm_inv md (md_ctl_fsm_curr_state s) s \<and> settled (md_ctl_fsm_curr_state s)"

lemma idleI: "fsm_inv md st s \<Longrightarrow> settled st \<Longrightarrow> idle md s"
  by (auto simp: idle_def fsm_inv_def published_def)

lemma idle_inv: "idle md s \<Longrightarrow> fsm_inv md (md_ctl_fsm_curr_state s) s"
  by (simp add: idle_def)

lemma settled_simps [simp]: "settled CCCI_MD_STA_BOOT_UP" "settled CCCI_MD_STA_BOOT_READY" "settled CCCI_MD_STA_STOP"
  "settled CCCI_MD_STA_FLIGHT_MODE" "settled CCCI_MD_STA_EXCEPTION"
  by (simp_all add: settled_def)

lemma trigger_idle:
  assumes "serves md s"
  shows "wp (trigger_modem_to_run os fuel fd fl b) (\<lambda>_. idle md) s"
  by (rule wp_mono [OF trigger_result [OF assms]]) (auto intro: idleI)

lemma calm_idle: "frame (calm os) m \<Longrightarrow> idle md s \<Longrightarrow> wp m (\<lambda>_. idle md) s"
  by (rule wp_calm [OF _ idle_inv]) (auto simp: idle_def fsm_inv_def published_def)

section \<open>The abstract machine\<close>

text \<open>The states a message may lead to. A start has two outcomes, since the modem may fail to come up.\<close>

definition fsm_next :: "u32 \<Rightarrow> s32 \<Rightarrow> s32 set" where
  "fsm_next msg st =
     (if msg = CCCI_MD_MSG_EXCEPTION then {CCCI_MD_STA_EXCEPTION}
      else if msg = CCCI_MD_MSG_FORCE_STOP_REQUEST then
        if st = CCCI_MD_STA_STOP \<or> st = CCCI_MD_STA_FLIGHT_MODE then {st} else {CCCI_MD_STA_STOP}
      else if msg = CCCI_MD_MSG_FLIGHT_STOP_REQUEST then
        if st = CCCI_MD_STA_STOP \<or> st = CCCI_MD_STA_FLIGHT_MODE then {st} else {CCCI_MD_STA_FLIGHT_MODE}
      else if msg = CCCI_MD_MSG_FORCE_START_REQUEST \<or> msg = CCCI_MD_MSG_FLIGHT_START_REQUEST then
        if st = CCCI_MD_STA_BOOT_READY then {st} else {CCCI_MD_STA_BOOT_READY, CCCI_MD_STA_BOOT_UP}
      else if msg = CCCI_MD_MSG_RESET_REQUEST then {CCCI_MD_STA_BOOT_READY, CCCI_MD_STA_BOOT_UP}
      else {st})"

text \<open>The message in what the channel answered, if it is one.\<close>

definition md_message :: "sysres \<Rightarrow> u32 option" where
  "md_message r = (if r_ret r = 16 \<and> rd32 (r_data r) = 0xFFFFFFFF \<and> rd32 (drop 8 (r_data r)) = CCCI_MONITOR_CH
     then Some (rd32 (drop 4 (r_data r))) else None)"

definition lands :: "s32 \<Rightarrow> s32 set \<Rightarrow> 'w mdinit \<Rightarrow> bool" where
  "lands md S t \<longleftrightarrow> (\<exists>st\<in>S. settled st \<and> fsm_inv md st t)"

lemma landsI: "fsm_inv md st t \<Longrightarrow> settled st \<Longrightarrow> st \<in> S \<Longrightarrow> lands md S t"
  by (auto simp: lands_def)

lemma lands_idle: "lands md S t \<Longrightarrow> idle md t \<and> md_ctl_fsm_curr_state t \<in> S"
  by (auto simp: lands_def idle_def fsm_inv_def published_def)

lemma common_lands:
  assumes "fsm_inv md st s" "settled st"
  shows "wp (common_msg_handler os msg) (\<lambda>h t. if h then lands md (fsm_next msg st) t
     else fsm_inv md st t \<and> msg \<noteq> CCCI_MD_MSG_EXCEPTION) s"
proof (cases "msg = CCCI_MD_MSG_EXCEPTION")
  case True
  have "wp (set_current_md_status os CCCI_MD_STA_EXCEPTION 0) (\<lambda>_. wp (ret True)
      (\<lambda>h t. if h then lands md (fsm_next msg st) t else fsm_inv md st t \<and> msg \<noteq> CCCI_MD_MSG_EXCEPTION)) s"
    using True by (intro wp_mono [OF set_status [OF fsm_inv_serves [OF assms(1)]]])
      (auto simp: wp_return fsm_next_def intro: landsI)
  with True assms show ?thesis
    by (auto simp: common_msg_handler_def wp_simps check_curret_md_status_def fsm_next_def fsm_inv_def published_def
        intro!: landsI)
next
  case False
  then have calm: "frame (calm os) (common_msg_handler os msg)"
    unfolding common_msg_handler_def by (simp only: if_False) (intro frame_intros; simp)
  have "wp (common_msg_handler os msg) (\<lambda>h _. h \<longrightarrow> st \<in> fsm_next msg st) s"
    unfolding common_msg_handler_def
    by (rule wp_bindI, rule wp_getsI, intro wp_ifI wp_returnI)
      (auto simp: fsm_next_def False intro!: wp_intro)
  then show ?thesis
    using calm_fsm_inv [OF frameD [OF calm] assms(1)] assms(2) False
    by (fastforce simp: wp_def intro: landsI split: prod.splits)
qed

lemma request_lands:
  assumes "fsm_inv md st s" "settled st" "msg \<noteq> CCCI_MD_MSG_EXCEPTION"
  shows "wp (handle_request os fuel fd bc msg) (\<lambda>_. lands md (fsm_next msg st)) s"
proof -
  have st: "md_ctl_fsm_curr_state s = st" using assms(1) by (simp add: fsm_inv_def published_def)
  have same: "lands md {st} s" using assms by (auto intro: landsI)
  have halt: "wp (halt_modem os fuel fd bc) (\<lambda>_. lands md {CCCI_MD_STA_STOP}) s"
    by (rule wp_mono [OF halt_stops [OF assms(1)]]) (auto intro: landsI)
  have flight: "wp (do { _ \<leftarrow> stop_modem os fuel fd 1; set_current_md_status os CCCI_MD_STA_FLIGHT_MODE 0 })
     (\<lambda>_. lands md {CCCI_MD_STA_FLIGHT_MODE}) s"
    apply (rule wp_bindI, rule wp_mono [OF stop_modem_keeps [OF assms(1)]])
    apply (rule wp_mono [OF set_status], erule fsm_inv_serves, simp, simp, erule landsI, simp_all)
    done
  let ?up = "{CCCI_MD_STA_BOOT_READY, CCCI_MD_STA_BOOT_UP}"
  have start: "wp (do { _ \<leftarrow> trigger_modem_to_run os fuel fd fl False; ret () }) (\<lambda>_. lands md ?up) t"
    if "serves md t" for fl t
    by (rule wp_bindI, rule wp_mono [OF trigger_result [OF that]]) (auto simp: wp_return intro: landsI)
  have reset: "wp (do { halt_modem os fuel fd bc; _ \<leftarrow> trigger_modem_to_run os fuel fd 0 False; ret () })
     (\<lambda>_. lands md ?up) s"
    by (rule wp_bindI, rule wp_mono [OF halt_stops [OF assms(1)]]) (erule start [OF fsm_inv_serves])
  note cases = same halt flight reset start [OF fsm_inv_serves [OF assms(1)]]
  show ?thesis
    unfolding handle_request_def check_curret_md_status_def
    by (rule wp_bindI, rule wp_getsI)+ (use assms(3) cases in \<open>auto simp: st fsm_next_def wp_return\<close>)
qed

lemma turn_lands:
  assumes "fsm_inv md st s" "settled st"
  shows "wp (main_v2_turn os fuel fd bc) (\<lambda>_. lands md (case md_message (fst (os (Sys_read fd 16) (world s))) of
     None \<Rightarrow> {st} | Some msg \<Rightarrow> fsm_next msg st)) s"
proof -
  obtain r w where r: "os (Sys_read fd 16) (world s) = (r, w)" by fastforce
  let ?s = "s\<lparr>world := w, trace := trace s @ [Sys_read fd 16]\<rparr>"
  have "run_state (syscall os (Sys_read fd 16)) s = (r, ?s)" by (simp add: r)
  from frameD [OF calm_request this] have s: "fsm_inv md st ?s"
    by (rule calm_fsm_inv [OF _ assms(1)]) simp
  have handle: "wp (do {
       handled \<leftarrow> common_msg_handler os msg;
       if handled then ret () else handle_request os fuel fd bc msg }) (\<lambda>_. lands md (fsm_next msg st)) ?s" for msg
    by (rule wp_bindI, rule wp_mono [OF common_lands [OF s assms(2)]])
      (auto simp: wp_return intro!: request_lands assms(2) split: if_splits)
  have "\<not> (16 :: s32) \<le>s 0" by (simp add: word_sle_eq)
  moreover have "lands md {st} ?s" using s assms(2) by (auto intro: landsI)
  ultimately show ?thesis using handle
    by (auto simp: main_v2_turn_def wp_bind wp_syscall r md_message_def wp_return)
qed

lemma turn_idle:
  assumes "idle md s"
  shows "wp (main_v2_turn os fuel fd bc) (\<lambda>_. idle md) s"
  using assms by (intro wp_mono [OF turn_lands]) (auto simp: idle_def dest: lands_idle)

section \<open>Start-up\<close>

text \<open>The static variables as the C files initialise them.\<close>

definition boot_state :: "'w \<Rightarrow> 'w mdinit" where
  "boot_state w = \<lparr>world = w, trace = [], ub = False, ccci_ccb_ports = [], ccb_info_len = 0, user = None, ctrl = [],
     shm = (\<lambda>_. 0), ccb_hung = False, curr_md_id = 0, system_ch_handle = 0, boot_prof_fd = 0, sys_boot_mode = NUL,
     k_setting_md_en = replicate 5 0, k_setting_ccci_drv_ver = 0, lib_handle_aed = False, aee_fun_ptr = False,
     ipc_fd = 0, sbpc = 0, muxd_name = [], rild_name = [], mdlogger_name = [], fsd_name = [],
     muxd_service_status = [], rild_service_status = [], mdlogger_service_status = [], fsd_service_status = [],
     mdlogger_cnt = 0, relate_md_id = - 1, need_silent_reboot = 0, mdstatusfd = - 1, status_event_type = 0,
     md_ctl_fsm_curr_state = CCCI_MD_STA_INIT, gotten_md_info = 0, fsm_md_id = - 1,
     ignore_time_out_msg = False, dev_monitor_fd = 0, time_HS1 = 0, stuck = False\<rparr>"

definition booting :: "s32 \<Rightarrow> 'w mdinit \<Rightarrow> bool" where
  "booting md s \<longleftrightarrow> md \<in> {0, 1, 2} \<and> curr_md_id s = md + 1 \<and> fsm_md_id s = md \<and> (md = 1 \<longrightarrow> mdstatusfd s <s 0)"

lemma steady_starting: "steady s t \<Longrightarrow> booting md s \<Longrightarrow> booting md t"
  by (auto simp: steady_def same_daemon_def booting_def)

lemma wp_starting: "frame steady m \<Longrightarrow> booting md s \<Longrightarrow> (\<And>a t. booting md t \<Longrightarrow> Q a t) \<Longrightarrow> wp m Q s"
  by (erule wp_frame) (blast intro: steady_starting)

lemma related_init_serves:
  assumes "booting md s" "relate_md_id s = md"
  shows "wp (md_init_related_init md) (\<lambda>_. serves md) s"
  using assms by (auto simp: md_init_related_init_def service_names_def wp_modify booting_def serves_def)

lemma init_serves:
  assumes "booting md s"
  shows "wp (set_current_md_status os CCCI_MD_STA_INIT fl) (\<lambda>_. serves md) s"
proof -
  have steady_store: "frame steady (store_md_statue os md v n)" for v n
    unfolding store_md_statue_def Let_def by (intro frame_intros)
  have notify: "wp (notify_md_status os CCCI_MD_STA_INIT fl) (\<lambda>_. serves md) t" if "booting md t" for t
  proof -
    let ?t = "t\<lparr>relate_md_id := curr_md_id t - 1\<rparr>"
    have t: "booting md ?t" "relate_md_id ?t = md" using that by (simp_all add: booting_def)
    have "wp (do { md_init_related_init md; _ \<leftarrow> update_inf_to_bootprof os ''decpyt ready''; ret () }) (\<lambda>_. serves md) ?t"
      by (rule wp_bindI, rule wp_mono [OF related_init_serves [OF t]], rule wp_bindI,
          rule wp_serves [OF calm_steady [OF calm_boot(1)]]) (auto intro: wp_returnI)
    with t(2) show ?thesis by (simp add: notify_md_status_def wp_bind wp_modify wp_gets)
  qed
  have tail: "wp (do { md \<leftarrow> gets fsm_md_id; store_md_statue os md v n; notify_md_status os CCCI_MD_STA_INIT fl })
      (\<lambda>_. serves md) t" if "booting md t" for t v n
    using that
    by (intro wp_bindI wp_getsI) (auto simp: booting_def intro!: wp_starting [OF steady_store that] notify)
  have st: "booting md (s\<lparr>md_ctl_fsm_curr_state := v\<rparr>)" for v using assms by (simp add: booting_def)
  show ?thesis
    unfolding set_current_md_status_def
    by (rule wp_bindI, rule wp_modifyI, rule wp_bindI, rule wp_starting [OF calm_steady [OF calm_boot(1)] st],
        erule tail)
qed

lemma start_idle:
  assumes "md \<in> {0, 1, 2}" "curr_md_id s = md + 1" "mdstatusfd s <s 0"
  shows "wp (main_v2_start os fuel (md + 1)) (\<lambda>r t. \<not> isl r \<longrightarrow> idle md t) s"
proof -
  have boot: "wp (do {
         _ \<leftarrow> trigger_modem_to_run os fuel fd 0 True;
         get_md_info os fd;
         bc \<leftarrow> syscall os (Sys_open ''/dev/ccci_mdx_sta'' O_RDWR 0);
         ret (if r_ret bc <s 0 then Inl (- 1) else Inr (fd, r_ret bc)) })
      (\<lambda>r t. \<not> isl r \<longrightarrow> idle md t) t" if "serves md t" for t fd
    apply (rule wp_bindI, rule wp_mono [OF trigger_idle [OF that]])
    apply (rule wp_bindI, rule wp_mono [OF calm_idle [OF calm_md_info]], assumption)
    apply (rule wp_bindI, rule wp_mono [OF calm_idle [OF calm_request]], simp, assumption)
    apply (simp add: wp_return)
    done
  have tail: "wp (do {
           modify (\<lambda>s. s\<lparr>system_ch_handle := fd\<rparr>);
           curr \<leftarrow> gets curr_md_id;
           _ \<leftarrow> md_image_exist_check os fd curr;
           t \<leftarrow> time_srv_init os;
           (if t = 0 then do { _ \<leftarrow> syscall os Sys_pthread_create; ret () } else ret ());
           rat \<leftarrow> parse_sys_env_rat_setting os md;
           _ \<leftarrow> syscall os (Sys_ioctl fd ''CCCI_IOC_RELOAD_MD_TYPE'' (le32 rat));
           _ \<leftarrow> trigger_modem_to_run os fuel fd 0 True;
           get_md_info os fd;
           bc \<leftarrow> syscall os (Sys_open ''/dev/ccci_mdx_sta'' O_RDWR 0);
           ret (if r_ret bc <s 0 then Inl (- 1) else Inr (fd, r_ret bc)) })
      (\<lambda>r t. \<not> isl r \<longrightarrow> idle md t) t" if "serves md t" for t fd
    apply (rule wp_bindI, rule wp_modifyI, rule wp_bindI, rule wp_getsI)
    apply (rule wp_bindI, rule wp_serves [OF calm_steady [OF calm_images], where md = md])
    using that apply (simp add: serves_def)
    apply (rule wp_bindI, erule wp_serves [OF calm_steady [OF calm_time_srv]])
    apply (rule wp_bindI, rule wp_serves [where md = md], intro frame_intros, assumption)
    apply (rule wp_bindI, erule wp_serves [OF calm_steady [OF calm_rat_setting]])
    apply (rule wp_bindI, erule wp_serves [OF steady_request])
    apply (erule boot)
    done
  have here: "fsm_md_id (s\<lparr>fsm_md_id := md\<rparr>) = md" by simp
  have "booting md (s\<lparr>fsm_md_id := md\<rparr>)" using assms by (auto simp: booting_def)
  then show ?thesis
    unfolding main_v2_start_def
    apply (intro wp_bindI wp_modifyI wp_getsI)
    apply (simp only: add_diff_cancel_right' here)
    apply (rule wp_mono [OF init_serves], assumption)
    apply (intro wp_ifI wp_returnI, use assms in simp)
    apply (rule wp_bindI, erule wp_serves [OF calm_steady [OF calm_node_name(2)]])
    apply (rule wp_bindI, erule wp_serves [OF calm_steady [OF calm_boot(1)]])
    apply (rule wp_bindI, erule wp_serves [OF calm_steady [OF calm_open_monitor]])
    apply (rule wp_optionI)
     apply (simp add: wp_return)
    apply (erule tail)
    done
qed

definition selected :: "s32 \<Rightarrow> 'w mdinit \<Rightarrow> bool" where
  "selected c s \<longleftrightarrow> curr_md_id s = c \<and> fsm_md_id s = - 1 \<and> mdstatusfd s <s 0"

lemma wp_selected: "frame (calm os) m \<Longrightarrow> selected c s \<Longrightarrow> (\<And>a t. selected c t \<Longrightarrow> Q a t) \<Longrightarrow> wp m Q s"
  by (erule wp_frame) (auto simp: calm_def quiet_def same_daemon_def selected_def)

lemma prepare_chooses:
  "wp (main_prepare os junk arg) (\<lambda>r t. r \<noteq> None \<longrightarrow> curr_md_id t \<in> {1, 2, 3} \<and> mdstatusfd t <s 0) (boot_state w)"
proof -
  let ?Q = "\<lambda>r t. r \<noteq> None \<longrightarrow> curr_md_id t \<in> {1, 2, 3} \<and> mdstatusfd t <s 0"
  have step: "wp (do {
         fd \<leftarrow> syscall os (Sys_open ''/proc/bootprof'' O_RDWR 0);
         modify (\<lambda>s. s\<lparr>boot_prof_fd := r_ret fd\<rparr>);
         _ \<leftarrow> update_inf_to_bootprof os ''md_init srv start'';
         depends_so_prepare os;
         lk \<leftarrow> check_lk_load_md_status os c;
         if lk <s 0 then ret None
         else do {
           k \<leftarrow> kernel_setting_prepare os junk;
           if k <s 0 then ret None
           else do {
             en \<leftarrow> gets (is_current_md_en c);
             if en = 0 then ret None
             else do { v \<leftarrow> gets get_ccci_drv_ver; ret (Some v) } } } }) ?Q s"
    if "selected c s" "c \<in> {1, 2, 3}" for c s
    by (rule wp_selected [of os _ c, OF _ that(1)], (intro frame_intros; simp))
      (use that(2) in \<open>auto simp: selected_def\<close>)
  have "selected c (boot_state w\<lparr>curr_md_id := 0, curr_md_id := c\<rparr>)" for c
    by (simp add: selected_def boot_state_def)
  then show ?thesis
    unfolding main_prepare_def Let_def
    by (intro wp_bindI wp_modifyI wp_optionI wp_ifI wp_returnI step) simp_all
qed

inductive mdinit_reach :: "'w os \<Rightarrow> nat \<Rightarrow> s32 \<Rightarrow> s32 \<Rightarrow> s32 \<Rightarrow> 'w mdinit \<Rightarrow> bool"
  for os fuel fd bc md where
  started: "run_state (main_prepare os junk arg) (boot_state w) = (Some 2, s) \<Longrightarrow> curr_md_id s = md + 1 \<Longrightarrow>
     run_state (main_v2_start os fuel (md + 1)) s = (Inr (fd, bc), t) \<Longrightarrow> mdinit_reach os fuel fd bc md t"
| turn: "mdinit_reach os fuel fd bc md s \<Longrightarrow> run_state (main_v2_turn os fuel fd bc) s = ((), t) \<Longrightarrow>
     mdinit_reach os fuel fd bc md t"

lemma reach_idle: "mdinit_reach os fuel fd bc md s \<Longrightarrow> idle md s"
proof (induction rule: mdinit_reach.induct)
  case (started junk arg w s t)
  have "curr_md_id s \<in> {1, 2, 3}" "mdstatusfd s <s 0"
    using wp_run [OF prepare_chooses started(1)] by simp_all
  moreover from this started(2) have "md \<in> {0, 1, 2}"
    by (auto dest: arg_cong [where f = "\<lambda>x. x - 1"])
  ultimately show ?case
    using wp_run [OF start_idle started(3)] started(2) by simp
next
  case (turn s t)
  then show ?case using wp_run [OF turn_idle] by blast
qed

section \<open>Order of a start\<close>

text \<open>Since the state \<open>s\<close>, no start was requested, and requests of the listed kinds were.\<close>

definition did :: "'w mdinit \<Rightarrow> (sysreq \<Rightarrow> bool) list \<Rightarrow> 'w mdinit \<Rightarrow> bool" where
  "did s ps t \<longleftrightarrow> (\<exists>qs. trace t = trace s @ qs \<and> list_all no_start qs \<and> (\<forall>p\<in>set ps. \<exists>q\<in>set qs. p q))"

lemma did_here: "did s [] s"
  by (auto simp: did_def)

lemma did_acted: "did s ps t \<Longrightarrow> acted os no_start t u \<Longrightarrow> did s ps u"
  unfolding did_def acted_def by (elim exE conjE, rule_tac x = "qs @ qsa" in exI) auto

lemma did_request:
  "did s ps t \<Longrightarrow> no_start q \<Longrightarrow> p q \<Longrightarrow> trace u = trace t @ [q] \<Longrightarrow> did s (p # ps) u"
  unfolding did_def by (elim exE conjE, rule_tac x = "qs @ [q]" in exI) auto

lemma wp_did: "frame (acted os no_start) m \<Longrightarrow> did s ps t \<Longrightarrow> (\<And>a u. did s ps u \<Longrightarrow> Q a u) \<Longrightarrow> wp m Q t"
  by (erule wp_frame) (blast intro: did_acted)

lemma wp_conj: "wp m Q s \<Longrightarrow> wp m R s \<Longrightarrow> wp m (\<lambda>a t. Q a t \<and> R a t) s"
  by (simp add: wp_def split: prod.splits)

lemma start_service_did:
  assumes "did s ps t"
  shows "wp (start_service_verified os n st ms) (\<lambda>_. did s ((=) (Sys_property_set ''ctl.start'' n) # ps)) t"
  unfolding start_service_verified_def
  apply (rule wp_bindI, rule wp_did [OF no_start.calm [OF calm_property(1)] assms])
  apply (rule wp_bindI, simp only: wp_property_set)
  apply (rule wp_did [OF no_start.calm [OF calm_wait]])
   apply (erule did_request [where q = "Sys_property_set ''ctl.start'' n"])
     apply (simp_all add: no_start_def)
  done

lemma restart_did:
  assumes "did s ps t"
  shows "wp (check_to_restart_md_v2 os fuel fd b) (\<lambda>_. did s ((=) (Sys_property_set ''ctl.start'' (fsd_name t)) # ps)) t"
proof -
  let ?p = "(=) (Sys_property_set ''ctl.start'' (fsd_name t))"
  let ?G = "\<lambda>u. did s ps u \<and> fsd_name u = fsd_name t"
  have step: "wp m Q u" if "frame (acted os no_start) m" "frame steady m" "?G u" "\<And>a v. ?G v \<Longrightarrow> Q a v"
    for u Q and m :: "('a mdinit, 'b) state"
  proof -
    have "wp m (\<lambda>_. did s ps) u" by (rule wp_did [OF that(1)]) (use that(3) in simp_all)
    moreover have "wp m (\<lambda>_ v. fsd_name v = fsd_name t) u"
      by (rule wp_frame [OF that(2)]) (use that(3) in \<open>simp add: steady_def same_daemon_def\<close>)
    ultimately show ?thesis by (rule wp_mono [OF wp_conj]) (use that(4) in simp)
  qed
  have fin: "wp (do {
       fn \<leftarrow> gets fsd_name;
       fs \<leftarrow> gets fsd_service_status;
       _ \<leftarrow> start_service_verified os fn fs MAX_WAIT_FOR_PROPERTY;
       if b then do { _ \<leftarrow> ccb_call (ccci_ccb_init_users os md); ret () } else ret () }) (\<lambda>_. did s (?p # ps)) u"
    if "?G u" for u md
    apply (rule wp_bindI, rule wp_getsI, rule wp_bindI, rule wp_getsI, rule wp_bindI)
    apply (rule wp_mono [OF start_service_did [where s = s and ps = ps]], use that in simp)
    apply (rule wp_did [where os = os and s = s and ps = "?p # ps"])
      apply (intro frame_intros)
     apply (use that in simp_all)
    done
  show ?thesis
    unfolding check_to_restart_md_v2_def
    apply (rule wp_bindI, rule step, (intro frame_intros; simp), intro frame_intros, use assms in simp)
    apply (rule wp_bindI, rule step, intro frame_intros, intro frame_intros, assumption)
    apply (rule wp_bindI, rule wp_getsI, rule wp_bindI, rule step, intro frame_intros)
      apply (rule calm_steady [OF calm_boot_data(9)], assumption)
    apply (rule wp_bindI, rule step, intro frame_intros, intro frame_intros, assumption)
    apply (erule fin)
    done
qed

lemma boot_data_did:
  assumes "did s ps t"
  shows "wp (set_md_boot_env_data os fuel md fd)
     (\<lambda>_. did s ((\<lambda>q. \<exists>d. q = Sys_ioctl fd ''CCCI_IOC_SET_BOOT_DATA'' d) # ps)) t"
  unfolding set_md_boot_env_data_def
  apply (rule wp_bindI, rule wp_did [OF no_start.calm [OF calm_log_mode(1)] assms])
  apply (rule wp_bindI, erule wp_did [OF no_start.calm [OF calm_log_mode(2)]])
  apply (rule wp_bindI, erule wp_did [OF no_start.calm [OF calm_boot_data(8)]])
  apply (rule wp_bindI, erule wp_did [OF no_start.calm [OF calm_sbp(5)]])
  apply (rule wp_bindI, rule wp_syscallI, rule wp_returnI)
  apply (erule did_request; simp add: no_start_def)
  done

text \<open>The requests of \<open>s\<close> to \<open>t\<close> hold a start, and what comes before the first one.\<close>

definition started_after :: "(sysreq \<Rightarrow> bool) list \<Rightarrow> s32 \<Rightarrow> 'w mdinit \<Rightarrow> 'w mdinit \<Rightarrow> bool" where
  "started_after ps fd s t \<longleftrightarrow> (\<exists>pre post. trace t = trace s @ pre @ Sys_ioctl fd ''CCCI_IOC_DO_START_MD'' [] # post \<and>
     list_all no_start pre \<and> (\<forall>p\<in>set ps. \<exists>q\<in>set pre. p q))"

lemma start_follows:
  assumes "did s ps t" "frame (acted os (\<lambda>_. True)) m" "trace u = trace t @ [Sys_ioctl fd ''CCCI_IOC_DO_START_MD'' []]"
  shows "wp m (\<lambda>_. started_after ps fd s) u"
proof (rule wp_frame [OF assms(2)])
  fix v assume "acted os (\<lambda>_. True) u v"
  then obtain post where "trace v = trace u @ post" by (auto simp: acted_def)
  moreover obtain pre where "trace t = trace s @ pre" "list_all no_start pre" "\<forall>p\<in>set ps. \<exists>q\<in>set pre. p q"
    using assms(1) by (auto simp: did_def)
  ultimately show "started_after ps fd s v"
    unfolding started_after_def using assms(3) by (intro exI [of _ pre] exI [of _ post]) simp
qed

lemma trigger_order:
  assumes "serves md s"
  shows "wp (trigger_modem_to_run os fuel fd fl b) (\<lambda>_. started_after
     [\<lambda>q. \<exists>d. q = Sys_ioctl fd ''CCCI_IOC_SET_BOOT_DATA'' d, (=) (Sys_property_set ''ctl.start'' (fsd_name s))] fd s) s"
proof -
  have name: "fsd_name t = fsd_name s" if "fsm_inv md st t" for st t
    using assms fsm_inv_serves [OF that] by (simp add: serves_def)
  have reset: "wp (set_current_md_status os CCCI_MD_STA_RESET fl)
      (\<lambda>_ t. fsm_inv md CCCI_MD_STA_RESET t \<and> did s [] t) s"
    by (rule wp_conj [OF set_status [OF assms] wp_did [OF no_start.status_change did_here]]) simp_all
  show ?thesis
    unfolding trigger_modem_to_run_def
    apply (rule wp_bindI, rule wp_mono [OF reset])
    apply (elim conjE, drule name)
    apply (rule wp_bindI, rule wp_mono [OF restart_did], assumption, simp)
    apply (rule wp_bindI, rule wp_getsI, rule wp_bindI, erule wp_mono [OF boot_data_did])
    apply (rule wp_bindI, erule wp_did [OF no_start.status_change])
    apply (rule wp_bindI, rule wp_syscallI)
    apply (erule start_follows [where os = os])
     apply (intro frame_intros)
    apply simp
    done
qed

section \<open>Claims\<close>

text \<open>C2: whenever the daemon waits for a message, it is in one of five states (never \<open>INIT\<close> or \<open>RESET\<close>); the
  status property of its modem was last written with that state's name; its two copies of the modem's id
  and the names of the services it controls belong to that modem; after an exception the logger runs and
  the next boot will be silent; and it is \<open>BOOT_READY\<close> only for modems 1 and 3, with the silent reboot
  over.\<close>

theorem mdinit_reachable_inv:
  assumes "mdinit_reach os fuel fd bc md s"
  shows "idle md s"
  by (rule reach_idle [OF assms])

text \<open>C3: the message loop implements the abstract machine: a turn moves the state along \<open>fsm_next\<close> for the
  message the channel delivered, and leaves it alone when what was read is not a message.\<close>

theorem turn_refines_fsm:
  assumes "mdinit_reach os fuel fd bc md s" "run_state (main_v2_turn os fuel fd bc) s = ((), t)"
  shows "md_ctl_fsm_curr_state t \<in> (case md_message (fst (os (Sys_read fd 16) (world s))) of
     None \<Rightarrow> {md_ctl_fsm_curr_state s} | Some msg \<Rightarrow> fsm_next msg (md_ctl_fsm_curr_state s))"
proof -
  have "fsm_inv md (md_ctl_fsm_curr_state s) s" "settled (md_ctl_fsm_curr_state s)"
    using reach_idle [OF assms(1)] by (simp_all add: idle_def)
  from wp_run [OF turn_lands [OF this] assms(2)] show ?thesis by (blast dest: lands_idle)
qed

text \<open>C11: a modem is started only when everything it needs is in place: among the requests of a start-up
  sequence, the start of the modem's file-system daemon has been requested and the boot data have been handed to the
  driver before the first start request.\<close>

theorem start_order:
  assumes "mdinit_reach os fuel fd bc md s" "run_state (trigger_modem_to_run os fuel fd fl first_boot) s = (r, t)"
  shows "\<exists>pre post. trace t = trace s @ pre @ Sys_ioctl fd ''CCCI_IOC_DO_START_MD'' [] # post \<and>
     list_all no_start pre \<and> (\<exists>d. Sys_ioctl fd ''CCCI_IOC_SET_BOOT_DATA'' d \<in> set pre) \<and>
     Sys_property_set ''ctl.start'' (fsd_name s) \<in> set pre"
  using wp_run [OF trigger_order [OF fsm_inv_serves [OF idle_inv [OF reach_idle [OF assms(1)]]]] assms(2)]
  by (auto simp: started_after_def)

section \<open>A run\<close>

text \<open>A phone with one modem that boots and then reports an exception; its world is the status property.\<close>

definition phone_fd :: "string \<Rightarrow> s32" where
  "phone_fd p = (if p = ''/sys/kernel/ccci/kcfg_setting'' then 5
     else if p = ''/dev/ccci_monitor'' then 4
     else if p = ''/dev/ccci_md1_sta'' then 6
     else if p = ''/dev/ccci_mdx_sta'' then 7
     else if p = ''/mnt/vendor/nvdata/APCFG/APRDCL/CXP_SBP'' then 8 else - 1)"

definition phone_text :: string where
  "phone_text = ''[modem en]:1-0-0-0-0'' @ [CHR 0x0A] @ ''[ccci_drv_ver]:V2'' @ [CHR 0x0A] @ ''.''"

definition phone_read :: "s32 \<Rightarrow> u8 list" where
  "phone_read fd = (if fd = 5 then bytes phone_text
     else if fd = 8 then bytes ''7''
     else if fd = 6 then replicate 12 0 @ le32 MD_STA_EV_READY @ replicate 32 0
     else le32 0xFFFFFFFF @ le32 CCCI_MD_MSG_EXCEPTION @ le32 CCCI_MONITOR_CH @ le32 0)"

definition phone_reply :: "s32 \<Rightarrow> sysres" where
  "phone_reply fd = res0\<lparr>r_ret := of_nat (length (phone_read fd)), r_data := phone_read fd\<rparr>"

definition phone_property :: "string \<Rightarrow> string" where
  "phone_property k = (if k = ''vendor.service.nvram_init'' then ''Ready''
     else if take 9 k = ''init.svc.'' then ''running'' else [])"

definition phone_status :: string where
  "phone_status = md_status_key 0"

definition phone_answer :: "string \<Rightarrow> sysres" where
  "phone_answer v = res0\<lparr>r_ret := of_nat (length v), r_name := Some v\<rparr>"

definition phone_os :: "string option os" where
  "phone_os q w = (case q of
       Sys_open p fl m \<Rightarrow> (res0\<lparr>r_ret := phone_fd p\<rparr>, w)
     | Sys_read fd n \<Rightarrow> (phone_reply fd, w)
     | Sys_malloc n \<Rightarrow> (res0\<lparr>r_ret := 1\<rparr>, w)
     | Sys_property_set k v \<Rightarrow> (res0, if k = phone_status then Some v else w)
     | Sys_property_get k \<Rightarrow>
         (phone_answer (if k = phone_status then case w of None \<Rightarrow> [] | Some v \<Rightarrow> v else phone_property k), w)
     | Sys_ioctl fd c d \<Rightarrow> (res0\<lparr>r_data := (if c = ''CCCI_IOC_GET_MD_STATE'' then le32 MD_STATE_READY else [])\<rparr>, w)
     | _ \<Rightarrow> (res0, w))"

definition phone_prepared :: "string option mdinit" where
  "phone_prepared = snd (run_state (main_prepare phone_os (replicate 64 NUL) (Some ''0'')) (boot_state None))"

definition phone_started :: "string option mdinit" where
  "phone_started = snd (run_state (main_v2_start phone_os 3 1) phone_prepared)"

definition phone_turned :: "string option mdinit" where
  "phone_turned = snd (run_state (main_v2_turn phone_os 3 4 7) phone_started)"

lemma phone_prepare: "fst (run_state (main_prepare phone_os (replicate 64 NUL) (Some ''0'')) (boot_state None)) = Some 2"
  "curr_md_id phone_prepared = 1"
  unfolding phone_prepared_def by code_simp+

text \<open>The answers do not depend on what happened before, so neither do the descriptors.\<close>

lemma phone_opens: "phone_os (Sys_open p fl m) w = (res0\<lparr>r_ret := phone_fd p\<rparr>, w)"
  by (simp add: phone_os_def)

lemma phone_node: "wp (ccci_get_node_name phone_os node_row_CTRL 0) (\<lambda>n _. n = Some ''/dev/ccci_monitor'') s"
  by (simp add: ccci_get_node_name_def ccci_get_version_def wp_simps phone_opens phone_fd_def node_row_CTRL_def
      ccci_node_list_def word_sless_alt res0_def)

lemma phone_monitor: "0 < n \<Longrightarrow> wp (open_monitor n phone_os ''/dev/ccci_monitor'') (\<lambda>r _. r = Some 4) s"
  by (cases n) (simp_all add: wp_simps phone_opens phone_fd_def word_sless_alt res0_def)

lemma wp_skip: "(\<And>a t. wp (f a) Q t) \<Longrightarrow> wp (State_Monad.bind m f) Q s"
  by (rule wp_bindI, rule wp_intro) simp

lemma phone_start: "wp (main_v2_start phone_os fuel 1) (\<lambda>r _. r = Inr (4, 7)) s"
  unfolding main_v2_start_def
  apply (intro wp_bindI wp_modifyI wp_getsI)
  apply (rule wp_intro, simp)
  apply (rule wp_bindI, rule wp_mono [OF phone_node])
  apply (rule wp_skip, rule wp_bindI, simp add: node_path_def, rule wp_mono [OF phone_monitor], simp, simp)
  apply (rule wp_skip, rule wp_skip, rule wp_skip, rule wp_skip, rule wp_skip)
  apply (rule wp_skip, rule wp_skip, rule wp_skip, rule wp_skip)
  apply (simp add: wp_simps phone_opens phone_fd_def word_sless_alt res0_def)
  done

lemma phone_reach: "mdinit_reach phone_os 3 4 7 0 phone_started"
proof (rule mdinit_reach.started)
  show "run_state (main_prepare phone_os (replicate 64 NUL) (Some ''0'')) (boot_state None) = (Some 2, phone_prepared)"
    using phone_prepare(1) by (simp add: phone_prepared_def prod_eq_iff)
  show "curr_md_id phone_prepared = 0 + 1" by (simp add: phone_prepare)
  show "run_state (main_v2_start phone_os 3 (0 + 1)) phone_prepared = (Inr (4, 7), phone_started)"
    using phone_start [of 3 phone_prepared] by (simp add: phone_started_def wp_def prod_eq_iff case_prod_beta)
qed

theorem mdinit_reachable_inv_witness: "idle 0 phone_started"
  by (rule mdinit_reachable_inv [OF phone_reach])

theorem turn_refines_fsm_witness: "md_ctl_fsm_curr_state phone_turned = CCCI_MD_STA_EXCEPTION"
proof -
  have "md_message (phone_reply 4) = Some CCCI_MD_MSG_EXCEPTION" by code_simp
  then have "md_message (fst (phone_os (Sys_read 4 16) w)) = Some CCCI_MD_MSG_EXCEPTION" for w
    by (simp add: phone_os_def)
  moreover have "run_state (main_v2_turn phone_os 3 4 7) phone_started = ((), phone_turned)"
    by (simp add: phone_turned_def prod_eq_iff)
  ultimately show ?thesis
    using turn_refines_fsm [OF phone_reach] by (simp add: fsm_next_def)
qed

theorem start_order_witness:
  "Sys_property_set ''ctl.start'' (fsd_name phone_started)
     \<in> set (trace (snd (run_state (trigger_modem_to_run phone_os 3 4 0 False) phone_started)))"
proof -
  let ?t = "run_state (trigger_modem_to_run phone_os 3 4 0 False) phone_started"
  have "?t = (fst ?t, snd ?t)" by simp
  from start_order [OF phone_reach this] show ?thesis by force
qed

end
