(* ===== verification/Mdinit_V1.thy ===== *)
theory Mdinit_V1
  imports Mdinit_Fsm
begin

unbundle bit_operations_syntax

text \<open>
  The modem control state machine for the first version of the driver (\<open>platform/md_init.c\<close>). Here every
  message of the driver is one step, and a restart of the modem takes several of them.

  A process runs one of the two state machines. The static variables of \<open>md_init.c\<close> have the same names as those
  of the second version and take their place in the state; \<open>md_id\<close> is the field \<open>fsm_md_id\<close>. Where \<open>md_init.c\<close>
  repeats a function of \<open>mdinit_relate.c\<close> or \<open>mdinit_platform.c\<close> word by word (waiting for properties, the logger,
  the debug flags, two of the sources of the SBP code), the definition made there is used. \<open>ccci_ccb_check_users\<close>
  does nothing, and the functions that no other calls are left out.
\<close>

section \<open>Messages and states\<close>

abbreviation (input) V1_MSG_BOOT_READY :: u32 where "V1_MSG_BOOT_READY \<equiv> 0xFAF50001"
abbreviation (input) V1_MSG_BOOT_UP :: u32 where "V1_MSG_BOOT_UP \<equiv> 0xFAF50002"
abbreviation (input) V1_MSG_EXCEPTION :: u32 where "V1_MSG_EXCEPTION \<equiv> 0xFAF50003"
abbreviation (input) V1_MSG_RESET :: u32 where "V1_MSG_RESET \<equiv> 0xFAF50004"
abbreviation (input) V1_MSG_READY_TO_RESET :: u32 where "V1_MSG_READY_TO_RESET \<equiv> 0xFAF50006"
abbreviation (input) V1_MSG_BOOT_TIMEOUT :: u32 where "V1_MSG_BOOT_TIMEOUT \<equiv> 0xFAF50007"
abbreviation (input) V1_MSG_STOP_MD_REQUEST :: u32 where "V1_MSG_STOP_MD_REQUEST \<equiv> 0xFAF50008"
abbreviation (input) V1_MSG_START_MD_REQUEST :: u32 where "V1_MSG_START_MD_REQUEST \<equiv> 0xFAF50009"
abbreviation (input) V1_MSG_ENTER_FLIGHT_MODE :: u32 where "V1_MSG_ENTER_FLIGHT_MODE \<equiv> 0xFAF5000A"
abbreviation (input) V1_MSG_LEAVE_FLIGHT_MODE :: u32 where "V1_MSG_LEAVE_FLIGHT_MODE \<equiv> 0xFAF5000B"
abbreviation (input) V1_MSG_SEND_BATTERY_INFO :: u32 where "V1_MSG_SEND_BATTERY_INFO \<equiv> 0xFAF5000E"
abbreviation (input) V1_MSG_NOTIFY :: u32 where "V1_MSG_NOTIFY \<equiv> 0xFAF5000F"
abbreviation (input) V1_MSG_STORE_NVRAM_MD_TYPE :: u32 where "V1_MSG_STORE_NVRAM_MD_TYPE \<equiv> 0xFAF50010"
abbreviation (input) V1_MSG_CFG_UPDATE :: u32 where "V1_MSG_CFG_UPDATE \<equiv> 0xFAF50011"
abbreviation (input) V1_MSG_RANDOM_PATTERN :: u32 where "V1_MSG_RANDOM_PATTERN \<equiv> 0xFAF51234"

abbreviation (input) V1_STA_INIT :: s32 where "V1_STA_INIT \<equiv> - 1"
abbreviation (input) V1_STA_BOOT_READY :: s32 where "V1_STA_BOOT_READY \<equiv> 0"
abbreviation (input) V1_STA_BOOT_UP :: s32 where "V1_STA_BOOT_UP \<equiv> 1"
abbreviation (input) V1_STA_RESET :: s32 where "V1_STA_RESET \<equiv> 2"
abbreviation (input) V1_STA_WAIT_SRV_RDY_TO_RST :: s32 where "V1_STA_WAIT_SRV_RDY_TO_RST \<equiv> 3"
abbreviation (input) V1_STA_WAIT_SRV_RDY_TO_STOP :: s32 where "V1_STA_WAIT_SRV_RDY_TO_STOP \<equiv> 4"
abbreviation (input) V1_STA_STOP :: s32 where "V1_STA_STOP \<equiv> 5"
abbreviation (input) V1_STA_FLIGHT_MODE :: s32 where "V1_STA_FLIGHT_MODE \<equiv> 6"

abbreviation (input) V1_MAX_WAIT :: nat where "V1_MAX_WAIT \<equiv> 2000"

definition v1_status_name :: "s32 \<Rightarrow> string" where
  "v1_status_name status =
     (if status = V1_STA_INIT then ''init''
      else if status = V1_STA_BOOT_READY then ''ready''
      else if status = V1_STA_BOOT_UP then ''bootup''
      else if status = V1_STA_RESET then ''reset''
      else if status = V1_STA_WAIT_SRV_RDY_TO_RST then ''wait to reset''
      else if status = V1_STA_WAIT_SRV_RDY_TO_STOP then ''wait to stop''
      else if status = V1_STA_STOP then ''stop''
      else if status = V1_STA_FLIGHT_MODE then ''flightmode''
      else ''undefined'')"

definition set_md_status_v1 :: "'w os \<Rightarrow> s32 \<Rightarrow> ('w mdinit, unit) state" where
  "set_md_status_v1 os status = do {
     modify (\<lambda>s. s\<lparr>md_ctl_fsm_curr_state := status\<rparr>);
     md \<leftarrow> gets fsm_md_id;
     property_set os (md_status_key md) (v1_status_name status);
     if md = MD_SYS3 then property_set os ''vendor.net.cdma.mdmstat'' (v1_status_name status) else ret () }"

section \<open>Restarting together with the other modem\<close>

definition stop_ril_proxy_v1 :: "'w os \<Rightarrow> s32 \<Rightarrow> ('w mdinit, unit) state" where
  "stop_ril_proxy_v1 os md =
     (if md = MD_SYS1 then do {
        _ \<leftarrow> stop_service_verified os ''vendor.ril-proxy'' ''vendor.init.svc.ril-proxy'' 500;
        ret () }
      else ret ())"

primrec wait_other_reset_v1 :: "nat \<Rightarrow> 'w os \<Rightarrow> s32 \<Rightarrow> string \<Rightarrow> ('w mdinit, bool) state" where
  "wait_other_reset_v1 0 os md key = do { stall; ret False }"
| "wait_other_reset_v1 (Suc fuel) os md key = do {
     (r, buf) \<leftarrow> property_get os key;
     if r = 0 then do { stop_ril_proxy_v1 os md; ret False }
     else if buf = ''reset'' then do {
       (if md = MD_SYS3 then do {
          fd \<leftarrow> gets system_ch_handle;
          _ \<leftarrow> syscall os (Sys_ioctl fd ''CCCI_IOC_RESET_MD1_MD3_PCCIF'' []); ret () }
        else ret ());
       property_set os key ''reset_start'';
       ret True }
     else do {
       _ \<leftarrow> syscall os (Sys_usleep 30000);
       wait_other_reset_v1 fuel os md key } }"

definition check_to_restart_md :: "'w os \<Rightarrow> nat \<Rightarrow> ('w mdinit, unit) state" where
  "check_to_restart_md os fuel = do {
     md \<leftarrow> gets fsm_md_id;
     case md_status_keys md of
       None \<Rightarrow> fault
     | Some (this, other) \<Rightarrow> do {
         a \<leftarrow> wait_other_reset_v1 fuel os md other;
         if \<not> a then ret ()
         else do {
           b \<leftarrow> wait_this_start fuel os this;
           if \<not> b then ret () else stop_ril_proxy_v1 os md } } }"

section \<open>Services\<close>

definition update_service_name :: "('w mdinit, unit) state" where
  "update_service_name = do {
     md \<leftarrow> gets fsm_md_id;
     if md \<noteq> 0 then ret ()
     else modify (\<lambda>s. s\<lparr>muxd_name := ''vendor.gsm0710muxd'', muxd_service_status := ''init.svc.vendor.gsm0710muxd'',
       rild_name := ''vendor.ril-daemon-mtk'', rild_service_status := ''init.svc.vendor.ril-daemon-mtk''\<rparr>) }"

definition stop_muxd_v1 :: "'w os \<Rightarrow> ('w mdinit, (string \<times> string) list) state" where
  "stop_muxd_v1 os = do {
     md \<leftarrow> gets fsm_md_id;
     if md \<noteq> MD_SYS3 then do {
       mn \<leftarrow> gets muxd_name;
       ms \<leftarrow> gets muxd_service_status;
       property_set os ''ctl.stop'' mn;
       ret [(ms, ''stopped'')] }
     else ret [] }"

definition stop_all_ccci_up_layer_services_v1 :: "'w os \<Rightarrow> ('w mdinit, unit) state" where
  "stop_all_ccci_up_layer_services_v1 os = do {
     rn \<leftarrow> gets rild_name;
     property_set os ''ctl.stop'' rn;
     fn \<leftarrow> gets fsd_name;
     property_set os ''ctl.stop'' fn;
     fs \<leftarrow> gets fsd_service_status;
     rs \<leftarrow> gets rild_service_status;
     _ \<leftarrow> wait_for_property os rs ''stopped'' 300;
     wp1 \<leftarrow> stop_muxd_v1 os;
     wp2 \<leftarrow> stop_mdlogger os;
     _ \<leftarrow> wait_property_ready os ([(fs, ''stopped'')] @ wp1 @ wp2) V1_MAX_WAIT;
     _ \<leftarrow> syscall os (Sys_release_wake_lock ''ccci_fsd'');
     ret () }"

definition start_all_ccci_up_layer_services_v1 :: "'w os \<Rightarrow> ('w mdinit, unit) state" where
  "start_all_ccci_up_layer_services_v1 os = do {
     silent \<leftarrow> gets need_silent_reboot;
     (if silent \<noteq> 0 then property_set os ''vendor.ril.mux.report.case'' ''2'' else ret ());
     start_mdlogger os 0;
     update_service_name;
     md \<leftarrow> gets fsm_md_id;
     n \<leftarrow> gets (if md \<noteq> MD_SYS3 then muxd_name else rild_name);
     st \<leftarrow> gets (if md \<noteq> MD_SYS3 then muxd_service_status else rild_service_status);
     _ \<leftarrow> start_service_verified os n st V1_MAX_WAIT;
     ret () }"

definition stop_fsd_v1 :: "'w os \<Rightarrow> ('w mdinit, unit) state" where
  "stop_fsd_v1 os = do {
     fn \<leftarrow> gets fsd_name;
     fs \<leftarrow> gets fsd_service_status;
     _ \<leftarrow> stop_service_verified os fn fs V1_MAX_WAIT;
     ret () }"

definition start_fsd_v1 :: "'w os \<Rightarrow> ('w mdinit, unit) state" where
  "start_fsd_v1 os = do {
     fn \<leftarrow> gets fsd_name;
     fs \<leftarrow> gets fsd_service_status;
     _ \<leftarrow> start_service_verified os fn fs V1_MAX_WAIT;
     ret () }"

text \<open>In most states all services are stopped unless the phone was booted into the factory's test mode.\<close>

definition stop_unless_meta :: "'w os \<Rightarrow> ('w mdinit, unit) state" where
  "stop_unless_meta os = do {
     meta \<leftarrow> is_meta_mode os;
     if meta then ret () else stop_all_ccci_up_layer_services_v1 os }"

section \<open>Boot data\<close>

definition get_nvram_ef_data_v1 :: "'w os \<Rightarrow> s32 \<Rightarrow> u32 \<Rightarrow> ('w mdinit, s32 \<times> u8 list) state" where
  "get_nvram_ef_data_v1 os fid recsize = do {
     d \<leftarrow> syscall os (Sys_NVM_GetFileDesc fid);
     if r_ret d <s 0 then ret (- 1, [])
     else do {
       let rec_size = rd32 (r_data d);
       (if recsize < rec_size then fault else ret ());
       r \<leftarrow> syscall os (Sys_read (r_ret d) rec_size);
       _ \<leftarrow> syscall os (Sys_NVM_CloseFileDesc (r_ret d));
       ret (if rec_size \<noteq> r_ret r then - 1 else 0, r_data r) } }"

definition get_nvram_sbp_code_v1 :: "'w os \<Rightarrow> nat \<Rightarrow> s32 \<Rightarrow> ('w mdinit, s32) state" where
  "get_nvram_sbp_code_v1 os fuel md = do {
     _ \<leftarrow> check_nvram_ready fuel os 0;
     lid \<leftarrow> syscall os (Sys_NVM_GetLIDByName ''/mnt/vendor/nvdata/APCFG/APRDCL/MD_SBP'');
     if r_ret lid <s 0 then ret 0
     else do {
       m \<leftarrow> syscall os (Sys_malloc 24);
       if r_ret m = 0 then ret 0
       else do {
         (r, d) \<leftarrow> get_nvram_ef_data_v1 os (r_ret lid) 24;
         ret (if r \<noteq> 0 then 0 else if md = MD_SYS2 then rd32 (drop 8 d) else rd32 d) } } }"

text \<open>A value found once is kept until the property names another one.\<close>

definition get_md_sbp_code_v1 :: "'w os \<Rightarrow> nat \<Rightarrow> s32 \<Rightarrow> ('w mdinit, s32) state" where
  "get_md_sbp_code_v1 os fuel md = do {
     usp \<leftarrow> property_uint os ''persist.vendor.mtk_usp_md_sbp_code'' 0;
     modify (\<lambda>s. s\<lparr>sbpc := (if usp \<noteq> 0 \<and> usp \<noteq> sbpc s then usp else sbpc s)\<rparr>);
     old \<leftarrow> gets sbpc;
     if old \<noteq> 0 then ret old
     else do {
       cip \<leftarrow> get_cip_sbp_setting os md;
       stored \<leftarrow> get_nvram_sbp_code_v1 os fuel md;
       prj \<leftarrow> get_project_sbp_code_v1 os md;
       modify (\<lambda>s. s\<lparr>sbpc := pick_sbp cip prj stored (sbpc s)\<rparr>);
       gets sbpc } }"

definition get_mdlog_boot_mode_v1 :: "'w os \<Rightarrow> s32 \<Rightarrow> ('w mdinit, u32) state" where
  "get_mdlog_boot_mode_v1 os md = do {
     fd \<leftarrow> open_log_config os md;
     if fd <s 0 then ret 2
     else do {
       r \<leftarrow> syscall os (Sys_read fd 4);
       _ \<leftarrow> syscall os (Sys_close fd);
       ret (if r_ret r \<noteq> 4 then 2 else rd32 (r_data r)) } }"

definition set_md_boot_env_data_v1 :: "'w os \<Rightarrow> nat \<Rightarrow> ('w mdinit, unit) state" where
  "set_md_boot_env_data_v1 os fuel = do {
     md \<leftarrow> gets fsm_md_id;
     fd \<leftarrow> gets dev_monitor_fd;
     d0 \<leftarrow> get_mdlog_boot_mode_v1 os md;
     d1 \<leftarrow> get_md_sbp_code_v1 os fuel md;
     d2 \<leftarrow> get_md_dbg_dump_flag os md;
     _ \<leftarrow> syscall os (Sys_ioctl fd ''CCCI_IOC_SET_BOOT_DATA'' (concat (map le32 ([d0, d1, d2] @ replicate 13 0))));
     ret () }"

section \<open>The states\<close>

definition md_ioctl :: "'w os \<Rightarrow> string \<Rightarrow> u8 list \<Rightarrow> ('w mdinit, sysres) state" where
  "md_ioctl os c d = do { fd \<leftarrow> gets system_ch_handle; syscall os (Sys_ioctl fd c d) }"

text \<open>An \<open>ioctl\<close> that is tried a second time.\<close>

definition ioctl_twice :: "'w os \<Rightarrow> string \<Rightarrow> ('w mdinit, unit) state" where
  "ioctl_twice os c = do {
     r \<leftarrow> md_ioctl os c (le32 0);
     if r_ret r = 0 then ret ()
     else do {
       _ \<leftarrow> syscall os (Sys_sleep 1);
       _ \<leftarrow> md_ioctl os c (le32 0);
       ret () } }"

text \<open>The start of the modem is tried until it succeeds.\<close>

primrec start_md_loop :: "nat \<Rightarrow> 'w os \<Rightarrow> ('w mdinit, unit) state" where
  "start_md_loop 0 os = stall"
| "start_md_loop (Suc fuel) os = do {
     r \<leftarrow> md_ioctl os ''CCCI_IOC_DO_START_MD'' (le32 0);
     if r_ret r = 0 then ret ()
     else do { _ \<leftarrow> syscall os (Sys_sleep 1); start_md_loop fuel os } }"

definition store_md_type_v1 :: "'w os \<Rightarrow> ('w mdinit, unit) state" where
  "store_md_type_v1 os = do {
     r \<leftarrow> md_ioctl os ''CCCI_IOC_GET_MD_TYPE_SAVING'' (le32 0);
     md \<leftarrow> gets fsm_md_id;
     old \<leftarrow> get_stored_modem_type_val os md;
     if rd32 (r_data r) = old then ret ()
     else do { _ \<leftarrow> store_modem_type_val os md (rd32 (r_data r)); ret () } }"

definition boot_ready_state_handler :: "'w os \<Rightarrow> u32 \<Rightarrow> ('w mdinit, unit) state" where
  "boot_ready_state_handler os message =
     (if message = V1_MSG_EXCEPTION then do {
        modify (\<lambda>s. s\<lparr>need_silent_reboot := 1\<rparr>);
        md \<leftarrow> gets fsm_md_id;
        if md = MD_SYS3 then property_set os ''vendor.net.cdma.mdmstat'' ''exception'' else ret () }
      else if message = V1_MSG_RESET then do {
        delay_to_reset_md os 1;
        set_md_status_v1 os V1_STA_WAIT_SRV_RDY_TO_RST;
        _ \<leftarrow> md_ioctl os ''CCCI_IOC_DO_STOP_MD'' [];
        meta \<leftarrow> is_meta_mode os;
        if meta then stop_fsd_v1 os else stop_all_ccci_up_layer_services_v1 os }
      else if message = V1_MSG_STOP_MD_REQUEST then do {
        set_md_status_v1 os V1_STA_WAIT_SRV_RDY_TO_STOP;
        stop_unless_meta os }
      else if message = V1_MSG_ENTER_FLIGHT_MODE then do {
        set_md_status_v1 os V1_STA_FLIGHT_MODE;
        meta \<leftarrow> is_meta_mode os;
        if meta then ret ()
        else do {
          stop_fsd_v1 os;
          _ \<leftarrow> syscall os (Sys_release_wake_lock ''ccci_fsd'');
          ret () } }
      else if message = V1_MSG_STORE_NVRAM_MD_TYPE then store_md_type_v1 os
      else ret ())"

text \<open>A reset while the modem boots stops the file-system daemon and the logger only.\<close>

definition stop_fsd_logger :: "'w os \<Rightarrow> ('w mdinit, unit) state" where
  "stop_fsd_logger os = do {
     fn \<leftarrow> gets fsd_name;
     property_set os ''ctl.stop'' fn;
     fs \<leftarrow> gets fsd_service_status;
     cnt \<leftarrow> gets mdlogger_cnt;
     wps \<leftarrow> (if cnt = 1 then do {
         ln \<leftarrow> gets mdlogger_name;
         property_set os ''ctl.stop'' ln;
         ls \<leftarrow> gets mdlogger_service_status;
         modify (\<lambda>s. s\<lparr>mdlogger_cnt := 0\<rparr>);
         ret [(ls, ''stopped'')] }
       else ret []);
     _ \<leftarrow> wait_property_ready os ((fs, ''stopped'') # wps) V1_MAX_WAIT;
     _ \<leftarrow> syscall os (Sys_release_wake_lock ''ccci_fsd'');
     ret () }"

definition boot_up_ready :: "'w os \<Rightarrow> ('w mdinit, unit) state" where
  "boot_up_ready os = do {
     meta \<leftarrow> is_meta_mode os;
     (if meta then ret ()
      else do {
        r \<leftarrow> md_ioctl os ''CCCI_IOC_GET_MD_BOOT_MODE'' (le32 0);
        if r_ret r = 0 \<and> rd32 (r_data r) = 2 then ret () else start_all_ccci_up_layer_services_v1 os });
     modify (\<lambda>s. s\<lparr>need_silent_reboot := 0\<rparr>) }"

definition early_exception :: "('w mdinit, unit) state" where
  "early_exception = modify (\<lambda>s. if gotten_md_info s = 1 then s\<lparr>ignore_time_out_msg := True\<rparr> else s)"

definition boot_up_state_handler :: "'w os \<Rightarrow> u32 \<Rightarrow> ('w mdinit, unit) state" where
  "boot_up_state_handler os message =
     (if message = V1_MSG_BOOT_READY then do {
        set_md_status_v1 os V1_STA_BOOT_READY;
        boot_up_ready os }
      else if message = V1_MSG_EXCEPTION then do {
        early_exception;
        start_mdlogger os V1_MAX_WAIT }
      else if message = V1_MSG_RESET then do {
        set_md_status_v1 os V1_STA_WAIT_SRV_RDY_TO_RST;
        meta \<leftarrow> is_meta_mode os;
        if meta then ret ()
        else do {
          delay_to_reset_md os 1;
          _ \<leftarrow> md_ioctl os ''CCCI_IOC_DO_STOP_MD'' [];
          stop_fsd_logger os } }
      else if message = V1_MSG_BOOT_TIMEOUT then do {
        ignore \<leftarrow> gets ignore_time_out_msg;
        if ignore then modify (\<lambda>s. s\<lparr>ignore_time_out_msg := False\<rparr>)
        else do {
          set_md_status_v1 os V1_STA_WAIT_SRV_RDY_TO_RST;
          stop_unless_meta os } }
      else if message = V1_MSG_STOP_MD_REQUEST then do {
        set_md_status_v1 os V1_STA_WAIT_SRV_RDY_TO_STOP;
        stop_unless_meta os }
      else ret ())"

definition is_eccci :: "'w os \<Rightarrow> ('w mdinit, bool) state" where
  "is_eccci os = do {
     v \<leftarrow> ccci_get_version os;
     if v = 3 then ret True else do { u \<leftarrow> ccci_get_version os; ret (u = 5) } }"

definition reset_state_handler :: "'w os \<Rightarrow> u32 \<Rightarrow> ('w mdinit, unit) state" where
  "reset_state_handler os message =
     (if message = V1_MSG_BOOT_UP then do {
        set_md_status_v1 os V1_STA_BOOT_UP;
        ioctl_twice os ''CCCI_IOC_SEND_RUN_TIME_DATA'';
        md \<leftarrow> gets fsm_md_id;
        _ \<leftarrow> ccb_call (ccci_ccb_init_users os md);
        ret () }
      else if message = V1_MSG_EXCEPTION then do {
        early_exception;
        e \<leftarrow> is_eccci os;
        if e then start_mdlogger os V1_MAX_WAIT else ret () }
      else if message = V1_MSG_BOOT_TIMEOUT then modify (\<lambda>s. s\<lparr>ignore_time_out_msg := False\<rparr>)
      else if message = V1_MSG_STOP_MD_REQUEST then do {
        set_md_status_v1 os V1_STA_WAIT_SRV_RDY_TO_STOP;
        stop_unless_meta os }
      else ret ())"

definition wait_service_ready_to_reset_state_handler :: "'w os \<Rightarrow> nat \<Rightarrow> u32 \<Rightarrow> ('w mdinit, unit) state" where
  "wait_service_ready_to_reset_state_handler os fuel message =
     (if message = V1_MSG_READY_TO_RESET then do {
        set_md_status_v1 os V1_STA_RESET;
        r \<leftarrow> md_ioctl os ''CCCI_IOC_GET_MD_TYPE'' [];
        (if r_ret r = 0 then property_set os ''vendor.ril.active.md'' (take 15 (print_int (rd32 (r_data r))))
         else ret ());
        check_to_restart_md os fuel;
        start_fsd_v1 os;
        set_md_boot_env_data_v1 os fuel;
        start_md_loop fuel os }
      else if message = V1_MSG_STOP_MD_REQUEST then set_md_status_v1 os V1_STA_STOP
      else ret ())"

definition wait_service_ready_to_stop_state_handler :: "'w os \<Rightarrow> u32 \<Rightarrow> ('w mdinit, unit) state" where
  "wait_service_ready_to_stop_state_handler os message =
     (if message = V1_MSG_READY_TO_RESET then set_md_status_v1 os V1_STA_STOP else ret ())"

definition stop_state_handler :: "'w os \<Rightarrow> nat \<Rightarrow> u32 \<Rightarrow> ('w mdinit, unit) state" where
  "stop_state_handler os fuel message =
     (if message = V1_MSG_RESET \<or> message = V1_MSG_START_MD_REQUEST then do {
        delay_to_reset_md os 1;
        set_md_status_v1 os V1_STA_RESET;
        check_to_restart_md os fuel;
        meta \<leftarrow> is_meta_mode os;
        (if meta then ret () else do { start_fsd_v1 os; _ \<leftarrow> syscall os (Sys_sleep 1); ret () });
        set_md_boot_env_data_v1 os fuel;
        ioctl_twice os ''CCCI_IOC_DO_START_MD'' }
      else ret ())"

definition flight_state_handler :: "'w os \<Rightarrow> u32 \<Rightarrow> ('w mdinit, unit) state" where
  "flight_state_handler os message =
     (if message = V1_MSG_LEAVE_FLIGHT_MODE then do {
        set_md_status_v1 os V1_STA_WAIT_SRV_RDY_TO_RST;
        _ \<leftarrow> wait_for_property os ''vendor.ril.getccci.response'' ''1'' 500;
        stop_unless_meta os }
      else ret ())"

section \<open>The message loop\<close>

definition common_msg_handler_v1 :: "'w os \<Rightarrow> u32 \<Rightarrow> ('w mdinit, bool) state" where
  "common_msg_handler_v1 os msg =
     (if msg = V1_MSG_SEND_BATTERY_INFO then do {
        _ \<leftarrow> md_ioctl os ''CCCI_IOC_SEND_BATTERY_INFO'' (le32 0);
        ret True }
      else ret (msg = V1_MSG_NOTIFY \<or> msg = V1_MSG_CFG_UPDATE))"

definition print_long :: "int \<Rightarrow> string" where
  "print_long v = (if v < 0 then ''-'' @ dec (nat (- v)) else dec (nat v))"

definition cal_md_starttime :: "'w os \<Rightarrow> u32 \<Rightarrow> ('w mdinit, unit) state" where
  "cal_md_starttime os msg =
     (if msg = V1_MSG_BOOT_UP then do {
        t \<leftarrow> syscall os Sys_time;
        modify (\<lambda>s. s\<lparr>time_HS1 := fst (r_time t)\<rparr>) }
      else if msg = V1_MSG_BOOT_READY then do {
        t \<leftarrow> syscall os Sys_time;
        c \<leftarrow> syscall os (Sys_ctime (fst (r_time t)));
        from_time \<leftarrow> gets time_HS1;
        md \<leftarrow> gets fsm_md_id;
        let val = print_long (fst (r_time t) - from_time) @ ''s '' @ prop_value c;
        property_set os (take 49 (''vendor.mtk.md'' @ print_int (md + 1) @ ''.starttime'')) (take 91 val) }
      else ret ())"

text \<open>The pattern is left uninitialised when it cannot be computed.\<close>

definition answer_pattern :: "'w os \<Rightarrow> u32 \<Rightarrow> ('w mdinit, unit) state" where
  "answer_pattern os msg =
     (if msg = V1_MSG_RANDOM_PATTERN then do {
        (r, val) \<leftarrow> compute_random_pattern os 0;
        (if r \<noteq> 0 then fault else ret ());
        _ \<leftarrow> md_ioctl os ''CCCI_IOC_RESET_AP'' (le32 val);
        ret () }
      else ret ())"

definition dispatch_v1 :: "'w os \<Rightarrow> nat \<Rightarrow> u32 \<Rightarrow> ('w mdinit, unit) state" where
  "dispatch_v1 os fuel msg = do {
     st \<leftarrow> gets md_ctl_fsm_curr_state;
     if st = V1_STA_BOOT_READY then boot_ready_state_handler os msg
     else if st = V1_STA_BOOT_UP then boot_up_state_handler os msg
     else if st = V1_STA_RESET then reset_state_handler os msg
     else if st = V1_STA_WAIT_SRV_RDY_TO_RST then wait_service_ready_to_reset_state_handler os fuel msg
     else if st = V1_STA_WAIT_SRV_RDY_TO_STOP then wait_service_ready_to_stop_state_handler os msg
     else if st = V1_STA_STOP then stop_state_handler os fuel msg
     else if st = V1_STA_FLIGHT_MODE then flight_state_handler os msg
     else ret () }"

definition main_v1_turn :: "'w os \<Rightarrow> nat \<Rightarrow> s32 \<Rightarrow> u32 \<Rightarrow> ('w mdinit, unit) state" where
  "main_v1_turn os fuel fd monitor_ch = do {
     r \<leftarrow> syscall os (Sys_read fd 16);
     if r_ret r \<le>s 0 \<or> r_ret r \<noteq> 16 then ret ()
     else if rd32 (r_data r) = 0xFFFFFFFF \<and> rd32 (drop 8 (r_data r)) = monitor_ch then do {
       let msg = rd32 (drop 4 (r_data r));
       handled \<leftarrow> common_msg_handler_v1 os msg;
       if handled then ret ()
       else do {
         cal_md_starttime os msg;
         answer_pattern os msg;
         dispatch_v1 os fuel msg } }
     else ret () }"

section \<open>Start-up\<close>

definition service_names_v1 :: "bool \<Rightarrow> s32 \<Rightarrow> (string \<times> string \<times> string \<times> string) option" where
  "service_names_v1 e md =
     (if md = 0 then Some (''vendor.gsm0710muxd'', ''vendor.ril-daemon-mtk'', if e then ''emdlogger1'' else ''mdlogger'',
        ''vendor.ccci_fsd'')
      else if md = 1 then Some (''vendor.gsm0710muxdmd2'', ''vendor.ril-daemon-mtkmd2'',
        if e then ''emdlogger2'' else ''dualmdlogger'', ''vendor.ccci2_fsd'')
      else if md = 2 then Some (''invalid'', ''vendor.viarild'', if e then ''emdlogger3'' else ''dualmdlogger'', ''vendor.ccci3_fsd'')
      else None)"

definition name_services_v1 :: "'w os \<Rightarrow> ('w mdinit, string option) state" where
  "name_services_v1 os = do {
     md \<leftarrow> gets fsm_md_id;
     if md \<noteq> 0 \<and> md \<noteq> 1 \<and> md \<noteq> 2 then ret None
     else do {
       node \<leftarrow> ccci_get_node_name os node_row_CTRL md;
       e \<leftarrow> is_eccci os;
       case service_names_v1 e md of None \<Rightarrow> ret None
       | Some (mux, ril, logger, fs) \<Rightarrow> do {
           modify (\<lambda>s. s\<lparr>muxd_name := mux, rild_name := ril, mdlogger_name := logger, fsd_name := fs,
             muxd_service_status := ''init.svc.'' @ mux, rild_service_status := ''init.svc.'' @ ril,
             mdlogger_service_status := ''init.svc.'' @ logger, fsd_service_status := ''init.svc.'' @ fs\<rparr>);
           ret (Some (node_path node)) } } }"

definition trigger_modem_to_run_v1 :: "'w os \<Rightarrow> ('w mdinit, s32) state" where
  "trigger_modem_to_run_v1 os = do {
     fd \<leftarrow> syscall os (Sys_open ''/sys/kernel/ccci/boot'' O_RDWR 0);
     if r_ret fd <s 0 then ret (- 1)
     else do {
       md \<leftarrow> gets fsm_md_id;
       (if md = 0 \<or> md = 1 \<or> md = 2 then do {
          _ \<leftarrow> syscall os (Sys_write (r_ret fd) (bytes (if md = 0 then ''0'' else if md = 1 then ''1'' else ''2''))); ret () }
        else ret ());
       _ \<leftarrow> syscall os (Sys_close (r_ret fd));
       ret 0 } }"

text \<open>\<open>main_v1\<close> up to its loop: the descriptor and the channel of the loop, or the code it returns.\<close>

definition main_v1_start :: "'w os \<Rightarrow> nat \<Rightarrow> s32 \<Rightarrow> s32 \<Rightarrow> ('w mdinit, s32 + s32 \<times> u32) state" where
  "main_v1_start os fuel input_md_id sub_ver = do {
     modify (\<lambda>s. s\<lparr>fsm_md_id := (if sub_ver = 0 then 0 else input_md_id - 1)\<rparr>);
     set_md_status_v1 os V1_STA_INIT;
     node \<leftarrow> name_services_v1 os;
     case node of None \<Rightarrow> ret (Inl (- 1))
     | Some dev_port \<Rightarrow> do {
         set_md_status_v1 os V1_STA_RESET;
         opened \<leftarrow> open_monitor 600 os dev_port;
         case opened of None \<Rightarrow> ret (Inl (- 1))
         | Some fd \<Rightarrow> do {
             modify (\<lambda>s. s\<lparr>dev_monitor_fd := fd\<rparr>);
             curr \<leftarrow> gets curr_md_id;
             _ \<leftarrow> md_image_exist_check os fd curr;
             update_service_name;
             t \<leftarrow> time_srv_init os;
             (if t = 0 then do { _ \<leftarrow> syscall os Sys_pthread_create; ret () } else ret ());
             set_md_boot_env_data_v1 os fuel;
             md \<leftarrow> gets fsm_md_id;
             rat \<leftarrow> parse_sys_env_rat_setting os md;
             _ \<leftarrow> syscall os (Sys_ioctl fd ''CCCI_IOC_RELOAD_MD_TYPE'' (le32 rat));
             r \<leftarrow> trigger_modem_to_run_v1 os;
             if r <s 0 then ret (Inl r)
             else do {
               get_md_info os fd;
               modify (\<lambda>s. s\<lparr>system_ch_handle := fd\<rparr>);
               ret (Inr (fd, if sub_ver = 0 then 2 else CCCI_MONITOR_CH)) } } } }"

end
