(* ===== verification/Mdinit_V1_Run.thy ===== *)
theory Mdinit_V1_Run
  imports Mdinit_V1 Mdinit_Run
begin

text \<open>
  The state machine for the first version of the driver against an abstract one: what a message does to the
  state, and that the state is always the one published.
\<close>

section \<open>The invariant\<close>

definition serves_v1 :: "s32 \<Rightarrow> 'w mdinit \<Rightarrow> bool" where
  "serves_v1 md s \<longleftrightarrow> md \<in> {0, 1, 2} \<and> fsm_md_id s = md \<and>
     (\<exists>e. service_names_v1 e md = Some (muxd_name s, rild_name s, mdlogger_name s, fsd_name s)) \<and>
     muxd_service_status s = ''init.svc.'' @ muxd_name s \<and> rild_service_status s = ''init.svc.'' @ rild_name s \<and>
     mdlogger_service_status s = ''init.svc.'' @ mdlogger_name s \<and> fsd_service_status s = ''init.svc.'' @ fsd_name s"

definition v1_inv :: "s32 \<Rightarrow> s32 \<Rightarrow> bool \<Rightarrow> 'w mdinit \<Rightarrow> bool" where
  "v1_inv md st ig s \<longleftrightarrow> serves_v1 md s \<and> md_ctl_fsm_curr_state s = st \<and> ignore_time_out_msg s = ig \<and>
     last_set (md_status_key md) (trace s) = Some (v1_status_name st)"

text \<open>A request that does not write the status of modem \<open>md\<close>.\<close>

definition foreign :: "s32 \<Rightarrow> sysreq \<Rightarrow> bool" where
  "foreign md q = (case q of Sys_property_set k v \<Rightarrow> k \<noteq> md_status_key md | _ \<Rightarrow> True)"

lemma foreign_simps [simp]:
  "foreign md (Sys_ioctl fd c d)" "foreign md (Sys_sleep n)" "foreign md (Sys_usleep n)" "foreign md (Sys_read fd i)"
  "foreign md (Sys_release_wake_lock l)" "foreign md Sys_time" "foreign md (Sys_ctime z)" "foreign md Sys_pthread_create"
  "foreign md (Sys_property_set k v) \<longleftrightarrow> k \<noteq> md_status_key md"
  by (simp_all add: foreign_def)

lemma plain_foreign: "plain q \<Longrightarrow> foreign md q"
  by (auto simp: plain_def foreign_def other_key split: sysreq.splits)

lemma last_set_foreign: "list_all (foreign md) qs \<Longrightarrow> last_set (md_status_key md) qs = None"
  by (induction qs) (auto simp: foreign_def split: sysreq.splits)

text \<open>Operations that go on beside the state machine.\<close>

definition aside :: "s32 \<Rightarrow> 'w os \<Rightarrow> 'w mdinit \<Rightarrow> 'w mdinit \<Rightarrow> bool" where
  "aside md os s t \<longleftrightarrow> acted os (foreign md) s t \<and> (serves_v1 md s \<longrightarrow> serves_v1 md t) \<and>
     md_ctl_fsm_curr_state t = md_ctl_fsm_curr_state s \<and> ignore_time_out_msg t = ignore_time_out_msg s"

interpretation aside: frame_rel "aside md os"
  by unfold_locales (auto simp: aside_def intro: acted_here acted_trans)

lemma same_serves_v1: "same_daemon s t \<Longrightarrow> serves_v1 md s \<Longrightarrow> serves_v1 md t"
  by (simp add: same_daemon_def serves_v1_def)

lemma acted_foreign: "acted os plain s t \<Longrightarrow> acted os (foreign md) s t"
  unfolding acted_def using plain_foreign by (auto simp: list_all_iff)

lemma quiet_aside: "frame (quiet os) m \<Longrightarrow> frame (aside md os) m"
  by (erule frame_weaken) (auto simp: quiet_def aside_def intro: acted_foreign same_serves_v1)

lemmas calm_aside = quiet_aside [OF calm_quiet]

lemma aside_request [frame_intros]: "foreign md q \<Longrightarrow> frame (aside md os) (syscall os q)"
  by (rule frameI) (auto simp: aside_def serves_v1_def intro: acted_request split: prod.splits)

lemma aside_flags [simp]:
  "aside md os s (s\<lparr>mdlogger_cnt := n\<rparr>)" "aside md os s (s\<lparr>need_silent_reboot := n\<rparr>)" "aside md os s (s\<lparr>time_HS1 := z\<rparr>)"
  "aside md os s (s\<lparr>sbpc := n\<rparr>)" "aside md os s (s\<lparr>dev_monitor_fd := n\<rparr>)" "aside md os s (s\<lparr>system_ch_handle := n\<rparr>)"
  by (simp_all add: aside_def serves_v1_def acted_here)

lemma aside_property [frame_intros]: "k \<noteq> md_status_key md \<Longrightarrow> frame (aside md os) (property_set os k v)"
  unfolding property_set_def by (intro frame_intros) simp

lemma aside_update [frame_intros]: "frame (aside md os) update_service_name"
  unfolding update_service_name_def
  by (rule frameI) (auto simp: aside_def acted_here serves_v1_def service_names_v1_def)

lemma aside_ioctl [frame_intros]: "frame (aside md os) (md_ioctl os c d)"
  unfolding md_ioctl_def by (intro frame_intros) simp

lemmas aside_used [frame_intros] = calm_property(1,2) [THEN calm_aside] calm_wait [THEN calm_aside] calm_boot [THEN calm_aside]
  calm_boot_mode [THEN calm_aside] calm_services [THEN calm_aside] calm_wait_logger [THEN calm_aside] quiet_logger [THEN quiet_aside]
  calm_rat [THEN calm_aside] calm_stall [THEN calm_aside] calm_fault [THEN calm_aside] calm_random_pattern [THEN calm_aside]
  calm_boot_data [THEN calm_aside] calm_sbp [THEN calm_aside] calm_nvram_ready [THEN calm_aside] calm_node_name [THEN calm_aside]
  calm_init_users [THEN calm_aside]

lemma other_keys [simp]:
  "''ctl.stop'' \<noteq> md_status_key md" "''ctl.start'' \<noteq> md_status_key md" "''vendor.net.cdma.mdmstat'' \<noteq> md_status_key md"
  "''vendor.ril.mux.report.case'' \<noteq> md_status_key md" "''vendor.ril.active.md'' \<noteq> md_status_key md"
  by (rule other_key; simp)+

section \<open>Helpers\<close>

lemma aside_stop [frame_intros]:
  "frame (aside md os) (stop_muxd_v1 os)" "frame (aside md os) (stop_ril_proxy_v1 os md')" "frame (aside md os) (stop_fsd_v1 os)"
  "frame (aside md os) (start_fsd_v1 os)" "frame (aside md os) (stop_fsd_logger os)"
  unfolding stop_muxd_v1_def stop_ril_proxy_v1_def stop_fsd_v1_def start_fsd_v1_def stop_fsd_logger_def
  by (intro frame_intros; simp)+

lemma aside_stop_all [frame_intros]: "frame (aside md os) (stop_all_ccci_up_layer_services_v1 os)"
  unfolding stop_all_ccci_up_layer_services_v1_def by (intro frame_intros; simp)

lemma aside_services [frame_intros]:
  "frame (aside md os) (start_all_ccci_up_layer_services_v1 os)" "frame (aside md os) (stop_unless_meta os)"
  unfolding start_all_ccci_up_layer_services_v1_def stop_unless_meta_def by (intro frame_intros; simp)+

lemma aside_nvram [frame_intros]: "frame (aside md os) (get_nvram_ef_data_v1 os fid n)"
  unfolding get_nvram_ef_data_v1_def Let_def by (intro frame_intros; simp add: foreign_def)

lemma aside_nvram_sbp [frame_intros]: "frame (aside md os) (get_nvram_sbp_code_v1 os fuel md')"
  unfolding get_nvram_sbp_code_v1_def by (intro frame_intros; simp add: foreign_def)

lemma aside_boot_data [frame_intros]:
  "frame (aside md os) (get_md_sbp_code_v1 os fuel md')" "frame (aside md os) (get_mdlog_boot_mode_v1 os md')"
  unfolding get_md_sbp_code_v1_def get_mdlog_boot_mode_v1_def by (intro frame_intros; simp add: foreign_def)+

lemma aside_boot_env [frame_intros]: "frame (aside md os) (set_md_boot_env_data_v1 os fuel)"
  unfolding set_md_boot_env_data_v1_def by (intro frame_intros) simp

lemma aside_start_loop [frame_intros]: "frame (aside md os) (start_md_loop fuel os)"
  by (induction fuel) (auto intro!: frame_intros)

lemma aside_small [frame_intros]:
  "frame (aside md os) (ioctl_twice os c)" "frame (aside md os) (store_md_type_v1 os)" "frame (aside md os) (boot_up_ready os)"
  "frame (aside md os) (is_eccci os)" "frame (aside md os) (common_msg_handler_v1 os msg)" "frame (aside md os) (answer_pattern os msg)"
  unfolding ioctl_twice_def store_md_type_v1_def boot_up_ready_def is_eccci_def common_msg_handler_v1_def answer_pattern_def
  by (intro frame_intros; simp)+

lemma aside_wait_other: "k \<noteq> md_status_key md \<Longrightarrow> frame (aside md os) (wait_other_reset_v1 fuel os md' k)"
  by (induction fuel) (auto intro!: frame_intros)

lemma aside_wait_this [frame_intros]: "frame (aside md os) (wait_this_start fuel os k)"
  by (induction fuel) (auto intro!: frame_intros)

section \<open>The abstract machine\<close>

text \<open>
  The next state and whether a time-out is to be ignored, from those two, the message, and whether the modem is a
  debug version.
\<close>

definition v1_next :: "bool \<Rightarrow> u32 \<Rightarrow> s32 \<times> bool \<Rightarrow> s32 \<times> bool" where
  "v1_next debug msg x = (case x of (st, ig) \<Rightarrow>
     if st = V1_STA_BOOT_READY then
       (if msg = V1_MSG_RESET then V1_STA_WAIT_SRV_RDY_TO_RST
        else if msg = V1_MSG_STOP_MD_REQUEST then V1_STA_WAIT_SRV_RDY_TO_STOP
        else if msg = V1_MSG_ENTER_FLIGHT_MODE then V1_STA_FLIGHT_MODE else st, ig)
     else if st = V1_STA_BOOT_UP then
       if msg = V1_MSG_BOOT_READY then (V1_STA_BOOT_READY, ig)
       else if msg = V1_MSG_EXCEPTION then (st, ig \<or> debug)
       else if msg = V1_MSG_RESET then (V1_STA_WAIT_SRV_RDY_TO_RST, ig)
       else if msg = V1_MSG_BOOT_TIMEOUT then (if ig then st else V1_STA_WAIT_SRV_RDY_TO_RST, False)
       else if msg = V1_MSG_STOP_MD_REQUEST then (V1_STA_WAIT_SRV_RDY_TO_STOP, ig) else (st, ig)
     else if st = V1_STA_RESET then
       if msg = V1_MSG_BOOT_UP then (V1_STA_BOOT_UP, ig)
       else if msg = V1_MSG_EXCEPTION then (st, ig \<or> debug)
       else if msg = V1_MSG_BOOT_TIMEOUT then (st, False)
       else if msg = V1_MSG_STOP_MD_REQUEST then (V1_STA_WAIT_SRV_RDY_TO_STOP, ig) else (st, ig)
     else if st = V1_STA_WAIT_SRV_RDY_TO_RST then
       (if msg = V1_MSG_READY_TO_RESET then V1_STA_RESET else if msg = V1_MSG_STOP_MD_REQUEST then V1_STA_STOP else st, ig)
     else if st = V1_STA_WAIT_SRV_RDY_TO_STOP then (if msg = V1_MSG_READY_TO_RESET then V1_STA_STOP else st, ig)
     else if st = V1_STA_STOP then
       (if msg = V1_MSG_RESET \<or> msg = V1_MSG_START_MD_REQUEST then V1_STA_RESET else st, ig)
     else if st = V1_STA_FLIGHT_MODE then (if msg = V1_MSG_LEAVE_FLIGHT_MODE then V1_STA_WAIT_SRV_RDY_TO_RST else st, ig)
     else (st, ig))"

section \<open>The handlers\<close>

lemma aside_inv:
  assumes "aside md os s t" "v1_inv md st ig s"
  shows "v1_inv md st ig t"
proof -
  obtain qs where "trace t = trace s @ qs" "list_all (foreign md) qs" using assms(1) by (auto simp: aside_def acted_def)
  then show ?thesis using assms by (auto simp: aside_def v1_inv_def last_set_append last_set_foreign)
qed

lemma wp_aside: "frame (aside md os) m \<Longrightarrow> v1_inv md st ig s \<Longrightarrow> (\<And>a t. v1_inv md st ig t \<Longrightarrow> Q a t) \<Longrightarrow> wp m Q s"
  by (erule wp_frame) (blast intro: aside_inv)

lemma status_serves: "serves_v1 md s \<Longrightarrow> wp (set_md_status_v1 os st) (\<lambda>_. v1_inv md st (ignore_time_out_msg s)) s"
  by (auto simp: set_md_status_v1_def wp_simps v1_inv_def serves_v1_def last_set_append)

lemma status_v1: "v1_inv md st ig s \<Longrightarrow> wp (set_md_status_v1 os st') (\<lambda>_. v1_inv md st' ig) s"
  using status_serves by (auto simp: v1_inv_def)

lemma status_then:
  assumes "v1_inv md st ig s" "frame (aside md os) m"
  shows "wp (do { set_md_status_v1 os st'; m }) (\<lambda>_. v1_inv md st' ig) s"
  by (rule wp_bindI, rule wp_mono [OF status_v1 [OF assms(1)]]) (rule wp_aside [OF assms(2)])

lemma wp_aside_bind:
  "frame (aside md os) m \<Longrightarrow> v1_inv md st ig s \<Longrightarrow> (\<And>a t. v1_inv md st ig t \<Longrightarrow> wp (f a) Q t) \<Longrightarrow>
   wp (State_Monad.bind m f) Q s"
  by (rule wp_bindI, erule (1) wp_aside)

lemma wp_stay: "frame (aside md os) m \<Longrightarrow> v1_inv md st ig s \<Longrightarrow> wp m (\<lambda>_. v1_inv md st ig) s"
  by (erule (1) wp_aside)

lemmas delay_aside = calm_boot_data(1) [THEN calm_aside]

lemmas status_stop = status_then [OF _ aside_services(2)]

lemma boot_ready_lands:
  assumes "v1_inv md V1_STA_BOOT_READY ig s"
  shows "wp (boot_ready_state_handler os msg) (\<lambda>_. v1_inv md (fst (v1_next d msg (V1_STA_BOOT_READY, ig))) ig) s"
proof -
  have exc: "frame (aside md os) (do {
        modify (\<lambda>s. s\<lparr>need_silent_reboot := 1\<rparr>);
        md \<leftarrow> gets fsm_md_id;
        if md = MD_SYS3 then property_set os ''vendor.net.cdma.mdmstat'' ''exception'' else ret () })"
    by (intro frame_intros; simp)
  have reset: "wp (do {
        delay_to_reset_md os 1;
        set_md_status_v1 os V1_STA_WAIT_SRV_RDY_TO_RST;
        _ \<leftarrow> md_ioctl os ''CCCI_IOC_DO_STOP_MD'' [];
        meta \<leftarrow> is_meta_mode os;
        if meta then stop_fsd_v1 os else stop_all_ccci_up_layer_services_v1 os }) (\<lambda>_. v1_inv md V1_STA_WAIT_SRV_RDY_TO_RST ig) s"
    by (rule wp_aside_bind [OF delay_aside assms]) (erule status_then, intro frame_intros)
  have flight: "wp (do {
        set_md_status_v1 os V1_STA_FLIGHT_MODE;
        meta \<leftarrow> is_meta_mode os;
        if meta then ret ()
        else do {
          stop_fsd_v1 os;
          _ \<leftarrow> syscall os (Sys_release_wake_lock ''ccci_fsd'');
          ret () } }) (\<lambda>_. v1_inv md V1_STA_FLIGHT_MODE ig) s"
    by (rule status_then [OF assms]) (intro frame_intros; simp)
  note stay = wp_stay [OF exc assms] wp_stay [OF aside_small(2) assms]
  show ?thesis
    unfolding boot_ready_state_handler_def v1_next_def
    using reset status_stop [OF assms] flight stay assms by (simp add: wp_return)
qed

lemma early_lands:
  assumes "v1_inv md st ig s"
  shows "wp early_exception (\<lambda>_. v1_inv md st (ig \<or> gotten_md_info s = 1)) s"
  using assms by (auto simp: early_exception_def wp_modify v1_inv_def serves_v1_def)

lemma clear_lands: "v1_inv md st ig s \<Longrightarrow> wp (modify (\<lambda>s. s\<lparr>ignore_time_out_msg := False\<rparr>)) (\<lambda>_. v1_inv md st False) s"
  by (simp add: wp_modify v1_inv_def serves_v1_def)

lemma v1_inv_flag: "v1_inv md st ig s \<Longrightarrow> ignore_time_out_msg s = ig"
  by (simp add: v1_inv_def)

abbreviation lands_v1 :: "s32 \<Rightarrow> s32 \<times> bool \<Rightarrow> 'w mdinit \<Rightarrow> bool" where
  "lands_v1 md x \<equiv> v1_inv md (fst x) (snd x)"

lemma boot_up_lands:
  assumes "v1_inv md V1_STA_BOOT_UP ig s"
  shows "wp (boot_up_state_handler os msg) (\<lambda>_. lands_v1 md (v1_next (gotten_md_info s = 1) msg (V1_STA_BOOT_UP, ig))) s"
proof -
  have exc: "wp (do { early_exception; start_mdlogger os V1_MAX_WAIT }) (\<lambda>_. v1_inv md V1_STA_BOOT_UP (ig \<or> gotten_md_info s = 1)) s"
    by (rule wp_bindI, rule wp_mono [OF early_lands [OF assms]], erule wp_stay [where os = os, rotated]) (intro frame_intros)
  have reset: "wp (do {
        set_md_status_v1 os V1_STA_WAIT_SRV_RDY_TO_RST;
        meta \<leftarrow> is_meta_mode os;
        if meta then ret ()
        else do {
          delay_to_reset_md os 1;
          _ \<leftarrow> md_ioctl os ''CCCI_IOC_DO_STOP_MD'' [];
          stop_fsd_logger os } }) (\<lambda>_. v1_inv md V1_STA_WAIT_SRV_RDY_TO_RST ig) s"
    by (rule status_then [OF assms]) (intro frame_intros)
  note cases = exc reset status_stop [OF assms] status_then [OF assms aside_small(3)] clear_lands [OF assms]
  show ?thesis
    unfolding boot_up_state_handler_def v1_next_def
    using cases assms v1_inv_flag [OF assms] by (cases ig) (simp_all add: wp_return wp_bind [where m = "gets ignore_time_out_msg"] wp_gets)
qed

lemma reset_lands:
  assumes "v1_inv md V1_STA_RESET ig s"
  shows "wp (reset_state_handler os msg) (\<lambda>_. lands_v1 md (v1_next (gotten_md_info s = 1) msg (V1_STA_RESET, ig))) s"
proof -
  have up: "wp (do {
        set_md_status_v1 os V1_STA_BOOT_UP;
        ioctl_twice os ''CCCI_IOC_SEND_RUN_TIME_DATA'';
        md \<leftarrow> gets fsm_md_id;
        _ \<leftarrow> ccb_call (ccci_ccb_init_users os md);
        ret () }) (\<lambda>_. v1_inv md V1_STA_BOOT_UP ig) s"
    by (rule status_then [OF assms]) (intro frame_intros)
  have exc: "wp (do { early_exception; e \<leftarrow> is_eccci os; if e then start_mdlogger os V1_MAX_WAIT else ret () })
      (\<lambda>_. v1_inv md V1_STA_RESET (ig \<or> gotten_md_info s = 1)) s"
    by (rule wp_bindI, rule wp_mono [OF early_lands [OF assms]], erule wp_stay [where os = os, rotated]) (intro frame_intros)
  show ?thesis
    unfolding reset_state_handler_def v1_next_def
    using up exc status_stop [OF assms] clear_lands [OF assms] assms by (simp add: wp_return)
qed

lemma restart_stays:
  assumes "v1_inv md st ig s"
  shows "wp (check_to_restart_md os fuel) (\<lambda>_. v1_inv md st ig) s"
proof -
  have md: "fsm_md_id s = md" "md = 0 \<or> md = 1 \<or> md = 2" using assms by (simp_all add: v1_inv_def serves_v1_def)
  have keys: "''vendor.mtk.md3.status'' \<noteq> md_status_key 0" "''vendor.mtk.md1.status'' \<noteq> md_status_key 2" by code_simp+
  have wait: "wp (do {
         a \<leftarrow> wait_other_reset_v1 fuel os md other;
         if \<not> a then ret ()
         else do {
           b \<leftarrow> wait_this_start fuel os this;
           if \<not> b then ret () else stop_ril_proxy_v1 os md } }) (\<lambda>_. v1_inv md st ig) s"
    if "other \<noteq> md_status_key md" for this other
    by (rule wp_stay [where os = os, OF _ assms]) (intro frame_intros aside_wait_other that)
  have "wp fault (\<lambda>_. v1_inv md st ig) s" by (rule wp_stay [where os = os, OF _ assms]) (intro frame_intros)
  with md(2) keys wait show ?thesis
    unfolding check_to_restart_md_def
    by (elim disjE) (simp_all add: md wp_bind [where m = "gets fsm_md_id"] wp_gets md_status_keys_def cong: if_cong)
qed

lemma wait_reset_lands:
  assumes "v1_inv md V1_STA_WAIT_SRV_RDY_TO_RST ig s"
  shows "wp (wait_service_ready_to_reset_state_handler os fuel msg)
    (\<lambda>_. lands_v1 md (v1_next d msg (V1_STA_WAIT_SRV_RDY_TO_RST, ig))) s"
proof -
  have publish: "frame (aside md os) (if r_ret r = 0 then property_set os ''vendor.ril.active.md'' (take 15 (print_int (rd32 (r_data r))))
     else ret ())" for r
    by (intro frame_intros) simp
  have run: "frame (aside md os) (do { start_fsd_v1 os; set_md_boot_env_data_v1 os fuel; start_md_loop fuel os })"
    by (intro frame_intros)
  have "wp (do {
        set_md_status_v1 os V1_STA_RESET;
        r \<leftarrow> md_ioctl os ''CCCI_IOC_GET_MD_TYPE'' [];
        (if r_ret r = 0 then property_set os ''vendor.ril.active.md'' (take 15 (print_int (rd32 (r_data r)))) else ret ());
        check_to_restart_md os fuel;
        start_fsd_v1 os;
        set_md_boot_env_data_v1 os fuel;
        start_md_loop fuel os }) (\<lambda>_. v1_inv md V1_STA_RESET ig) s"
    by (rule wp_bindI, rule wp_mono [OF status_v1 [OF assms]], rule wp_aside_bind [OF aside_ioctl], assumption,
        rule wp_aside_bind [OF publish], assumption, rule wp_bindI, rule wp_mono [OF restart_stays], assumption,
        erule wp_stay [OF run])
  then show ?thesis
    unfolding wait_service_ready_to_reset_state_handler_def v1_next_def
    using status_v1 [OF assms] assms by (simp add: wp_return)
qed

lemma wait_stop_lands:
  assumes "v1_inv md V1_STA_WAIT_SRV_RDY_TO_STOP ig s"
  shows "wp (wait_service_ready_to_stop_state_handler os msg) (\<lambda>_. lands_v1 md (v1_next d msg (V1_STA_WAIT_SRV_RDY_TO_STOP, ig))) s"
  unfolding wait_service_ready_to_stop_state_handler_def v1_next_def using status_v1 [OF assms] assms by (simp add: wp_return)

lemma stop_lands:
  assumes "v1_inv md V1_STA_STOP ig s"
  shows "wp (stop_state_handler os fuel msg) (\<lambda>_. lands_v1 md (v1_next d msg (V1_STA_STOP, ig))) s"
proof -
  have run: "frame (aside md os) (do {
        meta \<leftarrow> is_meta_mode os;
        (if meta then ret () else do { start_fsd_v1 os; _ \<leftarrow> syscall os (Sys_sleep 1); ret () });
        set_md_boot_env_data_v1 os fuel;
        ioctl_twice os ''CCCI_IOC_DO_START_MD'' })"
    by (intro frame_intros) simp
  have "wp (do {
        delay_to_reset_md os 1;
        set_md_status_v1 os V1_STA_RESET;
        check_to_restart_md os fuel;
        meta \<leftarrow> is_meta_mode os;
        (if meta then ret () else do { start_fsd_v1 os; _ \<leftarrow> syscall os (Sys_sleep 1); ret () });
        set_md_boot_env_data_v1 os fuel;
        ioctl_twice os ''CCCI_IOC_DO_START_MD'' }) (\<lambda>_. v1_inv md V1_STA_RESET ig) s"
    by (rule wp_aside_bind [OF delay_aside assms], rule wp_bindI, rule wp_mono [OF status_v1], assumption,
        rule wp_bindI, rule wp_mono [OF restart_stays], assumption, erule wp_stay [OF run])
  then show ?thesis
    unfolding stop_state_handler_def v1_next_def using assms by (simp add: wp_return)
qed

lemma flight_lands:
  assumes "v1_inv md V1_STA_FLIGHT_MODE ig s"
  shows "wp (flight_state_handler os msg) (\<lambda>_. lands_v1 md (v1_next d msg (V1_STA_FLIGHT_MODE, ig))) s"
proof -
  have "wp (do {
        set_md_status_v1 os V1_STA_WAIT_SRV_RDY_TO_RST;
        _ \<leftarrow> wait_for_property os ''vendor.ril.getccci.response'' ''1'' 500;
        stop_unless_meta os }) (\<lambda>_. v1_inv md V1_STA_WAIT_SRV_RDY_TO_RST ig) s"
    by (rule status_then [OF assms]) (intro frame_intros)
  then show ?thesis unfolding flight_state_handler_def v1_next_def using assms by (simp add: wp_return)
qed

lemma dispatch_lands:
  assumes "v1_inv md st ig s"
  shows "wp (dispatch_v1 os fuel msg) (\<lambda>_. lands_v1 md (v1_next (gotten_md_info s = 1) msg (st, ig))) s"
proof -
  have st: "md_ctl_fsm_curr_state s = st" using assms by (simp add: v1_inv_def)
  have other: "v1_next d msg (st, ig) = (st, ig)" if "st \<notin> {0, 1, 2, 3, 4, 5, 6}" for d
    using that by (simp add: v1_next_def)
  have wp: "wp (dispatch_v1 os fuel msg) Q s = wp (if st = V1_STA_BOOT_READY then boot_ready_state_handler os msg
     else if st = V1_STA_BOOT_UP then boot_up_state_handler os msg
     else if st = V1_STA_RESET then reset_state_handler os msg
     else if st = V1_STA_WAIT_SRV_RDY_TO_RST then wait_service_ready_to_reset_state_handler os fuel msg
     else if st = V1_STA_WAIT_SRV_RDY_TO_STOP then wait_service_ready_to_stop_state_handler os msg
     else if st = V1_STA_STOP then stop_state_handler os fuel msg
     else if st = V1_STA_FLIGHT_MODE then flight_state_handler os msg
     else ret ()) Q s" for Q
    by (simp add: dispatch_v1_def wp_bind [where m = "gets md_ctl_fsm_curr_state"] wp_gets st)
  have snd0: "snd (v1_next d msg (V1_STA_BOOT_READY, ig)) = ig" for d by (simp add: v1_next_def)
  consider "st = 0" | "st = 1" | "st = 2" | "st = 3" | "st = 4" | "st = 5" | "st = 6" | "st \<notin> {0, 1, 2, 3, 4, 5, 6}" by blast
  then show ?thesis
  proof cases
    case 1 then show ?thesis using boot_ready_lands assms unfolding wp by (simp add: snd0)
  next
    case 2 then show ?thesis using boot_up_lands assms unfolding wp by simp
  next
    case 3 then show ?thesis using reset_lands assms unfolding wp by simp
  next
    case 4 then show ?thesis using wait_reset_lands assms unfolding wp by simp
  next
    case 5 then show ?thesis using wait_stop_lands assms unfolding wp by simp
  next
    case 6 then show ?thesis using stop_lands assms unfolding wp by simp
  next
    case 7 then show ?thesis using flight_lands assms unfolding wp by simp
  next
    case 8 then show ?thesis using other [OF 8] assms unfolding wp by (simp add: wp_return)
  qed
qed

section \<open>A turn\<close>

text \<open>What the loop takes for a message to the state machine.\<close>

definition v1_message :: "u32 \<Rightarrow> sysres \<Rightarrow> u32 option" where
  "v1_message ch r =
     (let msg = rd32 (drop 4 (r_data r))
      in if r_ret r = 16 \<and> rd32 (r_data r) = 0xFFFFFFFF \<and> rd32 (drop 8 (r_data r)) = ch \<and>
          msg \<notin> {V1_MSG_SEND_BATTERY_INFO, V1_MSG_NOTIFY, V1_MSG_CFG_UPDATE} then Some msg else None)"

definition same_info :: "'w mdinit \<Rightarrow> 'w mdinit \<Rightarrow> bool" where
  "same_info s t \<longleftrightarrow> gotten_md_info t = gotten_md_info s"

interpretation same_info: frame_rel same_info
  by unfold_locales (simp_all add: same_info_def)

lemma same_info_request [frame_intros]: "frame same_info (syscall os q)"
  by (rule frameI) (auto simp: same_info_def split: prod.splits)

lemma same_info_small [frame_intros]: "frame same_info fault" "frame same_info (property_set os k v)"
  "frame same_info (md_ioctl os c d)" "frame same_info (compute_random_pattern os n)"
  unfolding fault_def property_set_def md_ioctl_def compute_random_pattern_def
  by (intro frame_intros; simp add: same_info_def)+

lemma same_info_turn [frame_intros]: "frame same_info (common_msg_handler_v1 os msg)" "frame same_info (answer_pattern os msg)"
  "frame same_info (cal_md_starttime os msg)"
  unfolding common_msg_handler_v1_def answer_pattern_def cal_md_starttime_def Let_def
  by (intro frame_intros; simp add: same_info_def)+

lemma starttime_key:
  "md \<in> {0, 1, 2} \<Longrightarrow> take 49 (''vendor.mtk.md'' @ print_int (md + 1) @ ''.starttime'') \<noteq> md_status_key md"
proof -
  have "take 49 (''vendor.mtk.md'' @ print_int (0 + 1) @ ''.starttime'') \<noteq> md_status_key 0"
    "take 49 (''vendor.mtk.md'' @ print_int (1 + 1) @ ''.starttime'') \<noteq> md_status_key 1"
    "take 49 (''vendor.mtk.md'' @ print_int (2 + 1) @ ''.starttime'') \<noteq> md_status_key 2"
    by code_simp+
  then show "md \<in> {0, 1, 2} \<Longrightarrow> ?thesis" by blast
qed

lemma starttime_stays:
  assumes "v1_inv md st ig s"
  shows "wp (cal_md_starttime os msg) (\<lambda>_. v1_inv md st ig) s"
proof -
  have md: "fsm_md_id t = md" "md \<in> {0, 1, 2}" if "v1_inv md st ig t" for t
    using that by (simp_all add: v1_inv_def serves_v1_def)
  have publish: "wp (do {
        from_time \<leftarrow> gets time_HS1;
        md \<leftarrow> gets fsm_md_id;
        property_set os (take 49 (''vendor.mtk.md'' @ print_int (md + 1) @ ''.starttime''))
          (take 91 (print_long (fst (r_time t) - from_time) @ ''s '' @ prop_value c)) }) (\<lambda>_. v1_inv md st ig) u"
    if "v1_inv md st ig u" for t c u
    unfolding wp_bind wp_gets md(1) [OF that]
    by (rule wp_stay [OF aside_property [OF starttime_key [OF md(2) [OF that]]] that])
  have up: "wp (do { t \<leftarrow> syscall os Sys_time; modify (\<lambda>s. s\<lparr>time_HS1 := fst (r_time t)\<rparr>) }) (\<lambda>_. v1_inv md st ig) s"
    by (rule wp_stay [where os = os, OF _ assms]) (intro frame_intros; simp)
  have ready: "wp (do {
        t \<leftarrow> syscall os Sys_time;
        c \<leftarrow> syscall os (Sys_ctime (fst (r_time t)));
        from_time \<leftarrow> gets time_HS1;
        md \<leftarrow> gets fsm_md_id;
        property_set os (take 49 (''vendor.mtk.md'' @ print_int (md + 1) @ ''.starttime''))
          (take 91 (print_long (fst (r_time t) - from_time) @ ''s '' @ prop_value c)) }) (\<lambda>_. v1_inv md st ig) s"
    by (rule wp_aside_bind [OF aside_request [where os = os and md = md] assms], simp,
        rule wp_aside_bind [OF aside_request [where os = os and md = md]], simp, assumption, erule publish)
  show ?thesis
    unfolding cal_md_starttime_def Let_def using up ready assms by (simp add: wp_return)
qed

lemma wp_informed:
  assumes "wp m (\<lambda>_. v1_inv md st ig) s" "frame same_info m" "gotten_md_info s = g"
    "\<And>a t. v1_inv md st ig t \<Longrightarrow> gotten_md_info t = g \<Longrightarrow> Q a t"
  shows "wp m Q s"
proof -
  have "wp m (\<lambda>_ t. gotten_md_info t = g) s"
    by (rule wp_frame [OF assms(2)]) (use assms(3) in \<open>simp add: same_info_def\<close>)
  from wp_mono [OF wp_conj [OF assms(1) this]] assms(4) show ?thesis by blast
qed

lemma message_lands:
  assumes "v1_inv md st ig s" "gotten_md_info s = g"
  shows "wp (do { cal_md_starttime os msg; answer_pattern os msg; dispatch_v1 os fuel msg })
    (\<lambda>_. lands_v1 md (v1_next (g = 1) msg (st, ig))) s"
  by (rule wp_bindI, rule wp_informed [OF starttime_stays [OF assms(1)] same_info_turn(3) assms(2)], rule wp_bindI,
      rule wp_informed [OF wp_stay [OF aside_small(6)] same_info_turn(2)], assumption+, use dispatch_lands in metis)

lemma common_lands_v1:
  assumes "v1_inv md st ig s"
  shows "wp (common_msg_handler_v1 os msg) (\<lambda>b t. b = (msg \<in> {V1_MSG_SEND_BATTERY_INFO, V1_MSG_NOTIFY, V1_MSG_CFG_UPDATE}) \<and>
    v1_inv md st ig t \<and> gotten_md_info t = gotten_md_info s) s"
  by (rule wp_conj [OF _ wp_informed [OF wp_stay [OF aside_small(5) assms] same_info_turn(1) refl]])
    (auto simp: common_msg_handler_v1_def md_ioctl_def wp_simps split: prod.splits)

lemma turn_lands_v1:
  assumes "v1_inv md st ig s"
  shows "wp (main_v1_turn os fuel fd ch) (\<lambda>_. lands_v1 md (case v1_message ch (fst (os (Sys_read fd 16) (world s))) of
     None \<Rightarrow> (st, ig) | Some msg \<Rightarrow> v1_next (gotten_md_info s = 1) msg (st, ig))) s"
proof -
  obtain r w where r: "os (Sys_read fd 16) (world s) = (r, w)" by fastforce
  define u where "u = s\<lparr>world := w, trace := trace s @ [Sys_read fd 16]\<rparr>"
  define msg where "msg = rd32 (drop 4 (r_data r))"
  let ?common = "msg \<in> {V1_MSG_SEND_BATTERY_INFO, V1_MSG_NOTIFY, V1_MSG_CFG_UPDATE}"
  have u: "v1_inv md st ig u" "gotten_md_info u = gotten_md_info s"
    using assms by (simp_all add: u_def v1_inv_def serves_v1_def last_set_append)
  have size: "r_ret r = 16 \<Longrightarrow> \<not> r_ret r \<le>s 0" by (simp add: word_sle_eq)
  have tail: "wp (do {
       handled \<leftarrow> common_msg_handler_v1 os msg;
       if handled then ret ()
       else do { cal_md_starttime os msg; answer_pattern os msg; dispatch_v1 os fuel msg } })
      (\<lambda>_. lands_v1 md (if ?common then (st, ig) else v1_next (gotten_md_info s = 1) msg (st, ig))) u"
    by (rule wp_bindI, rule wp_mono [OF common_lands_v1 [OF u(1)]])
      (use u(2) in \<open>auto simp: wp_return wp_if intro: message_lands\<close>)
  show ?thesis
    using u(1) tail size
    by (auto simp: main_v1_turn_def wp_bind [where m = "syscall os (Sys_read fd 16)"] wp_syscall r v1_message_def Let_def
        wp_return simp flip: u_def msg_def)
qed

section \<open>Start-up\<close>

lemma names_serve:
  assumes "fsm_md_id s = md"
  shows "wp (name_services_v1 os) (\<lambda>r t. r \<noteq> None \<longrightarrow> serves_v1 md t) s"
proof -
  have keeps: "wp m (\<lambda>_ u. fsm_md_id u = md) t" if "frame (calm os) m" "fsm_md_id t = md" for t and m :: "('a mdinit, 'b) state"
    by (rule wp_frame [OF that(1)]) (use that(2) in \<open>simp add: calm_def quiet_def same_daemon_def\<close>)
  have e: "frame (calm os) (is_eccci os)" unfolding is_eccci_def by (intro frame_intros)
  have fin: "wp (case service_names_v1 e md of None \<Rightarrow> ret None
       | Some (mux, ril, logger, fs) \<Rightarrow> do {
           modify (\<lambda>s. s\<lparr>muxd_name := mux, rild_name := ril, mdlogger_name := logger, fsd_name := fs,
             muxd_service_status := ''init.svc.'' @ mux, rild_service_status := ''init.svc.'' @ ril,
             mdlogger_service_status := ''init.svc.'' @ logger, fsd_service_status := ''init.svc.'' @ fs\<rparr>);
           ret (Some (node_path node)) }) (\<lambda>r t. r \<noteq> None \<longrightarrow> serves_v1 md t) t"
    if "fsm_md_id t = md" "md = 0 \<or> md = 1 \<or> md = 2" for e t node
    using that by (auto simp: wp_simps serves_v1_def split: option.splits)
  show ?thesis
    unfolding name_services_v1_def
    by (rule wp_bindI, rule wp_getsI, simp only: assms, rule wp_ifI, simp add: wp_return, rule wp_bindI,
        rule wp_mono [OF keeps [OF calm_node_name(2) assms]], rule wp_bindI, rule wp_mono [OF keeps [OF e]], assumption,
        erule fin) blast
qed

lemma aside_trigger [frame_intros]: "frame (aside md os) (trigger_modem_to_run_v1 os)"
  unfolding trigger_modem_to_run_v1_def by (intro frame_intros; simp add: foreign_def)

lemma status_modem: "fsm_md_id s = md \<Longrightarrow> wp (set_md_status_v1 os st) (\<lambda>_ t. fsm_md_id t = md) s"
  by (simp add: set_md_status_v1_def wp_simps)

lemma start_lands:
  "wp (main_v1_start os fuel inp sub) (\<lambda>r t. \<not> isl r \<longrightarrow> (\<exists>ig. v1_inv (if sub = 0 then 0 else inp - 1) V1_STA_RESET ig t)) s"
proof -
  define md where "md = (if sub = 0 then 0 else inp - 1 :: s32)"
  let ?rest = "\<lambda>dev_port. do {
         opened \<leftarrow> open_monitor 600 os dev_port;
         case opened of None \<Rightarrow> ret (Inl (- 1))
         | Some fd \<Rightarrow> do {
             modify (\<lambda>s. s\<lparr>dev_monitor_fd := fd\<rparr>);
             curr \<leftarrow> gets curr_md_id;
             _ \<leftarrow> md_image_exist_check os fd curr;
             update_service_name;
             t \<leftarrow> time_srv_init os;
             (if t = 0 then do { _ \<leftarrow> syscall os Sys_pthread_create; ret () } else ret ());
             set_md_boot_env_data_v1 os fuel;
             md \<leftarrow> gets fsm_md_id;
             rat \<leftarrow> parse_sys_env_rat_setting os md;
             _ \<leftarrow> syscall os (Sys_ioctl fd ''CCCI_IOC_RELOAD_MD_TYPE'' (le32 rat));
             r \<leftarrow> trigger_modem_to_run_v1 os;
             if r <s 0 then ret (Inl r)
             else do {
               get_md_info os fd;
               modify (\<lambda>s. s\<lparr>system_ch_handle := fd\<rparr>);
               ret (Inr (fd, if sub = 0 then 2 else CCCI_MONITOR_CH)) } } }"
  have rest: "frame (aside md os) (?rest dev_port)" for dev_port
    by (intro frame_intros calm_open_monitor [THEN calm_aside] calm_images [THEN calm_aside] calm_time_srv [THEN calm_aside]
        calm_rat_setting [THEN calm_aside] calm_md_info [THEN calm_aside]; simp)
  have reset: "wp (do { set_md_status_v1 os V1_STA_RESET; ?rest dev_port }) (\<lambda>r t. \<not> isl r \<longrightarrow> (\<exists>ig. v1_inv md V1_STA_RESET ig t)) t"
    if "serves_v1 md t" for t dev_port
    by (rule wp_bindI, rule wp_mono [OF status_serves [OF that]], erule wp_aside [OF rest]) blast
  show ?thesis
    unfolding main_v1_start_def
    by (fold md_def, rule wp_bindI, rule wp_modifyI, rule wp_bindI, rule wp_mono [OF status_modem], simp, rule wp_bindI,
        rule wp_mono [OF names_serve], assumption, rule wp_optionI, simp add: wp_return, rule reset) simp
qed

text \<open>The states in which the loop of the first version can read its next message.\<close>

inductive v1_reach :: "'w os \<Rightarrow> nat \<Rightarrow> s32 \<Rightarrow> u32 \<Rightarrow> s32 \<Rightarrow> 'w mdinit \<Rightarrow> bool"
  for os fuel fd ch where
  started: "run_state (main_prepare os junk arg) (boot_state w) = (Some v, s) \<Longrightarrow> v \<noteq> 2 \<Longrightarrow>
     run_state (main_v1_start os fuel (curr_md_id s) (if v = 1 then 1 else 0)) s = (Inr (fd, ch), t) \<Longrightarrow>
     v1_reach os fuel fd ch (if v = 1 then curr_md_id s - 1 else 0) t"
| turn: "v1_reach os fuel fd ch md s \<Longrightarrow> run_state (main_v1_turn os fuel fd ch) s = ((), t) \<Longrightarrow> v1_reach os fuel fd ch md t"

definition v1_states :: "s32 set" where
  "v1_states = {V1_STA_BOOT_READY, V1_STA_BOOT_UP, V1_STA_RESET, V1_STA_WAIT_SRV_RDY_TO_RST, V1_STA_WAIT_SRV_RDY_TO_STOP,
     V1_STA_STOP, V1_STA_FLIGHT_MODE}"

lemma next_in_states: "st \<in> v1_states \<Longrightarrow> fst (v1_next d msg (st, ig)) \<in> v1_states"
  by (auto simp: v1_states_def v1_next_def)

lemma v1_inv_here: "v1_inv md st ig s \<Longrightarrow> st = md_ctl_fsm_curr_state s \<and> ig = ignore_time_out_msg s"
  by (simp add: v1_inv_def)

abbreviation settled_v1 :: "s32 \<Rightarrow> 'w mdinit \<Rightarrow> bool" where
  "settled_v1 md s \<equiv> v1_inv md (md_ctl_fsm_curr_state s) (ignore_time_out_msg s) s"

lemma lands_here:
  assumes "lands_v1 md x t"
  shows "settled_v1 md t" "(md_ctl_fsm_curr_state t, ignore_time_out_msg t) = x"
proof -
  have "fst x = md_ctl_fsm_curr_state t" "snd x = ignore_time_out_msg t" using v1_inv_here [OF assms] by simp_all
  with assms show "settled_v1 md t" "(md_ctl_fsm_curr_state t, ignore_time_out_msg t) = x" by (simp_all add: prod_eq_iff)
qed

lemma reach_v1_inv: "v1_reach os fuel fd ch md s \<Longrightarrow> settled_v1 md s \<and> md_ctl_fsm_curr_state s \<in> v1_states"
proof (induction rule: v1_reach.induct)
  case (started junk arg w v s t)
  from wp_run [OF start_lands started(3)] obtain ig where "v1_inv (if v = 1 then curr_md_id s - 1 else 0) V1_STA_RESET ig t"
    by (auto split: if_splits)
  then show ?case using v1_inv_here by (fastforce simp: v1_states_def)
next
  case (turn md s t)
  then have s: "settled_v1 md s" "md_ctl_fsm_curr_state s \<in> v1_states" by simp_all
  let ?x = "case v1_message ch (fst (os (Sys_read fd 16) (world s))) of
     None \<Rightarrow> (md_ctl_fsm_curr_state s, ignore_time_out_msg s)
   | Some msg \<Rightarrow> v1_next (gotten_md_info s = 1) msg (md_ctl_fsm_curr_state s, ignore_time_out_msg s)"
  have t: "lands_v1 md ?x t" by (rule wp_run [OF turn_lands_v1 [OF s(1)] turn(2)])
  have "fst ?x \<in> v1_states" using s(2) next_in_states by (auto split: option.splits)
  then show ?case unfolding lands_here(2) [OF t, symmetric] using lands_here(1) [OF t] by simp
qed

section \<open>Defects\<close>

text \<open>For modem 2 the names of the properties are uninitialised.\<close>

lemma restart_modem2_unspecified: "fsm_md_id s = 1 \<Longrightarrow> wp (check_to_restart_md os fuel) (\<lambda>_. ub) s"
  by (simp add: check_to_restart_md_def wp_simps md_status_keys_def)

text \<open>A driver that refuses to start the modem is asked for ever, whatever messages wait.\<close>

lemma start_never_given_up:
  assumes "\<And>fd d w. r_ret (fst (os (Sys_ioctl fd ''CCCI_IOC_DO_START_MD'' d) w)) \<noteq> 0"
  shows "wp (start_md_loop fuel os) (\<lambda>_. stuck) s"
proof (induction fuel arbitrary: s)
  case 0
  then show ?case by (simp add: stall_def wp_modify)
next
  case (Suc fuel)
  then show ?case using assms by (simp add: md_ioctl_def wp_simps case_prod_beta)
qed

section \<open>Claims\<close>

text \<open>C17: with the first version of the driver, whenever the daemon waits for a message it is in one of the seven states
  the loop dispatches on (so a message is never refused for its state), the names of the services it controls belong to its
  modem, and the modem's status property was last written with the name of that state.\<close>

theorem v1_reachable_inv:
  assumes "v1_reach os fuel fd ch md s"
  shows "md_ctl_fsm_curr_state s \<in> v1_states \<and> serves_v1 md s \<and>
    last_set (md_status_key md) (trace s) = Some (v1_status_name (md_ctl_fsm_curr_state s))"
  using reach_v1_inv [OF assms] by (simp add: v1_inv_def)

text \<open>C16: with the first version of the driver, a turn of the loop takes the state and the flag that skips one boot
  time-out where \<open>v1_next\<close> says, for the message read, and leaves both alone when what was read is not a message to the
  state machine.\<close>

theorem v1_turn_refines:
  assumes "v1_reach os fuel fd ch md s" "run_state (main_v1_turn os fuel fd ch) s = ((), t)"
  shows "(md_ctl_fsm_curr_state t, ignore_time_out_msg t) =
    (case v1_message ch (fst (os (Sys_read fd 16) (world s))) of
       None \<Rightarrow> (md_ctl_fsm_curr_state s, ignore_time_out_msg s)
     | Some msg \<Rightarrow> v1_next (gotten_md_info s = 1) msg (md_ctl_fsm_curr_state s, ignore_time_out_msg s))"
  by (rule lands_here(2) [OF wp_run [OF turn_lands_v1 [OF conjunct1 [OF reach_v1_inv [OF assms(1)]]] assms(2)]])

section \<open>A run\<close>

text \<open>The phone of the second version, with the first version of the driver and a modem that starts to boot.\<close>

definition phone1_text :: string where
  "phone1_text = ''[modem en]:1-0-0-0-0'' @ [CHR 0x0A] @ ''[ccci_drv_ver]:V1'' @ [CHR 0x0A] @ ''.''"

definition phone1_read :: "s32 \<Rightarrow> u8 list" where
  "phone1_read fd = (if fd = 5 then bytes phone1_text
     else le32 0xFFFFFFFF @ le32 V1_MSG_BOOT_UP @ le32 CCCI_MONITOR_CH @ le32 0)"

definition phone1_reply :: "s32 \<Rightarrow> sysres" where
  "phone1_reply fd = res0\<lparr>r_ret := of_nat (length (phone1_read fd)), r_data := phone1_read fd\<rparr>"

definition phone1_os :: "string option os" where
  "phone1_os q w = (case q of
       Sys_open p fl m \<Rightarrow> (res0\<lparr>r_ret := (if p = ''/sys/kernel/ccci/boot'' then 9 else phone_fd p)\<rparr>, w)
     | Sys_read fd n \<Rightarrow> (phone1_reply fd, w)
     | _ \<Rightarrow> phone_os q w)"

definition phone1_prepared :: "string option mdinit" where
  "phone1_prepared = snd (run_state (main_prepare phone1_os (replicate 64 NUL) (Some ''0'')) (boot_state None))"

definition phone1_started :: "string option mdinit" where
  "phone1_started = snd (run_state (main_v1_start phone1_os 3 1 1) phone1_prepared)"

definition phone1_turned :: "string option mdinit" where
  "phone1_turned = snd (run_state (main_v1_turn phone1_os 3 4 CCCI_MONITOR_CH) phone1_started)"

lemma phone1_prepare: "fst (run_state (main_prepare phone1_os (replicate 64 NUL) (Some ''0'')) (boot_state None)) = Some 1"
  "curr_md_id phone1_prepared = 1"
  unfolding phone1_prepared_def by code_simp+

lemma phone1_opens:
  "phone1_os (Sys_open p fl m) w = (res0\<lparr>r_ret := (if p = ''/sys/kernel/ccci/boot'' then 9 else phone_fd p)\<rparr>, w)"
  by (simp add: phone1_os_def)

lemma phone1_names: "fsm_md_id s = 0 \<Longrightarrow> wp (name_services_v1 phone1_os) (\<lambda>n _. n = Some ''/dev/ccci_monitor'') s"
  by (simp add: name_services_v1_def is_eccci_def ccci_get_node_name_def ccci_get_version_def wp_simps phone1_opens phone_fd_def
      node_row_CTRL_def ccci_node_list_def word_sless_alt res0_def node_path_def service_names_v1_def)

lemma phone1_monitor: "0 < n \<Longrightarrow> wp (open_monitor n phone1_os ''/dev/ccci_monitor'') (\<lambda>r _. r = Some 4) s"
  by (cases n) (simp_all add: wp_simps phone1_opens phone_fd_def word_sless_alt res0_def)

lemma phone1_trigger: "wp (trigger_modem_to_run_v1 phone1_os) (\<lambda>r _. r = 0) s"
  by (simp add: trigger_modem_to_run_v1_def wp_simps phone1_opens phone_fd_def word_sless_alt res0_def case_prod_beta)

lemma phone1_start: "wp (main_v1_start phone1_os fuel 1 1) (\<lambda>r _. r = Inr (4, CCCI_MONITOR_CH)) s"
  unfolding main_v1_start_def
  apply (rule wp_bindI, rule wp_modifyI, rule wp_bindI, rule wp_mono [OF status_modem [where md = 0]], simp)
  apply (rule wp_bindI, rule wp_mono [OF phone1_names], assumption, simp)
  apply (rule wp_skip, rule wp_bindI, rule wp_mono [OF phone1_monitor], simp, simp)
  apply (rule wp_skip, rule wp_skip, rule wp_skip, rule wp_skip, rule wp_skip)
  apply (rule wp_skip, rule wp_skip, rule wp_skip, rule wp_skip, rule wp_skip)
  apply (rule wp_bindI, rule wp_mono [OF phone1_trigger], simp)
  apply (rule wp_skip, rule wp_skip, simp add: wp_return)
  done

lemma phone1_reach: "v1_reach phone1_os 3 4 CCCI_MONITOR_CH 0 phone1_started"
  and phone1_reset: "md_ctl_fsm_curr_state phone1_started = V1_STA_RESET"
proof -
  have p: "run_state (main_prepare phone1_os (replicate 64 NUL) (Some ''0'')) (boot_state None) = (Some 1, phone1_prepared)"
    using phone1_prepare(1) by (simp add: phone1_prepared_def prod_eq_iff)
  have t: "run_state (main_v1_start phone1_os 3 (curr_md_id phone1_prepared) (if (1::s32) = 1 then 1 else 0)) phone1_prepared =
      (Inr (4, CCCI_MONITOR_CH), phone1_started)"
    using phone1_start [of 3 phone1_prepared]
    by (simp add: phone1_prepare phone1_started_def wp_def prod_eq_iff case_prod_beta)
  from v1_reach.started [OF p _ t] show "v1_reach phone1_os 3 4 CCCI_MONITOR_CH 0 phone1_started" by (simp add: phone1_prepare)
  from wp_run [OF start_lands t] show "md_ctl_fsm_curr_state phone1_started = V1_STA_RESET" by (auto simp: v1_inv_def)
qed

theorem v1_reachable_inv_witness: "serves_v1 0 phone1_started"
  using v1_reachable_inv [OF phone1_reach] by blast

theorem v1_turn_refines_witness: "md_ctl_fsm_curr_state phone1_turned = V1_STA_BOOT_UP"
proof -
  have "v1_message CCCI_MONITOR_CH (phone1_reply 4) = Some V1_MSG_BOOT_UP" by code_simp
  then have "v1_message CCCI_MONITOR_CH (fst (phone1_os (Sys_read 4 16) w)) = Some V1_MSG_BOOT_UP" for w
    by (simp add: phone1_os_def)
  moreover have "run_state (main_v1_turn phone1_os 3 4 CCCI_MONITOR_CH) phone1_started = ((), phone1_turned)"
    by (simp add: phone1_turned_def prod_eq_iff)
  ultimately show ?thesis using v1_turn_refines [OF phone1_reach] by (simp add: v1_next_def phone1_reset)
qed

end
