(* ===== verification/Mdinit_Settings.thy ===== *)
theory Mdinit_Settings
  imports Mdinit_Relate
begin

text \<open>
  The settings \<open>ccci_mdinit\<close> reads: what \<open>str2uint\<close> makes of a string, and what \<open>main\<close> learns from the
  text the kernel publishes. Some details of the parsers that their text does not suggest are stated as
  lemmas at the end.
\<close>

section \<open>Numbers\<close>

text \<open>The numeral a string denotes: decimal, or hexadecimal after \<open>0x\<close>; anything else is 0.\<close>

definition hex_body :: "string \<Rightarrow> string option" where
  "hex_body cs = (case cs of c # x # r \<Rightarrow>
       if c = CHR ''0'' \<and> (x = CHR ''x'' \<or> x = CHR ''X'') \<and> list_all (\<lambda>h. hex_val h \<noteq> None) r then Some r else None
     | _ \<Rightarrow> None)"

definition numeral_of :: "string \<Rightarrow> int" where
  "numeral_of cs = (if list_all c_digit cs then digits_val 10 dec_val 0 cs
     else case hex_body cs of Some r \<Rightarrow> digits_val 16 hex_val 0 r | None \<Rightarrow> 0)"

text \<open>The lower-case copy \<open>str2uint\<close> collects.\<close>

definition lower_hex :: "char \<Rightarrow> char" where
  "lower_hex c = (if 65 \<le> (of_char c :: nat) \<and> (of_char c :: nat) \<le> 70 then char_of (of_char c + 32 :: nat) else c)"

lemma sum10_digits:
  "list_all c_digit cs \<Longrightarrow> sum10 (word_of_int v) cs = word_of_int (digits_val 10 dec_val v cs)"
proof (induction cs arbitrary: v)
  case (Cons c cs)
  then have d: "48 \<le> (of_char c :: nat)" "c_digit c" by (simp_all add: c_digit_def)
  have "(word_of_int v * 10 + of_nat (of_char c) - 48 :: s32) = word_of_int (v * int 10 + int (of_char c - 48))"
    using d(1) by (simp add: of_nat_diff word_of_int_minus)
  then have "sum10 (word_of_int v) (c # cs) = sum10 (word_of_int (v * int 10 + int (of_char c - 48))) cs"
    by (simp only: sum10.simps)
  moreover have "sum10 (word_of_int (v * int 10 + int (of_char c - 48))) cs = word_of_int (digits_val 10 dec_val (v * int 10 + int (of_char c - 48)) cs)"
    using Cons.prems by (intro Cons.IH) simp
  moreover have "dec_val c = Some (of_char c - 48)" using d by (simp add: dec_val_def)
  ultimately show ?case by (simp only: digits_val.simps option.case)
qed simp

lemma hex_val_lower:
  assumes "hex_val c = Some d"
  shows "(if 97 \<le> (of_char (lower_hex c) :: nat) then v * 16 + of_nat (of_char (lower_hex c)) - 97 + 10
     else v * 16 + of_nat (of_char (lower_hex c)) - 48 :: s32) = v * 16 + of_nat d"
  using assms by (auto simp: hex_val_def lower_hex_def c_digit_def Let_def of_nat_diff split: if_splits)

lemma sum16_digits:
  "list_all (\<lambda>h. hex_val h \<noteq> None) cs \<Longrightarrow>
   sum16 (word_of_int v) (map lower_hex cs) = word_of_int (digits_val 16 hex_val v cs)"
proof (induction cs arbitrary: v)
  case (Cons c cs)
  then obtain d where d: "hex_val c = Some d" by auto
  have "sum16 (word_of_int v) (map lower_hex (c # cs)) = sum16 (word_of_int (v * 16 + int d)) (map lower_hex cs)"
    by (simp only: list.map sum16.simps hex_val_lower [OF d]) simp
  also have "\<dots> = word_of_int (digits_val 16 hex_val (v * 16 + int d) cs)"
    using Cons.prems by (intro Cons.IH) simp
  finally show ?case using d by simp
qed simp

text \<open>The scan accepts exactly the two forms.\<close>

lemma scan_decimal:
  "length cs < n \<Longrightarrow> list_all c_digit cs \<Longrightarrow>
   str2uint_scan buf hex n cs = Some (buf @ cs @ [NUL], hex, length buf + length cs + 1)"
proof (induction cs arbitrary: buf n)
  case Nil then show ?case by (cases n) simp_all
next
  case (Cons c cs)
  then have "c \<noteq> CHR ''X''" "c \<noteq> CHR ''x''" by (auto simp: c_digit_def)
  with Cons show ?case by (cases n) simp_all
qed

lemma scan_hex:
  "length cs < n \<Longrightarrow> list_all (\<lambda>h. hex_val h \<noteq> None) cs \<Longrightarrow>
   str2uint_scan buf True n cs = Some (buf @ map lower_hex cs @ [NUL], True, length buf + length cs + 1)"
proof (induction cs arbitrary: buf n)
  case Nil then show ?case by (cases n) simp_all
next
  case (Cons c cs)
  then have "c \<noteq> CHR ''X''" "c \<noteq> CHR ''x''" by (auto simp: hex_val_def c_digit_def)
  moreover obtain d where "hex_val c = Some d" using Cons.prems by auto
  ultimately show ?case
    using Cons by (cases n) (auto simp: hex_val_def lower_hex_def c_digit_def Let_def split: if_splits)
qed

lemma scan_refuses_hex:
  "length cs < n \<Longrightarrow> 2 \<le> length buf \<Longrightarrow> \<not> list_all (\<lambda>h. hex_val h \<noteq> None) cs \<Longrightarrow>
   str2uint_scan buf True n cs = None"
proof (induction cs arbitrary: buf n)
  case (Cons c cs)
  show ?case
  proof (cases "hex_val c")
    case None
    then show ?thesis using Cons.prems by (cases n) (auto simp: hex_val_def c_digit_def Let_def split: if_splits)
  next
    case (Some d)
    then have "c \<noteq> CHR ''X''" "c \<noteq> CHR ''x''" by (auto simp: hex_val_def c_digit_def)
    then show ?thesis
      using Some Cons by (cases n) (auto simp: hex_val_def c_digit_def Let_def split: if_splits)
  qed
qed simp

lemma scan_refuses_decimal:
  "length cs < n \<Longrightarrow> 2 \<le> length buf \<Longrightarrow> \<not> list_all c_digit cs \<Longrightarrow> str2uint_scan buf False n cs = None"
proof (induction cs arbitrary: buf n)
  case (Cons c cs)
  show ?case
  proof (cases "c_digit c")
    case False
    then show ?thesis using Cons.prems by (cases n) auto
  next
    case True
    then have "c \<noteq> CHR ''X''" "c \<noteq> CHR ''x''" by (auto simp: c_digit_def)
    then show ?thesis using True Cons by (cases n) auto
  qed
qed simp

lemma hex_val_digit: "c_digit c \<Longrightarrow> hex_val c \<noteq> None"
  by (simp add: hex_val_def)

lemma numeral_nonhex: "\<not> list_all c_digit cs \<Longrightarrow> hex_body cs = None \<Longrightarrow> numeral_of cs = 0"
  by (simp add: numeral_of_def)

lemma scan_other:
  assumes "length cs < 16" "\<not> list_all c_digit cs" "hex_body cs = None"
  shows "str2uint_scan [] False 16 cs = None"
proof (cases cs)
  case (Cons c r)
  show ?thesis
  proof (cases "c_digit c")
    case False
    then show ?thesis using Cons by (auto simp: numeral_eq_Suc)
  next
    case c: True
    then have nx: "c \<noteq> CHR ''X''" "c \<noteq> CHR ''x''" by (auto simp: c_digit_def)
    have step: "str2uint_scan [] False 16 cs = str2uint_scan [c] False 15 r"
      using c nx Cons by (simp add: numeral_eq_Suc)
    show ?thesis
    proof (cases r)
      case Nil
      then show ?thesis using assms(2) Cons c by simp
    next
      case r: (Cons x r')
      then show ?thesis
      proof (cases "x = CHR ''X'' \<or> x = CHR ''x''")
        case True
        then have "\<not> list_all (\<lambda>h. hex_val h \<noteq> None) r'" if "c = CHR ''0''"
          using assms(3) Cons r that by (auto simp: hex_body_def split: if_splits)
        then show ?thesis
          using True r step assms(1) Cons scan_refuses_hex [of r' 14 "[c, CHR ''x'']"]
          by (auto simp: numeral_eq_Suc)
      next
        case False
        show ?thesis
        proof (cases "c_digit x")
          case True
          then have "\<not> list_all c_digit r'" using assms(2) Cons r c by simp
          then show ?thesis
            using False True r step assms(1) Cons scan_refuses_decimal [of r' 14 "[c, x]"]
            by (simp add: numeral_eq_Suc)
        qed (use False r step in \<open>simp add: numeral_eq_Suc\<close>)
      qed
    qed
  qed
qed (use assms in simp)

lemma str2uint_hex:
  assumes "hex_body cs = Some r" "length cs < 16"
  shows "str2uint cs = word_of_int (digits_val 16 hex_val 0 r)"
proof -
  obtain x where cs: "cs = CHR ''0'' # x # r" "x = CHR ''x'' \<or> x = CHR ''X''" "list_all (\<lambda>h. hex_val h \<noteq> None) r"
    using assms(1) by (auto simp: hex_body_def split: list.splits if_splits)
  have "str2uint_scan [] False 16 cs = str2uint_scan ''0x'' True 14 r"
    using cs(1,2) by (auto simp: numeral_eq_Suc c_digit_def)
  also have "\<dots> = Some (''0x'' @ map lower_hex r @ [NUL], True, length r + 3)"
    using scan_hex [of r 14 "''0x''"] cs(1,3) assms(2) by simp
  finally show ?thesis
    using sum16_digits [OF cs(3), of 0] by (simp add: str2uint_def)
qed



section \<open>The kernel's settings\<close>

text \<open>An entry of the settings, one per line, and what its name and its value may contain.\<close>

definition k_line :: "string \<times> string \<Rightarrow> string" where
  "k_line e = CHR ''['' # fst e @ '']:'' @ snd e @ [CHR 0x0A]"

definition k_name_ok :: "string \<Rightarrow> bool" where
  "k_name_ok n \<longleftrightarrow> length n < 64 \<and> list_all (\<lambda>c. c \<noteq> CHR '']'' \<and> \<not> line_end c \<and> c \<noteq> NUL) n"

definition k_value_ok :: "string \<Rightarrow> bool" where
  "k_value_ok v \<longleftrightarrow> length v < 64 \<and> list_all (\<lambda>c. \<not> line_end c \<and> c \<noteq> NUL) v"

lemma cstr_id: "list_all (\<lambda>c. c \<noteq> NUL) v \<Longrightarrow> cstr v = v"
  unfolding cstr_def by (induction v) simp_all

lemma k_scan_name:
  "list_all (\<lambda>c. c \<noteq> CHR '']'' \<and> \<not> line_end c) n \<Longrightarrow> length (m @ n) < 64 \<Longrightarrow>
   k_scan name (K_name m) (n @ CHR '']'' # r) = k_scan name (K_colon (m @ n)) r"
  by (induction n arbitrary: m) (auto simp: line_end_def)

lemma k_scan_value:
  "list_all (\<lambda>c. \<not> line_end c) v \<Longrightarrow> length (u @ v) < 64 \<Longrightarrow>
   k_scan name (K_value n u) (v @ CHR 0x0A # r) =
     (if cstr n = name then K_found (cstr (u @ v)) else k_scan name K_init r)"
  by (induction v arbitrary: u) (auto simp: line_end_def)

lemma k_scan_line:
  assumes "k_name_ok n" "k_value_ok v"
  shows "k_scan name K_init (k_line (n, v) @ r) = (if n = name then K_found v else k_scan name K_init r)"
proof -
  have n: "list_all (\<lambda>c. c \<noteq> CHR '']'' \<and> \<not> line_end c) n" "length n < 64" "cstr n = n"
    using assms(1) by (auto simp: k_name_ok_def list_all_iff cstr_id)
  have v: "list_all (\<lambda>c. \<not> line_end c) v" "length v < 64" "cstr v = v"
    using assms(2) by (auto simp: k_value_ok_def list_all_iff cstr_id)
  show ?thesis
    using k_scan_name [of n "[]" name] k_scan_value [of v "[]" name] n v by (simp add: k_line_def)
qed

lemma k_scan_lines:
  assumes "\<forall>e\<in>set es. k_name_ok (fst e) \<and> k_value_ok (snd e)"
  shows "k_scan name K_init (concat (map k_line es) @ r) =
     (case map_of es name of Some v \<Rightarrow> K_found v | None \<Rightarrow> k_scan name K_init r)"
  using assms
proof (induction es)
  case (Cons e es)
  obtain n v where e: "e = (n, v)" by (cases e)
  then have ok: "k_name_ok n" "k_value_ok v" using Cons.prems by simp_all
  have "k_scan name K_init (concat (map k_line (e # es)) @ r) =
      (if n = name then K_found v else k_scan name K_init (concat (map k_line es) @ r))"
    using k_scan_line [OF ok, of name "concat (map k_line es) @ r"] by (simp only: e list.map concat.simps append_assoc)
  then show ?case using Cons e by simp
qed simp

lemma parse_k_lines:
  assumes "\<forall>e\<in>set es. k_name_ok (fst e) \<and> k_value_ok (snd e)"
  shows "parse_k_setting (concat (map k_line es) @ [NUL]) name 64 =
     (case map_of es name of Some v \<Rightarrow> K_found v | None \<Rightarrow> K_missing)"
proof (cases "map_of es name")
  case (Some v)
  then have "k_value_ok v" using assms by (fastforce dest: map_of_SomeD)
  then show ?thesis
    using Some k_scan_lines [OF assms, of name "[NUL]"] by (simp add: parse_k_setting_def k_value_ok_def)
qed (use k_scan_lines [OF assms, of name "[NUL]"] in \<open>simp add: parse_k_setting_def\<close>)

text \<open>The flags in a value: its digits 0 and 1, whatever separates them.\<close>

definition k_flags :: "string \<Rightarrow> s32 list" where
  "k_flags v = map (\<lambda>c. if c = CHR ''1'' then 1 else 0) (filter (\<lambda>c. c = CHR ''1'' \<or> c = CHR ''0'') v)"

lemma k_flags_simps [simp]:
  "k_flags [] = []"
  "k_flags (c # v) = (if c = CHR ''1'' then 1 # k_flags v else if c = CHR ''0'' then 0 # k_flags v else k_flags v)"
  by (simp_all add: k_flags_def)

lemma read_en_flags:
  "i < 5 \<Longrightarrow> i + length (k_flags v) = 5 \<Longrightarrow>
   read_en (v @ r) i (en @ replicate (5 - i) 0) = (en @ k_flags v, True)" if "length en = i" for en
  using that
proof (induction v arbitrary: i en)
  case (Cons c v)
  obtain m where m: "5 - i = Suc m" using Cons.prems(1) by (cases "5 - i") simp_all
  show ?case
  proof (cases "c = CHR ''1'' \<or> c = CHR ''0''")
    case True
    define x :: s32 where "x = (if c = CHR ''1'' then 1 else 0)"
    have en': "(if c = CHR ''1'' then (en @ replicate (5 - i) 0)[i := 1] else en @ replicate (5 - i) 0) =
        (en @ [x]) @ replicate m 0"
      using Cons.prems(3) m by (simp add: x_def list_update_append)
    have fl: "k_flags (c # v) = x # k_flags v" using True by (auto simp: x_def)
    show ?thesis
    proof (cases "5 \<le> i + 1")
      case end5: True
      then have "length (k_flags v) = 0" "m = 0"
        using Cons.prems(2) m unfolding fl list.size by linarith+
      then show ?thesis using True end5 en' fl by (simp add: Let_def)
    next
      case False
      then have "read_en (v @ r) (i + 1) ((en @ [x]) @ replicate (5 - (i + 1)) 0) = ((en @ [x]) @ k_flags v, True)"
        using Cons.prems fl by (intro Cons.IH) simp_all
      moreover have "5 - (i + 1) = m" using m by simp
      ultimately show ?thesis using True False en' fl by (simp add: Let_def)
    qed
  next
    case False
    then show ?thesis using Cons by (simp add: Let_def)
  qed
qed simp



section \<open>Details\<close>

text \<open>The legacy id 18, named \<open>ultwg\<close>, stands for GSM alone.\<close>

lemma legacy_ultwg_is_gsm_only: "legacy_md_support_id_to_rat 18 = MD_CAP_GSM"
  by code_simp

text \<open>The logger's configuration of modem 3, whose id is 2, is not read: no file is opened.\<close>

lemma modem3_log_config_unused: "open_log_config os 2 = ret (- 1)"
  by (simp add: open_log_config_def)

text \<open>The last digit of a number of 16 digits is dropped.\<close>

lemma str2uint_drops_16th: "str2uint ''0000000000000012'' = 1"
  by code_simp

text \<open>The newline that ends the last entry is overwritten before the text is parsed.\<close>

lemma last_line_lost:
  "parse_k_setting (setting_text (res0\<lparr>r_ret := 18, r_data := bytes (k_line (''ccci_drv_ver'', ''V2''))\<rparr>))
     ''ccci_drv_ver'' 64 = K_missing"
  by code_simp

end
