(* ===== verification/Spec2Isabelle.thy ===== *)
theory Spec2Isabelle
  imports Fsd_Run Fsd_Otp Ccb_Queue Ccci_Partition Rpcd_Slots Mdinit_Run Mdinit_V1_Run Mdinit_Settings
begin

text \<open>
  \<^bold>\<open>The program.\<close> The repository holds the open vendor parts of an Android phone with a MediaTek chip. Its core is
  the application processor's side of CCCI, the interface to the modem processors:

  \<^item> \<open>external/ccci_mdinit_src\<close> (\<open>ccci_mdinit\<close>), one process per modem: finds out how the phone was booted, chooses
    and hands over the modem's boot data, starts and stops the modem and the services that belong to it,
    follows the driver's messages and publishes the modem's state in a system property;
  \<^item> \<open>external/ccci_fsd\<close> (\<open>ccci_fsd\<close>), one process per modem: serves the modem's file system requests from
    directories of the phone and gives access to one-time-programmable (OTP) memory;
  \<^item> \<open>external/ccci_rpcd_com\<close> (\<open>ccci_rpcd\<close>), one process per modem: answers the modem's remote procedure calls, that
    is queries for system properties and operations of a customer's library;
  \<^item> \<open>external/libstorage_otp\<close>, the library through which \<open>ccci_fsd\<close> reaches the OTP partition on eMMC and UFS;
  \<^item> \<open>hardware/ccci\<close> (\<open>libccci_util\<close>), used by the daemons: shared-memory rings between a user and the
    modem, images in the modem partitions, settings that the kernel publishes.

  They interact through calls of the libraries, through the status property (written by \<open>ccci_mdinit\<close>, read by
  \<open>ccci_fsd\<close>), and through the start of \<open>ccci_fsd\<close> by \<open>ccci_mdinit\<close>.

  \<^bold>\<open>How it is modelled.\<close> Every function is an executable definition in a state monad. The state of a program is a
  record of its static variables that extends \<open>Prelude.env\<close>: the \<open>world\<close> outside, the \<open>trace\<close> of requests made, and
  \<open>ub\<close>, which is set where the C code would touch memory it does not own. What is outside of the repository (the
  kernel, the C library, Android's services, closed libraries) is the parameter \<open>os\<close>, a function that answers a
  request in a world; what a theorem needs of it is an explicit hypothesis. A C \<open>int\<close> is a word of 32 bits,
  compared as signed or unsigned as in the source. Calls that only log are left out.

  \<^bold>\<open>Theories and sources.\<close>

  \<^item> \<open>Prelude\<close>: words and their bytes in memory, C strings, the monad with weakest preconditions, invariants
    (\<open>keeps\<close>) and frames (locale \<open>env_frame\<close>). \<open>Ccci_Env\<close>: the requests, and \<open>ccci_intf.h\<close> (device nodes).
  \<^item> \<open>ccci_fsd.c\<close>: \<open>Fsd_Path\<close> (names, wildcards, drive letters), \<open>Fsd_State\<close> and \<open>Fsd_Handle\<close> (handle table; open,
    seek, read, write, close), \<open>Fsd_Packet\<close> (requests and answers in packets), \<open>Fsd_Dir\<close> (directories, search,
    deletion), \<open>Fsd_Cmpt\<close> (compound operations, drives, \<open>FS_Init\<close>), \<open>Fsd_Main\<close> (\<open>main\<close>, one definition per case of its
    \<open>switch\<close>). \<open>fsd_platform.c\<close> and \<open>power.c\<close>: \<open>Fsd_Platform\<close>. The whole daemon: \<open>Fsd_Frame\<close>, \<open>Fsd_Run\<close>.
  \<^item> \<open>ccci_rpcd.c\<close>, its header and platform files: \<open>Rpcd\<close> (the program), \<open>Rpcd_Serve\<close> (a request and its answer),
    \<open>Rpcd_Slots\<close> (requests in several packets).
  \<^item> \<open>libstorage_otp\<close>: \<open>Otp_Storage\<close> (\<open>storage_otp.c\<close>, \<open>emmc.cpp\<close>, \<open>ufs.cpp\<close>), \<open>Otp_Device\<close> (its correctness, for
    both back ends by interpretations of the locale \<open>otp_backend\<close>), \<open>Fsd_Otp\<close> (linked into \<open>ccci_fsd\<close>).
  \<^item> \<open>ccci_lib.c\<close>: \<open>Ccb_Ring\<close> and \<open>Ccb_Queue\<close> (rings), \<open>Ccci_Image\<close> and \<open>Ccci_Partition\<close> (images and settings, with
    \<open>ccci_lib_platform.c\<close>).
  \<^item> \<open>ccci_mdinit_src\<close>: \<open>Mdinit_Env\<close> (\<open>env_setting.c\<close>), \<open>Mdinit_Setup\<close> (\<open>main.c\<close>, \<open>ccci_support_utils.c\<close>,
    \<open>ccci_legacy.c\<close>, \<open>magic_pattern.c\<close>, \<open>time_clib_srv.c\<close>), \<open>Mdinit_Relate\<close> (\<open>mdinit_relate.c\<close>,
    \<open>mdinit_platform.c\<close>), \<open>Mdinit_Fsm\<close> (\<open>md_init_fsm.c\<close>, the message loop for the second version of the driver),
    \<open>Mdinit_V1\<close> (\<open>md_init.c\<close>, the one for the first version); \<open>Mdinit_Frame\<close>, \<open>Mdinit_Run\<close>, \<open>Mdinit_V1_Run\<close> and
    \<open>Mdinit_Settings\<close> prove what holds of them.

  \<^bold>\<open>What is proved.\<close>

  \<^item> \<^emph>\<open>Whole programs.\<close> The reachable states of both daemons are inductive predicates (\<open>fsd_reach\<close>, \<open>mdinit_reach\<close>, \<open>v1_reach\<close>) over
    turns of the main loop; in \<open>ccci_fsd\<close> signals, the status thread and changes of the world come between them. Invariants: handle
    table, reassembly slots and argument table of \<open>ccci_fsd\<close>; agreement of \<open>ccci_mdinit\<close>'s state with the property
    it publishes. Each message loop of \<open>ccci_mdinit\<close> refines an abstract state machine of the modem
    (\<open>fsm_next\<close>, \<open>v1_next\<close>).
  \<^item> \<^emph>\<open>Data structures.\<close> The handle table refines a finite map; a ring refines a first-in first-out queue of
    byte strings; the receive slots of \<open>ccci_rpcd\<close> refine lists of bytes that packets are appended to; a device
    opened by the OTP library is well formed.
  \<^item> \<^emph>\<open>Round trips.\<close> Answers cut into packets and put together again, names to 16 bits and back, OTP bytes written
    and read (through the library alone and through \<open>ccci_fsd\<close>), an image from its partition to a file.
  \<^item> \<^emph>\<open>Confinement.\<close> Which paths can be opened or deleted, which bytes of the OTP partition a write can change,
    that parsed arguments lie inside their slot, that allocation in a ring never returns a page in use.
  \<^item> \<^emph>\<open>Answers.\<close> What a modem gets for a request, errors included: unknown operations, bad handles, compound file
    operations, property queries and the operations of the customer's library.
  \<^item> \<^emph>\<open>Parsers and matchers\<close> against reference definitions: wildcards, numbers, settings of the kernel.
  \<^item> \<^emph>\<open>Composition.\<close> Below, the status that \<open>ccci_fsd\<close> reads is the state of \<open>ccci_mdinit\<close>, with the second
    version of the driver.

  Lemmas that no property uses, at the end of a theory, record where the code does less than its text suggests.

  \<^bold>\<open>Bounds and fuel.\<close> A loop that counts is a \<open>primrec\<close> over what it counts. A loop whose end depends on the
  environment takes fuel. Waiting for another process and asking the driver to start the modem, in \<open>ccci_mdinit\<close>,
  take a number of attempts, after which \<open>stuck\<close> is set; the theorems hold for every number. Reading a directory
  takes \<open>width\<close> entries, after which \<open>hung\<close> is set. For the other loops it is stated how much is enough: recursion
  into directories needs no more than \<open>PATH_MAX\<close> levels (\<open>RecursiveDelete_terminates\<close>), the search for an image as
  many rounds as the partition has images, the copy of an image as many as it has bytes, the repetition of a
  \<open>write\<close> one more than it is interrupted. The search does not end on every partition; that is a lemma of
  \<open>Ccci_Partition\<close>. The theorems about \<open>ccci_rpcd\<close> give its receive loop one
  read per packet. The loops over requests are modelled one turn at a time and iterated by the reachability relations.

  \<^bold>\<open>Not modelled.\<close> In \<open>ccci_mdinit\<close>: logging; functions that nothing calls. A turn of a loop
  and an operation on a ring are single steps: the modem's accesses to shared memory, and the threads of a
  daemon, take effect between them. Other programs of the repository share no state with these: the NVRAM
  daemon and libraries, exception reporting, audio, power and thermal management, memory
  and profiling libraries, the OpenCL loader, sensors, wireless, \<open>netdagent\<close>; most are wrappers of drivers, C++
  classes, or third-party code.
\<close>

section \<open>The status property, from one daemon to the other\<close>

text \<open>
  A property service as far as one property is concerned: \<open>lookup\<close> reads it from the world, writing it
  replaces its value, no other request of the daemon changes it, and reading it returns its value and
  length.
\<close>

definition serves_property :: "'w os \<Rightarrow> ('w \<Rightarrow> string option) \<Rightarrow> string \<Rightarrow> bool" where
  "serves_property os lookup k \<longleftrightarrow>
     (\<forall>w v. lookup (snd (os (Sys_property_set k v) w)) = Some v) \<and>
     (\<forall>w q. (\<forall>v. q \<noteq> Sys_property_set k v) \<longrightarrow> lookup (snd (os q w)) = lookup w) \<and>
     (\<forall>w v. lookup w = Some v \<longrightarrow> r_name (fst (os (Sys_property_get k) w)) = Some v \<and>
        r_ret (fst (os (Sys_property_get k) w)) = of_nat (length v))"

lemma lookup_after:
  assumes "serves_property os lookup k"
  shows "lookup (after os qs w) = (case last_set k qs of Some v \<Rightarrow> Some v | None \<Rightarrow> lookup w)"
proof (induction qs arbitrary: w)
  case (Cons q qs)
  show ?case
  proof (cases "\<exists>v. q = Sys_property_set k v")
    case True
    then show ?thesis using Cons assms by (auto simp: serves_property_def split: option.splits)
  next
    case False
    then have "lookup (snd (os q w)) = lookup w" using assms by (auto simp: serves_property_def)
    moreover have "last_set k (q # qs) = last_set k qs" using False by (auto split: option.splits sysreq.splits)
    ultimately show ?thesis using Cons [of "snd (os q w)"] by (simp only: after_simps)
  qed
qed simp

lemma reach_acted: "mdinit_reach os fuel fd bc md s \<Longrightarrow> \<exists>w. acted os (\<lambda>_. True) (boot_state w) s"
proof (induction rule: mdinit_reach.induct)
  case started
  then show ?case
    using acted_trans [OF frameD [OF everything.prepare] frameD [OF everything.start_up]] by blast
next
  case turn
  then show ?case using acted_trans frameD [OF everything.turn] by blast
qed

lemma decode_status_name: "settled st \<Longrightarrow> decode_status (status_name st) = st"
  by (auto simp: settled_def decode_status_def status_name_def)

lemma same_status_property: "md \<in> {0, 1, 2} \<Longrightarrow> status_property (unat md) = md_status_key md"
proof -
  have "status_property (unat (0 :: s32)) = md_status_key 0" "status_property (unat (1 :: s32)) = md_status_key 1"
    "status_property (unat (2 :: s32)) = md_status_key 2"
    by code_simp+
  then show "md \<in> {0, 1, 2} \<Longrightarrow> ?thesis" by auto
qed

lemma status_name_positive: "\<not> of_nat (length (status_name st)) \<le>s (0 :: s32)"
  by (simp add: status_name_def word_sle_eq)

text \<open>C9: the file-system daemon learns the state of the start-up daemon: whenever \<open>ccci_mdinit\<close> waits for a message,
  \<open>get_modem_status\<close> of the FSD of that modem returns exactly the state the start-up daemon is in, for
  every property service that keeps what is written to the modem's status property.\<close>

theorem fsd_reads_mdinit_status:
  assumes "mdinit_reach os fuel fd bc md s" "serves_property os lookup (md_status_key md)"
    and "world f = world s" "md_id f = md"
  shows "fst (run_state (get_modem_status os) f) = md_ctl_fsm_curr_state s"
proof -
  let ?st = "md_ctl_fsm_curr_state s"
  have idle: "idle md s" by (rule reach_idle [OF assms(1)])
  then have st: "settled ?st" "last_set (md_status_key md) (trace s) = Some (status_name ?st)" "md \<in> {0, 1, 2}"
    by (auto simp: idle_def fsm_inv_def published_def serves_def)
  obtain w where "world s = after os (trace s) w"
    using reach_acted [OF assms(1)] by (auto simp: acted_def boot_state_def)
  then have "lookup (world f) = Some (status_name ?st)"
    using lookup_after [OF assms(2), of "trace s" w] st(2) assms(3) by simp
  then have "r_name (fst (os (Sys_property_get (md_status_key md)) (world f))) = Some (status_name ?st) \<and>
      r_ret (fst (os (Sys_property_get (md_status_key md)) (world f))) = of_nat (length (status_name ?st))"
    using assms(2) by (simp add: serves_property_def)
  then show ?thesis
    using decode_status_name [OF st(1)] same_status_property [OF st(3)] assms(4) status_name_positive [of ?st]
    by (cases "os (Sys_property_get (md_status_key md)) (world f)") (simp add: get_modem_status_def)
qed

lemma phone_serves: "serves_property phone_os (\<lambda>w. w) (md_status_key 0)"
  by (auto simp: serves_property_def phone_os_def phone_status_def phone_answer_def split: sysreq.splits)

theorem fsd_reads_mdinit_status_witness:
  "fst (run_state (get_modem_status phone_os) (idle_fsd (world phone_started))) = md_ctl_fsm_curr_state phone_started"
  by (rule fsd_reads_mdinit_status [OF phone_reach phone_serves]) (simp_all add: idle_fsd_def)

end
